(* ===== verification/Prelude.thy ===== *)
theory Prelude
  imports Main "HOL-Library.Char_ord" "HOL-Library.List_Lexorder" "HOL-Library.Sublist"
begin

text \<open>
  Shared vocabulary of the development: byte strings and the C character classes the
  sources use (\<open>isspace\<close>, \<open>isdigit\<close>, \<open>isalnum\<close>, \<open>toupper\<close> in the C locale), the decimal
  rendering behind \<open>std::to_string\<close>, first-occurrence search as \<open>std::string::find\<close> does it,
  and the generic list facts every component proof leans on.

  A C++ \<open>std::string\<close> is a list of 8-bit characters, which is exactly \<^typ>\<open>string\<close>.
\<close>

named_theorems char_class \<open>definitions of the C character classes\<close>
named_theorems region_simps \<open>facts on how a scanner splits its input\<close>
named_theorems pool_step_simps \<open>definitions of the connection pool's critical sections\<close>

section \<open>Characters\<close>

abbreviation char_code :: "char \<Rightarrow> nat" where
  "char_code c \<equiv> of_char c"

definition is_space :: "char \<Rightarrow> bool" where
  [char_class]: "is_space c \<longleftrightarrow> char_code c = 32 \<or> (9 \<le> char_code c \<and> char_code c \<le> 13)"

definition is_digit :: "char \<Rightarrow> bool" where
  [char_class]: "is_digit c \<longleftrightarrow> 48 \<le> char_code c \<and> char_code c \<le> 57"

definition is_upper :: "char \<Rightarrow> bool" where
  [char_class]: "is_upper c \<longleftrightarrow> 65 \<le> char_code c \<and> char_code c \<le> 90"

definition is_lower :: "char \<Rightarrow> bool" where
  [char_class]: "is_lower c \<longleftrightarrow> 97 \<le> char_code c \<and> char_code c \<le> 122"

definition is_alpha :: "char \<Rightarrow> bool" where
  [char_class]: "is_alpha c \<longleftrightarrow> is_upper c \<or> is_lower c"

definition is_alnum :: "char \<Rightarrow> bool" where
  [char_class]: "is_alnum c \<longleftrightarrow> is_alpha c \<or> is_digit c"

definition is_xdigit :: "char \<Rightarrow> bool" where
  [char_class]: "is_xdigit c \<longleftrightarrow> is_digit c \<or> (65 \<le> char_code c \<and> char_code c \<le> 70) \<or>
     (97 \<le> char_code c \<and> char_code c \<le> 102)"

definition to_upper :: "char \<Rightarrow> char" where
  "to_upper c = (if is_lower c then char_of (char_code c - 32) else c)"

definition upper :: "string \<Rightarrow> string" where
  "upper s = map to_upper s"

abbreviation newline :: char where "newline \<equiv> CHR 0x0A"
abbreviation squote :: char where "squote \<equiv> CHR 0x27"
abbreviation dquote :: char where "dquote \<equiv> CHR 0x22"
abbreviation backtick :: char where "backtick \<equiv> CHR 0x60"
abbreviation backslash :: char where "backslash \<equiv> CHR 0x5C"
abbreviation space :: char where "space \<equiv> CHR 0x20"

definition spaces :: "nat \<Rightarrow> string" where
  "spaces n = replicate n space"

lemma length_spaces [simp]: "length (spaces n) = n"
  by (simp add: spaces_def)

lemma set_spaces: "c \<in> set (spaces n) \<Longrightarrow> c = space"
  by (simp add: spaces_def)

section \<open>Decimal rendering\<close>

definition digit_char :: "nat \<Rightarrow> char" where
  "digit_char d = char_of (48 + d)"

fun nat_to_string :: "nat \<Rightarrow> string" where
  "nat_to_string n =
     (if n < 10 then [digit_char n] else nat_to_string (n div 10) @ [digit_char (n mod 10)])"

declare nat_to_string.simps [simp del]

definition int_to_string :: "int \<Rightarrow> string" where
  "int_to_string i = (if i < 0 then CHR ''-'' # nat_to_string (nat (- i)) else nat_to_string (nat i))"

definition digit_val :: "char \<Rightarrow> nat" where
  "digit_val c = char_code c - 48"

definition digits_val :: "string \<Rightarrow> nat" where
  "digits_val s = foldl (\<lambda>v c. v * 10 + digit_val c) 0 s"

lemma is_digit_digit_char [simp]: "d < 10 \<Longrightarrow> is_digit (digit_char d)"
  by (simp add: is_digit_def digit_char_def)

lemma digit_val_digit_char [simp]: "d < 10 \<Longrightarrow> digit_val (digit_char d) = d"
  by (simp add: digit_val_def digit_char_def)

lemma digits_val_snoc [simp]: "digits_val (s @ [c]) = digits_val s * 10 + digit_val c"
  by (simp add: digits_val_def)

lemma nat_to_string_digits: "\<forall>c\<in>set (nat_to_string n). is_digit c"
  by (induction n rule: nat_to_string.induct) (subst nat_to_string.simps, auto)

lemma nat_to_string_nonempty [simp]: "nat_to_string n \<noteq> []"
  by (subst nat_to_string.simps) simp

lemma digits_val_nat_to_string [simp]: "digits_val (nat_to_string n) = n"
proof (induction n rule: nat_to_string.induct)
  case (1 n)
  show ?case
  proof (cases "n < 10")
    case True
    then show ?thesis by (subst nat_to_string.simps) (simp add: digits_val_def)
  next
    case False
    with 1 have "digits_val (nat_to_string (n div 10)) = n div 10" by simp
    with False show ?thesis by (subst nat_to_string.simps) simp
  qed
qed

lemma nat_to_string_inj: "nat_to_string m = nat_to_string n \<Longrightarrow> m = n"
  by (metis digits_val_nat_to_string)

text \<open>A decimal number followed by anything that does not start with a digit is read back
  uniquely: the fact behind every length-prefixed encoding in the sources.\<close>

lemma takeWhile_digits:
  assumes "r = [] \<or> \<not> is_digit (hd r)"
  shows "takeWhile is_digit (nat_to_string n @ r) = nat_to_string n"
proof -
  have "takeWhile is_digit (nat_to_string n @ r) = nat_to_string n @ takeWhile is_digit r"
    using nat_to_string_digits by (intro takeWhile_append2) auto
  with assms show ?thesis by (cases r) auto
qed

lemma nat_to_string_append_inj:
  assumes "nat_to_string m @ r = nat_to_string n @ r'"
    and "r = [] \<or> \<not> is_digit (hd r)" and "r' = [] \<or> \<not> is_digit (hd r')"
  shows "m = n \<and> r = r'"
proof -
  from assms have "nat_to_string m = nat_to_string n"
    by (metis takeWhile_digits)
  with assms(1) show ?thesis by (auto dest: nat_to_string_inj)
qed

lemma minus_not_digit [simp]: "\<not> is_digit (CHR ''-'')"
  by (simp add: is_digit_def)

lemma nat_to_string_Cons_digit: "nat_to_string n = c # cs \<Longrightarrow> is_digit c"
  using nat_to_string_digits [of n] by auto

lemma int_to_string_append_inj:
  assumes eq: "int_to_string i @ r = int_to_string j @ r'"
    and r: "r = [] \<or> \<not> is_digit (hd r)" "r' = [] \<or> \<not> is_digit (hd r')"
  shows "i = j \<and> r = r'"
proof -
  have dig: "nat_to_string n @ x \<noteq> CHR ''-'' # y" for n x y
    by (cases "nat_to_string n") (auto dest: nat_to_string_Cons_digit)
  show ?thesis
  proof (cases "i < 0"; cases "j < 0")
    assume "i < 0" "j < 0"
    with eq have "nat_to_string (nat (- i)) @ r = nat_to_string (nat (- j)) @ r'"
      by (simp add: int_to_string_def)
    from nat_to_string_append_inj [OF this r] \<open>i < 0\<close> \<open>j < 0\<close> show ?thesis by auto
  next
    assume "i < 0" "\<not> j < 0"
    with eq dig show ?thesis by (auto simp: int_to_string_def dest: sym)
  next
    assume "\<not> i < 0" "j < 0"
    with eq dig show ?thesis by (auto simp: int_to_string_def)
  next
    assume "\<not> i < 0" "\<not> j < 0"
    with eq have "nat_to_string (nat i) @ r = nat_to_string (nat j) @ r'"
      by (simp add: int_to_string_def)
    from nat_to_string_append_inj [OF this r] \<open>\<not> i < 0\<close> \<open>\<not> j < 0\<close> show ?thesis by auto
  qed
qed

section \<open>Searching and splitting strings\<close>

text \<open>\<open>break_on pat s\<close> is what \<open>s.find(pat)\<close> followed by taking the text before and after the
  first occurrence computes; \<^const>\<open>None\<close> is \<open>npos\<close>.\<close>

fun break_on :: "string \<Rightarrow> string \<Rightarrow> (string \<times> string) option" where
  "break_on pat [] = (if pat = [] then Some ([], []) else None)"
| "break_on pat (c # cs) =
     (if prefix pat (c # cs) then Some ([], drop (length pat) (c # cs))
      else map_option (\<lambda>(a, b). (c # a, b)) (break_on pat cs))"

lemma break_on_Some [region_simps]: "break_on pat s = Some (a, b) \<Longrightarrow> s = a @ pat @ b"
proof (induction s arbitrary: a b)
  case Nil
  then show ?case by (simp split: if_splits)
next
  case (Cons c cs)
  then show ?case by (auto split: if_splits simp: prefix_def)
qed

lemma break_on_length: "break_on pat s = Some (a, b) \<Longrightarrow> length s = length a + length pat + length b"
  by (drule break_on_Some) simp

definition contains :: "string \<Rightarrow> string \<Rightarrow> bool" where
  "contains pat s \<longleftrightarrow> break_on pat s \<noteq> None"

section \<open>Joining with a separator\<close>

fun join :: "string \<Rightarrow> string list \<Rightarrow> string" where
  "join sep [] = []"
| "join sep [x] = x"
| "join sep (x # y # ys) = x @ sep @ join sep (y # ys)"

lemma join_Cons: "join sep (x # xs) = x @ (if xs = [] then [] else sep @ join sep xs)"
  by (cases xs) auto

section \<open>Transition systems\<close>

inductive reachable :: "('s \<Rightarrow> bool) \<Rightarrow> ('s \<Rightarrow> 's \<Rightarrow> bool) \<Rightarrow> 's \<Rightarrow> bool" for init step where
  reach_init: "init s \<Longrightarrow> reachable init step s"
| reach_step: "reachable init step s \<Longrightarrow> step s t \<Longrightarrow> reachable init step t"

text \<open>The interface by which a component shows an invariant of its steps and its clients use it
  for every reachable state.\<close>

locale invariant_system =
  fixes init :: "'s \<Rightarrow> bool" and step :: "'s \<Rightarrow> 's \<Rightarrow> bool" and inv :: "'s \<Rightarrow> bool"
  assumes init_inv: "init s \<Longrightarrow> inv s"
    and step_inv: "inv s \<Longrightarrow> step s t \<Longrightarrow> inv t"
begin

lemma reachable_inv: "reachable init step s \<Longrightarrow> inv s"
  by (induction rule: reachable.induct) (auto intro: init_inv step_inv)

lemma steps_inv: "step\<^sup>*\<^sup>* s t \<Longrightarrow> inv s \<Longrightarrow> inv t"
  by (induction rule: rtranclp_induct) (auto intro: step_inv)

end

end
