(* ===== verification/Types.thy ===== *)
theory Types
  imports Prelude "HOL-Library.Word"
begin

text \<open>
  The data model of \<open>include/sqlconduit/common/types.h\<close> and \<open>src/common/types.cpp\<close>: error codes
  and statuses, the SQL value variant, rows and result sets, and the pure functions on them
  (literal escaping, identifier quoting, rendering, type signatures, generated keys).

  64-bit integers are \<open>64 word\<close>, read with \<^const>\<open>sint\<close> or \<^const>\<open>uint\<close>; a \<open>double\<close> is the
  64-bit pattern it is stored as; a time point is the count of its clock, signed 64 bits. What
  the C++ standard library prints for a \<open>double\<close> with 17 digits, and for a time point in the
  local time zone, are parameters, collected in \<open>render_env\<close>.
\<close>

unbundle bit_operations_syntax

type_synonym i64 = "64 word"
type_synonym u64 = "64 word"
type_synonym blob = "8 word list"

section \<open>Errors and statuses\<close>

datatype error_code =
  Ok | ConfigError | ConnectionFailed | QueryError | QueryTimeout | Cancelled
| ConstraintViolation | Deadlock | PingFailed | TxError | PoolExhausted | PoolClosed
| CircuitOpen | NotConnected | DriverDisabled | UnknownDriver | NotSupported | RateLimited
| SqlBlocked | Buffered | CursorClosed | CursorLimit | CursorError | Unknown | Overloaded
| MappingError | IoError | NotInitialized | AlreadyInitialized | ClientClosed

fun errorCodeToString :: "error_code \<Rightarrow> string" where
  "errorCodeToString Ok = ''Ok''"
| "errorCodeToString ConfigError = ''ConfigError''"
| "errorCodeToString ConnectionFailed = ''ConnectionFailed''"
| "errorCodeToString QueryError = ''QueryError''"
| "errorCodeToString QueryTimeout = ''QueryTimeout''"
| "errorCodeToString Cancelled = ''Cancelled''"
| "errorCodeToString ConstraintViolation = ''ConstraintViolation''"
| "errorCodeToString Deadlock = ''Deadlock''"
| "errorCodeToString PingFailed = ''PingFailed''"
| "errorCodeToString TxError = ''TxError''"
| "errorCodeToString PoolExhausted = ''PoolExhausted''"
| "errorCodeToString PoolClosed = ''PoolClosed''"
| "errorCodeToString CircuitOpen = ''CircuitOpen''"
| "errorCodeToString NotConnected = ''NotConnected''"
| "errorCodeToString DriverDisabled = ''DriverDisabled''"
| "errorCodeToString UnknownDriver = ''UnknownDriver''"
| "errorCodeToString NotSupported = ''NotSupported''"
| "errorCodeToString RateLimited = ''RateLimited''"
| "errorCodeToString SqlBlocked = ''SqlBlocked''"
| "errorCodeToString Buffered = ''Buffered''"
| "errorCodeToString CursorClosed = ''CursorClosed''"
| "errorCodeToString CursorLimit = ''CursorLimit''"
| "errorCodeToString CursorError = ''CursorError''"
| "errorCodeToString Unknown = ''Unknown''"
| "errorCodeToString Overloaded = ''Overloaded''"
| "errorCodeToString MappingError = ''MappingError''"
| "errorCodeToString IoError = ''IoError''"
| "errorCodeToString NotInitialized = ''NotInitialized''"
| "errorCodeToString AlreadyInitialized = ''AlreadyInitialized''"
| "errorCodeToString ClientClosed = ''ClientClosed''"

record status =
  code :: error_code
  message :: string
  sqlState :: string
  nativeCode :: i64
  retryable :: bool
  connectionBroken :: bool

definition status_ok :: "status \<Rightarrow> bool" where
  "status_ok s \<longleftrightarrow> code s = Ok"

definition status_OK :: status where
  "status_OK = \<lparr>code = Ok, message = [], sqlState = [], nativeCode = 0,
     retryable = False, connectionBroken = False\<rparr>"

definition status_error :: "error_code \<Rightarrow> string \<Rightarrow> status" where
  "status_error c msg = status_OK\<lparr>code := c, message := msg\<rparr>"

text \<open>The operations observers and auditors are told about.\<close>

datatype operation_type =
  OpQuery | OpExecute | OpBegin | OpCommit | OpRollback | OpCancel | OpStream | OpBatch
| OpSavepoint | OpSelect | OpRoutine

definition sqlClass :: "string \<Rightarrow> string" where
  "sqlClass state = (if 2 \<le> length state then take 2 state else [])"

definition databaseError :: "error_code \<Rightarrow> string \<Rightarrow> string \<Rightarrow> i64 \<Rightarrow> status" where
  "databaseError fallback msg state vendorCode =
     (let s = (status_error fallback msg)\<lparr>sqlState := state, nativeCode := vendorCode\<rparr>
      in if state = ''HYT00'' \<or> state = ''HYT01'' then s\<lparr>code := QueryTimeout, retryable := True\<rparr>
         else if state = ''57014'' then
           (if contains ''timeout'' msg then s\<lparr>code := QueryTimeout, retryable := True\<rparr>
            else s\<lparr>code := Cancelled\<rparr>)
         else if state = ''HY008'' then s\<lparr>code := Cancelled\<rparr>
         else if state = ''40001'' \<or> state = ''40P01'' \<or> sqlClass state = ''40'' then
           s\<lparr>code := Deadlock, retryable := True\<rparr>
         else if sqlClass state = ''23'' then s\<lparr>code := ConstraintViolation\<rparr>
         else if sqlClass state = ''08'' then
           (if fallback = QueryError \<or> fallback = TxError
            then s\<lparr>connectionBroken := True, retryable := True, code := ConnectionFailed\<rparr>
            else s\<lparr>connectionBroken := True, retryable := True\<rparr>)
         else s)"

section \<open>Values\<close>

datatype val =
  VNull | VBool bool | VInt i64 | VUInt u64 | VDouble "64 word" | VDecimal string | VString string
| VDate string | VTime string | VTimestamp i64 | VUuid string | VJson string | VBlob blob
| VIntervalYM string | VIntervalDS string | VArray "val list" | VComposite "(string \<times> val) list"
| VTypedArray string "val list" | VTypedComposite string "(string \<times> val) list"

type_synonym params = "val list"

definition composite_find :: "(string \<times> val) list \<Rightarrow> string \<Rightarrow> val option" where
  "composite_find fs name = map_of fs name"

section \<open>Rows and result sets\<close>

text \<open>A row is a \<open>std::map\<close>: its bindings in increasing key order.\<close>

type_synonym row = "(string \<times> val) list"

fun row_set :: "string \<Rightarrow> val \<Rightarrow> row \<Rightarrow> row" where
  "row_set col v [] = [(col, v)]"
| "row_set col v ((k, w) # r) =
     (if col < k then (col, v) # (k, w) # r
      else if col = k then (k, v) # r else (k, w) # row_set col v r)"

definition row_has :: "row \<Rightarrow> string \<Rightarrow> bool" where
  "row_has r col \<longleftrightarrow> map_of r col \<noteq> None"

definition row_at :: "row \<Rightarrow> string \<Rightarrow> val" where
  "row_at r col = (case map_of r col of None \<Rightarrow> VNull | Some v \<Rightarrow> v)"

record result_set =
  rs_fields :: "string list"
  rs_rows :: "row list"
  transformed :: bool

definition empty_rs :: result_set where
  "empty_rs = \<lparr>rs_fields = [], rs_rows = [], transformed = False\<rparr>"

section \<open>Rendering\<close>

record render_env =
  fmt_double :: "64 word \<Rightarrow> string"
  fmt_timestamp_ms :: "i64 \<Rightarrow> string"

definition is_finite_double :: "64 word \<Rightarrow> bool" where
  "is_finite_double w \<longleftrightarrow> (drop_bit 52 w) AND 2047 \<noteq> 2047"

definition hex_digit :: "8 word \<Rightarrow> char" where
  "hex_digit d = ''0123456789ABCDEF'' ! unat (d AND 15)"

definition hex_byte :: "8 word \<Rightarrow> string" where
  "hex_byte b = [hex_digit (drop_bit 4 b), hex_digit b]"

definition hex_string :: "blob \<Rightarrow> string" where
  "hex_string b = concat (map hex_byte b)"

text \<open>Doubling a quote character, as \<open>quoteText\<close> and \<open>quoteIdentifier\<close> do.\<close>

fun double_char :: "char \<Rightarrow> string \<Rightarrow> string" where
  "double_char q [] = []"
| "double_char q (c # cs) = (if c = q then q # q # double_char q cs else c # double_char q cs)"

definition quoteText :: "string \<Rightarrow> string" where
  "quoteText text = squote # double_char squote text @ [squote]"

definition quoteIdentifier :: "string \<Rightarrow> string" where
  "quoteIdentifier ident = dquote # double_char dquote ident @ [dquote]"

fun escapeLiteralGeneric :: "render_env \<Rightarrow> val \<Rightarrow> string"
  and escape_items :: "render_env \<Rightarrow> val list \<Rightarrow> string list"
  and escape_fields :: "render_env \<Rightarrow> (string \<times> val) list \<Rightarrow> string list" where
  "escapeLiteralGeneric env VNull = ''NULL''"
| "escapeLiteralGeneric env (VBool b) = (if b then ''TRUE'' else ''FALSE'')"
| "escapeLiteralGeneric env (VInt i) = int_to_string (sint i)"
| "escapeLiteralGeneric env (VUInt u) = nat_to_string (unat u)"
| "escapeLiteralGeneric env (VDouble d) = (if is_finite_double d then fmt_double env d else ''NULL'')"
| "escapeLiteralGeneric env (VTimestamp t) = squote # fmt_timestamp_ms env t @ [squote]"
| "escapeLiteralGeneric env (VDecimal s) = quoteText s"
| "escapeLiteralGeneric env (VDate s) = quoteText s"
| "escapeLiteralGeneric env (VTime s) = quoteText s"
| "escapeLiteralGeneric env (VUuid s) = quoteText s"
| "escapeLiteralGeneric env (VJson s) = quoteText s"
| "escapeLiteralGeneric env (VIntervalYM s) = quoteText s"
| "escapeLiteralGeneric env (VIntervalDS s) = quoteText s"
| "escapeLiteralGeneric env (VBlob b) = CHR ''X'' # squote # hex_string b @ [squote]"
| "escapeLiteralGeneric env (VArray items) = ''ARRAY['' @ join '', '' (escape_items env items) @ '']''"
| "escapeLiteralGeneric env (VComposite fs) = ''ROW('' @ join '', '' (escape_fields env fs) @ '')''"
| "escapeLiteralGeneric env (VTypedArray t items) = t @ ''('' @ join '', '' (escape_items env items) @ '')''"
| "escapeLiteralGeneric env (VTypedComposite t fs) = t @ ''('' @ join '', '' (escape_fields env fs) @ '')''"
| "escapeLiteralGeneric env (VString s) = quoteText s"
| "escape_items env [] = []"
| "escape_items env (v # vs) = escapeLiteralGeneric env v # escape_items env vs"
| "escape_fields env [] = []"
| "escape_fields env ((n, v) # fs) = escapeLiteralGeneric env v # escape_fields env fs"

fun valueToString :: "render_env \<Rightarrow> val \<Rightarrow> string"
  and show_items :: "render_env \<Rightarrow> val list \<Rightarrow> string list"
  and show_fields :: "render_env \<Rightarrow> (string \<times> val) list \<Rightarrow> string list" where
  "valueToString env VNull = ''NULL''"
| "valueToString env (VBool b) = (if b then ''true'' else ''false'')"
| "valueToString env (VInt i) = int_to_string (sint i)"
| "valueToString env (VUInt u) = nat_to_string (unat u)"
| "valueToString env (VDouble d) = fmt_double env d"
| "valueToString env (VDecimal s) = s"
| "valueToString env (VString s) = s"
| "valueToString env (VDate s) = s"
| "valueToString env (VTime s) = s"
| "valueToString env (VTimestamp t) = fmt_timestamp_ms env t"
| "valueToString env (VUuid s) = s"
| "valueToString env (VJson s) = s"
| "valueToString env (VIntervalYM s) = s"
| "valueToString env (VIntervalDS s) = s"
| "valueToString env (VBlob b) = ''blob['' @ nat_to_string (length b) @ '']:'' @
     hex_string (take 16 b) @ (if 16 < length b then ''...'' else [])"
| "valueToString env (VArray items) = ''['' @ join '', '' (show_items env items) @ '']''"
| "valueToString env (VComposite fs) = ''('' @ join '', '' (show_fields env fs) @ '')''"
| "valueToString env (VTypedArray t items) = t @ ''['' @ join '', '' (show_items env items) @ '']''"
| "valueToString env (VTypedComposite t fs) = t @ ''('' @ join '', '' (show_fields env fs) @ '')''"
| "show_items env [] = []"
| "show_items env (v # vs) = valueToString env v # show_items env vs"
| "show_fields env [] = []"
| "show_fields env ((n, v) # fs) = (n @ ''='' @ valueToString env v) # show_fields env fs"

fun type_tag :: "val \<Rightarrow> char" where
  "type_tag VNull = CHR ''n''"
| "type_tag (VBool _) = CHR ''b''"
| "type_tag (VInt _) = CHR ''i''"
| "type_tag (VUInt _) = CHR ''u''"
| "type_tag (VDouble _) = CHR ''d''"
| "type_tag (VDecimal _) = CHR ''m''"
| "type_tag (VString _) = CHR ''s''"
| "type_tag (VDate _) = CHR ''a''"
| "type_tag (VTime _) = CHR ''o''"
| "type_tag (VTimestamp _) = CHR ''t''"
| "type_tag (VUuid _) = CHR ''g''"
| "type_tag (VJson _) = CHR ''j''"
| "type_tag (VIntervalYM _) = CHR ''y''"
| "type_tag (VIntervalDS _) = CHR ''v''"
| "type_tag (VArray _) = CHR ''A''"
| "type_tag (VComposite _) = CHR ''C''"
| "type_tag (VTypedArray _ _) = CHR ''Y''"
| "type_tag (VTypedComposite _ _) = CHR ''O''"
| "type_tag (VBlob _) = CHR ''x''"

definition paramTypeSignature :: "params \<Rightarrow> string" where
  "paramTypeSignature ps = map type_tag ps"

section \<open>Generated keys\<close>

definition i64_min :: int where "i64_min = - (2 ^ 63)"
definition i64_max :: int where "i64_max = 2 ^ 63 - 1"

text \<open>\<open>std::stoll\<close>: white space, an optional sign, decimal digits; \<^const>\<open>None\<close> where it throws
  (no digits, or a value that does not fit).\<close>

definition stoll :: "string \<Rightarrow> int option" where
  "stoll s =
     (let t = dropWhile is_space s;
          neg = (t \<noteq> [] \<and> hd t = CHR ''-'');
          u = (if t \<noteq> [] \<and> (hd t = CHR ''-'' \<or> hd t = CHR ''+'') then tl t else t);
          ds = takeWhile is_digit u;
          v = (if neg then - int (digits_val ds) else int (digits_val ds))
      in if ds = [] \<or> v < i64_min \<or> i64_max < v then None else Some v)"

definition lastInsertId :: "result_set \<Rightarrow> int" where
  "lastInsertId rs =
     (case rs_rows rs of [] \<Rightarrow> 0
      | firstRow # _ \<Rightarrow>
        (case (case rs_fields rs of f # _ \<Rightarrow> Some f
               | [] \<Rightarrow> (case firstRow of [] \<Rightarrow> None | (k, _) # _ \<Rightarrow> Some k)) of
           None \<Rightarrow> 0
         | Some column \<Rightarrow>
           (case row_at firstRow column of
              VInt i \<Rightarrow> sint i
            | VUInt u \<Rightarrow> (if uint u \<le> i64_max then uint u else 0)
            | VString s \<Rightarrow> (case stoll s of None \<Rightarrow> 0 | Some v \<Rightarrow> v)
            | _ \<Rightarrow> 0)))"


section \<open>Status classification\<close>

lemma status_ok_OK [simp]: "status_ok status_OK"
  by (simp add: status_ok_def status_OK_def)

lemma status_error_fields [simp]:
  "code (status_error c m) = c" "message (status_error c m) = m" "retryable (status_error c m) = False"
  "connectionBroken (status_error c m) = False" "sqlState (status_error c m) = []" "status_ok (status_error c m) = (c = Ok)"
  by (simp_all add: status_error_def status_OK_def status_ok_def)

lemma sqlClass_literals:
  "sqlClass ''HYT00'' = ''HY''" "sqlClass ''HYT01'' = ''HY''" "sqlClass ''57014'' = ''57''"
  "sqlClass ''HY008'' = ''HY''" "sqlClass ''40001'' = ''40''" "sqlClass ''40P01'' = ''40''"
  by (simp_all add: sqlClass_def)

text \<open>Which SQLSTATEs a database error is retried on and which mark the connection as broken.
  The connection is broken exactly for class 08; a retry is allowed exactly for timeouts (HYT00,
  HYT01, or 57014 whose message names a timeout), class 40 (serialization failure, deadlock) and
  class 08. A class 08 error of a statement or transaction becomes \<open>ConnectionFailed\<close>, constraint
  violations are never retryable, and the state, vendor code and message are kept as given.\<close>

theorem databaseError_classification:
  "(connectionBroken (databaseError fb msg st vc) \<longleftrightarrow> sqlClass st = ''08'') \<and>
   (retryable (databaseError fb msg st vc) \<longleftrightarrow>
     st = ''HYT00'' \<or> st = ''HYT01'' \<or> (st = ''57014'' \<and> contains ''timeout'' msg) \<or>
     sqlClass st = ''40'' \<or> sqlClass st = ''08'') \<and>
   (sqlClass st = ''23'' \<longrightarrow> code (databaseError fb msg st vc) = ConstraintViolation) \<and>
   (sqlClass st = ''08'' \<and> (fb = QueryError \<or> fb = TxError) \<longrightarrow>
     code (databaseError fb msg st vc) = ConnectionFailed) \<and>
   sqlState (databaseError fb msg st vc) = st \<and> nativeCode (databaseError fb msg st vc) = vc \<and>
   message (databaseError fb msg st vc) = msg"
proof -
  note defs = databaseError_def Let_def status_error_def status_OK_def
  have "connectionBroken (databaseError fb msg st vc) \<longleftrightarrow> sqlClass st = ''08''"
    by (simp add: defs) (auto simp: sqlClass_literals)
  moreover have "retryable (databaseError fb msg st vc) \<longleftrightarrow>
     st = ''HYT00'' \<or> st = ''HYT01'' \<or> (st = ''57014'' \<and> contains ''timeout'' msg) \<or>
     sqlClass st = ''40'' \<or> sqlClass st = ''08''"
    by (simp add: defs) (auto simp: sqlClass_literals)
  moreover have "sqlClass st = ''23'' \<longrightarrow> code (databaseError fb msg st vc) = ConstraintViolation"
    by (simp add: defs) (auto simp: sqlClass_literals)
  moreover have "sqlClass st = ''08'' \<and> (fb = QueryError \<or> fb = TxError) \<longrightarrow>
     code (databaseError fb msg st vc) = ConnectionFailed"
    by (simp add: defs) (auto simp: sqlClass_literals)
  moreover have "sqlState (databaseError fb msg st vc) = st \<and>
      nativeCode (databaseError fb msg st vc) = vc \<and> message (databaseError fb msg st vc) = msg"
    by (simp add: defs)
  ultimately show ?thesis by blast
qed

theorem databaseError_classification_witness:
  "retryable (databaseError QueryError ''deadlock'' ''40P01'' 1213) \<and>
   code (databaseError QueryError ''dup'' ''23505'' 1062) = ConstraintViolation \<and>
   code (databaseError QueryError ''gone'' ''08S01'' 2006) = ConnectionFailed"
  using databaseError_classification [of QueryError "''deadlock''" "''40P01''" 1213]
    databaseError_classification [of QueryError "''dup''" "''23505''" 1062]
    databaseError_classification [of QueryError "''gone''" "''08S01''" 2006]
  by (simp add: sqlClass_def)

section \<open>Rows\<close>

definition row_sorted :: "row \<Rightarrow> bool" where
  "row_sorted r \<longleftrightarrow> sorted_wrt (<) (map fst r)"

lemma set_row_set: "set (map fst (row_set col v r)) = insert col (set (map fst r))"
  by (induction col v r rule: row_set.induct) auto

lemma row_sorted_row_set: "row_sorted r \<Longrightarrow> row_sorted (row_set col v r)"
proof (induction col v r rule: row_set.induct)
  case (1 col v)
  then show ?case by (simp add: row_sorted_def)
next
  case (2 col v k w r)
  then show ?case
    using set_row_set [of col v r] by (auto simp: row_sorted_def)
qed

text \<open>Setting a column of a row keeps the columns in key order, makes the column read back as
  the value set, and changes no other column; a column never set reads as NULL.\<close>

theorem row_set_at:
  assumes "row_sorted r"
  shows "row_sorted (row_set col v r) \<and>
    row_at (row_set col v r) k = (if k = col then v else row_at r k) \<and>
    (row_has (row_set col v r) k \<longleftrightarrow> k = col \<or> row_has r k)"
proof -
  have "map_of (row_set col v r) k = (if k = col then Some v else map_of r k)"
    by (induction col v r rule: row_set.induct) auto
  then show ?thesis
    using row_sorted_row_set [OF assms] by (simp add: row_at_def row_has_def)
qed

theorem row_set_at_witness:
  "row_sorted (row_set ''b'' VNull (row_set ''a'' (VBool True) [])) \<and>
   row_at (row_set ''b'' VNull (row_set ''a'' (VBool True) [])) ''a'' = VBool True"
proof -
  have a: "row_sorted (row_set ''a'' (VBool True) [])" by (simp add: row_sorted_def)
  show ?thesis using row_set_at [OF a, of "''b''" VNull "''a''"] by (simp add: row_at_def)
qed

section \<open>Generated keys\<close>

lemma stoll_range: "stoll s = Some v \<Longrightarrow> i64_min \<le> v \<and> v \<le> i64_max"
  by (auto simp: stoll_def Let_def split: if_splits)

lemma sint_i64_range: "i64_min \<le> sint (w :: i64) \<and> sint w \<le> i64_max"
  using sint_range_size [of w] by (simp add: word_size i64_min_def i64_max_def)

text \<open>\<open>lastInsertId\<close> always returns a value of the signed 64-bit range, for every result set:
  an unsigned key above the range and a text that is no such number both give 0.\<close>

theorem lastInsertId_bounds: "i64_min \<le> lastInsertId rs \<and> lastInsertId rs \<le> i64_max"
proof -
  have zero: "i64_min \<le> 0" "0 \<le> i64_max" by (simp_all add: i64_min_def i64_max_def)
  have u: "i64_min \<le> uint (w :: u64)" for w
    using uint_lt_0 zero by (metis order_trans not_le uint_ge_0)
  show ?thesis
    unfolding lastInsertId_def
    by (auto split: list.splits option.splits val.splits prod.splits
        simp: zero u sint_i64_range dest: stoll_range)
qed

end
