(* ===== verification/Timestamp.thy ===== *)
theory Timestamp
  imports Types "HOL-Library.Monad_Syntax"
begin

text \<open>
  \<open>tryParseTimestamp\<close> of \<open>src/common/types.cpp\<close>: reading \<open>YYYY-MM-DD[ hh:mm:ss[.fff]][zone]\<close>.
  The position \<open>i\<close> of the source is the rest of the text here. With an explicit zone the seconds
  since the epoch come from an inlined day count over the proleptic Gregorian calendar
  (\<open>days_from_civil\<close>); without one they come from \<open>mktime\<close>, a parameter (it depends on the
  process's time zone). A time point is the number of nanoseconds since the epoch.

  Shown: the day count is 0 on 1970-01-01 and grows by exactly one from each valid date to the
  next, so it is the calendar; every accepted text denotes a valid date and time of day.
\<close>

section \<open>Reading fixed-width numbers\<close>

definition readInt :: "nat \<Rightarrow> string \<Rightarrow> (nat \<times> string) option" where
  "readInt width s =
     (if length s < width \<or> \<not> list_all is_digit (take width s) then None
      else Some (digits_val (take width s), drop width s))"

definition expect :: "char \<Rightarrow> string \<Rightarrow> string option" where
  "expect c s = (case s of [] \<Rightarrow> None | d # ds \<Rightarrow> if d = c then Some ds else None)"

record civil =
  c_year :: nat
  c_month :: nat
  c_day :: nat
  c_hour :: nat
  c_min :: nat
  c_sec :: nat

definition parseDate :: "string \<Rightarrow> (nat \<times> nat \<times> nat \<times> string) option" where
  "parseDate s = do {
     (y, s1) \<leftarrow> readInt 4 s; s2 \<leftarrow> expect (CHR ''-'') s1;
     (mo, s3) \<leftarrow> readInt 2 s2; s4 \<leftarrow> expect (CHR ''-'') s3;
     (d, s5) \<leftarrow> readInt 2 s4; Some (y, mo, d, s5) }"

definition parseTimeOfDay :: "string \<Rightarrow> (nat \<times> nat \<times> nat \<times> string) option" where
  "parseTimeOfDay s =
     (if s \<noteq> [] \<and> (hd s = space \<or> hd s = CHR ''T'') then do {
        (h, s1) \<leftarrow> readInt 2 (tl s); s2 \<leftarrow> expect (CHR '':'') s1;
        (mi, s3) \<leftarrow> readInt 2 s2; s4 \<leftarrow> expect (CHR '':'') s3;
        (se, s5) \<leftarrow> readInt 2 s4; Some (h, mi, se, s5) }
      else Some (0, 0, 0, s))"

text \<open>The fraction: at most nine digits count, further digits are skipped, fewer are padded.\<close>

definition parseFraction :: "string \<Rightarrow> nat \<times> string" where
  "parseFraction s =
     (if s \<noteq> [] \<and> hd s = CHR ''.'' then
        (let ds = takeWhile is_digit (tl s); kept = take 9 ds
         in (digits_val kept * 10 ^ (9 - length kept), dropWhile is_digit (tl s)))
      else (0, s))"

text \<open>The zone: explicit or not, its offset in seconds, the rest of the text.\<close>

definition parseZone :: "string \<Rightarrow> (bool \<times> int \<times> string) option" where
  "parseZone s =
     (case s of
        [] \<Rightarrow> Some (False, 0, [])
      | c # cs \<Rightarrow>
        if c = CHR ''Z'' \<or> c = CHR ''z'' then Some (True, 0, cs)
        else if c = CHR ''+'' \<or> c = CHR ''-'' then
          (case readInt 2 cs of
             None \<Rightarrow> None
           | Some (oh, r) \<Rightarrow>
             (let r1 = (if r \<noteq> [] \<and> hd r = CHR '':'' then tl r else r)
              in case (if r1 \<noteq> [] then readInt 2 r1 else Some (0, r1)) of
                   None \<Rightarrow> None
                 | Some (om, r2) \<Rightarrow>
                   if 23 < oh \<or> 59 < om then None
                   else Some (True, (if c = CHR ''+'' then 1 else -1) * int (oh * 3600 + om * 60), r2)))
        else Some (False, 0, s))"

section \<open>The calendar\<close>

definition leap :: "nat \<Rightarrow> bool" where
  "leap year \<longleftrightarrow> year mod 4 = 0 \<and> (year mod 100 \<noteq> 0 \<or> year mod 400 = 0)"

definition monthDays :: "nat list" where
  "monthDays = [31, 28, 31, 30, 31, 30, 31, 31, 30, 31, 30, 31]"

definition days_in_month :: "nat \<Rightarrow> nat \<Rightarrow> nat" where
  "days_in_month y mo = monthDays ! (mo - 1) + (if mo = 2 \<and> leap y then 1 else 0)"

definition valid_date :: "nat \<Rightarrow> nat \<Rightarrow> nat \<Rightarrow> bool" where
  "valid_date y mo d \<longleftrightarrow> 1 \<le> mo \<and> mo \<le> 12 \<and> 1 \<le> d \<and> d \<le> days_in_month y mo"

definition valid_civil :: "civil \<Rightarrow> bool" where
  "valid_civil t \<longleftrightarrow> valid_date (c_year t) (c_month t) (c_day t) \<and>
     c_hour t \<le> 23 \<and> c_min t \<le> 59 \<and> c_sec t \<le> 59 \<and> 1900 \<le> c_year t"

text \<open>The day number. The year is at least 1900 where the source computes it, so the era is not
  negative and the branch for negative years is never taken; unsigned arithmetic does not wrap.\<close>

definition days_from_civil :: "nat \<Rightarrow> nat \<Rightarrow> nat \<Rightarrow> int" where
  "days_from_civil y mo d =
     (let civilYear = int y - (if mo \<le> 2 then 1 else 0);
          era = civilYear div 400;
          yoe = civilYear - era * 400;
          shiftedMonth = int (if mo > 2 then mo - 3 else mo + 9);
          doy = (153 * shiftedMonth + 2) div 5 + int d - 1;
          doe = yoe * 365 + yoe div 4 - yoe div 100 + doy
      in era * 146097 + doe - 719468)"

definition utc_seconds :: "civil \<Rightarrow> int \<Rightarrow> int" where
  "utc_seconds t offsetSeconds = days_from_civil (c_year t) (c_month t) (c_day t) * 86400
     + int (c_hour t) * 3600 + int (c_min t) * 60 + int (c_sec t) - offsetSeconds"

definition tryParseTimestamp :: "(civil \<Rightarrow> int option) \<Rightarrow> string \<Rightarrow> int option" where
  "tryParseTimestamp mktime s = do {
     (y, mo, d, s1) \<leftarrow> parseDate s;
     (h, mi, se, s2) \<leftarrow> parseTimeOfDay s1;
     let (fracNs, s3) = parseFraction s2;
     (hasExplicitZone, offsetSeconds, s4) \<leftarrow> parseZone s3;
     let t = \<lparr>c_year = y, c_month = mo, c_day = d, c_hour = h, c_min = mi, c_sec = se\<rparr>;
     if s4 \<noteq> [] then None
     else if \<not> valid_civil t then None
     else if hasExplicitZone then Some (utc_seconds t offsetSeconds * 1000000000 + int fracNs)
     else map_option (\<lambda>secs. secs * 1000000000 + int fracNs) (mktime t) }"

section \<open>The day count is the calendar\<close>

definition next_day :: "nat \<times> nat \<times> nat \<Rightarrow> nat \<times> nat \<times> nat" where
  "next_day = (\<lambda>(y, mo, d).
     if d < days_in_month y mo then (y, mo, d + 1)
     else if mo < 12 then (y, mo + 1, 1) else (y + 1, 1, 1))"

lemma days_from_civil_same_month:
  "days_from_civil y mo (Suc d) = days_from_civil y mo d + 1"
  by (simp add: days_from_civil_def Let_def)

lemma days_from_civil_month_end:
  assumes "1 \<le> mo" "mo < 12" "mo \<noteq> 2"
  shows "days_from_civil y (mo + 1) 1 = days_from_civil y mo (days_in_month y mo) + 1"
proof -
  from assms have "mo = 1 \<or> mo = 3 \<or> mo = 4 \<or> mo = 5 \<or> mo = 6 \<or> mo = 7 \<or> mo = 8 \<or> mo = 9 \<or> mo = 10 \<or> mo = 11"
    by arith
  then show ?thesis
    by (elim disjE) (simp_all add: days_from_civil_def Let_def days_in_month_def monthDays_def)
qed

text \<open>The only month end that depends on the year: February into March. The days counted by a
  year of the era grow by 365 from each year to the next, and by 366 into a leap year.\<close>

definition year_start :: "int \<Rightarrow> int" where
  "year_start cy = cy div 400 * 146097 + ((cy mod 400) * 365 + (cy mod 400) div 4 - (cy mod 400) div 100)"

lemma year_start_era:
  "r < 400 \<Longrightarrow> year_start (int (400 * q + r)) =
     int q * 146097 + (int r * 365 + int r div 4 - int r div 100)"
  by (simp add: year_start_def)

lemma leap_count_step:
  fixes Y Y' e r a a' b b' :: int
  assumes "Y' = e + ((r + 1) * 365 + a' - b')" "Y = e + (r * 365 + a - b)"
    "a' = a + (if P then 1 else 0)" "b' = b + (if Q then 1 else 0)" "Q \<Longrightarrow> P" "L \<longleftrightarrow> P \<and> \<not> Q"
  shows "Y' = Y + 365 + (if L then 1 else 0)"
  using assms by (cases P; cases Q) simp_all

lemma year_start_Suc: "year_start (int (Suc z)) = year_start (int z) + 365 + (if leap (Suc z) then 1 else 0)"
proof -
  define q r where "q = z div 400" and "r = z mod 400"
  have z: "z = 400 * q + r" and r: "r < 400" by (simp_all add: q_def r_def)
  have lp: "leap (Suc z) \<longleftrightarrow> Suc r mod 4 = 0 \<and> (Suc r mod 100 \<noteq> 0 \<or> Suc r mod 400 = 0)"
  proof -
    have "Suc z = Suc r + 400 * q" "Suc z = Suc r + 100 * (4 * q)" "Suc z = Suc r + 4 * (100 * q)"
      using z by simp_all
    then have "Suc z mod 400 = Suc r mod 400" "Suc z mod 100 = Suc r mod 100" "Suc z mod 4 = Suc r mod 4"
      by (metis mod_mult_self2)+
    then show ?thesis by (simp add: leap_def)
  qed
  have d: "int (Suc r) div 4 = int r div 4 + (if Suc r mod 4 = 0 then 1 else 0)"
    "int (Suc r) div 100 = int r div 100 + (if Suc r mod 100 = 0 then 1 else 0)"
    using div_Suc [of r 4] div_Suc [of r 100]
    by (auto simp add: zdiv_int [of _ 4, simplified, symmetric] zdiv_int [of _ 100, simplified, symmetric]
        simp del: of_nat_Suc)
  show ?thesis
  proof (cases "Suc r = 400")
    case True
    then have "Suc z = 400 * Suc q" "r = 399" using z by simp_all
    with z lp show ?thesis by (simp add: year_start_def)
  next
    case False
    with r have "Suc r < 400" by simp
    then have "year_start (int (Suc z)) =
        int q * 146097 + (int (Suc r) * 365 + int (Suc r) div 4 - int (Suc r) div 100)"
      using year_start_era [of "Suc r" q] z by simp
    moreover have "leap (Suc z) \<longleftrightarrow> Suc r mod 4 = 0 \<and> Suc r mod 100 \<noteq> 0"
      using lp \<open>Suc r < 400\<close> by simp
    moreover have "Suc r mod 100 = 0 \<Longrightarrow> Suc r mod 4 = 0"
      using dvd_trans [of 4 100 "Suc r"] by (simp add: mod_eq_0_iff_dvd)
    ultimately show ?thesis
      using leap_count_step [OF _ year_start_era [OF r, of q, folded z] d(1) d(2)] by simp
  qed
qed

lemma year_start_pred: "year_start (int y) = year_start (int y - 1) + 365 + (if leap y then 1 else 0)"
proof (cases y)
  case 0
  then show ?thesis by (simp add: year_start_def leap_def)
next
  case (Suc z)
  then show ?thesis using year_start_Suc [of z] by simp
qed

lemma days_from_civil_alt:
  "days_from_civil y mo d = year_start (int y - (if mo \<le> 2 then 1 else 0)) +
     ((153 * int (if mo > 2 then mo - 3 else mo + 9) + 2) div 5 + int d - 1) - 719468"
proof -
  have "cy - cy div 400 * 400 = cy mod 400" for cy :: int by (simp add: minus_div_mult_eq_mod)
  then show ?thesis unfolding days_from_civil_def Let_def year_start_def by simp
qed

lemma days_from_civil_february:
  "days_from_civil y 3 1 = days_from_civil y 2 (days_in_month y 2) + 1"
  using year_start_pred [of y] by (simp add: days_from_civil_alt days_in_month_def monthDays_def)

lemma days_from_civil_year_end:
  "days_from_civil (y + 1) 1 1 = days_from_civil y 12 31 + 1"
  by (simp add: days_from_civil_def Let_def)

text \<open>The inlined day count of \<open>tryParseTimestamp\<close> is the Gregorian calendar: it is 0 on the
  first of January 1970, and from every valid date to the day after it, across month ends, leap
  days, year ends and centuries, it grows by exactly one.\<close>

theorem days_from_civil_calendar:
  "days_from_civil 1970 1 1 = 0 \<and>
   (valid_date y mo d \<longrightarrow>
     (case next_day (y, mo, d) of (y', mo', d') \<Rightarrow> days_from_civil y' mo' d') = days_from_civil y mo d + 1)"
proof (intro conjI impI)
  show "days_from_civil 1970 1 1 = 0" by (simp add: days_from_civil_def Let_def)
next
  assume v: "valid_date y mo d"
  show "(case next_day (y, mo, d) of (y', mo', d') \<Rightarrow> days_from_civil y' mo' d') = days_from_civil y mo d + 1"
  proof (cases "d < days_in_month y mo")
    case True
    then show ?thesis by (simp add: next_day_def days_from_civil_same_month)
  next
    case False
    with v have d: "d = days_in_month y mo" and mo: "1 \<le> mo" "mo \<le> 12"
      by (auto simp: valid_date_def)
    consider "mo = 2" | "mo \<noteq> 2" "mo < 12" | "mo = 12" using mo by linarith
    then show ?thesis
    proof cases
      case 1
      with d show ?thesis
        using days_from_civil_february [of y] by (simp add: next_day_def)
    next
      case 2
      with d mo days_from_civil_month_end [of mo y] show ?thesis by (simp add: next_day_def)
    next
      case 3
      with d days_from_civil_year_end [of y] show ?thesis
        by (simp add: next_day_def days_in_month_def monthDays_def)
    qed
  qed
qed

theorem days_from_civil_calendar_witness:
  "valid_date 2000 2 29 \<and> days_from_civil 2000 3 1 = days_from_civil 2000 2 29 + 1"
  using days_from_civil_calendar [of 2000 2 29]
  by (simp add: valid_date_def days_in_month_def monthDays_def leap_def next_day_def)

section \<open>Accepted texts\<close>

lemma parseFraction_bound: "fst (parseFraction s) < 10 ^ 9"
proof -
  have dv: "list_all is_digit ds \<Longrightarrow> digits_val ds < 10 ^ length ds" for ds
  proof (induction ds rule: rev_induct)
    case Nil
    then show ?case by (simp add: digits_val_def)
  next
    case (snoc c ds)
    then have "digit_val c < 10" by (auto simp: digit_val_def is_digit_def)
    with snoc show ?case by auto
  qed
  let ?kept = "take 9 (takeWhile is_digit (tl s))"
  have "list_all is_digit ?kept"
    by (auto simp: list_all_iff dest!: in_set_takeD set_takeWhileD)
  then have "digits_val ?kept < 10 ^ length ?kept" by (rule dv)
  then have "digits_val ?kept * 10 ^ (9 - length ?kept) < 10 ^ length ?kept * 10 ^ (9 - length ?kept)"
    by simp
  also have "\<dots> = 10 ^ 9" by (simp flip: power_add)
  finally show ?thesis by (simp add: parseFraction_def Let_def)
qed

text \<open>A text with an explicit zone is accepted only when it denotes a valid calendar date from
  1900 on and a valid time of day, and the result is then exactly the UTC second of that civil
  time, shifted by the zone's offset, plus a fraction below one second; the process's own time
  zone is not consulted.\<close>

theorem tryParseTimestamp_explicit:
  assumes "tryParseTimestamp mktime s = Some ns" and "mktime = (\<lambda>_. None)"
  shows "\<exists>t offset frac. valid_civil t \<and> \<bar>offset\<bar> < 24 * 3600 \<and> 0 \<le> frac \<and> frac < 10 ^ 9 \<and>
    ns = (days_from_civil (c_year t) (c_month t) (c_day t) * 86400 + int (c_hour t) * 3600
      + int (c_min t) * 60 + int (c_sec t) - offset) * 10 ^ 9 + frac \<and>
    (\<forall>mk. tryParseTimestamp mk s = Some ns)"
proof -
  have zone: "\<bar>offset\<bar> < 24 * 3600" if "parseZone r = Some (z, offset, r')" for r z offset r'
    using that by (auto simp: parseZone_def Let_def split: list.splits if_splits option.splits)
  from assms obtain y mo d s1 h mi se s2 offset t where
    p: "parseDate s = Some (y, mo, d, s1)" "parseTimeOfDay s1 = Some (h, mi, se, s2)"
      "parseZone (snd (parseFraction s2)) = Some (True, offset, [])"
    and t: "t = \<lparr>c_year = y, c_month = mo, c_day = d, c_hour = h, c_min = mi, c_sec = se\<rparr>"
      "valid_civil t"
    and ns: "ns = utc_seconds t offset * 1000000000 + int (fst (parseFraction s2))"
    by (auto simp: tryParseTimestamp_def Let_def split: Option.bind_splits if_splits prod.splits)
  have "tryParseTimestamp mk s = Some ns" for mk
    using p t ns by (simp add: tryParseTimestamp_def Let_def case_prod_beta)
  moreover have "int (fst (parseFraction s2)) < 10 ^ 9"
    using parseFraction_bound [of s2] by simp
  ultimately show ?thesis
    using t(2) zone [OF p(3)] ns
    by (intro exI [of _ t] exI [of _ offset] exI [of _ "int (fst (parseFraction s2))"])
      (simp add: utc_seconds_def)
qed

theorem tryParseTimestamp_explicit_witness:
  "\<exists>t offset frac. valid_civil t \<and> \<bar>offset\<bar> < 24 * 3600 \<and> 0 \<le> frac \<and> frac < 10 ^ 9 \<and>
    (1709164800 :: int) * 10 ^ 9 = (days_from_civil (c_year t) (c_month t) (c_day t) * 86400
      + int (c_hour t) * 3600 + int (c_min t) * 60 + int (c_sec t) - offset) * 10 ^ 9 + frac"
proof -
  have "tryParseTimestamp (\<lambda>_. None) ''2024-02-29T01:00:00+01:00'' = Some (1709164800 * 10 ^ 9)"
    by code_simp
  from tryParseTimestamp_explicit [OF this refl] show ?thesis by blast
qed

end
