(* ===== verification/PgTypes.thy ===== *)
theory PgTypes
  imports Prelude
begin

text \<open>
  The PostgreSQL text formats of \<open>src/common/pg_types.cpp\<close>: splitting an array literal
  \<open>{a,"b",NULL}\<close> or a composite literal \<open>(a,"b",)\<close> into its elements, and rendering a list of
  optional elements back. \<^const>\<open>None\<close> is SQL \<open>NULL\<close>.

  The splitting loop runs on the text between the first and the last character (indices
  \<open>1 .. size-2\<close> of the source); a parse failure, \<open>return false\<close>, is \<^const>\<open>None\<close>. Shown: every
  array survives formatting and parsing; composites do when no element needs the
  parentheses quoted and the row is not a single \<open>NULL\<close>, and the two excluded cases really
  are lost. The geometric types compute in floating point and are not modelled.
\<close>

section \<open>Quoting\<close>

definition is_null_word :: "string \<Rightarrow> bool" where
  "is_null_word raw \<longleftrightarrow> length raw = 4 \<and>
     (raw ! 0 = CHR ''N'' \<or> raw ! 0 = CHR ''n'') \<and> (raw ! 1 = CHR ''U'' \<or> raw ! 1 = CHR ''u'') \<and>
     (raw ! 2 = CHR ''L'' \<or> raw ! 2 = CHR ''l'') \<and> (raw ! 3 = CHR ''L'' \<or> raw ! 3 = CHR ''l'')"

definition special_char :: "char \<Rightarrow> bool" where
  "special_char c \<longleftrightarrow> c = CHR ''{'' \<or> c = CHR ''}'' \<or> c = CHR '','' \<or> c = dquote \<or> c = backslash \<or>
     c = space \<or> c = CHR 0x09 \<or> c = newline \<or> c = CHR 0x0D"

definition needsQuoting :: "string \<Rightarrow> bool" where
  "needsQuoting raw \<longleftrightarrow> raw = [] \<or> is_null_word raw \<or> list_ex special_char raw"

fun escape_element :: "string \<Rightarrow> string" where
  "escape_element [] = []"
| "escape_element (c # cs) =
     (if c = dquote \<or> c = backslash then backslash # c # escape_element cs else c # escape_element cs)"

definition pgQuoteArrayElement :: "string \<Rightarrow> string" where
  "pgQuoteArrayElement raw =
     (if needsQuoting raw then dquote # escape_element raw @ [dquote] else raw)"

definition array_element :: "string option \<Rightarrow> string" where
  "array_element e = (case e of Some raw \<Rightarrow> pgQuoteArrayElement raw | None \<Rightarrow> ''NULL'')"

definition pgFormatArray :: "string option list \<Rightarrow> string" where
  "pgFormatArray es = CHR ''{'' # join '','' (map array_element es) @ ''}''"

definition composite_element :: "string option \<Rightarrow> string" where
  "composite_element e = (case e of Some raw \<Rightarrow> pgQuoteArrayElement raw | None \<Rightarrow> [])"

definition pgFormatComposite :: "string option list \<Rightarrow> string" where
  "pgFormatComposite es = CHR ''('' # join '','' (map composite_element es) @ '')''"

section \<open>Splitting\<close>

definition flush_element :: "bool \<Rightarrow> string \<Rightarrow> bool \<Rightarrow> string option" where
  "flush_element emptyIsNull raw quotedAny =
     (if \<not> quotedAny \<and> raw = ''NULL'' then None
      else if \<not> quotedAny \<and> raw = [] \<and> emptyIsNull then None
      else Some raw)"

text \<open>The state of the source's loop: the element read so far, inside a quoted part, some part
  of it was quoted, nesting depth, finished elements.\<close>

fun split_loop :: "char \<Rightarrow> char \<Rightarrow> bool \<Rightarrow> string \<Rightarrow> string \<Rightarrow> bool \<Rightarrow> bool \<Rightarrow> int \<Rightarrow>
    string option list \<Rightarrow> string option list option" where
  "split_loop opn cls emptyIsNull [] raw quoted quotedAny depth out =
     (if quoted \<or> depth \<noteq> 0 then None else Some (out @ [flush_element emptyIsNull raw quotedAny]))"
| "split_loop opn cls emptyIsNull (c # cs) raw quoted quotedAny depth out =
     (if quoted then
        (if c = backslash \<and> cs \<noteq> [] then
           split_loop opn cls emptyIsNull (tl cs) (raw @ [hd cs]) quoted quotedAny depth out
         else if c = dquote then split_loop opn cls emptyIsNull cs raw False quotedAny depth out
         else split_loop opn cls emptyIsNull cs (raw @ [c]) quoted quotedAny depth out)
      else if c = dquote then split_loop opn cls emptyIsNull cs raw True True depth out
      else if c = opn then split_loop opn cls emptyIsNull cs (raw @ [c]) quoted quotedAny (depth + 1) out
      else if c = cls then
        (if depth - 1 < 0 then None
         else split_loop opn cls emptyIsNull cs (raw @ [c]) quoted quotedAny (depth - 1) out)
      else if c = CHR '','' \<and> depth = 0 then
        split_loop opn cls emptyIsNull cs [] quoted False depth
          (out @ [flush_element emptyIsNull raw quotedAny])
      else split_loop opn cls emptyIsNull cs (raw @ [c]) quoted quotedAny depth out)"

definition splitElements :: "string \<Rightarrow> char \<Rightarrow> char \<Rightarrow> bool \<Rightarrow> string option list option" where
  "splitElements text opn cls emptyIsNull =
     (if length text < 2 \<or> hd text \<noteq> opn \<or> last text \<noteq> cls then None
      else if length text = 2 then Some []
      else split_loop opn cls emptyIsNull (butlast (tl text)) [] False False 0 [])"

definition pgParseArray :: "string \<Rightarrow> string option list option" where
  "pgParseArray text = splitElements text (CHR ''{'') (CHR ''}'') False"

definition pgParseComposite :: "string \<Rightarrow> string option list option" where
  "pgParseComposite text = splitElements text (CHR ''('') (CHR '')'') True"

section \<open>Object identifiers of the geometric types\<close>

definition pgGeometryTypeName :: "nat \<Rightarrow> string option" where
  "pgGeometryTypeName oid =
     (if oid = 600 then Some ''point'' else if oid = 601 then Some ''lseg''
      else if oid = 602 then Some ''path'' else if oid = 603 then Some ''box''
      else if oid = 604 then Some ''polygon'' else if oid = 628 then Some ''line''
      else if oid = 718 then Some ''circle'' else None)"

definition pgIsGeometryOid :: "nat \<Rightarrow> bool" where
  "pgIsGeometryOid oid \<longleftrightarrow> pgGeometryTypeName oid \<noteq> None"

section \<open>How the loop reads one rendered element\<close>

lemma split_loop_escaped:
  "split_loop opn cls e (escape_element raw @ dquote # rest) r True qa d out =
   split_loop opn cls e rest (r @ raw) False qa d out"
  by (induction raw arbitrary: r) auto

lemma split_loop_plain:
  assumes "\<forall>c\<in>set raw. c \<noteq> dquote \<and> c \<noteq> opn \<and> c \<noteq> cls \<and> c \<noteq> CHR '',''"
  shows "split_loop opn cls e (raw @ rest) r False qa 0 out = split_loop opn cls e rest (r @ raw) False qa 0 out"
  using assms by (induction raw arbitrary: r) auto

lemma not_needsQuoting:
  assumes "\<not> needsQuoting raw"
  shows "raw \<noteq> []" and "raw \<noteq> ''NULL''"
    and "\<forall>c\<in>set raw. c \<noteq> dquote \<and> c \<noteq> CHR ''{'' \<and> c \<noteq> CHR ''}'' \<and> c \<noteq> CHR '',''"
proof -
  show "raw \<noteq> []" using assms by (auto simp: needsQuoting_def)
  show "raw \<noteq> ''NULL''"
  proof
    assume "raw = ''NULL''"
    then have "is_null_word raw" by (simp add: is_null_word_def)
    with assms show False by (simp add: needsQuoting_def)
  qed
  show "\<forall>c\<in>set raw. c \<noteq> dquote \<and> c \<noteq> CHR ''{'' \<and> c \<noteq> CHR ''}'' \<and> c \<noteq> CHR '',''"
    using assms by (simp add: needsQuoting_def special_char_def list_ex_iff)
qed

text \<open>What a rendered element leaves behind: the text read and whether it was quoted.\<close>

definition reads_as :: "char \<Rightarrow> char \<Rightarrow> bool \<Rightarrow> (string option \<Rightarrow> string) \<Rightarrow> string option \<Rightarrow> bool" where
  "reads_as opn cls e fmt x \<longleftrightarrow> (\<exists>raw qa. flush_element e raw qa = x \<and>
     (\<forall>rest out. split_loop opn cls e (fmt x @ rest) [] False False 0 out =
                 split_loop opn cls e rest raw False qa 0 out))"

lemma reads_as_quoted:
  assumes "opn \<noteq> dquote" "cls \<noteq> dquote"
    and "fmt (Some raw) = pgQuoteArrayElement raw"
    and "\<not> needsQuoting raw \<Longrightarrow> opn \<notin> set raw \<and> cls \<notin> set raw"
  shows "reads_as opn cls e fmt (Some raw)"
proof (cases "needsQuoting raw")
  case True
  then have "split_loop opn cls e (fmt (Some raw) @ rest) [] False False 0 out =
      split_loop opn cls e rest raw False True 0 out" for rest out
    using assms(1-3) by (simp add: pgQuoteArrayElement_def split_loop_escaped)
  moreover have "flush_element e raw True = Some raw" by (simp add: flush_element_def)
  ultimately show ?thesis unfolding reads_as_def by blast
next
  case False
  with assms(4) have "\<forall>c\<in>set raw. c \<noteq> dquote \<and> c \<noteq> opn \<and> c \<noteq> cls \<and> c \<noteq> CHR '',''"
    using not_needsQuoting(3) [OF False] by auto
  then have "split_loop opn cls e (fmt (Some raw) @ rest) [] False False 0 out =
      split_loop opn cls e rest raw False False 0 out" for rest out
    using False assms(3) split_loop_plain [of raw opn cls e rest "[]" False out]
    by (simp add: pgQuoteArrayElement_def)
  moreover have "flush_element e raw False = Some raw"
    using not_needsQuoting [OF False] by (simp add: flush_element_def)
  ultimately show ?thesis unfolding reads_as_def by blast
qed

lemma split_loop_join:
  assumes "es \<noteq> []" and "\<forall>x\<in>set es. reads_as opn cls e fmt x"
    and "CHR '','' \<noteq> opn" "CHR '','' \<noteq> cls"
  shows "split_loop opn cls e (join '','' (map fmt es)) [] False False 0 out = Some (out @ es)"
  using assms
proof (induction es arbitrary: out)
  case Nil
  then show ?case by simp
next
  case (Cons x xs)
  then obtain raw qa where x: "flush_element e raw qa = x"
    and step: "\<And>rest out. split_loop opn cls e (fmt x @ rest) [] False False 0 out =
        split_loop opn cls e rest raw False qa 0 out"
    by (auto simp: reads_as_def)
  show ?case
  proof (cases xs)
    case Nil
    with step [of "[]" out] x show ?thesis by simp
  next
    case (Cons y ys)
    with Cons.IH [of "out @ [x]"] Cons.prems x step show ?thesis
      by (simp add: join_Cons)
  qed
qed

lemma join_eq_Nil: "join sep xs = [] \<Longrightarrow> sep \<noteq> [] \<Longrightarrow> xs = [] \<or> xs = [[]]"
  by (cases "(sep, xs)" rule: join.cases) auto

lemma splitElements_join:
  assumes "\<forall>x\<in>set es. reads_as opn cls e fmt x"
    and "CHR '','' \<noteq> opn" "CHR '','' \<noteq> cls"
    and "map fmt es \<noteq> [[]]"
  shows "splitElements (opn # join '','' (map fmt es) @ [cls]) opn cls e = Some es"
proof (cases "es = []")
  case True
  then show ?thesis by (simp add: splitElements_def)
next
  case False
  with assms(4) have "join '','' (map fmt es) \<noteq> []" using join_eq_Nil by fastforce
  with split_loop_join [OF False assms(1-3), of "[]"] show ?thesis
    by (simp add: splitElements_def)
qed

section \<open>Round trips\<close>

lemma array_reads_as: "reads_as (CHR ''{'') (CHR ''}'') False array_element x"
proof (cases x)
  case None
  then show ?thesis
    unfolding reads_as_def
    by (intro exI [of _ "''NULL''"] exI [of _ False]) (simp add: flush_element_def array_element_def)
next
  case (Some raw)
  show ?thesis unfolding Some
    by (rule reads_as_quoted) (auto simp: array_element_def dest: not_needsQuoting(3))
qed

text \<open>Rendering a list of optional array elements as a PostgreSQL array literal and parsing
  the literal gives back exactly the same elements, whatever bytes they contain: empty strings,
  the word NULL, quotes, backslashes, braces and commas included.\<close>

theorem pgParseArray_pgFormatArray: "pgParseArray (pgFormatArray es) = Some es"
proof -
  have "array_element x \<noteq> []" for x
    by (auto simp: array_element_def pgQuoteArrayElement_def needsQuoting_def split: option.splits)
  then have "map array_element es \<noteq> [[]]" by auto
  then show ?thesis
    using splitElements_join [of es "CHR ''{''" "CHR ''}''" False array_element] array_reads_as
    by (simp add: pgParseArray_def pgFormatArray_def)
qed

lemma composite_reads_as:
  assumes "\<forall>raw. x = Some raw \<longrightarrow> needsQuoting raw \<or> (CHR ''('' \<notin> set raw \<and> CHR '')'' \<notin> set raw)"
  shows "reads_as (CHR ''('') (CHR '')'') True composite_element x"
proof (cases x)
  case None
  then show ?thesis
    unfolding reads_as_def
    by (intro exI [of _ "[]"] exI [of _ False]) (simp add: flush_element_def composite_element_def)
next
  case (Some raw)
  show ?thesis unfolding Some
    by (rule reads_as_quoted) (use assms Some in \<open>auto simp: composite_element_def\<close>)
qed

text \<open>A composite literal round-trips when every element that is rendered without quotes is
  free of parentheses and the row is not the one-column row holding NULL.\<close>

theorem pgParseComposite_pgFormatComposite:
  assumes "\<forall>raw. Some raw \<in> set es \<longrightarrow> needsQuoting raw \<or> (CHR ''('' \<notin> set raw \<and> CHR '')'' \<notin> set raw)"
    and "es \<noteq> [None]"
  shows "pgParseComposite (pgFormatComposite es) = Some es"
proof -
  have "composite_element x = [] \<Longrightarrow> x = None" for x
    by (auto simp: composite_element_def pgQuoteArrayElement_def needsQuoting_def
        split: option.splits if_splits)
  with assms(2) have "map composite_element es \<noteq> [[]]" by (auto simp: map_eq_Cons_conv)
  moreover have "\<forall>x\<in>set es. reads_as (CHR ''('') (CHR '')'') True composite_element x"
    using assms(1) by (blast intro: composite_reads_as)
  ultimately show ?thesis
    using splitElements_join [of es "CHR ''(''" "CHR '')''" True composite_element]
    by (simp add: pgParseComposite_def pgFormatComposite_def)
qed

theorem pgParseComposite_pgFormatComposite_witness:
  "pgParseComposite (pgFormatComposite [Some ''a b'', None, Some ''x'']) = Some [Some ''a b'', None, Some ''x'']"
  by (rule pgParseComposite_pgFormatComposite) auto

text \<open>The two excluded cases are real losses of the rendering in the source, because
  \<open>needsQuoting\<close> looks for braces but not for parentheses and an absent value is rendered as
  nothing: a field holding a closing parenthesis yields text that does not parse, and the row
  holding a single NULL is read back as a row of no columns.\<close>

theorem pgFormatComposite_lossy:
  "pgParseComposite (pgFormatComposite [Some ''a)'']) = None \<and>
   pgParseComposite (pgFormatComposite [Some ''('']) = None \<and>
   pgParseComposite (pgFormatComposite [None]) = Some []"
  by (simp add: pgParseComposite_def pgFormatComposite_def splitElements_def composite_element_def
      pgQuoteArrayElement_def needsQuoting_def special_char_def is_null_word_def)

end
