(* ===== verification/Scan.thy ===== *)
theory Scan
  imports Types
begin

text \<open>
  The lexical regions of SQL text that the analyzers and the placeholder rewriter skip: quoted
  text with doubled quotes and backslash escapes, \<open>--\<close> comments, block comments, and PostgreSQL
  dollar quoting. The sources repeat these loops in \<open>sql_analyze.cpp\<close> and
  \<open>idatabase_connection.cpp\<close>; each is here once, as a function from the text after the opening
  character to the part consumed and the rest.
\<close>

definition is_ident :: "char \<Rightarrow> bool" where
  "is_ident c \<longleftrightarrow> is_alnum c \<or> c = CHR ''_''"

definition is_quote :: "char \<Rightarrow> bool" where
  "is_quote c \<longleftrightarrow> c = squote \<or> c = dquote \<or> c = backtick"

fun scan_quoted :: "char \<Rightarrow> string \<Rightarrow> string \<times> string" where
  "scan_quoted q [] = ([], [])"
| "scan_quoted q [c] = ([c], [])"
| "scan_quoted q (c # d # cs) =
     (if c = backslash then (case scan_quoted q cs of (a, b) \<Rightarrow> (c # d # a, b))
      else if c = q then
        (if d = q then (case scan_quoted q cs of (a, b) \<Rightarrow> (c # d # a, b)) else ([c], d # cs))
      else (case scan_quoted q (d # cs) of (a, b) \<Rightarrow> (c # a, b)))"

definition scan_line_comment :: "string \<Rightarrow> string \<times> string" where
  "scan_line_comment s = (takeWhile (\<lambda>c. c \<noteq> newline) s, dropWhile (\<lambda>c. c \<noteq> newline) s)"

definition starts2 :: "char \<Rightarrow> char \<Rightarrow> string \<Rightarrow> bool" where
  "starts2 a b s \<longleftrightarrow> (case s of x # y # _ \<Rightarrow> x = a \<and> y = b | _ \<Rightarrow> False)"

text \<open>A block comment whose end is searched after its two opening characters.\<close>

definition scan_block_comment :: "string \<Rightarrow> string \<times> string" where
  "scan_block_comment s =
     (case break_on ''*/'' (drop 2 s) of
        None \<Rightarrow> (s, [])
      | Some (a, b) \<Rightarrow> (take 2 s @ a @ ''*/'', b))"

text \<open>Dollar quoting: the delimiter, the body and the rest, for the text after the dollar sign.\<close>

definition dollar_region :: "string \<Rightarrow> (string \<times> string \<times> string) option" where
  "dollar_region cs =
     (let tag = takeWhile is_ident cs; r = dropWhile is_ident cs
      in if r \<noteq> [] \<and> hd r = CHR ''$'' \<and> (tag = [] \<or> \<not> is_digit (hd tag)) then
           (let delimiter = CHR ''$'' # tag @ ''$''
            in map_option (\<lambda>(body, rest). (delimiter, body, rest)) (break_on delimiter (tl r)))
         else None)"

section \<open>Regions split the text\<close>

lemma scan_quoted_split [region_simps]: "scan_quoted q s = (a, b) \<Longrightarrow> s = a @ b"
proof (induction q s arbitrary: a b rule: scan_quoted.induct)
  case (3 q c d cs)
  then show ?case by (auto split: if_splits prod.splits)
qed auto

lemma scan_quoted_length: "length (snd (scan_quoted q s)) \<le> length s"
  using scan_quoted_split [of q s] by (metis le_add2 length_append prod.collapse)

lemma scan_quoted_length': "scan_quoted q s = (a, b) \<Longrightarrow> length b \<le> length s"
  by (drule scan_quoted_split) simp

lemma scan_line_comment_split [region_simps]: "scan_line_comment s = (a, b) \<Longrightarrow> s = a @ b"
  by (auto simp: scan_line_comment_def)

lemma scan_block_comment_split [region_simps]: "scan_block_comment s = (a, b) \<Longrightarrow> s = a @ b"
  by (auto simp: scan_block_comment_def split: option.splits dest!: break_on_Some)
    (metis append_take_drop_id append_assoc append_Cons append_Nil)

lemma dollar_region_split [region_simps]:
  assumes "dollar_region cs = Some (dl, body, rest)"
  shows "CHR ''$'' # cs = dl @ body @ dl @ rest"
proof -
  let ?tag = "takeWhile is_ident cs" and ?r = "dropWhile is_ident cs"
  from assms have dl: "dl = CHR ''$'' # ?tag @ ''$''" and r: "?r \<noteq> []" "hd ?r = CHR ''$''"
    and b: "break_on dl (tl ?r) = Some (body, rest)"
    by (auto simp: dollar_region_def Let_def split: if_splits)
  have "cs = ?tag @ hd ?r # tl ?r" using r(1) by simp
  also have "tl ?r = body @ dl @ rest" using b by (rule break_on_Some)
  finally show ?thesis using dl r(2) by simp
qed

lemma dollar_region_nonempty: "dollar_region cs = Some (dl, body, rest) \<Longrightarrow> dl \<noteq> []"
  by (auto simp: dollar_region_def Let_def split: if_splits)

lemma region_shorter:
  "starts2 a b s \<Longrightarrow> length (snd (scan_block_comment s)) < length s"
  "starts2 a b s \<Longrightarrow> a \<noteq> newline \<Longrightarrow> length (snd (scan_line_comment s)) < length s"
  "dollar_region cs = Some (dl, body, rest) \<Longrightarrow> length rest < Suc (length cs)"
proof -
  show "starts2 a b s \<Longrightarrow> length (snd (scan_block_comment s)) < length s"
    by (auto simp: scan_block_comment_def starts2_def split: option.splits list.splits
        dest: break_on_length)
  show "starts2 a b s \<Longrightarrow> a \<noteq> newline \<Longrightarrow> length (snd (scan_line_comment s)) < length s"
    by (auto simp: scan_line_comment_def starts2_def length_dropWhile_le less_Suc_eq_le le_SucI
        split: list.splits)
  show "dollar_region cs = Some (dl, body, rest) \<Longrightarrow> length rest < Suc (length cs)"
    using dollar_region_split [of cs dl body rest] dollar_region_nonempty [of cs dl body rest]
    by (metis length_Cons length_append length_greater_0_conv add_less_cancel_right trans_less_add1
        add.commute less_add_same_cancel2 trans_less_add2)
qed

section \<open>A quoted literal is one region\<close>

lemma scan_quoted_doubled:
  assumes "backslash \<notin> set t" and "rest = [] \<or> hd rest \<noteq> q"
    and "q \<noteq> backslash"
  shows "scan_quoted q (double_char q t @ q # rest) = (double_char q t @ [q], rest)"
  using assms
proof (induction t)
  case Nil
  then show ?case by (cases rest) auto
next
  case (Cons c t)
  show ?case
  proof (cases "c = q")
    case True
    with Cons show ?thesis by simp
  next
    case False
    have "double_char q t @ q # rest \<noteq> []" by simp
    then obtain d ds where ds: "double_char q t @ q # rest = d # ds"
      by (cases "double_char q t @ q # rest") auto
    with Cons have "scan_quoted q (d # ds) = (double_char q t @ [q], rest)" by simp
    with False Cons.prems ds show ?thesis by auto
  qed
qed

text \<open>A text value rendered by \<open>quoteText\<close> (or an identifier rendered by
  \<open>quoteIdentifier\<close>) cannot break out of its quotes: as long as it holds no backslash, a scanner
  that starts after the opening quote stops exactly at the closing one, whatever quotes,
  semicolons or comment marks the value contains.\<close>

theorem quoted_literal_confined:
  assumes "backslash \<notin> set t" and "rest = [] \<or> (hd rest \<noteq> squote \<and> hd rest \<noteq> dquote)"
  shows "scan_quoted squote (tl (quoteText t) @ rest) = (tl (quoteText t), rest) \<and>
    scan_quoted dquote (tl (quoteIdentifier t) @ rest) = (tl (quoteIdentifier t), rest)"
  using assms scan_quoted_doubled [of t rest squote] scan_quoted_doubled [of t rest dquote]
  by (auto simp: quoteText_def quoteIdentifier_def)

theorem quoted_literal_confined_witness:
  "scan_quoted squote (tl (quoteText (squote # ''; DROP TABLE users; --'')) @ '' AND 1=1'') =
     (tl (quoteText (squote # ''; DROP TABLE users; --'')), '' AND 1=1'')"
  by (rule quoted_literal_confined [THEN conjunct1]) simp_all

end
