(* ===== verification/SqlAnalyze.thy ===== *)
theory SqlAnalyze
  imports Scan
begin

text \<open>
  \<open>src/common/sql_analyze.cpp\<close>: masking of literals and comments, keyword search at parenthesis
  depth 0, statement classification, detection of several statements in one text, and the
  structural template with its 64-bit FNV-1a fingerprint. A loop over an index \<open>i\<close> of the source
  is a recursion on the rest of the text from \<open>i\<close>; where the source looks at \<open>sql[i-1]\<close>, the
  previous character is an argument (\<^const>\<open>None\<close> at the start).
\<close>

section \<open>Masking\<close>

text \<open>The literal or comment that starts at the head of the text, and what follows it.\<close>

definition literal_region :: "string \<Rightarrow> (string \<times> string) option" where
  "literal_region s =
     (if s = [] then None
      else if starts2 (CHR ''-'') (CHR ''-'') s then Some (scan_line_comment s)
      else if starts2 (CHR ''/'') (CHR ''*'') s then Some (scan_block_comment s)
      else if is_quote (hd s) then
        (case scan_quoted (hd s) (tl s) of (a, b) \<Rightarrow> Some (hd s # a, b))
      else if hd s = CHR ''$'' then
        map_option (\<lambda>(delimiter, body, rest). (delimiter @ body @ delimiter, rest)) (dollar_region (tl s))
      else None)"

lemma literal_region_split [region_simps]:
  assumes "literal_region s = Some (a, b)"
  shows "s = a @ b" and "a \<noteq> []"
proof -
  from assms have ne: "s \<noteq> []" by (auto simp: literal_region_def)
  then obtain c cs where s: "s = c # cs" by (cases s) auto
  show split: "s = a @ b"
    using assms s
    by (auto simp: literal_region_def split: if_splits prod.splits
        dest: scan_line_comment_split scan_block_comment_split scan_quoted_split dollar_region_split)
  have "length b < length s"
    using assms s region_shorter(1,2) [of _ _ s] region_shorter(3) [of cs] scan_quoted_length' [of c cs]
    by (auto simp: literal_region_def less_Suc_eq_le split: if_splits prod.splits)
  with split show "a \<noteq> []" by auto
qed

lemma literal_region_shorter: "literal_region s = Some (a, b) \<Longrightarrow> length b < length s"
  using literal_region_split [of s a b] by simp

function maskLiteralRegions :: "string \<Rightarrow> string" where
  "maskLiteralRegions s =
     (case s of
        [] \<Rightarrow> []
      | c # cs \<Rightarrow>
        (case literal_region s of
           Some (a, b) \<Rightarrow> spaces (length a) @ maskLiteralRegions b
         | None \<Rightarrow> c # maskLiteralRegions cs))"
  by pat_completeness auto
termination
  by (relation "measure length") (auto dest!: literal_region_shorter)

declare maskLiteralRegions.simps [simp del]

lemma mask_Nil [simp]: "maskLiteralRegions [] = []"
  by (subst maskLiteralRegions.simps) simp

lemma mask_region: "literal_region s = Some (a, b) \<Longrightarrow> maskLiteralRegions s = spaces (length a) @ maskLiteralRegions b"
  by (subst maskLiteralRegions.simps) (auto simp: literal_region_def split: list.splits)

lemma mask_plain: "literal_region (c # cs) = None \<Longrightarrow> maskLiteralRegions (c # cs) = c # maskLiteralRegions cs"
  by (subst maskLiteralRegions.simps) simp

text \<open>Induction along the regions of a text.\<close>

lemma region_induct [case_names Nil Region Plain]:
  assumes "P []"
    and "\<And>a b. literal_region (a @ b) = Some (a, b) \<Longrightarrow> a \<noteq> [] \<Longrightarrow> P b \<Longrightarrow> P (a @ b)"
    and "\<And>c cs. literal_region (c # cs) = None \<Longrightarrow> P cs \<Longrightarrow> P (c # cs)"
  shows "P s"
proof (induction s rule: length_induct)
  case (1 s)
  show ?case
  proof (cases "literal_region s")
    case None
    with 1 assms(1,3) show ?thesis by (cases s) auto
  next
    case (Some r)
    then obtain a b where ab: "literal_region s = Some (a, b)" by (cases r) auto
    with literal_region_split [OF ab] 1 assms(2) [of a b] show ?thesis by auto
  qed
qed

section \<open>Keywords\<close>

definition matchWordAt :: "char option \<Rightarrow> string \<Rightarrow> string \<Rightarrow> bool" where
  "matchWordAt prev s kw \<longleftrightarrow>
     length kw \<le> length s \<and> upper (take (length kw) s) = upper kw \<and>
     (case prev of None \<Rightarrow> True | Some p \<Rightarrow> \<not> is_ident p) \<and>
     (case drop (length kw) s of [] \<Rightarrow> True | c # _ \<Rightarrow> \<not> is_ident c)"

fun top_level_keyword :: "string \<Rightarrow> char option \<Rightarrow> nat \<Rightarrow> string \<Rightarrow> bool" where
  "top_level_keyword kw prev depth [] = False"
| "top_level_keyword kw prev depth (c # cs) =
     (if length (c # cs) < length kw then False
      else if c = CHR ''('' then top_level_keyword kw (Some c) (depth + 1) cs
      else if c = CHR '')'' then top_level_keyword kw (Some c) (depth - 1) cs
      else if depth \<noteq> 0 then top_level_keyword kw (Some c) depth cs
      else if matchWordAt prev (c # cs) kw then True
      else top_level_keyword kw (Some c) depth cs)"

definition containsTopLevelKeyword :: "string \<Rightarrow> string \<Rightarrow> bool" where
  "containsTopLevelKeyword masked kw = top_level_keyword kw None 0 masked"

section \<open>The verb of a statement\<close>

definition upperFirstVerb :: "string \<Rightarrow> string" where
  "upperFirstVerb masked =
     upper (takeWhile (\<lambda>c. \<not> (is_space c \<or> c = CHR ''('' \<or> c = CHR '';'' \<or> c = CHR ''{''))
       (dropWhile is_space masked))"

definition is_write_verb :: "string \<Rightarrow> bool" where
  "is_write_verb t \<longleftrightarrow> t = ''INSERT'' \<or> t = ''UPDATE'' \<or> t = ''DELETE'' \<or> t = ''MERGE'' \<or> t = ''REPLACE''"

function main_verb_loop :: "string \<Rightarrow> nat \<Rightarrow> string \<Rightarrow> string \<Rightarrow> string" where
  "main_verb_loop first depth nestedWrite [] = first"
| "main_verb_loop first depth nestedWrite (c # cs) =
     (if c = CHR ''('' then main_verb_loop first (depth + 1) nestedWrite cs
      else if c = CHR '')'' then main_verb_loop first (depth - 1) nestedWrite cs
      else if is_alpha c \<or> c = CHR ''_'' then
        (let token = upper (c # takeWhile is_ident cs);
             nested' = (if 0 < depth \<and> is_write_verb token \<and> nestedWrite = [] then token else nestedWrite)
         in if depth = 0 \<and> (token = ''SELECT'' \<or> is_write_verb token)
            then (if nested' \<noteq> [] then nested' else token)
            else main_verb_loop first depth nested' (dropWhile is_ident cs))
      else main_verb_loop first depth nestedWrite cs)"
  by pat_completeness auto
termination
  by (relation "measure (\<lambda>(first, depth, nestedWrite, s). length s)")
    (auto simp: length_dropWhile_le less_Suc_eq_le)

definition upperMainVerb :: "string \<Rightarrow> string" where
  "upperMainVerb masked =
     (let first = upperFirstVerb masked
      in if first \<noteq> ''WITH'' then first else main_verb_loop first 0 [] masked)"

datatype statement_kind = UnknownStmt | SelectStmt | InsertStmt | UpdateStmt | DeleteStmt | DdlStmt | OtherStmt

definition kind_of_verb :: "string \<Rightarrow> statement_kind" where
  "kind_of_verb verb =
     (if verb = ''SELECT'' \<or> verb = ''SHOW'' \<or> verb = ''EXPLAIN'' \<or> verb = ''DESC'' \<or> verb = ''DESCRIBE''
      then SelectStmt
      else if verb = ''INSERT'' \<or> verb = ''REPLACE'' then InsertStmt
      else if verb = ''UPDATE'' then UpdateStmt
      else if verb = ''DELETE'' \<or> verb = ''TRUNCATE'' then DeleteStmt
      else if verb = ''CREATE'' \<or> verb = ''ALTER'' \<or> verb = ''DROP'' \<or> verb = ''RENAME'' \<or>
        verb = ''GRANT'' \<or> verb = ''REVOKE'' \<or> verb = ''COMMENT'' then DdlStmt
      else OtherStmt)"

definition classifyStatement :: "string \<Rightarrow> statement_kind" where
  "classifyStatement sql = kind_of_verb (upperMainVerb (maskLiteralRegions sql))"

definition isWrite :: "statement_kind \<Rightarrow> bool" where
  "isWrite kind \<longleftrightarrow> kind = InsertStmt \<or> kind = UpdateStmt \<or> kind = DeleteStmt \<or> kind = DdlStmt \<or>
     kind = OtherStmt"

definition hasWhereClause :: "string \<Rightarrow> bool" where
  "hasWhereClause sql = containsTopLevelKeyword (maskLiteralRegions sql) ''WHERE''"

definition hasLimitClause :: "string \<Rightarrow> bool" where
  "hasLimitClause sql = containsTopLevelKeyword (maskLiteralRegions sql) ''LIMIT''"

fun row_limit_loop :: "char option \<Rightarrow> nat \<Rightarrow> string \<Rightarrow> bool" where
  "row_limit_loop prev depth [] = False"
| "row_limit_loop prev depth (c # cs) =
     (if c = CHR ''('' then row_limit_loop (Some c) (depth + 1) cs
      else if c = CHR '')'' then row_limit_loop (Some c) (depth - 1) cs
      else if depth \<noteq> 0 then row_limit_loop (Some c) depth cs
      else if \<not> is_alpha c then row_limit_loop (Some c) depth cs
      else if (case prev of None \<Rightarrow> False | Some p \<Rightarrow> is_ident p) then row_limit_loop (Some c) depth cs
      else
        (let word = upper (takeWhile is_ident (c # cs));
             q = dropWhile is_space (dropWhile is_ident (c # cs))
         in if word = ''FETCH'' \<and>
               (let nxt = upper (takeWhile is_alpha q) in nxt = ''FIRST'' \<or> nxt = ''NEXT'') then True
            else if word = ''ROWNUM'' \<and> q \<noteq> [] \<and> (hd q = CHR ''<'' \<or> hd q = CHR ''='') then True
            else row_limit_loop (Some c) depth cs))"

definition hasRowLimitClause :: "string \<Rightarrow> bool" where
  "hasRowLimitClause sql \<longleftrightarrow> hasLimitClause sql \<or> row_limit_loop None 0 (maskLiteralRegions sql)"

section \<open>Routine bodies\<close>

definition isRoutineDdl :: "string \<Rightarrow> bool" where
  "isRoutineDdl sql =
     (let masked = maskLiteralRegions sql; verb = upperMainVerb masked
      in if verb \<noteq> ''CREATE'' \<and> verb \<noteq> ''ALTER'' then False
         else containsTopLevelKeyword masked ''PROCEDURE'' \<or> containsTopLevelKeyword masked ''FUNCTION'')"

text \<open>Position of the first \<open>BEGIN\<close>, as the text before it and from it on.\<close>

fun find_begin :: "char option \<Rightarrow> string \<Rightarrow> (string \<times> string) option" where
  "find_begin prev [] = None"
| "find_begin prev (c # cs) =
     (if matchWordAt prev (c # cs) ''BEGIN'' then Some ([], c # cs)
      else map_option (\<lambda>(a, b). (c # a, b)) (find_begin (Some c) cs))"

text \<open>The character before position \<open>n\<close> of \<open>s\<close>, where \<open>prev\<close> stands before \<open>s\<close>.\<close>

definition char_before :: "char option \<Rightarrow> string \<Rightarrow> nat \<Rightarrow> char option" where
  "char_before prev s n = (if n = 0 then prev else Some (s ! (n - 1)))"

definition blockTerminators :: "string list" where
  "blockTerminators = [''CASE'', ''IF'', ''LOOP'', ''WHILE'', ''REPEAT'', ''TRY'', ''CATCH'']"

definition eatBlockTerminator :: "char option \<Rightarrow> string \<Rightarrow> nat" where
  "eatBlockTerminator prev s =
     (case filter (matchWordAt prev s) blockTerminators of [] \<Rightarrow> 0 | kw # _ \<Rightarrow> length kw)"

text \<open>One round of the loop over a compound body at a position inside the text: the new depth,
  how far it moves, and whether this was the \<open>END\<close> that closes the body.\<close>

definition compound_step :: "int \<Rightarrow> char option \<Rightarrow> string \<Rightarrow> int \<times> nat \<times> bool" where
  "compound_step depth prev s =
     (if matchWordAt prev s ''BEGIN'' then (depth + 1, 5, False)
      else if matchWordAt prev s ''END'' then
        (let sp = length (takeWhile is_space (drop 3 s));
             afterSpace = drop (3 + sp) s;
             kw = (if afterSpace = [] then 0
                   else eatBlockTerminator (char_before prev s (3 + sp)) afterSpace)
         in (depth - 1, (if 0 < kw then 3 + sp + kw else 3), depth - 1 \<le> 0))
      else if matchWordAt prev s ''CASE'' then (depth + 1, 4, False)
      else if matchWordAt prev s ''LOOP'' then (depth + 1, 4, False)
      else if matchWordAt prev s ''WHILE'' then (depth + 1, 5, False)
      else if matchWordAt prev s ''REPEAT'' then (depth + 1, 6, False)
      else if matchWordAt prev s ''IF'' then
        (let afterSpace = dropWhile is_space (drop 2 s)
         in (if afterSpace \<noteq> [] \<and> hd afterSpace \<noteq> CHR ''('' then depth + 1 else depth, 2, False))
      else (depth, 1, False))"

lemma compound_step_moves: "compound_step depth prev s = (d, n, stop) \<Longrightarrow> 0 < n"
  by (auto simp: compound_step_def Let_def split: if_splits)

text \<open>The length of the compound body from its \<open>BEGIN\<close> to the end of the matching \<open>END\<close>.\<close>

function compound_body :: "int \<Rightarrow> char option \<Rightarrow> string \<Rightarrow> nat option" where
  "compound_body depth prev s =
     (if s = [] then None
      else (case compound_step depth prev s of
              (d, n, stop) \<Rightarrow>
                if stop then Some n
                else map_option ((+) n) (compound_body d (char_before prev s n) (drop n s))))"
  by pat_completeness auto
termination
  by (relation "measure (\<lambda>(d, p, s). length s)") (auto dest: compound_step_moves [OF sym] simp: diff_less)

declare compound_body.simps [simp del]

definition maskCompoundBody :: "string \<Rightarrow> string" where
  "maskCompoundBody s =
     (case find_begin None s of
        None \<Rightarrow> s
      | Some (pre, body) \<Rightarrow>
          (case compound_body 0 (char_before None pre (length pre)) body of
             None \<Rightarrow> s
           | Some n \<Rightarrow> pre @ spaces n @ drop n body))"

section \<open>Several statements\<close>

fun multi_loop :: "nat \<Rightarrow> bool \<Rightarrow> string \<Rightarrow> bool" where
  "multi_loop depth ended [] = False"
| "multi_loop depth ended (c # cs) =
     (if c = CHR ''('' then multi_loop (depth + 1) ended cs
      else if c = CHR '')'' then multi_loop (depth - 1) ended cs
      else if depth \<noteq> 0 then multi_loop depth ended cs
      else if c = CHR '';'' then multi_loop depth True cs
      else if ended \<and> \<not> is_space c then True
      else multi_loop depth ended cs)"

definition hasMultipleStatements :: "string \<Rightarrow> bool \<Rightarrow> bool" where
  "hasMultipleStatements sql allowRoutineBody =
     multi_loop 0 False
       (if allowRoutineBody \<and> isRoutineDdl sql then maskCompoundBody (maskLiteralRegions sql)
        else maskLiteralRegions sql)"


section \<open>The structural template and its fingerprint\<close>

definition fnv_offset :: u64 where "fnv_offset = 1469598103934665603"
definition fnv_prime :: u64 where "fnv_prime = 1099511628211"

definition fnv1a :: "string \<Rightarrow> u64" where
  "fnv1a s = foldl (\<lambda>h c. (h XOR word_of_nat (char_code c)) * fnv_prime) fnv_offset s"

definition flush_space :: "string \<Rightarrow> bool \<Rightarrow> string" where
  "flush_space out pendingSpace =
     (if pendingSpace \<and> out \<noteq> [] \<and> last out \<noteq> space then out @ [space] else out)"

definition digit_or_sep :: "char \<Rightarrow> bool" where
  "digit_or_sep c \<longleftrightarrow> is_digit c \<or> c = CHR ''_''"

definition plainNumber :: "string \<Rightarrow> bool" where
  "plainNumber s = (case s of [] \<Rightarrow> False
     | c # cs \<Rightarrow> is_digit c \<or> (c = CHR ''.'' \<and> cs \<noteq> [] \<and> is_digit (hd cs)))"

definition signedNumber :: "string \<Rightarrow> bool" where
  "signedNumber s = (case s of [] \<Rightarrow> False
     | c # cs \<Rightarrow> (c = CHR ''+'' \<or> c = CHR ''-'') \<and> plainNumber cs)"

text \<open>The text after a numeric literal (hexadecimal, binary, or decimal with an exponent).\<close>

definition skip_exponent :: "string \<Rightarrow> string" where
  "skip_exponent s =
     (if s \<noteq> [] \<and> (hd s = CHR ''e'' \<or> hd s = CHR ''E'') then
        (let e = tl s;
             e1 = (if e \<noteq> [] \<and> (hd e = CHR ''+'' \<or> hd e = CHR ''-'') then tl e else e)
         in if takeWhile digit_or_sep e1 \<noteq> [] then dropWhile digit_or_sep e1 else s)
      else s)"

definition skip_fraction :: "string \<Rightarrow> string" where
  "skip_fraction s = (if s \<noteq> [] \<and> hd s = CHR ''.'' then dropWhile digit_or_sep (tl s) else s)"

definition skip_number :: "string \<Rightarrow> string" where
  "skip_number s0 =
     (let s = (if signedNumber s0 then tl s0 else s0)
      in if starts2 (CHR ''0'') (CHR ''x'') s \<or> starts2 (CHR ''0'') (CHR ''X'') s then
           dropWhile (\<lambda>c. is_xdigit c \<or> c = CHR ''_'') (drop 2 s)
         else if starts2 (CHR ''0'') (CHR ''b'') s \<or> starts2 (CHR ''0'') (CHR ''B'') s then
           dropWhile (\<lambda>c. c = CHR ''0'' \<or> c = CHR ''1'' \<or> c = CHR ''_'') (drop 2 s)
         else skip_exponent (skip_fraction (dropWhile digit_or_sep s)))"

definition semantic_comment :: "string \<Rightarrow> bool" where
  "semantic_comment s \<longleftrightarrow> 2 < length s \<and> (s ! 2 = CHR ''!'' \<or> s ! 2 = CHR ''+'')"

text \<open>One round of the loop: the new output, whether a space is pending, and the rest of the
  text. The rest is strictly shorter.\<close>

definition structural_step :: "char option \<Rightarrow> string \<Rightarrow> bool \<Rightarrow> string \<Rightarrow> string \<times> bool \<times> string" where
  "structural_step prev out pendingSpace s =
     (let c = hd s; cs = tl s; boundary = (case prev of None \<Rightarrow> True | Some p \<Rightarrow> \<not> is_ident p);
          flushed = flush_space out pendingSpace
      in if is_space c then (out, out \<noteq> [], cs)
         else if starts2 (CHR ''-'') (CHR ''-'') s then (out, out \<noteq> [], snd (scan_line_comment s))
         else if starts2 (CHR ''/'') (CHR ''*'') s then
           (let (a, b) = scan_block_comment s
            in if semantic_comment s then (flushed @ a, False, b) else (out, out \<noteq> [], b))
         else if c = CHR ''$'' \<and> dollar_region cs \<noteq> None then
           (let (delimiter, body, rest) = the (dollar_region cs)
            in (flushed @ delimiter @ ''<body_hash:'' @ nat_to_string (unat (fnv1a body)) @ ''>'' @ delimiter,
                False, rest))
         else if c = squote then (flushed @ ''?'', False, snd (scan_quoted squote cs))
         else if c = dquote \<or> c = backtick then
           (let (a, b) = scan_quoted c cs in (flushed @ c # a, False, b))
         else if boundary \<and> (plainNumber s \<or> signedNumber s) then (flushed @ ''?'', False, skip_number s)
         else (flushed @ [c], False, cs))"

lemma skip_suffixes:
  "length (skip_exponent s) \<le> length s" "length (skip_fraction s) \<le> length s"
proof -
  have d: "length (dropWhile P t) \<le> length t" for P and t :: string by (rule length_dropWhile_le)
  show "length (skip_exponent s) \<le> length s"
    unfolding skip_exponent_def Let_def
    by (auto intro: order_trans [OF d])
  show "length (skip_fraction s) \<le> length s"
    unfolding skip_fraction_def by (auto intro: order_trans [OF d])
qed

lemma skip_number_shorter:
  assumes "plainNumber s \<or> signedNumber s"
  shows "length (skip_number s) < length s"
proof -
  have dw: "length (dropWhile P t) \<le> length t" for P and t :: string by (rule length_dropWhile_le)
  have chain: "length (skip_exponent (skip_fraction t)) \<le> length t" for t
    using skip_suffixes(1) skip_suffixes(2) by (rule order_trans)
  let ?s = "if signedNumber s then tl s else s"
  from assms have ne: "s \<noteq> []" by (auto simp: plainNumber_def signedNumber_def)
  have pre: "starts2 a b ?s \<Longrightarrow> length (dropWhile P (drop 2 ?s)) < length s" for a b P
    using dw [of P "drop 2 ?s"] ne by (cases s) (auto simp: starts2_def split: list.splits)
  have dec: "length (skip_exponent (skip_fraction (dropWhile digit_or_sep ?s))) < length s"
  proof (cases "signedNumber s")
    case True
    then show ?thesis
      using chain [of "dropWhile digit_or_sep (tl s)"] dw [of digit_or_sep "tl s"] ne
      by (cases s) auto
  next
    case False
    with assms obtain c cs where s: "s = c # cs"
      and c: "is_digit c \<or> (c = CHR ''.'' \<and> cs \<noteq> [] \<and> is_digit (hd cs))"
      by (auto simp: plainNumber_def split: list.splits)
    show ?thesis
    proof (cases "is_digit c")
      case True
      then show ?thesis
        using False s chain [of "dropWhile digit_or_sep cs"] dw [of digit_or_sep cs]
        by (simp add: digit_or_sep_def)
    next
      case nd: False
      with c have dot: "c = CHR ''.''" by simp
      then have "skip_fraction (dropWhile digit_or_sep s) = dropWhile digit_or_sep cs"
        using nd s by (simp add: digit_or_sep_def skip_fraction_def)
      then show ?thesis
        using False s skip_suffixes(1) [of "dropWhile digit_or_sep cs"] dw [of digit_or_sep cs]
        by (simp add: digit_or_sep_def)
    qed
  qed
  show ?thesis unfolding skip_number_def Let_def using pre dec by auto
qed

lemma structural_step_shorter:
  assumes "s \<noteq> []" and "structural_step prev out pend s = (out', pend', rest)"
  shows "length rest < length s"
proof -
  obtain c cs where s: "s = c # cs" using assms(1) by (cases s) auto
  show ?thesis
    using assms(2) s region_shorter [of _ _ s] region_shorter(3) [of cs] skip_number_shorter [of s]
      scan_quoted_length [of squote cs] scan_quoted_length' [of c cs]
    by (auto simp: structural_step_def Let_def split: if_splits prod.splits option.splits)
qed

function build_structural :: "char option \<Rightarrow> string \<Rightarrow> bool \<Rightarrow> string \<Rightarrow> string" where
  "build_structural prev out pendingSpace s =
     (if s = [] then out
      else (case structural_step prev out pendingSpace s of
              (out', pend', rest) \<Rightarrow>
                build_structural (Some (s ! (length s - length rest - 1))) out' pend' rest))"
  by pat_completeness auto
termination
  by (relation "measure (\<lambda>(p, out, pend, s). length s)")
    (auto split: prod.splits dest: structural_step_shorter)

declare build_structural.simps [simp del]

definition structuralTemplate :: "string \<Rightarrow> string" where
  "structuralTemplate sql = build_structural None [] False sql"

definition fingerprintTemplate :: "string \<Rightarrow> u64" where
  "fingerprintTemplate sql = fnv1a (structuralTemplate sql)"


section \<open>What masking does\<close>

definition special_start :: "char \<Rightarrow> bool" where
  "special_start c \<longleftrightarrow> c = CHR ''-'' \<or> c = CHR ''/'' \<or> c = CHR ''$'' \<or> is_quote c"

lemma mask_id: "list_all (\<lambda>c. \<not> special_start c) s \<Longrightarrow> maskLiteralRegions s = s"
proof (induction s)
  case (Cons c cs)
  then have "literal_region (c # cs) = None"
    by (auto simp: literal_region_def special_start_def starts2_def split: list.splits)
  with Cons show ?case by (simp add: mask_plain)
qed simp

text \<open>Masking keeps every position of the text: the masked text has the same length, and each
  character is either the original one or a space. Offsets found in the masked text are
  therefore offsets of the original.\<close>

theorem mask_pointwise:
  "list_all2 (\<lambda>m c. m = c \<or> m = space) (maskLiteralRegions s) s"
proof (induction s rule: region_induct)
  case Nil
  show ?case by simp
next
  case (Region a b)
  then show ?case
    by (auto simp: mask_region intro!: list_all2_appendI) (simp add: spaces_def list_all2_conv_all_nth)
next
  case (Plain c cs)
  then show ?case by (simp add: mask_plain)
qed

text \<open>A rendered string literal is invisible to every analysis: masking the literal followed by
  any text gives exactly as many spaces as the literal has characters, then the mask of the
  text, so nothing inside the value (semicolons, keywords, comment marks, quotes) reaches the
  classification, the WHERE or LIMIT search, or the search for several statements.\<close>

theorem mask_quoteText:
  assumes "backslash \<notin> set t" and "rest = [] \<or> hd rest \<noteq> squote"
  shows "maskLiteralRegions (quoteText t @ rest) =
    spaces (length (quoteText t)) @ maskLiteralRegions rest"
proof -
  have "literal_region (quoteText t @ rest) = Some (quoteText t, rest)"
    using scan_quoted_doubled [OF assms]
    by (simp add: literal_region_def quoteText_def starts2_def is_quote_def split: list.splits)
  then show ?thesis by (rule mask_region)
qed

theorem mask_quoteText_witness:
  "maskLiteralRegions (quoteText (squote # ''; DELETE FROM t'') @ '' LIMIT 1'') =
     spaces (length (quoteText (squote # ''; DELETE FROM t''))) @ maskLiteralRegions '' LIMIT 1''"
  by (rule mask_quoteText) simp_all

section \<open>Several statements\<close>

text \<open>The characters outside all parentheses.\<close>

fun top_level :: "nat \<Rightarrow> string \<Rightarrow> string" where
  "top_level depth [] = []"
| "top_level depth (c # cs) =
     (if c = CHR ''('' then top_level (depth + 1) cs
      else if c = CHR '')'' then top_level (depth - 1) cs
      else if depth = 0 then c # top_level depth cs else top_level depth cs)"

definition more_text :: "string \<Rightarrow> bool" where
  "more_text s = list_ex (\<lambda>c. c \<noteq> CHR '';'' \<and> \<not> is_space c) s"

lemma multi_loop_ended: "multi_loop depth True s = more_text (top_level depth s)"
  by (induction s arbitrary: depth) (simp_all add: more_text_def)

lemma multi_loop_open:
  "multi_loop depth False s = more_text (dropWhile (\<lambda>c. c \<noteq> CHR '';'') (top_level depth s))"
  by (induction s arbitrary: depth) (simp_all add: multi_loop_ended, simp_all add: more_text_def)



section \<open>Common table expressions and writes\<close>

text \<open>The words of a text, each with the parenthesis depth it stands at.\<close>

function words :: "nat \<Rightarrow> string \<Rightarrow> (nat \<times> string) list" where
  "words depth [] = []"
| "words depth (c # cs) =
     (if c = CHR ''('' then words (depth + 1) cs
      else if c = CHR '')'' then words (depth - 1) cs
      else if is_alpha c \<or> c = CHR ''_'' then
        (depth, upper (c # takeWhile is_ident cs)) # words depth (dropWhile is_ident cs)
      else words depth cs)"
  by pat_completeness auto
termination
  by (relation "measure (\<lambda>(depth, s). length s)") (auto simp: length_dropWhile_le less_Suc_eq_le)

text \<open>The main verb as a function of the words alone.\<close>

fun verb_of_words :: "string \<Rightarrow> string \<Rightarrow> (nat \<times> string) list \<Rightarrow> string" where
  "verb_of_words first nested [] = first"
| "verb_of_words first nested ((d, t) # ws) =
     (if d = 0 \<and> (t = ''SELECT'' \<or> is_write_verb t) then (if nested \<noteq> [] then nested else t)
      else verb_of_words first (if 0 < d \<and> is_write_verb t \<and> nested = [] then t else nested) ws)"

lemma main_verb_loop_words: "main_verb_loop first depth nested s = verb_of_words first nested (words depth s)"
proof (induction "length s" arbitrary: s depth nested rule: less_induct)
  case less
  show ?case
  proof (cases s)
    case Nil
    then show ?thesis by simp
  next
    case (Cons c cs)
    have "length (dropWhile is_ident cs) < length s"
      using Cons length_dropWhile_le [of is_ident cs] by simp
    then show ?thesis
      using less [of cs "Suc depth" nested] less [of cs "depth - 1" nested] less [of cs depth nested]
        less [of "dropWhile is_ident cs" depth] Cons
      by (simp add: Let_def) auto
  qed
qed

lemma write_verb_nonempty: "is_write_verb t \<Longrightarrow> t \<noteq> [] \<and> t \<noteq> ''SELECT''"
  by (auto simp: is_write_verb_def)

lemma verb_of_words_nested: "nested \<noteq> [] \<Longrightarrow> verb_of_words first nested ws \<in> {first, nested}"
  by (induction ws) auto

lemma verb_of_words_range:
  "verb_of_words first [] ws \<in> {first, ''SELECT''} \<or> is_write_verb (verb_of_words first [] ws)"
proof (induction ws)
  case (Cons w ws)
  obtain d t where w: "w = (d, t)" by (cases w)
  show ?case
    using Cons w verb_of_words_nested [of t first ws] write_verb_nonempty [of t] by auto
qed simp

lemma verb_of_words_select:
  "verb_of_words first [] ws = ''SELECT'' \<Longrightarrow> first \<noteq> ''SELECT'' \<Longrightarrow>
   \<exists>pre post. ws = pre @ (0, ''SELECT'') # post \<and> (\<forall>(d, t)\<in>set pre. \<not> is_write_verb t)"
proof (induction ws)
  case (Cons w ws)
  obtain d t where w: "w = (d, t)" by (cases w)
  show ?case
  proof (cases "is_write_verb t")
    case True
    with Cons.prems w verb_of_words_nested [of t first ws] write_verb_nonempty [OF True] show ?thesis
      by (auto split: if_splits)
  next
    case no_write: False
    show ?thesis
    proof (cases "d = 0 \<and> t = ''SELECT''")
      case True
      with w show ?thesis by (intro exI [of _ "[]"] exI [of _ ws]) simp
    next
      case False
      with no_write Cons w obtain pre post where
        "ws = pre @ (0, ''SELECT'') # post" "\<forall>(d, t)\<in>set pre. \<not> is_write_verb t" by auto
      with w no_write show ?thesis by (intro exI [of _ "w # pre"] exI [of _ post]) auto
    qed
  qed
qed simp

text \<open>C20: read-only enforcement is not fooled by common table expressions: when a statement that
  starts with WITH is classified as a SELECT, its main verb is a SELECT outside all parentheses
  and no INSERT, UPDATE, DELETE, MERGE or REPLACE word stands before it, at any depth.\<close>

theorem classify_with_select:
  assumes "upperFirstVerb (maskLiteralRegions sql) = ''WITH''" and "classifyStatement sql = SelectStmt"
  shows "\<exists>pre post. words 0 (maskLiteralRegions sql) = pre @ (0, ''SELECT'') # post \<and>
    (\<forall>(d, t)\<in>set pre. \<not> is_write_verb t)"
proof -
  let ?v = "verb_of_words ''WITH'' [] (words 0 (maskLiteralRegions sql))"
  from assms have "kind_of_verb ?v = SelectStmt"
    by (simp add: classifyStatement_def upperMainVerb_def main_verb_loop_words)
  with verb_of_words_range [of "''WITH''" "words 0 (maskLiteralRegions sql)"]
  have "?v = ''SELECT''"
    by (auto simp: kind_of_verb_def is_write_verb_def split: if_splits)
  then show ?thesis by (rule verb_of_words_select) simp
qed

theorem classify_with_select_witness:
  "\<exists>pre post. words 0 (maskLiteralRegions ''WITH a AS (SELECT 1) SELECT * FROM a'') =
     pre @ (0, ''SELECT'') # post \<and> (\<forall>(d, t)\<in>set pre. \<not> is_write_verb t)"
proof (rule classify_with_select)
  show "upperFirstVerb (maskLiteralRegions ''WITH a AS (SELECT 1) SELECT * FROM a'') = ''WITH''" by code_simp
  show "classifyStatement ''WITH a AS (SELECT 1) SELECT * FROM a'' = SelectStmt" by code_simp
qed

section \<open>Fingerprints\<close>

lemma structural_step_literal:
  assumes "backslash \<notin> set t" and "rest = [] \<or> hd rest \<noteq> squote"
  shows "structural_step prev out pend (quoteText t @ rest) = (flush_space out pend @ ''?'', False, rest)"
  using scan_quoted_doubled [OF assms]
  by (simp add: structural_step_def Let_def quoteText_def is_space_def starts2_def split: list.splits)

lemma build_structural_literal:
  assumes "backslash \<notin> set t" and "rest = [] \<or> hd rest \<noteq> squote"
  shows "build_structural prev out pend (quoteText t @ rest) =
    build_structural (Some squote) (flush_space out pend @ ''?'') False rest"
proof -
  have "(quoteText t @ rest) ! (length (quoteText t @ rest) - length rest - 1) = squote"
    by (simp add: quoteText_def nth_append)
  then show ?thesis
    using structural_step_literal [OF assms, of prev out pend]
    by (subst build_structural.simps) (simp add: quoteText_def)
qed



end
