(* ===== verification/Connection.thy ===== *)
theory Connection
  imports SqlAnalyze
begin

text \<open>
  The driver-independent part of \<open>src/core/idatabase_connection.cpp\<close>: rewriting of \<open>?\<close>
  placeholders, literal interpolation (\<open>buildSql\<close>), rendering of a statement for the logs, and
  the default bodies of \<open>queryEach\<close>, \<open>queryAll\<close> and \<open>executeBatch\<close>, which call the virtual
  methods of a driver. Those methods are parameters, the record \<open>conn_ops\<close>, acting on the
  connection's state.
\<close>

section \<open>Placeholders\<close>

text \<open>What starts at the head of the text that is copied as it is. The block comment's end is
  searched from its star on, not after it, as the loop of the source does.\<close>

definition copied_region :: "string \<Rightarrow> (string \<times> string) option" where
  "copied_region s =
     (if s = [] then None
      else if hd s = CHR ''$'' \<and> dollar_region (tl s) \<noteq> None then
        (case the (dollar_region (tl s)) of (delimiter, body, rest) \<Rightarrow> Some (delimiter @ body @ delimiter, rest))
      else if is_quote (hd s) then
        (case scan_quoted (hd s) (tl s) of (a, b) \<Rightarrow> Some (hd s # a, b))
      else if starts2 (CHR ''-'') (CHR ''-'') s then
        (case scan_line_comment s of (a, b) \<Rightarrow> Some (a @ take 1 b, drop 1 b))
      else if starts2 (CHR ''/'') (CHR ''*'') s then
        (case break_on ''*/'' (tl s) of
           None \<Rightarrow> Some (s, [])
         | Some (a, b) \<Rightarrow> Some (hd s # a @ ''*/'', b))
      else None)"

lemma copied_region_split:
  assumes "copied_region s = Some (a, b)"
  shows "s = a @ b" and "length b < length s"
proof -
  from assms have ne: "s \<noteq> []" by (auto simp: copied_region_def)
  then obtain c cs where s: "s = c # cs" by (cases s) auto
  have lc: "length (drop 1 r) < length s" if "starts2 (CHR ''-'') (CHR ''-'') s" "scan_line_comment s = (l, r)" for l r
    using region_shorter(2) [OF that(1)] that(2) by simp
  have bc: "length r < length s" if "break_on pat (tl s) = Some (l, r)" for pat l r
    using break_on_length [OF that] s by simp
  show "s = a @ b"
    using assms s
    by (auto simp: copied_region_def split: if_splits prod.splits option.splits
        dest!: scan_line_comment_split scan_quoted_split dollar_region_split break_on_Some)
  show "length b < length s"
    using assms s region_shorter(3) [of cs] scan_quoted_length' [of c cs] lc bc
    by (auto simp: copied_region_def less_Suc_eq_le split: if_splits prod.splits option.splits)
qed

function replacePlaceholders :: "(nat \<Rightarrow> string) \<Rightarrow> nat \<Rightarrow> string \<Rightarrow> string \<times> nat" where
  "replacePlaceholders visitor found s =
     (case s of
        [] \<Rightarrow> ([], found)
      | c # cs \<Rightarrow>
        (case copied_region s of
           Some (a, b) \<Rightarrow> apfst ((@) a) (replacePlaceholders visitor found b)
         | None \<Rightarrow>
           if c = CHR ''?'' then apfst ((@) (visitor found)) (replacePlaceholders visitor (Suc found) cs)
           else apfst ((#) c) (replacePlaceholders visitor found cs)))"
  by pat_completeness auto
termination
  by (relation "measure (\<lambda>(v, k, s). length s)") (auto dest: copied_region_split)

declare replacePlaceholders.simps [simp del]

lemma replacePlaceholders_Nil [simp]: "replacePlaceholders v k [] = ([], k)"
  by (subst replacePlaceholders.simps) simp

lemma replacePlaceholders_copied:
  "copied_region s = Some (a, b) \<Longrightarrow> replacePlaceholders v k s = apfst ((@) a) (replacePlaceholders v k b)"
  by (subst replacePlaceholders.simps) (auto simp: copied_region_def split: list.splits)

lemma replacePlaceholders_plain:
  "copied_region (c # cs) = None \<Longrightarrow> replacePlaceholders v k (c # cs) =
     (if c = CHR ''?'' then apfst ((@) (v k)) (replacePlaceholders v (Suc k) cs)
      else apfst ((#) c) (replacePlaceholders v k cs))"
  by (subst replacePlaceholders.simps) simp

lemma copied_induct [case_names Nil Copied Plain]:
  assumes "P []"
    and "\<And>a b. copied_region (a @ b) = Some (a, b) \<Longrightarrow> P b \<Longrightarrow> P (a @ b)"
    and "\<And>c cs. copied_region (c # cs) = None \<Longrightarrow> P cs \<Longrightarrow> P (c # cs)"
  shows "P s"
proof (induction s rule: length_induct)
  case (1 s)
  show ?case
  proof (cases "copied_region s")
    case None
    with 1 assms(1,3) show ?thesis by (cases s) auto
  next
    case (Some r)
    then obtain a b where ab: "copied_region s = Some (a, b)" by (cases r) auto
    with copied_region_split [OF ab] 1 assms(2) [of a b] show ?thesis by auto
  qed
qed

section \<open>Interpolation and rendering\<close>

definition mismatch_error :: "nat \<Rightarrow> nat \<Rightarrow> status" where
  "mismatch_error supplied used = status_error QueryError
     (''parameter mismatch: supplied '' @ nat_to_string supplied @ '' parameter(s) but SQL has ''
      @ nat_to_string used @ '' '' @ [squote] @ ''?'' @ [squote] @ '' placeholder(s)'')"

definition buildSql :: "(val \<Rightarrow> string) \<Rightarrow> string \<Rightarrow> params \<Rightarrow> status \<times> string" where
  "buildSql escapeLiteral sql ps =
     (let (out, used) = replacePlaceholders
            (\<lambda>i. if length ps \<le> i then ''?'' else escapeLiteral (ps ! i)) 0 sql
      in if used \<noteq> length ps then (mismatch_error (length ps) used, out) else (status_OK, out))"

record render_options =
  includeStringValues :: bool
  includeBlobValues :: bool
  maxParamLength :: nat
  maxSqlLength :: nat

definition limit_text :: "render_options \<Rightarrow> string \<Rightarrow> string" where
  "limit_text opts text =
     (if maxParamLength opts < length text then take (maxParamLength opts) text @ ''...[truncated]'' else text)"

definition renderTypedText :: "(val \<Rightarrow> string) \<Rightarrow> render_options \<Rightarrow> string \<Rightarrow> string \<Rightarrow> string" where
  "renderTypedText escapeLiteral opts text type =
     (if \<not> includeStringValues opts then [squote] @ ''<redacted:'' @ type @ ''>'' @ [squote]
      else escapeLiteral (VString (limit_text opts text)))"

definition render_param :: "(val \<Rightarrow> string) \<Rightarrow> render_options \<Rightarrow> val \<Rightarrow> string" where
  "render_param escapeLiteral opts v =
     (case v of
        VString text \<Rightarrow>
          (if \<not> includeStringValues opts then [squote] @ ''<redacted>'' @ [squote]
           else escapeLiteral (VString (limit_text opts text)))
      | VDecimal s \<Rightarrow> renderTypedText escapeLiteral opts s ''decimal''
      | VDate s \<Rightarrow> renderTypedText escapeLiteral opts s ''date''
      | VTime s \<Rightarrow> renderTypedText escapeLiteral opts s ''time''
      | VUuid s \<Rightarrow> renderTypedText escapeLiteral opts s ''uuid''
      | VJson s \<Rightarrow> renderTypedText escapeLiteral opts s ''json''
      | VBlob b \<Rightarrow>
          (if \<not> includeBlobValues opts then
             [squote] @ ''<blob:'' @ nat_to_string (length b) @ '' bytes>'' @ [squote]
           else if maxParamLength opts < length b then
             escapeLiteral (VBlob (take (maxParamLength opts) b)) @ ''/* truncated, original_bytes='' @
               nat_to_string (length b) @ '' */''
           else escapeLiteral (VBlob b))
      | _ \<Rightarrow> escapeLiteral v)"

definition renderSqlForLogging ::
  "(val \<Rightarrow> string) \<Rightarrow> string \<Rightarrow> params \<Rightarrow> render_options \<Rightarrow> status \<times> string" where
  "renderSqlForLogging escapeLiteral sql ps opts =
     (let (out, found) = replacePlaceholders
            (\<lambda>i. if length ps \<le> i then ''?'' else render_param escapeLiteral opts (ps ! i)) 0 sql
      in if found \<noteq> length ps then
           (status_error QueryError (''SQL placeholder count ('' @ nat_to_string found @
              '') does not match params count ('' @ nat_to_string (length ps) @ '')''), [])
         else if maxSqlLength opts < length out then
           (status_OK, take (maxSqlLength opts) out @ ''...[truncated, original_length='' @
              nat_to_string (length out) @ '']'')
         else (status_OK, out))"

section \<open>Facts on placeholders\<close>

lemma replacePlaceholders_identity:
  "fst (replacePlaceholders (\<lambda>_. ''?'') k s) = s"
proof (induction s arbitrary: k rule: copied_induct)
  case (Copied a b)
  then show ?case by (simp add: replacePlaceholders_copied)
next
  case (Plain c cs)
  then show ?case by (simp add: replacePlaceholders_plain)
qed simp

text \<open>The number of placeholders does not depend on what they are replaced by.\<close>

definition placeholder_count :: "string \<Rightarrow> nat" where
  "placeholder_count s = snd (replacePlaceholders (\<lambda>_. []) 0 s)"

lemma replacePlaceholders_found: "snd (replacePlaceholders v k s) = k + placeholder_count s"
proof -
  have "snd (replacePlaceholders v (k + l) s) = k + snd (replacePlaceholders w l s)" for w l
  proof (induction s arbitrary: l rule: copied_induct)
    case (Copied a b)
    then show ?case by (simp add: replacePlaceholders_copied)
  next
    case (Plain c cs)
    then show ?case using Plain(2) [of "Suc l"] by (simp add: replacePlaceholders_plain)
  qed simp
  from this [of 0] show ?thesis by (simp add: placeholder_count_def)
qed

text \<open>Interpolation fails exactly when the number of parameters is not the number of
  placeholders, for every escaping function of a driver, and then reports \<open>QueryError\<close>; a
  statement without parameters and placeholders is passed on unchanged.\<close>

theorem buildSql_status:
  "(status_ok (fst (buildSql esc sql ps)) \<longleftrightarrow> placeholder_count sql = length ps) \<and>
   (placeholder_count sql \<noteq> length ps \<longrightarrow> code (fst (buildSql esc sql ps)) = QueryError) \<and>
   snd (buildSql esc sql []) = sql"
proof -
  have "snd (buildSql esc sql []) = sql"
    using replacePlaceholders_identity [of 0 sql]
    by (simp add: buildSql_def case_prod_beta)
  then show ?thesis
    using replacePlaceholders_found [of "\<lambda>i. if length ps \<le> i then ''?'' else esc (ps ! i)" 0 sql]
    by (auto simp: buildSql_def case_prod_beta mismatch_error_def status_error_def status_OK_def status_ok_def)
qed

theorem buildSql_status_witness:
  "placeholder_count ''a = ?'' \<noteq> length ([] :: params) \<and>
   code (fst (buildSql (\<lambda>_. ''1'') ''a = ?'' [])) = QueryError"
proof -
  have "placeholder_count ''a = ?'' \<noteq> length ([] :: params)" by code_simp
  with buildSql_status [of "\<lambda>_. ''1''" "''a = ?''" "[]"] show ?thesis by simp
qed

section \<open>Default bodies of the driver interface\<close>

record batch_result =
  batch_affected :: "int list"
  batch_keys :: "result_set list"

definition empty_batch :: batch_result where
  "empty_batch = \<lparr>batch_affected = [], batch_keys = []\<rparr>"

definition totalAffected :: "batch_result \<Rightarrow> i64" where
  "totalAffected r = foldl (\<lambda>total rows. total + word_of_int rows) 0 (batch_affected r)"

text \<open>The virtual methods the default bodies call, over a connection state of type \<open>'c\<close>: each
  returns its status, what it writes to its output arguments, and the new state.\<close>

record 'c conn_ops =
  op_query :: "string \<Rightarrow> 'c \<Rightarrow> status \<times> result_set \<times> 'c"
  op_query_params :: "string \<Rightarrow> params \<Rightarrow> 'c \<Rightarrow> status \<times> result_set \<times> 'c"
  op_execute :: "string \<Rightarrow> 'c \<Rightarrow> status \<times> int \<times> 'c"
  op_execute_params :: "string \<Rightarrow> params \<Rightarrow> 'c \<Rightarrow> status \<times> int \<times> 'c"
  op_execute_keys :: "string \<Rightarrow> params \<Rightarrow> 'c \<Rightarrow> status \<times> int \<times> result_set \<times> 'c"
  op_begin :: "'c \<Rightarrow> status \<times> 'c"
  op_commit :: "'c \<Rightarrow> status \<times> 'c"
  op_rollback :: "'c \<Rightarrow> status \<times> 'c"
  op_inTransaction :: "'c \<Rightarrow> bool"
  op_escapeLiteral :: "val \<Rightarrow> string"
  op_allowsLiteralInterpolation :: bool

definition not_supported :: "string \<Rightarrow> status" where
  "not_supported what = status_error NotSupported what"

definition query_params_default ::
  "'c conn_ops \<Rightarrow> string \<Rightarrow> params \<Rightarrow> result_set \<Rightarrow> 'c \<Rightarrow> status \<times> result_set \<times> 'c" where
  "query_params_default d sql ps out c =
     (if \<not> op_allowsLiteralInterpolation d then
        (not_supported ''driver does not implement native parameter binding'', out, c)
      else case buildSql (op_escapeLiteral d) sql ps of
        (st, built) \<Rightarrow> if \<not> status_ok st then (st, out, c) else op_query d built c)"

definition execute_params_default ::
  "'c conn_ops \<Rightarrow> string \<Rightarrow> params \<Rightarrow> int \<Rightarrow> 'c \<Rightarrow> status \<times> int \<times> 'c" where
  "execute_params_default d sql ps affected c =
     (if \<not> op_allowsLiteralInterpolation d then
        (not_supported ''driver does not implement native parameter binding'', 0, c)
      else case buildSql (op_escapeLiteral d) sql ps of
        (st, built) \<Rightarrow> if \<not> status_ok st then (st, affected, c) else op_execute d built c)"

definition execute_keys_default ::
  "'c conn_ops \<Rightarrow> string \<Rightarrow> params \<Rightarrow> 'c \<Rightarrow> status \<times> int \<times> result_set \<times> 'c" where
  "execute_keys_default d sql ps c =
     (case op_execute_params d sql ps c of (st, affected, c') \<Rightarrow> (st, affected, empty_rs, c'))"

definition query_any :: "'c conn_ops \<Rightarrow> string \<Rightarrow> params \<Rightarrow> 'c \<Rightarrow> status \<times> result_set \<times> 'c" where
  "query_any d sql ps c = (if ps = [] then op_query d sql c else op_query_params d sql ps c)"

text \<open>The row loop of \<open>queryEach\<close>; the callback keeps a state of its own.\<close>

fun each_row :: "(row \<Rightarrow> 's \<Rightarrow> bool \<times> 's) \<Rightarrow> row list \<Rightarrow> nat \<Rightarrow> 's \<Rightarrow> nat \<times> 's" where
  "each_row callback [] n s = (n, s)"
| "each_row callback (r # rs) n s =
     (case callback r s of (go_on, s') \<Rightarrow> if go_on then each_row callback rs (Suc n) s' else (Suc n, s'))"

definition queryEach ::
  "'c conn_ops \<Rightarrow> string \<Rightarrow> params \<Rightarrow> (row \<Rightarrow> 's \<Rightarrow> bool \<times> 's) \<Rightarrow> 's \<Rightarrow> 'c \<Rightarrow> status \<times> nat \<times> 's \<times> 'c" where
  "queryEach d sql ps callback s c =
     (case query_any d sql ps c of
        (st, result, c') \<Rightarrow>
          if \<not> status_ok st then (st, 0, s, c')
          else case each_row callback (rs_rows result) 0 s of (n, s') \<Rightarrow> (status_OK, n, s', c'))"

definition queryAll :: "'c conn_ops \<Rightarrow> string \<Rightarrow> params \<Rightarrow> 'c \<Rightarrow> status \<times> result_set list \<times> 'c" where
  "queryAll d sql ps c =
     (case query_any d sql ps c of
        (st, rs, c') \<Rightarrow>
          if \<not> status_ok st then (st, [], c')
          else (status_OK, if rs_fields rs \<noteq> [] \<or> 0 < length (rs_rows rs) then [rs] else [], c'))"

fun batch_loop ::
  "'c conn_ops \<Rightarrow> string \<Rightarrow> params list \<Rightarrow> batch_result \<Rightarrow> 'c \<Rightarrow> status \<times> batch_result \<times> 'c" where
  "batch_loop d sql [] out c = (status_OK, out, c)"
| "batch_loop d sql (ps # batch) out c =
     (case op_execute_keys d sql ps c of
        (st, affected, ks, c') \<Rightarrow>
          if \<not> status_ok st then (st, out, c')
          else batch_loop d sql batch
            (out\<lparr>batch_affected := batch_affected out @ [affected], batch_keys := batch_keys out @ [ks]\<rparr>) c')"

definition executeBatch ::
  "'c conn_ops \<Rightarrow> string \<Rightarrow> params list \<Rightarrow> 'c \<Rightarrow> status \<times> batch_result \<times> 'c" where
  "executeBatch d sql batch c =
     (if batch = [] then (status_OK, empty_batch, c)
      else if op_inTransaction d c then batch_loop d sql batch empty_batch c
      else case op_begin d c of
        (st, c1) \<Rightarrow>
          if \<not> status_ok st then (st, empty_batch, c1)
          else case batch_loop d sql batch empty_batch c1 of
            (st, out, c2) \<Rightarrow>
              if \<not> status_ok st then (st, empty_batch, snd (op_rollback d c2))
              else case op_commit d c2 of
                (st', c3) \<Rightarrow> if \<not> status_ok st' then (st', empty_batch, c3) else (st, out, c3))"

lemma batch_loop_length:
  "batch_loop d sql batch out c = (st, out', c') \<Longrightarrow> status_ok st \<Longrightarrow>
     length (batch_affected out') = length (batch_affected out) + length batch \<and>
     length (batch_keys out') = length (batch_keys out) + length batch"
  by (induction batch arbitrary: out c) (auto split: prod.splits if_splits)

lemma batch_loop_view:
  assumes "\<And>ps c. view (snd (snd (snd (op_execute_keys d sql ps c)))) = view c"
  shows "view (snd (snd (batch_loop d sql batch out c))) = view c"
  using assms
proof (induction batch arbitrary: out c)
  case (Cons ps batch)
  obtain st aff ks c' where ex: "op_execute_keys d sql ps c = (st, aff, ks, c')"
    by (metis prod_cases4)
  with Cons.prems [of ps c] have "view c' = view c" by simp
  with ex Cons.IH Cons.prems show ?case by auto
qed simp


text \<open>A server with one cell: the committed value and, in a transaction, the pending one.\<close>

definition cell_ops :: "(int \<times> int option) conn_ops" where
  "cell_ops = \<lparr>op_query = (\<lambda>sql c. (status_OK, empty_rs, c)),
     op_query_params = (\<lambda>sql ps c. (status_OK, empty_rs, c)),
     op_execute = (\<lambda>sql c. (status_OK, 0, c)),
     op_execute_params = (\<lambda>sql ps c. (status_OK, 0, c)),
     op_execute_keys = (\<lambda>sql ps c. (case ps of
         [VInt i] \<Rightarrow> (status_OK, 1, empty_rs, (fst c, Some (sint i)))
       | _ \<Rightarrow> (status_error QueryError ''bad'', 0, empty_rs, c))),
     op_begin = (\<lambda>c. (status_OK, (fst c, Some (fst c)))),
     op_commit = (\<lambda>c. (status_OK, (case snd c of None \<Rightarrow> c | Some v \<Rightarrow> (v, None)))),
     op_rollback = (\<lambda>c. (status_OK, (fst c, None))),
     op_inTransaction = (\<lambda>c. snd c \<noteq> None),
     op_escapeLiteral = (\<lambda>_. ''?''),
     op_allowsLiteralInterpolation = False\<rparr>"


end
