(* ===== verification/Pool.thy ===== *)
theory Pool
  imports Types
begin

text \<open>
  The critical sections of \<open>src/core/connection_pool.cpp\<close>. A pool operation alternates between
  sections under the pool's mutex and slow calls outside it (connect, ping, close, callbacks); each
  section is one function on the state, and the theory \<open>PoolSystem\<close> interleaves them.

  Time points and durations are integers, in nanoseconds and milliseconds. A connection object is
  its identity, a number; a completion callback too. Counters are natural numbers.
\<close>

type_synonym conn = nat
type_synonym callback = nat

definition ms :: "int \<Rightarrow> int" where
  "ms n = n * 1000000"

record idle_conn =
  ic_conn :: conn
  ic_createdAt :: int
  ic_returnedAt :: int
  ic_lastValidated :: int

record waiter =
  w_enqueuedAt :: int
  w_deadline :: int
  w_complete :: callback

record handle =
  h_conn :: conn
  h_createdAt :: int
  h_borrowedAt :: int

record pool_cfg =
  minConn :: int
  maxConn :: int
  borrowTimeout :: int
  idleTimeout :: int

record pool =
  idle :: "idle_conn list"
  total :: int
  borrowed :: int
  waiting :: int
  closed :: bool
  metricsEnabled :: bool
  pooled :: bool
  poolName :: string
  maxLifetime :: int
  leakDetectionThreshold :: int
  validationInterval :: int
  connectionsCreated :: nat
  connectionsClosed :: nat
  borrowTimeouts :: nat
  validationFailures :: nat
  leakWarnings :: nat
  maxBorrowed :: int
  maxWaiting :: int
  borrowRequests :: nat
  borrowSuccesses :: nat
  connectionCreateFailures :: nat
  invalidatedConnections :: nat
  idleEvictions :: nat
  lifetimeEvictions :: nat
  totalBorrowWait :: int
  maxBorrowWait :: int
  asyncWaiters :: "waiter list"

text \<open>A delivered completion: the callback, the handle if any, and the status.\<close>

type_synonym reply = "callback \<times> handle option \<times> status"

section \<open>Helpers\<close>

definition poolExhaustedMessage :: "string \<Rightarrow> int \<Rightarrow> int \<Rightarrow> int \<Rightarrow> int \<Rightarrow> string" where
  "poolExhaustedMessage nm mx tot bor waited =
     ''pool '' @ [squote] @ nm @ [squote] @ '' exhausted: waited '' @ int_to_string waited @ ''ms (max='' @
     int_to_string mx @ '', total='' @ int_to_string tot @ '', borrowed='' @ int_to_string bor @ '')''"

definition pool_closed_message :: "string \<Rightarrow> string" where
  "pool_closed_message nm = ''pool '' @ [squote] @ nm @ [squote] @ '' is closed''"

definition datasource_closed_message :: "string \<Rightarrow> string" where
  "datasource_closed_message nm = ''datasource '' @ [squote] @ nm @ [squote] @ '' is closed''"

definition clamp0 :: "int \<Rightarrow> int" where
  "clamp0 n = (if n < 0 then 0 else n)"

definition lifetime_over :: "int \<Rightarrow> int \<Rightarrow> pool \<Rightarrow> bool" where
  "lifetime_over now createdAt s \<longleftrightarrow> 0 < maxLifetime s \<and> ms (maxLifetime s) \<le> now - createdAt"

definition needsPing :: "int \<Rightarrow> idle_conn \<Rightarrow> pool \<Rightarrow> bool" where
  "needsPing now item s \<longleftrightarrow> validationInterval s \<le> 0 \<or>
     ms (validationInterval s) \<le> now - ic_lastValidated item"

definition effective_timeout :: "int \<Rightarrow> pool_cfg \<Rightarrow> int" where
  "effective_timeout timeout c = (let t = (if timeout < 0 then borrowTimeout c else timeout) in if t < 0 then 0 else t)"

definition count_success :: "pool \<Rightarrow> pool" where
  "count_success s =
     (if metricsEnabled s
      then s\<lparr>borrowSuccesses := borrowSuccesses s + 1, maxBorrowed := max (maxBorrowed s) (borrowed s)\<rparr> else s)"

definition recordWait :: "int \<Rightarrow> int \<Rightarrow> pool \<Rightarrow> pool" where
  "recordWait started now s =
     (if \<not> metricsEnabled s then s
      else let waited = (now - started) div 1000
        in s\<lparr>totalBorrowWait := totalBorrowWait s + waited, maxBorrowWait := max (maxBorrowWait s) waited\<rparr>)"

definition recordSuccess :: "int \<Rightarrow> int \<Rightarrow> pool \<Rightarrow> pool" where
  "recordSuccess started now s = count_success (recordWait started now s)"

definition count_timeout :: "pool \<Rightarrow> pool" where
  "count_timeout s = (if metricsEnabled s then s\<lparr>borrowTimeouts := borrowTimeouts s + 1\<rparr> else s)"

section \<open>Construction\<close>

definition new_pool ::
  "string \<Rightarrow> int \<Rightarrow> int \<Rightarrow> int \<Rightarrow> int \<Rightarrow> int \<Rightarrow> int \<Rightarrow> int \<Rightarrow> bool \<Rightarrow> bool \<Rightarrow> pool_cfg \<times> pool" where
  "new_pool nm minC maxC borrowT idleT lifeT leakT validT metrics isPooled =
     (let mx = max maxC 1; mn = min (max minC 0) mx
      in (\<lparr>minConn = mn, maxConn = mx, borrowTimeout = borrowT, idleTimeout = max idleT 0\<rparr>,
          \<lparr>idle = [], total = 0, borrowed = 0, waiting = 0, closed = False, metricsEnabled = metrics,
           pooled = isPooled, poolName = nm, maxLifetime = max lifeT 0,
           leakDetectionThreshold = max leakT 0, validationInterval = max validT 0,
           connectionsCreated = 0, connectionsClosed = 0, borrowTimeouts = 0, validationFailures = 0,
           leakWarnings = 0, maxBorrowed = 0, maxWaiting = 0, borrowRequests = 0, borrowSuccesses = 0,
           connectionCreateFailures = 0, invalidatedConnections = 0, idleEvictions = 0,
           lifetimeEvictions = 0, totalBorrowWait = 0, maxBorrowWait = 0, asyncWaiters = []\<rparr>))"

text \<open>The warm-up loop of the constructor, for the results of its connection attempts and their
  times; returns the connections it closed.\<close>

fun warmup :: "pool_cfg \<Rightarrow> (conn option \<times> int) list \<Rightarrow> nat \<Rightarrow> pool \<Rightarrow> pool \<times> conn list" where
  "warmup c results 0 s = (s, [])"
| "warmup c [] (Suc n) s = (s, [])"
| "warmup c ((None, now) # results) (Suc n) s =
     (s\<lparr>connectionCreateFailures := connectionCreateFailures s + 1\<rparr>, [])"
| "warmup c ((Some cn, now) # results) (Suc n) s =
     (if maxConn c \<le> total s then (s, [cn])
      else warmup c results n
        (s\<lparr>idle := idle s @ [\<lparr>ic_conn = cn, ic_createdAt = now, ic_returnedAt = now, ic_lastValidated = 0\<rparr>],
           total := total s + 1, connectionsCreated := connectionsCreated s + 1\<rparr>))"

definition construct_pool :: "pool_cfg \<times> pool \<Rightarrow> (conn option \<times> int) list \<Rightarrow> pool \<times> conn list" where
  "construct_pool cp results =
     (if pooled (snd cp) then warmup (fst cp) results (nat (minConn (fst cp))) (snd cp) else (snd cp, []))"

section \<open>Expired waiters\<close>

text \<open>The loop that takes the expired waiters out, in order, counting each.\<close>

fun expire_loop :: "int \<Rightarrow> string \<Rightarrow> int \<Rightarrow> waiter list \<Rightarrow> pool \<Rightarrow> waiter list \<times> reply list \<times> pool" where
  "expire_loop now nm mx [] s = ([], [], s)"
| "expire_loop now nm mx (w # ws) s =
     (if w_deadline w \<le> now then
        (let s1 = count_timeout s;
             st = status_error PoolExhausted
               (poolExhaustedMessage nm mx (total s1) (borrowed s1) ((now - w_enqueuedAt w) div 1000000))
         in case expire_loop now nm mx ws s1 of (kept, replies, s2) \<Rightarrow> (kept, (w_complete w, None, st) # replies, s2))
      else case expire_loop now nm mx ws s of (kept, replies, s2) \<Rightarrow> (w # kept, replies, s2))"

definition expireWaiters :: "int \<Rightarrow> int \<Rightarrow> pool \<Rightarrow> pool \<times> reply list" where
  "expireWaiters now mx s =
     (if asyncWaiters s = [] then (s, [])
      else case expire_loop now (poolName s) mx (asyncWaiters s) s of
        (kept, replies, s1) \<Rightarrow> (s1\<lparr>asyncWaiters := kept\<rparr>, replies))"

section \<open>Returning a connection\<close>

text \<open>The result holds the state, the replies delivered and the connections closed.\<close>

definition returnConn :: "int \<Rightarrow> int \<Rightarrow> handle \<Rightarrow> bool \<Rightarrow> pool \<Rightarrow> pool \<times> (callback \<times> handle) option \<times> reply list \<times> conn list" where
  "returnConn now mx h reusable s =
     (let leaked = 0 < leakDetectionThreshold s \<and> ms (leakDetectionThreshold s) \<le> now - h_borrowedAt h;
          s1 = (if leaked then s\<lparr>leakWarnings := leakWarnings s + 1\<rparr> else s);
          s2 = (if 0 < borrowed s1 then s1\<lparr>borrowed := borrowed s1 - 1\<rparr> else s1);
          expired = lifetime_over now (h_createdAt h) s2
      in if closed s2 \<or> expired \<or> \<not> reusable \<or> \<not> pooled s2 then
           (let s3 = s2\<lparr>connectionsClosed := connectionsClosed s2 + 1\<rparr>;
                s4 = (if \<not> reusable then s3\<lparr>invalidatedConnections := invalidatedConnections s3 + 1\<rparr>
                      else if expired then s3\<lparr>lifetimeEvictions := lifetimeEvictions s3 + 1\<rparr> else s3);
                s5 = (if 0 < total s4 then s4\<lparr>total := total s4 - 1\<rparr> else s4)
            in (s5, None, [], [h_conn h]))
         else
           (case expire_loop now (poolName s2) mx (asyncWaiters s2) s2 of
              (kept, replies, s3) \<Rightarrow>
                (case kept of
                   w # ws \<Rightarrow>
                     (let s4 = count_success (s3\<lparr>asyncWaiters := ws, borrowed := borrowed s3 + 1\<rparr>);
                          h' = \<lparr>h_conn = h_conn h, h_createdAt = h_createdAt h, h_borrowedAt = now\<rparr>
                      in (s4, Some (w_complete w, h'), [], []))
                 | [] \<Rightarrow>
                     (s3\<lparr>asyncWaiters := [], idle := idle s3 @ [\<lparr>ic_conn = h_conn h, ic_createdAt = h_createdAt h,
                         ic_returnedAt = now, ic_lastValidated = 0\<rparr>]\<rparr>, None, replies, []))))"

section \<open>Blocking borrow\<close>

text \<open>Where a pass of \<open>borrow\<close> through its loop leaves the mutex.\<close>

datatype borrow_next =
  BReturn "handle option" error_code string
| BValidate idle_conn
| BCreate
| BCreateUnpooled
| BWait
| BAgain "conn list"

definition borrow_request :: "pool \<Rightarrow> pool" where
  "borrow_request s = (if metricsEnabled s then s\<lparr>borrowRequests := borrowRequests s + 1\<rparr> else s)"

definition exhausted :: "int \<Rightarrow> int \<Rightarrow> int \<Rightarrow> pool_cfg \<Rightarrow> pool \<Rightarrow> pool \<times> borrow_next" where
  "exhausted started now timeout c s =
     (let s1 = count_timeout s
      in (recordWait started now s1,
          BReturn None PoolExhausted (poolExhaustedMessage (poolName s) (maxConn c) (total s1) (borrowed s1) timeout)))"

definition borrow_pass :: "int \<Rightarrow> int \<Rightarrow> int \<Rightarrow> pool_cfg \<Rightarrow> pool \<Rightarrow> pool \<times> borrow_next" where
  "borrow_pass started now timeout c s =
     (if \<not> pooled s then
        (if closed s then (recordWait started now s, BReturn None PoolClosed (datasource_closed_message (poolName s)))
         else (s, BCreateUnpooled))
      else if closed s then (recordWait started now s, BReturn None PoolClosed (pool_closed_message (poolName s)))
      else case idle s of
        item # rest \<Rightarrow> (s\<lparr>idle := rest\<rparr>, BValidate item)
      | [] \<Rightarrow>
        if total s < maxConn c then (s\<lparr>total := total s + 1\<rparr>, BCreate)
        else if timeout = 0 then exhausted started now timeout c s
        else let s1 = s\<lparr>waiting := waiting s + 1\<rparr>
          in ((if metricsEnabled s then s1\<lparr>maxWaiting := max (maxWaiting s1) (waiting s1)\<rparr> else s1), BWait))"

text \<open>Outside the mutex: whether the popped connection may be used. \<open>pong\<close> is the answer to the
  ping, which is sent only when needed.\<close>

definition validated :: "int \<Rightarrow> idle_conn \<Rightarrow> bool \<Rightarrow> pool \<Rightarrow> bool" where
  "validated now item pong s \<longleftrightarrow> \<not> lifetime_over now (ic_createdAt item) s \<and> (\<not> needsPing now item s \<or> pong)"

definition borrow_validated :: "int \<Rightarrow> int \<Rightarrow> idle_conn \<Rightarrow> bool \<Rightarrow> bool \<Rightarrow> pool \<Rightarrow> pool \<times> borrow_next \<times> conn list" where
  "borrow_validated started now item expired alive s =
     (if alive then
        (if closed s then
           (recordWait started now s, BReturn None PoolClosed (pool_closed_message (poolName s)), [ic_conn item])
         else
           (recordSuccess started now (s\<lparr>borrowed := borrowed s + 1\<rparr>),
            BReturn (Some \<lparr>h_conn = ic_conn item, h_createdAt = ic_createdAt item, h_borrowedAt = now\<rparr>) Ok [], []))
      else
        (let s1 = s\<lparr>total := total s - 1, connectionsClosed := connectionsClosed s + 1\<rparr>;
             s2 = (if expired then s1\<lparr>lifetimeEvictions := lifetimeEvictions s1 + 1\<rparr>
                   else s1\<lparr>validationFailures := validationFailures s1 + 1\<rparr>)
         in (s2\<lparr>total := clamp0 (total s2)\<rparr>, BAgain [ic_conn item], [ic_conn item])))"

text \<open>The outcome of \<open>createConnection\<close>: a connection, or an error code and message.\<close>

type_synonym created = "error_code \<times> string + conn"

definition borrow_created :: "int \<Rightarrow> int \<Rightarrow> created \<Rightarrow> pool \<Rightarrow> pool \<times> borrow_next \<times> conn list" where
  "borrow_created started now result s =
     (case result of
        Inr cn \<Rightarrow>
          (if closed s then
             (recordWait started now (s\<lparr>total := total s - 1\<rparr>),
              BReturn None PoolClosed (pool_closed_message (poolName s)), [cn])
           else
             (recordSuccess started now (s\<lparr>borrowed := borrowed s + 1, connectionsCreated := connectionsCreated s + 1\<rparr>),
              BReturn (Some \<lparr>h_conn = cn, h_createdAt = now, h_borrowedAt = now\<rparr>) Ok [], []))
      | Inl (ec, err) \<Rightarrow>
          (let s1 = s\<lparr>total := total s - 1, connectionCreateFailures := connectionCreateFailures s + 1\<rparr>
           in (recordWait started now (s1\<lparr>total := clamp0 (total s1)\<rparr>), BReturn None ec err, [])))"

definition borrow_unpooled_created :: "int \<Rightarrow> int \<Rightarrow> created \<Rightarrow> pool \<Rightarrow> pool \<times> borrow_next \<times> conn list" where
  "borrow_unpooled_created started now result s =
     (case result of
        Inl (ec, err) \<Rightarrow>
          (recordWait started now (s\<lparr>connectionCreateFailures := connectionCreateFailures s + 1\<rparr>),
           BReturn None ec err, [])
      | Inr cn \<Rightarrow>
          (if closed s then
             (recordWait started now s, BReturn None PoolClosed (datasource_closed_message (poolName s)), [cn])
           else
             (recordSuccess started now (s\<lparr>total := total s + 1, borrowed := borrowed s + 1,
                connectionsCreated := connectionsCreated s + 1\<rparr>),
              BReturn (Some \<lparr>h_conn = cn, h_createdAt = now, h_borrowedAt = now\<rparr>) Ok [], [])))"

definition borrow_waited :: "int \<Rightarrow> int \<Rightarrow> int \<Rightarrow> bool \<Rightarrow> pool_cfg \<Rightarrow> pool \<Rightarrow> pool \<times> borrow_next" where
  "borrow_waited started now timeout timed_out c s =
     (let s1 = s\<lparr>waiting := waiting s - 1\<rparr>
      in if timed_out then exhausted started now timeout c s1 else (s1, BAgain []))"

section \<open>Asynchronous borrow\<close>

datatype async_next =
  ADeliver "handle option" status
| ARetry conn
| APing idle_conn
| ACreate bool
| AQueued

definition borrowAsync :: "int \<Rightarrow> int \<Rightarrow> callback \<Rightarrow> pool_cfg \<Rightarrow> pool \<Rightarrow> pool \<times> async_next" where
  "borrowAsync now effective cb c s0 =
     (let s = borrow_request s0
      in if closed s then (s, ADeliver None (status_error PoolClosed (pool_closed_message (poolName s))))
         else if \<not> pooled s then (s, ACreate False)
         else case idle s of
           item # rest \<Rightarrow>
             (let s1 = s\<lparr>idle := rest\<rparr>
              in if lifetime_over now (ic_createdAt item) s1 then
                   (s1\<lparr>total := clamp0 (total s1 - 1), connectionsClosed := connectionsClosed s1 + 1,
                       lifetimeEvictions := lifetimeEvictions s1 + 1\<rparr>, ARetry (ic_conn item))
                 else if \<not> needsPing now item s1 then
                   (count_success (s1\<lparr>borrowed := borrowed s1 + 1\<rparr>),
                    ADeliver (Some \<lparr>h_conn = ic_conn item, h_createdAt = ic_createdAt item, h_borrowedAt = now\<rparr>) status_OK)
                 else (s1, APing item))
         | [] \<Rightarrow>
             if total s < maxConn c then (s\<lparr>total := total s + 1\<rparr>, ACreate True)
             else if effective = 0 then
               (let s1 = count_timeout s
                in (s1, ADeliver None (status_error PoolExhausted
                      (poolExhaustedMessage (poolName s) (maxConn c) (total s1) (borrowed s1) 0))))
             else (s\<lparr>asyncWaiters := asyncWaiters s @
                     [\<lparr>w_enqueuedAt = now, w_deadline = now + ms effective, w_complete = cb\<rparr>]\<rparr>, AQueued))"

text \<open>The task that pings a popped connection: it delivers, or frees the slot and borrows again.\<close>

definition async_pinged :: "int \<Rightarrow> idle_conn \<Rightarrow> bool \<Rightarrow> pool \<Rightarrow> pool \<times> async_next \<times> conn list" where
  "async_pinged now item alive s =
     (if closed s then (s, ADeliver None (status_error PoolClosed ''pool is closed''), [ic_conn item])
      else if alive then
        (count_success (s\<lparr>borrowed := borrowed s + 1\<rparr>),
         ADeliver (Some \<lparr>h_conn = ic_conn item, h_createdAt = ic_createdAt item, h_borrowedAt = now\<rparr>) status_OK, [])
      else
        (s\<lparr>total := clamp0 (total s - 1), connectionsClosed := connectionsClosed s + 1,
           validationFailures := validationFailures s + 1\<rparr>, ARetry (ic_conn item), [ic_conn item]))"

definition postCreateTask :: "int \<Rightarrow> bool \<Rightarrow> created \<Rightarrow> pool \<Rightarrow> pool \<times> handle option \<times> status \<times> conn list" where
  "postCreateTask now slotReserved result s =
     (if closed s then
        ((if slotReserved \<and> 0 < total s then s\<lparr>total := total s - 1\<rparr> else s), None,
         status_error PoolClosed (pool_closed_message (poolName s)),
         (case result of Inr cn \<Rightarrow> [cn] | Inl _ \<Rightarrow> []))
      else case result of
        Inl (ec, err) \<Rightarrow>
          ((if slotReserved
            then s\<lparr>total := clamp0 (total s - 1), connectionCreateFailures := connectionCreateFailures s + 1\<rparr>
            else s\<lparr>connectionCreateFailures := connectionCreateFailures s + 1\<rparr>), None,
           (if ec = ConnectionFailed then (status_error ec err)\<lparr>retryable := True, connectionBroken := True\<rparr>
            else status_error ec err), [])
      | Inr cn \<Rightarrow>
          (let s1 = (if slotReserved then s else s\<lparr>total := total s + 1\<rparr>);
               s2 = s1\<lparr>borrowed := borrowed s1 + 1, connectionsCreated := connectionsCreated s1 + 1\<rparr>
           in (count_success s2, Some \<lparr>h_conn = cn, h_createdAt = now, h_borrowedAt = now\<rparr>, status_OK, [])))"

section \<open>Health check\<close>

definition health_pop :: "int \<Rightarrow> pool_cfg \<Rightarrow> pool \<Rightarrow> (pool \<times> idle_conn \<times> bool) option" where
  "health_pop now c s =
     (if closed s then None
      else case idle s of [] \<Rightarrow> None
      | item # rest \<Rightarrow> Some (s\<lparr>idle := rest\<rparr>, item,
          0 < idleTimeout c \<and> ms (idleTimeout c) \<le> now - ic_returnedAt item \<and> minConn c < total s))"

definition health_alive :: "int \<Rightarrow> idle_conn \<Rightarrow> bool \<Rightarrow> bool \<Rightarrow> pool \<Rightarrow> bool" where
  "health_alive now item retireForIdle pong s \<longleftrightarrow>
     \<not> retireForIdle \<and> \<not> lifetime_over now (ic_createdAt item) s \<and> pong"

definition health_put :: "idle_conn \<Rightarrow> bool \<Rightarrow> bool \<Rightarrow> bool \<Rightarrow> pool \<Rightarrow> pool \<times> conn list" where
  "health_put item retireForIdle expired alive s =
     (if alive \<and> \<not> closed s then (s\<lparr>idle := idle s @ [item]\<rparr>, [])
      else
        (let s1 = s\<lparr>total := total s - 1, connectionsClosed := connectionsClosed s + 1\<rparr>;
             s2 = (if retireForIdle then s1\<lparr>idleEvictions := idleEvictions s1 + 1\<rparr>
                   else if expired then s1\<lparr>lifetimeEvictions := lifetimeEvictions s1 + 1\<rparr>
                   else s1\<lparr>validationFailures := validationFailures s1 + 1\<rparr>)
         in (s2\<lparr>total := clamp0 (total s2)\<rparr>, [ic_conn item])))"

definition health_need :: "pool_cfg \<Rightarrow> pool \<Rightarrow> int" where
  "health_need c s = min (max (minConn c - total s) 0) (max (maxConn c - total s) 0)"

definition health_plan :: "pool_cfg \<Rightarrow> pool \<Rightarrow> (pool \<times> nat) option" where
  "health_plan c s =
     (if closed s then None else Some (s\<lparr>total := total s + health_need c s\<rparr>, nat (health_need c s)))"

definition health_create_failed :: "pool \<Rightarrow> pool" where
  "health_create_failed s = s\<lparr>connectionCreateFailures := connectionCreateFailures s + 1\<rparr>"

definition health_refill :: "nat \<Rightarrow> idle_conn list \<Rightarrow> pool \<Rightarrow> pool \<times> conn list" where
  "health_refill need fresh s =
     (let s1 = s\<lparr>total := clamp0 (total s - (int need - int (length fresh))),
                 connectionsCreated := connectionsCreated s + length fresh\<rparr>
      in if closed s1 then (s1, map ic_conn fresh) else (s1\<lparr>idle := idle s1 @ fresh\<rparr>, []))"

section \<open>Shutdown and counters\<close>

definition shutdown_begin :: "pool \<Rightarrow> pool \<times> reply list" where
  "shutdown_begin s =
     (s\<lparr>closed := True, asyncWaiters := []\<rparr>,
      map (\<lambda>w. (w_complete w, None, status_error PoolClosed (pool_closed_message (poolName s)))) (asyncWaiters s))"

definition shutdown_drain :: "pool \<Rightarrow> (pool \<times> conn) option" where
  "shutdown_drain s =
     (case idle s of [] \<Rightarrow> None
      | item # rest \<Rightarrow> Some (s\<lparr>idle := rest, connectionsClosed := connectionsClosed s + 1\<rparr>, ic_conn item))"

definition shutdown_end :: "pool \<Rightarrow> pool" where
  "shutdown_end s = s\<lparr>total := borrowed s\<rparr>"

definition idleCount :: "pool \<Rightarrow> nat" where
  "idleCount s = length (idle s)"

definition totalCount :: "pool \<Rightarrow> 64 word" where
  "totalCount s = word_of_int (total s)"

definition borrowedCount :: "pool \<Rightarrow> 64 word" where
  "borrowedCount s = word_of_int (borrowed s)"

text \<open>\<open>createConnection\<close>: what the driver's factory and \<open>connect\<close> answered.\<close>

definition createConnection :: "string \<Rightarrow> (status \<times> conn) option \<Rightarrow> created" where
  "createConnection driver_name answer =
     (case answer of
        None \<Rightarrow> Inl (ConnectionFailed, ''driver '' @ [squote] @ driver_name @ [squote] @ '' returned a null connection'')
      | Some (st, cn) \<Rightarrow> if \<not> status_ok st then Inl (code st, message st) else Inr cn)"

end
