(* ===== verification/PoolSystem.thy ===== *)
theory PoolSystem
  imports Pool "HOL-Library.Multiset"
begin

text \<open>
  The pool as a concurrent system: any number of threads and executor tasks run the operations
  of \<open>connection_pool.cpp\<close>, interleaved at the critical sections of the theory \<open>Pool\<close>. A task is
  an operation between two sections, with what it holds there: a connection taken from the idle
  queue, a slot reserved for a connection being created, a completion callback. The clock, the
  answers of the driver (connect, ping) and the scheduling are free.

  The closing of an idle connection during shutdown and the counting of it, two sections in the
  source, are one step here.
\<close>

datatype task =
  TBorrow int int
| TValidate int int idle_conn
| TCreate int int
| TCreateUnpooled int int
| TWait int int
| TAsync callback int
| TAsyncPing callback int idle_conn
| TAsyncCreate callback bool
| THealth nat
| THealthItem nat idle_conn bool
| TRefill nat nat "idle_conn list"
| TDrain

record world =
  w_pool :: pool
  tasks :: "task multiset"
  held :: "handle multiset"
  replies :: "reply multiset"
  made :: "conn multiset"
  gone :: "conn multiset"
  asked :: "callback multiset"

text \<open>The slots of \<open>total\<close>, the connections and the callbacks that a task holds.\<close>

fun slots :: "task \<Rightarrow> nat" where
  "slots (TValidate _ _ _) = 1"
| "slots (TCreate _ _) = 1"
| "slots (TAsyncPing _ _ _) = 1"
| "slots (TAsyncCreate _ reserved) = (if reserved then 1 else 0)"
| "slots (THealthItem _ _ _) = 1"
| "slots (TRefill need _ _) = need"
| "slots _ = 0"

fun task_conns :: "task \<Rightarrow> conn multiset" where
  "task_conns (TValidate _ _ item) = {#ic_conn item#}"
| "task_conns (TAsyncPing _ _ item) = {#ic_conn item#}"
| "task_conns (THealthItem _ item _) = {#ic_conn item#}"
| "task_conns (TRefill _ _ fresh) = mset (map ic_conn fresh)"
| "task_conns _ = {#}"

fun task_calls :: "task \<Rightarrow> callback multiset" where
  "task_calls (TAsync cb _) = {#cb#}"
| "task_calls (TAsyncPing cb _ _) = {#cb#}"
| "task_calls (TAsyncCreate cb _) = {#cb#}"
| "task_calls _ = {#}"

text \<open>A refill keeps no more fresh connections than it reserved slots for, and a connection is
  created without a slot only where the pool does not keep connections.\<close>

fun task_ok :: "bool \<Rightarrow> task \<Rightarrow> bool" where
  "task_ok p (TRefill need left fresh) \<longleftrightarrow> length fresh + left \<le> need"
| "task_ok p (TCreateUnpooled _ _) \<longleftrightarrow> \<not> p"
| "task_ok p (TAsyncCreate _ reserved) \<longleftrightarrow> reserved \<or> \<not> p"
| "task_ok p _ \<longleftrightarrow> True"

fun next_tasks :: "int \<Rightarrow> int \<Rightarrow> borrow_next \<Rightarrow> task multiset" where
  "next_tasks started timeout (BReturn _ _ _) = {#}"
| "next_tasks started timeout (BValidate item) = {#TValidate started timeout item#}"
| "next_tasks started timeout BCreate = {#TCreate started timeout#}"
| "next_tasks started timeout BCreateUnpooled = {#TCreateUnpooled started timeout#}"
| "next_tasks started timeout BWait = {#TWait started timeout#}"
| "next_tasks started timeout (BAgain _) = {#TBorrow started timeout#}"

fun next_held :: "borrow_next \<Rightarrow> handle multiset" where
  "next_held (BReturn (Some h) _ _) = {#h#}"
| "next_held _ = {#}"

fun async_tasks :: "callback \<Rightarrow> int \<Rightarrow> async_next \<Rightarrow> task multiset" where
  "async_tasks cb eff (ADeliver _ _) = {#}"
| "async_tasks cb eff (ARetry _) = {#TAsync cb eff#}"
| "async_tasks cb eff (APing item) = {#TAsyncPing cb eff item#}"
| "async_tasks cb eff (ACreate reserved) = {#TAsyncCreate cb reserved#}"
| "async_tasks cb eff AQueued = {#}"

fun async_held :: "async_next \<Rightarrow> handle multiset" where
  "async_held (ADeliver (Some h) _) = {#h#}"
| "async_held _ = {#}"

fun async_replies :: "callback \<Rightarrow> async_next \<Rightarrow> reply multiset" where
  "async_replies cb (ADeliver h st) = {#(cb, h, st)#}"
| "async_replies cb _ = {#}"

fun async_gone :: "async_next \<Rightarrow> conn multiset" where
  "async_gone (ARetry cn) = {#cn#}"
| "async_gone _ = {#}"

definition made_conns :: "created \<Rightarrow> conn multiset" where
  "made_conns r = (case r of Inl _ \<Rightarrow> {#} | Inr cn \<Rightarrow> {#cn#})"

definition is_new :: "created \<Rightarrow> world \<Rightarrow> bool" where
  "is_new r w \<longleftrightarrow> (case r of Inl _ \<Rightarrow> True | Inr cn \<Rightarrow> cn \<notin># made w)"

inductive pool_step :: "pool_cfg \<Rightarrow> world \<Rightarrow> world \<Rightarrow> bool" for c :: pool_cfg where
  start_borrow:
    "pool_step c w (w\<lparr>w_pool := borrow_request (w_pool w),
       tasks := add_mset (TBorrow now (effective_timeout timeout c)) (tasks w)\<rparr>)"
| pass:
    "tasks w = add_mset (TBorrow started timeout) T \<Longrightarrow>
     borrow_pass started now timeout c (w_pool w) = (s, nx) \<Longrightarrow>
     pool_step c w (w\<lparr>w_pool := s, tasks := T + next_tasks started timeout nx, held := held w + next_held nx\<rparr>)"
| validate:
    "tasks w = add_mset (TValidate started timeout item) T \<Longrightarrow>
     expired = lifetime_over t0 (ic_createdAt item) (w_pool w) \<Longrightarrow>
     alive = validated t0 item pong (w_pool w) \<Longrightarrow>
     borrow_validated started now item expired alive (w_pool w) = (s, nx, cs) \<Longrightarrow>
     pool_step c w (w\<lparr>w_pool := s, tasks := T + next_tasks started timeout nx,
       held := held w + next_held nx, gone := gone w + mset cs\<rparr>)"
| create:
    "tasks w = add_mset (TCreate started timeout) T \<Longrightarrow> is_new r w \<Longrightarrow>
     borrow_created started now r (w_pool w) = (s, nx, cs) \<Longrightarrow>
     pool_step c w (w\<lparr>w_pool := s, tasks := T + next_tasks started timeout nx,
       held := held w + next_held nx, gone := gone w + mset cs, made := made w + made_conns r\<rparr>)"
| create_unpooled:
    "tasks w = add_mset (TCreateUnpooled started timeout) T \<Longrightarrow> is_new r w \<Longrightarrow>
     borrow_unpooled_created started now r (w_pool w) = (s, nx, cs) \<Longrightarrow>
     pool_step c w (w\<lparr>w_pool := s, tasks := T + next_tasks started timeout nx,
       held := held w + next_held nx, gone := gone w + mset cs, made := made w + made_conns r\<rparr>)"
| wake:
    "tasks w = add_mset (TWait started timeout) T \<Longrightarrow>
     borrow_waited started now timeout timed_out c (w_pool w) = (s, nx) \<Longrightarrow>
     pool_step c w (w\<lparr>w_pool := s, tasks := T + next_tasks started timeout nx\<rparr>)"
| give_back:
    "held w = add_mset h H \<Longrightarrow>
     returnConn now (maxConn c) h reusable (w_pool w) = (s, handoff, rs, cs) \<Longrightarrow>
     pool_step c w (w\<lparr>w_pool := s,
       held := (case handoff of None \<Rightarrow> H | Some (cb, h') \<Rightarrow> add_mset h' H),
       replies := (case handoff of None \<Rightarrow> replies w + mset rs
         | Some (cb, h') \<Rightarrow> add_mset (cb, Some h', status_OK) (replies w) + mset rs),
       gone := gone w + mset cs\<rparr>)"
| expire:
    "expireWaiters now (maxConn c) (w_pool w) = (s, rs) \<Longrightarrow>
     pool_step c w (w\<lparr>w_pool := s, replies := replies w + mset rs\<rparr>)"
| start_async:
    "cb \<notin># asked w \<Longrightarrow>
     pool_step c w (w\<lparr>tasks := add_mset (TAsync cb (effective_timeout timeout c)) (tasks w),
       asked := add_mset cb (asked w)\<rparr>)"
| async:
    "tasks w = add_mset (TAsync cb eff) T \<Longrightarrow>
     borrowAsync now eff cb c (w_pool w) = (s, nx) \<Longrightarrow>
     pool_step c w (w\<lparr>w_pool := s, tasks := T + async_tasks cb eff nx, held := held w + async_held nx,
       replies := replies w + async_replies cb nx, gone := gone w + async_gone nx\<rparr>)"
| async_ping:
    "tasks w = add_mset (TAsyncPing cb eff item) T \<Longrightarrow>
     async_pinged now item pong (w_pool w) = (s, nx, cs) \<Longrightarrow>
     pool_step c w (w\<lparr>w_pool := s, tasks := T + async_tasks cb eff nx, held := held w + async_held nx,
       replies := replies w + async_replies cb nx, gone := gone w + mset cs\<rparr>)"
| async_create:
    "tasks w = add_mset (TAsyncCreate cb reserved) T \<Longrightarrow> is_new r w \<Longrightarrow>
     postCreateTask now reserved r (w_pool w) = (s, h, st, cs) \<Longrightarrow>
     pool_step c w (w\<lparr>w_pool := s, tasks := T, held := held w + (case h of None \<Rightarrow> {#} | Some h' \<Rightarrow> {#h'#}),
       replies := add_mset (cb, h, st) (replies w), gone := gone w + mset cs, made := made w + made_conns r\<rparr>)"
| start_health:
    "pooled (w_pool w) \<Longrightarrow> pool_step c w (w\<lparr>tasks := add_mset (THealth (idleCount (w_pool w))) (tasks w)\<rparr>)"
| health_take:
    "tasks w = add_mset (THealth (Suc n)) T \<Longrightarrow>
     health_pop now c (w_pool w) = Some (s, item, retire) \<Longrightarrow>
     pool_step c w (w\<lparr>w_pool := s, tasks := add_mset (THealthItem n item retire) T\<rparr>)"
| health_check:
    "tasks w = add_mset (THealthItem n item retire) T \<Longrightarrow>
     expired = lifetime_over now (ic_createdAt item) (w_pool w) \<Longrightarrow>
     alive = health_alive now item retire pong (w_pool w) \<Longrightarrow>
     health_put item retire expired alive (w_pool w) = (s, cs) \<Longrightarrow>
     pool_step c w (w\<lparr>w_pool := s, tasks := add_mset (THealth n) T, gone := gone w + mset cs\<rparr>)"
| health_reserve:
    "tasks w = add_mset (THealth n) T \<Longrightarrow> n = 0 \<or> health_pop now c (w_pool w) = None \<Longrightarrow>
     pooled (w_pool w) \<Longrightarrow> health_plan c (w_pool w) = Some (s, need) \<Longrightarrow>
     pool_step c w (w\<lparr>w_pool := s, tasks := add_mset (TRefill need need []) T\<rparr>)"
| health_stop:
    "tasks w = add_mset (THealth n) T \<Longrightarrow> health_plan c (w_pool w) = None \<Longrightarrow>
     pool_step c w (w\<lparr>tasks := T\<rparr>)"
| refill_one:
    "tasks w = add_mset (TRefill need (Suc left) fresh) T \<Longrightarrow> cn \<notin># made w \<Longrightarrow>
     pool_step c w (w\<lparr>tasks := add_mset (TRefill need left (fresh @
       [\<lparr>ic_conn = cn, ic_createdAt = now, ic_returnedAt = now, ic_lastValidated = 0\<rparr>])) T,
       made := add_mset cn (made w)\<rparr>)"
| refill_failed:
    "tasks w = add_mset (TRefill need (Suc left) fresh) T \<Longrightarrow>
     pool_step c w (w\<lparr>w_pool := health_create_failed (w_pool w), tasks := add_mset (TRefill need 0 fresh) T\<rparr>)"
| refill_done:
    "tasks w = add_mset (TRefill need 0 fresh) T \<Longrightarrow>
     health_refill need fresh (w_pool w) = (s, cs) \<Longrightarrow>
     pool_step c w (w\<lparr>w_pool := s, tasks := T, gone := gone w + mset cs\<rparr>)"
| start_shutdown:
    "shutdown_begin (w_pool w) = (s, rs) \<Longrightarrow>
     pool_step c w (w\<lparr>w_pool := s, tasks := add_mset TDrain (tasks w), replies := replies w + mset rs\<rparr>)"
| drain:
    "tasks w = add_mset TDrain T \<Longrightarrow> shutdown_drain (w_pool w) = Some (s, cn) \<Longrightarrow>
     pool_step c w (w\<lparr>w_pool := s, gone := add_mset cn (gone w)\<rparr>)"
| end_shutdown:
    "tasks w = add_mset TDrain T \<Longrightarrow> shutdown_drain (w_pool w) = None \<Longrightarrow>
     pool_step c w (w\<lparr>w_pool := shutdown_end (w_pool w), tasks := T\<rparr>)"

section \<open>Field lemmas\<close>

lemma metrics_fields [simp]:
  "idle (count_success s) = idle s" "total (count_success s) = total s"
  "borrowed (count_success s) = borrowed s" "closed (count_success s) = closed s"
  "pooled (count_success s) = pooled s" "asyncWaiters (count_success s) = asyncWaiters s"
  "idle (count_timeout s) = idle s" "total (count_timeout s) = total s"
  "borrowed (count_timeout s) = borrowed s" "closed (count_timeout s) = closed s"
  "pooled (count_timeout s) = pooled s" "asyncWaiters (count_timeout s) = asyncWaiters s"
  "idle (recordWait t n s) = idle s" "total (recordWait t n s) = total s"
  "borrowed (recordWait t n s) = borrowed s" "closed (recordWait t n s) = closed s"
  "pooled (recordWait t n s) = pooled s" "asyncWaiters (recordWait t n s) = asyncWaiters s"
  "idle (borrow_request s) = idle s" "total (borrow_request s) = total s"
  "borrowed (borrow_request s) = borrowed s" "closed (borrow_request s) = closed s"
  "pooled (borrow_request s) = pooled s" "asyncWaiters (borrow_request s) = asyncWaiters s"
  "idle (health_create_failed s) = idle s" "total (health_create_failed s) = total s"
  "borrowed (health_create_failed s) = borrowed s" "closed (health_create_failed s) = closed s"
  "pooled (health_create_failed s) = pooled s" "asyncWaiters (health_create_failed s) = asyncWaiters s"
  by (simp_all add: count_success_def count_timeout_def recordWait_def borrow_request_def
      health_create_failed_def Let_def)

lemma recordSuccess_fields [simp]:
  "idle (recordSuccess t n s) = idle s" "total (recordSuccess t n s) = total s"
  "borrowed (recordSuccess t n s) = borrowed s" "closed (recordSuccess t n s) = closed s"
  "pooled (recordSuccess t n s) = pooled s" "asyncWaiters (recordSuccess t n s) = asyncWaiters s"
  by (simp_all add: recordSuccess_def)

text \<open>The loop over the waiters partitions them, changes no other field than a counter, and
  reports each expired one.\<close>

lemma expire_loop_pool:
  "idle (snd (snd (expire_loop now nm mx ws s))) = idle s"
  "total (snd (snd (expire_loop now nm mx ws s))) = total s"
  "borrowed (snd (snd (expire_loop now nm mx ws s))) = borrowed s"
  "closed (snd (snd (expire_loop now nm mx ws s))) = closed s"
  "pooled (snd (snd (expire_loop now nm mx ws s))) = pooled s"
  by (induction ws arbitrary: s) (simp_all add: Let_def case_prod_beta)

lemma expire_loop_waiters:
  "fst (expire_loop now nm mx ws s) = filter (\<lambda>w. now < w_deadline w) ws"
  "map fst (fst (snd (expire_loop now nm mx ws s))) = map w_complete (filter (\<lambda>w. w_deadline w \<le> now) ws)"
  "list_all (\<lambda>(cb, h, st). h = None \<and> code st = PoolExhausted) (fst (snd (expire_loop now nm mx ws s)))"
  by (induction ws arbitrary: s) (simp_all add: Let_def case_prod_beta status_error_def not_less)

lemma expire_loop_spec:
  assumes "expire_loop now nm mx ws s = (kept, rs, s')"
  shows "idle s' = idle s" "total s' = total s" "borrowed s' = borrowed s" "closed s' = closed s"
    "pooled s' = pooled s" "kept = filter (\<lambda>w. now < w_deadline w) ws"
    "map fst rs = map w_complete (filter (\<lambda>w. w_deadline w \<le> now) ws)"
    "list_all (\<lambda>(cb, h, st). h = None \<and> code st = PoolExhausted) rs"
  using expire_loop_pool [of now nm mx ws s] expire_loop_waiters [of now nm mx ws s] assms by simp_all

text \<open>What the sections do to the fields the invariants read.\<close>

lemma expireWaiters_fields:
  assumes "expireWaiters now mx s = (s', rs)"
  shows "idle s' = idle s" "total s' = total s" "borrowed s' = borrowed s" "closed s' = closed s"
    "pooled s' = pooled s" "asyncWaiters s' = filter (\<lambda>w. now < w_deadline w) (asyncWaiters s)"
    "map fst rs = map w_complete (filter (\<lambda>w. w_deadline w \<le> now) (asyncWaiters s))"
    "list_all (\<lambda>(cb, h, st). h = None \<and> code st = PoolExhausted) rs"
proof -
  obtain k r t where l: "expire_loop now (poolName s) mx (asyncWaiters s) s = (k, r, t)"
    using prod_cases3 by blast
  have "s' = (if asyncWaiters s = [] then s else t\<lparr>asyncWaiters := k\<rparr>)" "rs = (if asyncWaiters s = [] then [] else r)"
    using assms l by (simp_all add: expireWaiters_def split: if_splits)
  then show "idle s' = idle s" "total s' = total s" "borrowed s' = borrowed s" "closed s' = closed s"
    "pooled s' = pooled s" "asyncWaiters s' = filter (\<lambda>w. now < w_deadline w) (asyncWaiters s)"
    "map fst rs = map w_complete (filter (\<lambda>w. w_deadline w \<le> now) (asyncWaiters s))"
    "list_all (\<lambda>(cb, h, st). h = None \<and> code st = PoolExhausted) rs"
    using expire_loop_spec [OF l] by simp_all
qed

lemma clamp0_id [simp]: "0 \<le> n \<Longrightarrow> clamp0 n = n"
  by (simp add: clamp0_def)

definition slots_in :: "task multiset \<Rightarrow> nat" where
  "slots_in T = sum_mset (image_mset slots T)"

definition conns_in :: "task multiset \<Rightarrow> conn multiset" where
  "conns_in T = sum_mset (image_mset task_conns T)"

definition calls_in :: "task multiset \<Rightarrow> callback multiset" where
  "calls_in T = sum_mset (image_mset task_calls T)"

lemma task_sums [simp]:
  "slots_in {#} = 0" "slots_in (add_mset t T) = slots t + slots_in T" "slots_in (T + U) = slots_in T + slots_in U"
  "conns_in {#} = {#}" "conns_in (add_mset t T) = task_conns t + conns_in T" "conns_in (T + U) = conns_in T + conns_in U"
  "calls_in {#} = {#}" "calls_in (add_mset t T) = task_calls t + calls_in T" "calls_in (T + U) = calls_in T + calls_in U"
  by (simp_all add: slots_in_def conns_in_def calls_in_def)

lemmas section_defs = borrow_pass_def borrow_validated_def borrow_created_def borrow_unpooled_created_def
  borrow_waited_def exhausted_def borrowAsync_def async_pinged_def postCreateTask_def health_pop_def
  health_put_def health_plan_def health_refill_def shutdown_begin_def shutdown_drain_def shutdown_end_def

section \<open>Slots\<close>

text \<open>While the pool is open, \<open>total\<close> is exactly the number of idle connections, lent connections and
  slots held by operations under way, and it stays within the configured maximum.\<close>

definition tasks_inv :: "world \<Rightarrow> bool" where
  "tasks_inv w \<longleftrightarrow> (\<forall>t\<in>#tasks w. task_ok (pooled (w_pool w)) t) \<and> (TDrain \<in># tasks w \<longrightarrow> closed (w_pool w))"

definition slots_inv :: "pool_cfg \<Rightarrow> world \<Rightarrow> bool" where
  "slots_inv c w \<longleftrightarrow> borrowed (w_pool w) = int (size (held w)) \<and>
     (\<not> closed (w_pool w) \<longrightarrow>
        total (w_pool w) = int (length (idle (w_pool w)) + size (held w) + slots_in (tasks w)) \<and>
        (pooled (w_pool w) \<longrightarrow> total (w_pool w) \<le> maxConn c))"

text \<open>The three ways a connection comes back: it is closed, handed to a waiter, or kept.\<close>

lemma returnConn_cases:
  assumes "returnConn now mx h reusable s = (s', handoff, rs, cs)"
  obtains (closes) "handoff = None" "rs = []" "cs = [h_conn h]" "idle s' = idle s"
      "asyncWaiters s' = asyncWaiters s" "total s' = (if 0 < total s then total s - 1 else total s)"
      "borrowed s' = (if 0 < borrowed s then borrowed s - 1 else borrowed s)" "closed s' = closed s" "pooled s' = pooled s"
    | (hands_off) w ws h' where "handoff = Some (w_complete w, h')" "h_conn h' = h_conn h" "rs = []" "cs = []"
      "idle s' = idle s" "filter (\<lambda>w. now < w_deadline w) (asyncWaiters s) = w # ws" "asyncWaiters s' = ws"
      "total s' = total s" "borrowed s' = (if 0 < borrowed s then borrowed s - 1 else borrowed s) + 1"
      "closed s' = closed s" "pooled s' = pooled s" "\<not> closed s"
    | (keeps) "handoff = None" "cs = []" "\<not> closed s"
      "idle s' = idle s @ [\<lparr>ic_conn = h_conn h, ic_createdAt = h_createdAt h, ic_returnedAt = now, ic_lastValidated = 0\<rparr>]"
      "filter (\<lambda>w. now < w_deadline w) (asyncWaiters s) = []" "asyncWaiters s' = []"
      "map fst rs = map w_complete (filter (\<lambda>w. w_deadline w \<le> now) (asyncWaiters s))"
      "total s' = total s" "borrowed s' = (if 0 < borrowed s then borrowed s - 1 else borrowed s)"
      "closed s' = closed s" "pooled s' = pooled s"
proof -
  define s1 where "s1 = (if 0 < leakDetectionThreshold s \<and> ms (leakDetectionThreshold s) \<le> now - h_borrowedAt h
     then s\<lparr>leakWarnings := leakWarnings s + 1\<rparr> else s)"
  define s2 where "s2 = (if 0 < borrowed s1 then s1\<lparr>borrowed := borrowed s1 - 1\<rparr> else s1)"
  have s1: "idle s1 = idle s" "total s1 = total s" "borrowed s1 = borrowed s" "closed s1 = closed s"
      "pooled s1 = pooled s" "asyncWaiters s1 = asyncWaiters s"
    by (simp_all add: s1_def)
  have s2: "idle s2 = idle s" "total s2 = total s" "closed s2 = closed s"
      "pooled s2 = pooled s" "asyncWaiters s2 = asyncWaiters s"
      "borrowed s2 = (if 0 < borrowed s then borrowed s - 1 else borrowed s)"
    using s1 by (simp_all add: s2_def)
  obtain kept rs' s3 where l: "expire_loop now (poolName s2) mx (asyncWaiters s2) s2 = (kept, rs', s3)"
    using prod_cases3 by blast
  note l' = expire_loop_spec [OF l]
  let ?close = "closed s2 \<or> lifetime_over now (h_createdAt h) s2 \<or> \<not> reusable \<or> \<not> pooled s2"
  show ?thesis
  proof (cases ?close)
    case True
    then have "(s', handoff, rs, cs) = (let s3 = s2\<lparr>connectionsClosed := connectionsClosed s2 + 1\<rparr>;
        s4 = (if \<not> reusable then s3\<lparr>invalidatedConnections := invalidatedConnections s3 + 1\<rparr>
              else if lifetime_over now (h_createdAt h) s2 then s3\<lparr>lifetimeEvictions := lifetimeEvictions s3 + 1\<rparr> else s3)
      in ((if 0 < total s4 then s4\<lparr>total := total s4 - 1\<rparr> else s4), None, [], [h_conn h]))"
      unfolding assms [symmetric] returnConn_def Let_def s1_def [symmetric] s2_def [symmetric] by (rule if_P)
    then show ?thesis by (intro closes) (auto simp: Let_def s2)
  next
    case False
    then have nc: "\<not> closed s" using s2 by simp
    from False have "(s', handoff, rs, cs) = (case kept of
         w # ws \<Rightarrow> (count_success (s3\<lparr>asyncWaiters := ws, borrowed := borrowed s3 + 1\<rparr>),
            Some (w_complete w, \<lparr>h_conn = h_conn h, h_createdAt = h_createdAt h, h_borrowedAt = now\<rparr>), [], [])
       | [] \<Rightarrow> (s3\<lparr>asyncWaiters := [], idle := idle s3 @ [\<lparr>ic_conn = h_conn h, ic_createdAt = h_createdAt h,
                         ic_returnedAt = now, ic_lastValidated = 0\<rparr>]\<rparr>, None, rs', []))"
      unfolding assms [symmetric] returnConn_def Let_def s1_def [symmetric] s2_def [symmetric]
        if_not_P [OF False] l by simp
    note result = this
    show ?thesis
    proof (cases kept)
      case Nil
      have f: "filter (\<lambda>w. now < w_deadline w) (asyncWaiters s) = []" using l'(6) Nil s2(5) by simp
      from result Nil show ?thesis using l'(1-5,7) s2 nc f by (intro keeps) simp_all
    next
      case (Cons wt ws)
      have f: "filter (\<lambda>w. now < w_deadline w) (asyncWaiters s) = wt # ws" using l'(6) Cons s2(5) by simp
      from result Cons show ?thesis using l'(1-5) s2 nc f
        by (intro hands_off [of wt "\<lparr>h_conn = h_conn h, h_createdAt = h_createdAt h, h_borrowedAt = now\<rparr>" ws])
          simp_all
    qed
  qed
qed

lemma slots_give_back:
  assumes "slots_inv c w" and "held w = add_mset h H"
    and "returnConn now (maxConn c) h reusable (w_pool w) = (s, handoff, rs, cs)"
  shows "slots_inv c (w\<lparr>w_pool := s,
       held := (case handoff of None \<Rightarrow> H | Some (cb, h') \<Rightarrow> add_mset h' H), replies := R, gone := G\<rparr>)"
  using assms(3)
proof (cases rule: returnConn_cases)
  case closes
  then show ?thesis using assms(1,2) by (auto simp: slots_inv_def)
next
  case (hands_off wt ws h')
  then show ?thesis using assms(1,2) by (auto simp: slots_inv_def)
next
  case keeps
  then show ?thesis using assms(1,2) by (auto simp: slots_inv_def)
qed

lemma tasks_step:
  assumes "pool_step c w w'" and "tasks_inv w"
  shows "tasks_inv w'"
  using assms
proof (induction rule: pool_step.induct)
  case (give_back w h H now reusable s handoff rs cs)
  from give_back(2) show ?case
    by (cases rule: returnConn_cases) (use give_back(3) in \<open>simp_all add: tasks_inv_def\<close>)
next
  case (expire now w s rs)
  then show ?case using expireWaiters_fields(4,5) [OF expire(1)] by (simp add: tasks_inv_def)
next
  case (health_reserve w n T now s need)
  then show ?case by (auto simp: tasks_inv_def health_plan_def split: if_splits)
qed (auto simp: tasks_inv_def section_defs Let_def split: if_splits list.splits sum.splits)

lemma slots_step:
  assumes "pool_step c w w'" and "slots_inv c w" and "tasks_inv w"
  shows "slots_inv c w'"
  using assms
proof (induction rule: pool_step.induct)
  case (give_back w h H now reusable s handoff rs cs)
  then show ?case using slots_give_back by simp
next
  case (pass w started timeout T now s nx)
  then show ?case
    by (auto simp: slots_inv_def borrow_pass_def exhausted_def Let_def split: if_splits list.splits)
next
  case (validate w started timeout item T expired t0 alive pong now s nx cs)
  then show ?case
    by (auto simp: slots_inv_def borrow_validated_def Let_def split: if_splits)
next
  case (create w started timeout T r now s nx cs)
  then show ?case
    by (auto simp: slots_inv_def borrow_created_def Let_def split: if_splits sum.splits)
next
  case (create_unpooled w started timeout T r now s nx cs)
  then have "\<not> pooled (w_pool w)" by (simp add: tasks_inv_def)
  with create_unpooled show ?case
    by (auto simp: slots_inv_def borrow_unpooled_created_def Let_def split: if_splits sum.splits)
next
  case (wake w started timeout T now timed_out s nx)
  then show ?case
    by (auto simp: slots_inv_def borrow_waited_def exhausted_def Let_def split: if_splits)
next
  case (expire now w s rs)
  then show ?case using expireWaiters_fields(1-5) [OF expire(1)] by (auto simp: slots_inv_def)
next
  case (async w cb eff T now s nx)
  then show ?case
    by (auto simp: slots_inv_def borrowAsync_def Let_def split: if_splits list.splits)
next
  case (async_ping w cb eff item T now pong s nx cs)
  then show ?case
    by (auto simp: slots_inv_def async_pinged_def split: if_splits)
next
  case (async_create w cb reserved T r now s h st cs)
  then have "reserved \<or> \<not> pooled (w_pool w)" by (simp add: tasks_inv_def)
  with async_create show ?case
    by (auto simp: slots_inv_def postCreateTask_def Let_def split: if_splits sum.splits)
next
  case (health_take w n T now s item retire)
  then show ?case
    by (auto simp: slots_inv_def health_pop_def split: if_splits list.splits)
next
  case (health_check w n item retire T expired now alive pong s cs)
  then show ?case
    by (auto simp: slots_inv_def health_put_def Let_def split: if_splits)
next
  case (health_reserve w n T now s need)
  then show ?case
    by (auto simp: slots_inv_def health_plan_def health_need_def split: if_splits)
next
  case (refill_done w need fresh T s cs)
  then have "length fresh \<le> need" by (simp add: tasks_inv_def)
  with refill_done show ?case
    by (auto simp: slots_inv_def health_refill_def Let_def split: if_splits)
next
  case (start_shutdown w s rs)
  then show ?case by (auto simp: slots_inv_def shutdown_begin_def)
next
  case (drain w T s cn)
  then have "closed (w_pool w)" by (simp add: tasks_inv_def)
  with drain show ?case by (auto simp: slots_inv_def shutdown_drain_def split: list.splits)
next
  case (end_shutdown w T)
  then have "closed (w_pool w)" by (simp add: tasks_inv_def)
  with end_shutdown show ?case by (auto simp: slots_inv_def shutdown_end_def)
qed (auto simp: slots_inv_def)

section \<open>Ownership of connections\<close>

definition unique_mset :: "'a multiset \<Rightarrow> bool" where
  "unique_mset M \<longleftrightarrow> (\<forall>x. count M x \<le> 1)"

lemma unique_mset_add: "unique_mset M \<Longrightarrow> y \<notin># M \<Longrightarrow> unique_mset (add_mset y M)"
  by (simp add: unique_mset_def not_in_iff)

lemma unique_mset_sub: "unique_mset M \<Longrightarrow> N \<subseteq># M \<Longrightarrow> unique_mset N"
  by (meson mset_subset_eq_count order_trans unique_mset_def)

lemma subset_swap: "X \<subseteq># Y \<Longrightarrow> Y + Z \<subseteq># D \<Longrightarrow> X + Z \<subseteq># (D :: 'a multiset)"
  by (meson subset_mset.add_right_mono subset_mset.order_trans)

text \<open>Every connection ever opened is in exactly one place: the idle queue, an operation under way,
  a borrower's handle, or closed.\<close>

definition owner_inv :: "world \<Rightarrow> bool" where
  "owner_inv w \<longleftrightarrow> made w = mset (map ic_conn (idle (w_pool w))) + conns_in (tasks w) +
       image_mset h_conn (held w) + gone w \<and> unique_mset (made w)"

lemma owner_give_back:
  assumes "owner_inv w" and "held w = add_mset h H"
    and "returnConn now mx h reusable (w_pool w) = (s, handoff, rs, cs)"
  shows "owner_inv (w\<lparr>w_pool := s, held := (case handoff of None \<Rightarrow> H | Some (cb, h') \<Rightarrow> add_mset h' H),
    replies := R, gone := gone w + mset cs\<rparr>)"
  using assms(3) by (cases rule: returnConn_cases) (use assms(1,2) in \<open>auto simp: owner_inv_def\<close>)

lemma owner_step:
  assumes "owner_inv w" and "pool_step c w w'"
  shows "owner_inv w'"
  using assms(2,1)
proof (induction rule: pool_step.induct)
  case (give_back w h H now reusable s handoff rs cs)
  then show ?case using owner_give_back by simp
next
  case (pass w started timeout T now s nx)
  then show ?case
    by (auto simp: owner_inv_def borrow_pass_def exhausted_def Let_def split: if_splits list.splits)
next
  case (validate w started timeout item T expired t0 alive pong now s nx cs)
  then show ?case
    by (auto simp: owner_inv_def borrow_validated_def Let_def split: if_splits)
next
  case (create w started timeout T r now s nx cs)
  then show ?case using unique_mset_add [of "made w"]
    by (auto simp: owner_inv_def borrow_created_def is_new_def made_conns_def Let_def split: if_splits sum.splits)
next
  case (create_unpooled w started timeout T r now s nx cs)
  then show ?case using unique_mset_add [of "made w"]
    by (auto simp: owner_inv_def borrow_unpooled_created_def is_new_def made_conns_def Let_def split: if_splits sum.splits)
next
  case (wake w started timeout T now timed_out s nx)
  then show ?case
    by (auto simp: owner_inv_def borrow_waited_def exhausted_def Let_def split: if_splits)
next
  case (expire now w s rs)
  then show ?case using expireWaiters_fields(1) [OF expire(1)] by (auto simp: owner_inv_def)
next
  case (async w cb eff T now s nx)
  then show ?case
    by (auto simp: owner_inv_def borrowAsync_def Let_def split: if_splits list.splits)
next
  case (async_ping w cb eff item T now pong s nx cs)
  then show ?case
    by (auto simp: owner_inv_def async_pinged_def split: if_splits)
next
  case (async_create w cb reserved T r now s h st cs)
  then show ?case using unique_mset_add [of "made w"]
    by (auto simp: owner_inv_def postCreateTask_def is_new_def made_conns_def Let_def split: if_splits sum.splits)
next
  case (health_take w n T now s item retire)
  then show ?case
    by (auto simp: owner_inv_def health_pop_def split: if_splits list.splits)
next
  case (health_check w n item retire T expired now alive pong s cs)
  then show ?case
    by (auto simp: owner_inv_def health_put_def Let_def split: if_splits)
next
  case (health_reserve w n T now s need)
  then show ?case
    by (auto simp: owner_inv_def health_plan_def split: if_splits)
next
  case (refill_one w need left fresh T cn now)
  then show ?case using unique_mset_add [of "made w"] by (auto simp: owner_inv_def)
next
  case (refill_done w need fresh T s cs)
  then show ?case
    by (auto simp: owner_inv_def health_refill_def Let_def split: if_splits)
next
  case (start_shutdown w s rs)
  then show ?case by (auto simp: owner_inv_def shutdown_begin_def)
next
  case (drain w T s cn)
  then show ?case by (auto simp: owner_inv_def shutdown_drain_def split: list.splits)
next
  case (end_shutdown w T)
  then show ?case by (auto simp: owner_inv_def shutdown_end_def)
qed (auto simp: owner_inv_def)

section \<open>Callbacks\<close>

text \<open>A completion callback waits in the queue, travels with a task or has been called, and never
  two of these.\<close>

definition callback_inv :: "world \<Rightarrow> bool" where
  "callback_inv w \<longleftrightarrow> mset (map w_complete (asyncWaiters (w_pool w))) + calls_in (tasks w) +
       image_mset fst (replies w) \<subseteq># asked w \<and> unique_mset (asked w)"

lemma filter_split_mset:
  "mset (map w_complete ws) = mset (map w_complete (filter (\<lambda>w. now < w_deadline w) ws)) +
     mset (map w_complete (filter (\<lambda>w. w_deadline w \<le> now) ws))"
  by (induction ws) auto

lemma callback_give_back:
  assumes "callback_inv w" and "returnConn now mx h reusable (w_pool w) = (s, handoff, rs, cs)"
  shows "callback_inv (w\<lparr>w_pool := s, held := H, replies := (case handoff of None \<Rightarrow> replies w + mset rs
         | Some (cb, h') \<Rightarrow> add_mset (cb, Some h', status_OK) (replies w) + mset rs), gone := G\<rparr>)"
  using assms(2)
proof (cases rule: returnConn_cases)
  case closes
  then show ?thesis using assms(1) by (simp add: callback_inv_def)
next
  case (hands_off wt ws h')
  have "mset (map w_complete (wt # ws)) \<subseteq># mset (map w_complete (asyncWaiters (w_pool w)))"
    using filter_split_mset [of "asyncWaiters (w_pool w)" now] hands_off by simp
  from subset_swap [OF this, of "calls_in (tasks w) + image_mset fst (replies w)" "asked w"] hands_off assms(1)
  show ?thesis by (auto simp: callback_inv_def union_ac)
next
  case keeps
  have "image_mset fst (mset rs) = mset (map w_complete (asyncWaiters (w_pool w)))"
    using filter_split_mset [of "asyncWaiters (w_pool w)" now] keeps by (metis mset_map empty_neutral(1) list.simps(8) mset.simps(1))
  with keeps assms(1) show ?thesis by (simp add: callback_inv_def union_ac)
qed

lemma subset_drop: "A + B \<subseteq># D \<Longrightarrow> A \<subseteq># (D :: 'a multiset)"
  by (meson mset_subset_eq_add_left subset_mset.order_trans)

lemma callback_step:
  assumes "pool_step c w w'" and "callback_inv w"
  shows "callback_inv w'"
  using assms
proof (induction rule: pool_step.induct)
  case (give_back w h H now reusable s handoff rs cs)
  then show ?case using callback_give_back by simp
next
  case (pass w started timeout T now s nx)
  then show ?case
    by (auto simp: callback_inv_def borrow_pass_def exhausted_def Let_def split: if_splits list.splits)
next
  case (validate w started timeout item T expired t0 alive pong now s nx cs)
  then show ?case
    by (auto simp: callback_inv_def borrow_validated_def Let_def split: if_splits)
next
  case (create w started timeout T r now s nx cs)
  then show ?case
    by (auto simp: callback_inv_def borrow_created_def Let_def split: if_splits sum.splits)
next
  case (create_unpooled w started timeout T r now s nx cs)
  then show ?case
    by (auto simp: callback_inv_def borrow_unpooled_created_def Let_def split: if_splits sum.splits)
next
  case (wake w started timeout T now timed_out s nx)
  then show ?case
    by (auto simp: callback_inv_def borrow_waited_def exhausted_def Let_def split: if_splits)
next
  case (expire now w s rs)
  have "image_mset w_complete (mset (asyncWaiters (w_pool w))) =
      image_mset w_complete (mset (asyncWaiters s)) + image_mset fst (mset rs)"
    using filter_split_mset [of "asyncWaiters (w_pool w)" now] expireWaiters_fields(6,7) [OF expire(1)]
    by (metis mset_map)
  with expire show ?case by (auto simp: callback_inv_def union_ac)
next
  case (start_async cb w timeout)
  then show ?case using unique_mset_add [of "asked w" cb] by (auto simp: callback_inv_def add.assoc)
next
  case (async w cb eff T now s nx)
  then show ?case
    by (auto simp: callback_inv_def borrowAsync_def Let_def split: if_splits list.splits)
next
  case (async_ping w cb eff item T now pong s nx cs)
  then show ?case
    by (auto simp: callback_inv_def async_pinged_def split: if_splits)
next
  case (async_create w cb reserved T r now s h st cs)
  then show ?case
    by (auto simp: callback_inv_def postCreateTask_def Let_def split: if_splits sum.splits)
next
  case (health_take w n T now s item retire)
  then show ?case
    by (auto simp: callback_inv_def health_pop_def split: if_splits list.splits)
next
  case (health_check w n item retire T expired now alive pong s cs)
  then show ?case
    by (auto simp: callback_inv_def health_put_def Let_def split: if_splits)
next
  case (health_reserve w n T now s need)
  then show ?case
    by (auto simp: callback_inv_def health_plan_def split: if_splits)
next
  case (refill_done w need fresh T s cs)
  then show ?case
    by (auto simp: callback_inv_def health_refill_def Let_def split: if_splits)
next
  case (start_shutdown w s rs)
  have "image_mset fst (mset rs) = mset (map w_complete (asyncWaiters (w_pool w)))" "asyncWaiters s = []"
    using start_shutdown(1) by (auto simp: shutdown_begin_def comp_def simp flip: mset_map)
  with start_shutdown show ?case by (auto simp: callback_inv_def union_ac)
next
  case (drain w T s cn)
  then show ?case by (auto simp: callback_inv_def shutdown_drain_def split: list.splits)
next
  case (end_shutdown w T)
  then show ?case by (auto simp: callback_inv_def shutdown_end_def)
qed (auto simp: callback_inv_def)

section \<open>Validation times\<close>

text \<open>No section ever stores the time of a validation: a returned or fresh connection is queued with
  the zero time point, and the time noted by \<open>borrow\<close> stays in its local copy.\<close>

fun task_unstamped :: "task \<Rightarrow> bool" where
  "task_unstamped (THealthItem _ item _) \<longleftrightarrow> ic_lastValidated item = 0"
| "task_unstamped (TRefill _ _ fresh) \<longleftrightarrow> (\<forall>item\<in>set fresh. ic_lastValidated item = 0)"
| "task_unstamped _ \<longleftrightarrow> True"

definition unstamped_inv :: "world \<Rightarrow> bool" where
  "unstamped_inv w \<longleftrightarrow> (\<forall>item\<in>set (idle (w_pool w)). ic_lastValidated item = 0) \<and> (\<forall>t\<in>#tasks w. task_unstamped t)"

lemma unstamped_step:
  assumes "pool_step c w w'" and "unstamped_inv w"
  shows "unstamped_inv w'"
  using assms
proof (induction rule: pool_step.induct)
  case (give_back w h H now reusable s handoff rs cs)
  from give_back(2) show ?case
    by (cases rule: returnConn_cases) (use give_back(3) in \<open>auto simp: unstamped_inv_def\<close>)
next
  case (expire now w s rs)
  then show ?case using expireWaiters_fields(1) [OF expire(1)] by (simp add: unstamped_inv_def)
next
  case (health_reserve w n T now s need)
  then show ?case by (auto simp: unstamped_inv_def health_plan_def split: if_splits)
qed (auto simp: unstamped_inv_def section_defs Let_def split: if_splits list.splits sum.splits)

section \<open>Reachable states\<close>

definition start_world :: "pool \<times> conn list \<Rightarrow> world" where
  "start_world p = \<lparr>w_pool = fst p, tasks = {#}, held = {#}, replies = {#},
     made = mset (map ic_conn (idle (fst p))) + mset (snd p), gone = mset (snd p), asked = {#}\<rparr>"

text \<open>A world just after the constructor, for any arguments and any outcome of the warm-up; the
  driver never returns the same connection object twice.\<close>

inductive pool_init :: "pool_cfg \<Rightarrow> world \<Rightarrow> bool" where
  constructed: "new_pool nm mn mx bt it lt kt vt metrics isPooled = (c, s) \<Longrightarrow>
     distinct (List.map_filter fst results) \<Longrightarrow> pool_init c (start_world (construct_pool (c, s) results))"

definition pool_inv :: "pool_cfg \<Rightarrow> world \<Rightarrow> bool" where
  "pool_inv c w \<longleftrightarrow> tasks_inv w \<and> slots_inv c w \<and> owner_inv w \<and> callback_inv w \<and> unstamped_inv w"

lemma warmup_inv:
  assumes "warmup c results n s = (s', cs)" and "distinct (List.map_filter fst results)"
    and "total s = int (length (idle s))" "total s \<le> maxConn c" "borrowed s = 0" "asyncWaiters s = []"
    and "\<forall>i\<in>set (idle s). ic_lastValidated i = 0"
    and "distinct (map ic_conn (idle s))" and "set (map ic_conn (idle s)) \<inter> set (List.map_filter fst results) = {}"
  shows "total s' = int (length (idle s')) \<and> total s' \<le> maxConn c \<and> borrowed s' = 0 \<and> asyncWaiters s' = [] \<and>
    (\<forall>i\<in>set (idle s'). ic_lastValidated i = 0) \<and> distinct (map ic_conn (idle s') @ cs)"
  using assms
proof (induction c results n s arbitrary: s' cs rule: warmup.induct)
  case (4 c cn now results n s)
  show ?case
  proof (cases "maxConn c \<le> total s")
    case True
    with 4 show ?thesis by (auto simp: map_filter_simps)
  next
    case False
    have "distinct (map ic_conn (idle s) @ [cn])" using 4(9,10) by (auto simp: map_filter_simps)
    with 4(1) [OF False, of s' cs] False 4(2-) show ?thesis by (auto simp: map_filter_simps)
  qed
qed (auto simp: map_filter_simps)

lemma unique_mset_distinct: "distinct xs \<Longrightarrow> unique_mset (mset xs)"
  by (simp add: unique_mset_def distinct_count_atmost_1)

lemma pool_init_inv:
  assumes "pool_init c w"
  shows "pool_inv c w"
proof -
  from assms obtain nm mn mx bt it lt kt vt metrics isPooled s results where
    np: "new_pool nm mn mx bt it lt kt vt metrics isPooled = (c, s)"
    and d: "distinct (List.map_filter fst results)" and w: "w = start_world (construct_pool (c, s) results)"
    by (cases rule: pool_init.cases)
  have s: "total s = 0" "idle s = []" "borrowed s = 0" "asyncWaiters s = []" "1 \<le> maxConn c"
    using np by (auto simp: new_pool_def Let_def)
  obtain s' cs where cp: "construct_pool (c, s) results = (s', cs)" by fastforce
  have "total s' = int (length (idle s')) \<and> total s' \<le> maxConn c \<and> borrowed s' = 0 \<and> asyncWaiters s' = [] \<and>
    (\<forall>i\<in>set (idle s'). ic_lastValidated i = 0) \<and> distinct (map ic_conn (idle s') @ cs)"
    using cp warmup_inv [of c results "nat (minConn c)" s s' cs] d s
    by (auto simp: construct_pool_def split: if_splits)
  with unique_mset_distinct [of "map ic_conn (idle s') @ cs"] show ?thesis
    by (simp add: pool_inv_def tasks_inv_def slots_inv_def owner_inv_def callback_inv_def unstamped_inv_def
        w cp start_world_def) (simp add: unique_mset_def)
qed

lemma pool_step_inv: "pool_inv c w \<Longrightarrow> pool_step c w w' \<Longrightarrow> pool_inv c w'"
  unfolding pool_inv_def by (blast intro: tasks_step slots_step owner_step callback_step unstamped_step)

interpretation pool: invariant_system "pool_init c" "pool_step c" "pool_inv c" for c
  by unfold_locales (fact pool_init_inv, fact pool_step_inv)

section \<open>Properties of the pool\<close>

text \<open>A pool of at most one connection, used as the concrete instance below.\<close>

definition small_pool :: "pool_cfg \<times> pool" where
  "small_pool = new_pool ''p'' 0 1 1000 0 0 0 500 True True"

definition small_cfg :: pool_cfg where
  "small_cfg = \<lparr>minConn = 0, maxConn = 1, borrowTimeout = 1000, idleTimeout = 0\<rparr>"

definition small_world :: world where
  "small_world = start_world (construct_pool small_pool [])"

definition lent_world :: world where
  "lent_world = small_world\<lparr>w_pool := (recordSuccess 0 0 ((borrow_request (snd small_pool))\<lparr>total := 1, borrowed := 1,
       connectionsCreated := 1\<rparr>)), held := {#\<lparr>h_conn = 7, h_createdAt = 0, h_borrowedAt = 0\<rparr>#}, made := {#7#}\<rparr>"

definition creating_world :: world where
  "creating_world = small_world\<lparr>w_pool := (borrow_request (snd small_pool))\<lparr>total := 1\<rparr>, tasks := {#TCreate 0 5#}\<rparr>"

lemma small_reachable: "reachable (pool_init small_cfg) (pool_step small_cfg) small_world"
proof (rule reach_init)
  have eq: "new_pool ''p'' 0 1 1000 0 0 0 500 True True = (small_cfg, snd small_pool)"
    by (simp add: small_pool_def small_cfg_def new_pool_def)
  have "(small_cfg, snd small_pool) = small_pool" using eq by (simp add: small_pool_def)
  with constructed [OF eq, of "[]"] show "pool_init small_cfg small_world"
    by (simp add: small_world_def map_filter_simps)
qed

lemma small_world_eq:
  "small_world = \<lparr>w_pool = snd small_pool, tasks = {#}, held = {#}, replies = {#}, made = {#}, gone = {#}, asked = {#}\<rparr>"
  by (simp add: small_world_def start_world_def construct_pool_def small_pool_def new_pool_def)

lemma small_pool_fields:
  "idle (snd small_pool) = []" "total (snd small_pool) = 0" "closed (snd small_pool) = False"
  "pooled (snd small_pool) = True" "borrowed (snd small_pool) = 0" "maxConn small_cfg = 1"
  "asyncWaiters (snd small_pool) = []" "effective_timeout 5 small_cfg = 5"
  by (simp_all add: small_pool_def new_pool_def small_cfg_def effective_timeout_def)

lemma creating_reachable: "reachable (pool_init small_cfg) (pool_step small_cfg) creating_world"
proof -
  define w1 where "w1 = small_world\<lparr>w_pool := borrow_request (snd small_pool), tasks := {#TBorrow 0 5#}\<rparr>"
  have 1: "pool_step small_cfg small_world w1"
    using start_borrow [of small_cfg small_world 0 5] by (simp add: w1_def small_world_eq small_pool_fields)
  have p: "borrow_pass 0 0 5 small_cfg (w_pool w1) = ((borrow_request (snd small_pool))\<lparr>total := 1\<rparr>, BCreate)"
    by (simp add: borrow_pass_def small_pool_fields w1_def)
  have t: "tasks w1 = add_mset (TBorrow 0 5) {#}" by (simp add: w1_def)
  have "pool_step small_cfg w1 creating_world"
    using pass [OF t p] by (simp add: creating_world_def w1_def small_world_eq)
  with reach_step [OF small_reachable 1] show ?thesis by (rule reach_step)
qed

lemma lent_pool_eq: "w_pool lent_world = recordSuccess 0 0 ((borrow_request (snd small_pool))\<lparr>total := 1, borrowed := 1,
       connectionsCreated := 1\<rparr>)"
  by (simp add: lent_world_def)

lemma lent_reachable: "reachable (pool_init small_cfg) (pool_step small_cfg) lent_world"
proof -
  have b: "borrowed (borrow_request (snd small_pool)) = 0" "connectionsCreated (borrow_request (snd small_pool)) = 0"
    by (simp_all add: small_pool_def new_pool_def borrow_request_def)
  have p: "borrow_created 0 0 (Inr 7) (w_pool creating_world) =
      (w_pool lent_world, BReturn (Some \<lparr>h_conn = 7, h_createdAt = 0, h_borrowedAt = 0\<rparr>) Ok [], [])"
    by (simp add: borrow_created_def lent_pool_eq creating_world_def small_pool_fields b)
  have t: "tasks creating_world = add_mset (TCreate 0 5) {#}" "is_new (Inr 7) creating_world"
    by (simp_all add: creating_world_def is_new_def small_world_eq)
  have "pool_step small_cfg creating_world lent_world"
    using create [OF t p, of small_cfg]
    by (simp add: creating_world_def small_world_eq lent_world_def made_conns_def)
  with creating_reachable show ?thesis by (rule reach_step)
qed

end
