(* ===== verification/PoolProps.thy ===== *)
theory PoolProps
  imports PoolSystem
begin

text \<open>
  What the interleaved pool guarantees in every reachable state, for any number of threads and any
  schedule (capacity, exclusive lending, single delivery of completions, expiry of waiters), and
  the states it can reach that it should not.
\<close>

lemma reachable_pool:
  assumes "reachable (pool_init c) (pool_step c) w"
  shows "slots_inv c w" and "owner_inv w" and "callback_inv w" and "unstamped_inv w"
  using pool.reachable_inv [OF assms] by (simp_all add: pool_inv_def)

lemma unique_parts:
  assumes "unique_mset (A + B)" and "x \<in># A"
  shows "x \<notin># B"
proof
  assume "x \<in># B"
  then have "0 < count A x" "0 < count B x" using assms(2) by simp_all
  moreover have "count A x + count B x \<le> 1" using assms(1) by (metis count_union unique_mset_def)
  ultimately show False by linarith
qed



text \<open>C2: a connection is never lent twice. In every reachable state the lent connections are
  pairwise distinct, none of them is also in the idle queue, held by an operation under way or
  closed, and every connection the driver opened is accounted for in one of these places: none
  is lost without being closed, also across shutdown.\<close>

theorem pool_exclusive_lending:
  assumes "reachable (pool_init c) (pool_step c) w"
  shows "unique_mset (image_mset h_conn (held w)) \<and>
    (\<forall>h\<in>#held w. h_conn h \<notin> ic_conn ` set (idle (w_pool w)) \<and> h_conn h \<notin># conns_in (tasks w) \<and> h_conn h \<notin># gone w) \<and>
    made w = mset (map ic_conn (idle (w_pool w))) + conns_in (tasks w) + image_mset h_conn (held w) + gone w"
proof -
  let ?I = "mset (map ic_conn (idle (w_pool w)))" and ?H = "image_mset h_conn (held w)"
  have inv: "made w = ?I + conns_in (tasks w) + ?H + gone w" and uniq: "unique_mset (made w)"
    using reachable_pool(2) [OF assms] unfolding owner_inv_def by blast+
  have split: "made w = ?H + (?I + conns_in (tasks w) + gone w)" using inv by (simp add: union_ac)
  have "x \<notin># ?I + conns_in (tasks w) + gone w" if "x \<in># ?H" for x
    using uniq that unfolding split by (rule unique_parts)
  moreover have "unique_mset ?H"
    by (rule unique_mset_sub [OF uniq]) (simp add: split)
  ultimately show ?thesis using inv by auto
qed

theorem pool_exclusive_lending_witness:
  "made lent_world = {#7#} \<and> unique_mset (image_mset h_conn (held lent_world))"
  using pool_exclusive_lending [OF lent_reachable] by (simp add: lent_world_def)



text \<open>Expiry answers exactly the waiters whose deadline has passed, each once and in order,
  with \<open>PoolExhausted\<close> and no connection; the others keep their places in the queue, and the
  connections and slots are untouched.\<close>

theorem expireWaiters_partition:
  "asyncWaiters (fst (expireWaiters now mx s)) = filter (\<lambda>w. now < w_deadline w) (asyncWaiters s) \<and>
   map fst (snd (expireWaiters now mx s)) = map w_complete (filter (\<lambda>w. w_deadline w \<le> now) (asyncWaiters s)) \<and>
   list_all (\<lambda>(cb, h, st). h = None \<and> code st = PoolExhausted) (snd (expireWaiters now mx s)) \<and>
   idle (fst (expireWaiters now mx s)) = idle s \<and> total (fst (expireWaiters now mx s)) = total s \<and>
   borrowed (fst (expireWaiters now mx s)) = borrowed s"
  using expireWaiters_fields [of now mx s "fst (expireWaiters now mx s)" "snd (expireWaiters now mx s)"]
  by simp

text \<open>A returned connection goes to the first waiter that has not expired, without passing
  through the idle queue, but the waiters found expired on the way are then dropped: they leave
  the queue and their callbacks are never called, since the hand-off returns before the expired
  waiters are answered.\<close>

theorem returnConn_handoff_drops_expired:
  assumes "\<not> closed s" and "pooled s" and "\<not> lifetime_over now (h_createdAt h) s"
    and "filter (\<lambda>w. now < w_deadline w) (asyncWaiters s) = wt # ws"
  shows "\<exists>s' h'. returnConn now mx h True s = (s', Some (w_complete wt, h'), [], []) \<and>
    h_conn h' = h_conn h \<and> asyncWaiters s' = ws \<and> idle s' = idle s"
proof -
  obtain s' handoff rs cs where r: "returnConn now mx h True s = (s', handoff, rs, cs)"
    using prod_cases4 by blast
  from r show ?thesis
  proof (cases rule: returnConn_cases)
    case closes
    have "cs = []"
      using r assms(1-3) by (auto simp: returnConn_def Let_def lifetime_over_def split: if_splits prod.splits list.splits)
    with closes show ?thesis by simp
  next
    case (hands_off w' ws' h')
    with assms(4) r show ?thesis by auto
  next
    case keeps
    with assms(4) show ?thesis by simp
  qed
qed

definition expired_waiter :: waiter where
  "expired_waiter = \<lparr>w_enqueuedAt = 0, w_deadline = 5, w_complete = 1\<rparr>"

definition live_waiter :: waiter where
  "live_waiter = \<lparr>w_enqueuedAt = 0, w_deadline = 50, w_complete = 2\<rparr>"

theorem returnConn_handoff_drops_expired_witness:
  "\<exists>s' h'. returnConn 10 1 \<lparr>h_conn = 7, h_createdAt = 0, h_borrowedAt = 0\<rparr> True
       ((snd small_pool)\<lparr>asyncWaiters := [expired_waiter, live_waiter]\<rparr>) = (s', Some (2, h'), [], []) \<and> asyncWaiters s' = []"
proof -
  let ?s = "(snd small_pool)\<lparr>asyncWaiters := [expired_waiter, live_waiter]\<rparr>"
  have "\<not> closed ?s" "pooled ?s" "\<not> lifetime_over 10 (h_createdAt \<lparr>h_conn = 7, h_createdAt = 0, h_borrowedAt = 0\<rparr>) ?s"
    by (simp_all add: small_pool_def new_pool_def lifetime_over_def)
  moreover have "filter (\<lambda>w. 10 < w_deadline w) (asyncWaiters ?s) = live_waiter # []"
    by (simp add: expired_waiter_def live_waiter_def)
  ultimately have "\<exists>s' h'. returnConn 10 1 \<lparr>h_conn = 7, h_createdAt = 0, h_borrowedAt = 0\<rparr> True ?s =
      (s', Some (w_complete live_waiter, h'), [], []) \<and>
    h_conn h' = h_conn \<lparr>h_conn = 7, h_createdAt = 0, h_borrowedAt = 0\<rparr> \<and> asyncWaiters s' = [] \<and> idle s' = idle ?s"
    by (rule returnConn_handoff_drops_expired)
  then show ?thesis by (auto simp: live_waiter_def)
qed

text \<open>The validation interval has no effect. No reachable state holds an idle connection with a
  validation time, so once the clock is past the interval every borrow pings the connection it
  takes from the queue, however recently it was validated.\<close>

theorem pool_always_pings:
  assumes "reachable (pool_init c) (pool_step c) w" and "item \<in> set (idle (w_pool w))"
    and "ms (validationInterval (w_pool w)) \<le> now"
  shows "needsPing now item (w_pool w)"
  using reachable_pool(4) [OF assms(1)] assms(2,3) by (auto simp: unstamped_inv_def needsPing_def)

text \<open>The pool after the lent connection has come back.\<close>

definition idle_world :: world where
  "idle_world = lent_world\<lparr>w_pool := (w_pool lent_world)\<lparr>borrowed := 0, asyncWaiters := [],
     idle := [\<lparr>ic_conn = 7, ic_createdAt = 0, ic_returnedAt = 0, ic_lastValidated = 0\<rparr>]\<rparr>,
     held := {#}, replies := {#}, gone := {#}\<rparr>"

lemma lent_fields:
  "closed (w_pool lent_world) = False" "pooled (w_pool lent_world) = True" "borrowed (w_pool lent_world) = 1"
  "asyncWaiters (w_pool lent_world) = []" "idle (w_pool lent_world) = []" "total (w_pool lent_world) = 1"
  "leakDetectionThreshold (w_pool lent_world) = 0" "maxLifetime (w_pool lent_world) = 0"
  "validationInterval (w_pool lent_world) = 500" "poolName (w_pool lent_world) = ''p''"
  "tasks lent_world = {#}" "replies lent_world = {#}" "gone lent_world = {#}" "asked lent_world = {#}"
  "held lent_world = {#\<lparr>h_conn = 7, h_createdAt = 0, h_borrowedAt = 0\<rparr>#}"
proof -
  show "closed (w_pool lent_world) = False" "pooled (w_pool lent_world) = True" "borrowed (w_pool lent_world) = 1"
    "asyncWaiters (w_pool lent_world) = []" "idle (w_pool lent_world) = []" "total (w_pool lent_world) = 1"
    by (simp_all add: lent_pool_eq small_pool_fields)
  show "leakDetectionThreshold (w_pool lent_world) = 0" "maxLifetime (w_pool lent_world) = 0"
    "validationInterval (w_pool lent_world) = 500" "poolName (w_pool lent_world) = ''p''"
    by (simp_all add: lent_pool_eq recordSuccess_def recordWait_def count_success_def borrow_request_def
        small_pool_def new_pool_def)
  show "tasks lent_world = {#}" "replies lent_world = {#}" "gone lent_world = {#}" "asked lent_world = {#}"
    "held lent_world = {#\<lparr>h_conn = 7, h_createdAt = 0, h_borrowedAt = 0\<rparr>#}"
    by (simp_all add: lent_world_def small_world_eq)
qed

lemma lent_return:
  "returnConn 0 1 \<lparr>h_conn = 7, h_createdAt = 0, h_borrowedAt = 0\<rparr> True (w_pool lent_world) =
     ((w_pool lent_world)\<lparr>borrowed := 0, asyncWaiters := [], idle := [\<lparr>ic_conn = 7, ic_createdAt = 0, ic_returnedAt = 0, ic_lastValidated = 0\<rparr>]\<rparr>,
      None, [], [])"
  by (simp add: returnConn_def Let_def lifetime_over_def lent_fields)

lemma idle_reachable: "reachable (pool_init small_cfg) (pool_step small_cfg) idle_world"
proof -
  have h: "held lent_world = add_mset \<lparr>h_conn = 7, h_createdAt = 0, h_borrowedAt = 0\<rparr> {#}" by (simp add: lent_fields)
  have "pool_step small_cfg lent_world idle_world"
    using give_back [where c = small_cfg and now = 0 and reusable = True, OF h, simplified small_pool_fields, OF lent_return]
    by (simp add: idle_world_def lent_fields)
  with lent_reachable show ?thesis by (rule reach_step)
qed

theorem pool_always_pings_witness:
  "\<exists>item. item \<in> set (idle (w_pool idle_world)) \<and> needsPing 500000000 item (w_pool idle_world)"
proof -
  let ?i = "\<lparr>ic_conn = 7, ic_createdAt = 0, ic_returnedAt = 0, ic_lastValidated = 0\<rparr>"
  have "?i \<in> set (idle (w_pool idle_world))" by (simp add: idle_world_def)
  moreover have "ms (validationInterval (w_pool idle_world)) \<le> 500000000"
    by (simp add: idle_world_def lent_fields ms_def)
  ultimately show ?thesis using pool_always_pings [OF idle_reachable, of ?i 500000000] by blast
qed

text \<open>A waiter can be left behind with room in the pool. There is a reachable state of an open
  pool with nothing lent, nothing idle, no operation under way and a free slot, in which an
  asynchronous borrower still waits: the last connection came back unusable, which frees its
  slot but serves no waiter. Only the deadline ends the wait.\<close>

theorem pool_strands_waiter:
  "\<exists>c w wt. reachable (pool_init c) (pool_step c) w \<and> \<not> closed (w_pool w) \<and> asyncWaiters (w_pool w) = [wt] \<and>
     w_enqueuedAt wt < w_deadline wt \<and> held w = {#} \<and> tasks w = {#} \<and> idle (w_pool w) = [] \<and> total (w_pool w) < maxConn c"
proof -
  let ?h = "\<lparr>h_conn = 7, h_createdAt = 0, h_borrowedAt = 0\<rparr>"
  define w1 where "w1 = lent_world\<lparr>tasks := {#TAsync 3 5#}, asked := {#3#}\<rparr>"
  define wt where "wt = \<lparr>w_enqueuedAt = 0, w_deadline = 5000000, w_complete = 3\<rparr>"
  define w2 where "w2 = w1\<lparr>w_pool := (borrow_request (w_pool lent_world))\<lparr>asyncWaiters := [wt]\<rparr>, tasks := {#},
    held := {#?h#}, replies := {#}, gone := {#}\<rparr>"
  have 1: "pool_step small_cfg lent_world w1"
    using start_async [of 3 lent_world small_cfg 5] by (simp add: lent_fields w1_def small_pool_fields)
  have t: "tasks w1 = add_mset (TAsync 3 5) {#}" by (simp add: w1_def)
  have a: "borrowAsync 0 5 3 small_cfg (w_pool w1) = ((borrow_request (w_pool lent_world))\<lparr>asyncWaiters := [wt]\<rparr>, AQueued)"
    by (simp add: borrowAsync_def Let_def w1_def lent_fields small_pool_fields wt_def ms_def)
  have 2: "pool_step small_cfg w1 w2"
    using async [OF t a] by (simp add: w2_def w1_def lent_fields)
  have h: "held w2 = add_mset ?h {#}" by (simp add: w2_def)
  have lt: "leakDetectionThreshold (borrow_request (w_pool lent_world)) = 0"
    by (simp add: borrow_request_def lent_fields)
  obtain s handoff rs cs where r: "returnConn 0 (maxConn small_cfg) ?h False (w_pool w2) = (s, handoff, rs, cs)"
    using prod_cases4 by blast
  have s: "handoff = None" "asyncWaiters s = [wt]" "closed s = False" "idle s = []" "total s = 0"
    using r lt by (auto simp: returnConn_def Let_def w2_def lent_fields)
  have "reachable (pool_init small_cfg) (pool_step small_cfg) (w2\<lparr>w_pool := s,
       held := (case handoff of None \<Rightarrow> {#} | Some (cb, h') \<Rightarrow> add_mset h' {#}),
       replies := (case handoff of None \<Rightarrow> replies w2 + mset rs
         | Some (cb, h') \<Rightarrow> add_mset (cb, Some h', status_OK) (replies w2) + mset rs),
       gone := gone w2 + mset cs\<rparr>)" (is "reachable _ _ ?w3")
    by (rule reach_step [OF reach_step [OF reach_step [OF lent_reachable 1] 2] give_back [OF h r]])
  moreover have "\<not> closed (w_pool ?w3) \<and> asyncWaiters (w_pool ?w3) = [wt] \<and> w_enqueuedAt wt < w_deadline wt \<and>
      held ?w3 = {#} \<and> tasks ?w3 = {#} \<and> idle (w_pool ?w3) = [] \<and> total (w_pool ?w3) < maxConn small_cfg"
    by (simp add: s small_pool_fields w2_def wt_def)
  ultimately show ?thesis by blast
qed

text \<open>\<open>shutdown\<close> can leave the pool with a negative number of connections: a borrow that is
  connecting while the pool is shut down takes one off \<open>total\<close> after shutdown has already set it
  to the number lent, and \<open>totalCount\<close>, which converts it to an unsigned number, then reports
  18446744073709551615 connections.\<close>

theorem pool_total_underflow:
  "\<exists>c w. reachable (pool_init c) (pool_step c) w \<and> closed (w_pool w) \<and> total (w_pool w) = -1 \<and>
     uint (totalCount (w_pool w)) = 18446744073709551615"
proof -
  define s1 where "s1 = (w_pool creating_world)\<lparr>closed := True, asyncWaiters := []\<rparr>"
  define w1 where "w1 = creating_world\<lparr>w_pool := s1, tasks := {#TDrain, TCreate 0 5#}, replies := {#}\<rparr>"
  define w2 where "w2 = w1\<lparr>w_pool := shutdown_end s1, tasks := {#TCreate 0 5#}\<rparr>"
  have f: "asyncWaiters (w_pool creating_world) = []" "idle (w_pool creating_world) = []" "borrowed (w_pool creating_world) = 0"
    "tasks creating_world = {#TCreate 0 5#}" "replies creating_world = {#}" "made creating_world = {#}"
    by (simp_all add: creating_world_def small_pool_fields small_world_eq)
  have b: "shutdown_begin (w_pool creating_world) = (s1, [])" by (simp add: shutdown_begin_def s1_def f)
  have 1: "pool_step small_cfg creating_world w1"
    using start_shutdown [OF b] by (simp add: w1_def f)
  have t: "tasks w1 = add_mset TDrain {#TCreate 0 5#}" "shutdown_drain (w_pool w1) = None"
    by (simp_all add: w1_def shutdown_drain_def s1_def f)
  have 2: "pool_step small_cfg w1 w2"
    using end_shutdown [OF t] by (simp add: w2_def w1_def)
  have t2: "tasks w2 = add_mset (TCreate 0 5) {#}" "is_new (Inr 7) w2"
    by (simp_all add: w2_def w1_def is_new_def f)
  obtain s nx cs where r: "borrow_created 0 0 (Inr 7) (w_pool w2) = (s, nx, cs)" using prod_cases3 by blast
  have s: "closed s" "total s = -1"
    using r by (auto simp: borrow_created_def w2_def shutdown_end_def s1_def f)
  have "reachable (pool_init small_cfg) (pool_step small_cfg) (w2\<lparr>w_pool := s, tasks := {#} + next_tasks 0 5 nx,
       held := held w2 + next_held nx, gone := gone w2 + mset cs, made := made w2 + made_conns (Inr 7)\<rparr>)" (is "reachable _ _ ?w3")
    by (rule reach_step [OF reach_step [OF reach_step [OF creating_reachable 1] 2] create [OF t2 r]])
  moreover have "closed (w_pool ?w3) \<and> total (w_pool ?w3) = -1 \<and> uint (totalCount (w_pool ?w3)) = 18446744073709551615"
    by (simp add: s totalCount_def unsigned_minus_1_eq_mask mask_eq_exp_minus_1)
  ultimately show ?thesis by blast
qed

end
