(* ===== verification/CacheKey.thy ===== *)
theory CacheKey
  imports Types
begin

text \<open>
  The key a statement and its parameters are cached under (\<open>cacheKey\<close> and \<open>appendValueKey\<close> of
  \<open>src/core/database_manager.cpp\<close>). A cached result is returned for an equal key without looking
  at the statement again, so two different requests must never share a key.
\<close>

abbreviation record_sep :: char where "record_sep \<equiv> CHR 0x1E"
abbreviation unit_sep :: char where "unit_sep \<equiv> CHR 0x1F"
abbreviation nul :: char where "nul \<equiv> CHR 0x00"

definition sized :: "string \<Rightarrow> string" where
  "sized s = nat_to_string (length s) @ '':'' @ s"

definition blob_chars :: "blob \<Rightarrow> string" where
  "blob_chars b = map (\<lambda>w. char_of (unat w)) b"

fun appendValueKey :: "val \<Rightarrow> string"
  and key_items :: "val list \<Rightarrow> string"
  and key_fields :: "(string \<times> val) list \<Rightarrow> string"
  and key_typed_items :: "val list \<Rightarrow> string"
  and key_typed_fields :: "(string \<times> val) list \<Rightarrow> string" where
  "appendValueKey VNull = ''n''"
| "appendValueKey (VBool b) = ''b'' @ (if b then ''1'' else ''0'')"
| "appendValueKey (VInt i) = ''i'' @ int_to_string (sint i)"
| "appendValueKey (VUInt u) = ''u'' @ nat_to_string (unat u)"
| "appendValueKey (VDouble bits) = ''d'' @ nat_to_string (unat bits)"
| "appendValueKey (VTimestamp t) = ''t'' @ int_to_string (sint t)"
| "appendValueKey (VString s) = ''s'' @ sized s"
| "appendValueKey (VDecimal s) = ''m'' @ sized s"
| "appendValueKey (VDate s) = ''a'' @ sized s"
| "appendValueKey (VTime s) = ''o'' @ sized s"
| "appendValueKey (VUuid s) = ''g'' @ sized s"
| "appendValueKey (VIntervalYM s) = ''y'' @ sized s"
| "appendValueKey (VIntervalDS s) = ''v'' @ sized s"
| "appendValueKey (VJson s) = ''j'' @ sized s"
| "appendValueKey (VBlob b) = ''x'' @ sized (blob_chars b)"
| "appendValueKey (VArray items) = ''A'' @ nat_to_string (length items) @ key_items items"
| "appendValueKey (VComposite fs) = ''C'' @ nat_to_string (length fs) @ key_fields fs"
| "appendValueKey (VTypedArray t items) =
     ''Y'' @ t @ nat_to_string (length items) @ key_typed_items items"
| "appendValueKey (VTypedComposite t fs) =
     ''O'' @ t @ nat_to_string (length fs) @ key_typed_fields fs"
| "key_items [] = []"
| "key_items (v # vs) = unit_sep # appendValueKey v @ key_items vs"
| "key_fields [] = []"
| "key_fields ((n, v) # fs) = unit_sep # sized n @ appendValueKey v @ key_fields fs"
| "key_typed_items [] = []"
| "key_typed_items (v # vs) = appendValueKey v @ key_typed_items vs"
| "key_typed_fields [] = []"
| "key_typed_fields ((n, v) # fs) = n @ appendValueKey v @ key_typed_fields fs"

definition cacheKey :: "string \<Rightarrow> params \<Rightarrow> string" where
  "cacheKey sql ps = sql @ [record_sep] @ nat_to_string (length ps) @ key_items ps"

section \<open>The encoding of a value is self-delimiting\<close>

text \<open>The values without a database type name, at any depth.\<close>

fun untyped :: "val \<Rightarrow> bool"
  and untyped_items :: "val list \<Rightarrow> bool"
  and untyped_fields :: "(string \<times> val) list \<Rightarrow> bool" where
  "untyped (VArray items) = untyped_items items"
| "untyped (VComposite fs) = untyped_fields fs"
| "untyped (VTypedArray _ _) = False"
| "untyped (VTypedComposite _ _) = False"
| "untyped _ = True"
| "untyped_items [] = True"
| "untyped_items (v # vs) = (untyped v \<and> untyped_items vs)"
| "untyped_fields [] = True"
| "untyped_fields ((n, v) # fs) = (untyped v \<and> untyped_fields fs)"

definition no_digit :: "string \<Rightarrow> bool" where
  "no_digit r \<longleftrightarrow> r = [] \<or> \<not> is_digit (hd r)"

lemma no_digit_Nil [simp]: "no_digit []"
  and no_digit_unit [simp]: "no_digit (unit_sep # r)"
  and no_digit_colon [simp]: "no_digit (CHR '':'' # r)"
  by (simp_all add: no_digit_def is_digit_def)

lemma key_items_no_digit [simp]: "no_digit r \<Longrightarrow> no_digit (key_items vs @ r)"
  by (cases vs) simp_all

lemma key_fields_no_digit [simp]: "no_digit r \<Longrightarrow> no_digit (key_fields fs @ r)"
  by (cases fs) (auto split: prod.splits)

lemma nat_key_inj:
  "nat_to_string m @ r = nat_to_string n @ r' \<Longrightarrow> no_digit r \<Longrightarrow> no_digit r' \<Longrightarrow> m = n \<and> r = r'"
  unfolding no_digit_def by (rule nat_to_string_append_inj)

lemma int_key_inj:
  "int_to_string i @ r = int_to_string j @ r' \<Longrightarrow> no_digit r \<Longrightarrow> no_digit r' \<Longrightarrow> i = j \<and> r = r'"
  unfolding no_digit_def by (rule int_to_string_append_inj)

lemma sized_inj:
  assumes "sized s @ r = sized t @ r'"
  shows "s = t \<and> r = r'"
proof -
  from assms have "nat_to_string (length s) @ CHR '':'' # s @ r = nat_to_string (length t) @ CHR '':'' # t @ r'"
    by (simp add: sized_def)
  from nat_key_inj [OF this] have "length s = length t" and "s @ r = t @ r'" by simp_all
  then show ?thesis by simp
qed

lemma blob_chars_inj: "blob_chars a = blob_chars b \<longleftrightarrow> a = b"
proof -
  have "inj (\<lambda>w :: 8 word. char_of (unat w) :: char)"
  proof (rule injI)
    fix v w :: "8 word"
    assume eq: "(char_of (unat v) :: char) = char_of (unat w)"
    have "unat v < 256" "unat w < 256" using unsigned_less [of v] unsigned_less [of w] by simp_all
    moreover from eq have "(of_char (char_of (unat v) :: char) :: nat) = of_char (char_of (unat w) :: char)"
      by simp
    ultimately have "unat v = unat w" by simp
    then show "v = w" by (simp add: word_unat_eq_iff)
  qed
  then show ?thesis by (simp add: blob_chars_def inj_map_eq_map)
qed

lemma appendValueKey_tag: "\<exists>p. appendValueKey v = type_tag v # p"
  by (cases v) auto

lemma append_tag_eq:
  assumes "appendValueKey v @ r = appendValueKey w @ r'"
  shows "type_tag v = type_tag w"
proof -
  from appendValueKey_tag [of v] appendValueKey_tag [of w] obtain p q where
    "appendValueKey v = type_tag v # p" "appendValueKey w = type_tag w # q" by auto
  with assms show ?thesis by simp
qed

lemma sint_inj64: "sint (i :: i64) = sint j \<Longrightarrow> i = j"
  by (rule signed_word_eqI)

lemma scalar_key_inj:
  assumes eq: "appendValueKey v @ r = appendValueKey w @ r'"
    and scalar: "\<forall>items. v \<noteq> VArray items" "\<forall>fs. v \<noteq> VComposite fs" "untyped v"
    and ends: "no_digit r" "no_digit r'"
  shows "v = w \<and> r = r'"
proof -
  have i: "i = j \<and> r = r'" if "int_to_string (sint i) @ r = int_to_string (sint j) @ r'" for i j :: i64
    using int_key_inj [OF that ends] sint_inj64 [of i j] by simp
  have u: "i = j \<and> r = r'" if "nat_to_string (unat i) @ r = nat_to_string (unat j) @ r'" for i j :: u64
    using nat_key_inj [OF that ends] by (simp add: word_unat_eq_iff)
  show ?thesis
    using append_tag_eq [OF eq] eq scalar
    by (cases v; cases w) (auto dest!: i u sized_inj simp: blob_chars_inj split: if_splits)
qed

lemma value_key_inj:
  "appendValueKey v @ r = appendValueKey w @ r' \<Longrightarrow> untyped v \<Longrightarrow> untyped w \<Longrightarrow>
     no_digit r \<Longrightarrow> no_digit r' \<Longrightarrow> v = w \<and> r = r'"
  "key_items vs @ r = key_items ws @ r' \<Longrightarrow> untyped_items vs \<Longrightarrow> untyped_items ws \<Longrightarrow>
     length vs = length ws \<Longrightarrow> no_digit r \<Longrightarrow> no_digit r' \<Longrightarrow> vs = ws \<and> r = r'"
  "key_fields fs @ r = key_fields gs @ r' \<Longrightarrow> untyped_fields fs \<Longrightarrow> untyped_fields gs \<Longrightarrow>
     length fs = length gs \<Longrightarrow> no_digit r \<Longrightarrow> no_digit r' \<Longrightarrow> fs = gs \<and> r = r'"
proof (induction v and vs and fs arbitrary: w r r' and ws r r' and gs r r' rule: untyped_untyped_items_untyped_fields.induct)
  case (1 items)
  from append_tag_eq [OF 1(2)] obtain items' where w: "w = VArray items'" by (cases w) auto
  with 1(2) have "nat_to_string (length items) @ key_items items @ r = nat_to_string (length items') @ key_items items' @ r'"
    by simp
  from nat_key_inj [OF this] 1(5,6) have "length items = length items'" "key_items items @ r = key_items items' @ r'"
    by simp_all
  with 1(1) [OF this(2)] 1(3-6) w show ?case by simp
next
  case (2 fs)
  from append_tag_eq [OF 2(2)] obtain gs where w: "w = VComposite gs" by (cases w) auto
  with 2(2) have "nat_to_string (length fs) @ key_fields fs @ r = nat_to_string (length gs) @ key_fields gs @ r'"
    by simp
  from nat_key_inj [OF this] 2(5,6) have "length fs = length gs" "key_fields fs @ r = key_fields gs @ r'"
    by simp_all
  with 2(1) [OF this(2)] 2(3-6) w show ?case by simp
next
  case (7 v vs)
  from 7(6) obtain x xs where ws: "ws = x # xs" by (cases ws) auto
  with 7(3) have "appendValueKey v @ (key_items vs @ r) = appendValueKey x @ (key_items xs @ r')" by simp
  from 7(1) [OF this] 7(4-8) ws have v: "v = x" and "key_items vs @ r = key_items xs @ r'" by simp_all
  with 7(2) [OF this(2)] 7(4-8) ws show ?case by simp
next
  case (9 n v fs)
  from 9(6) obtain m x xs where gs: "gs = (m, x) # xs" by (cases gs) auto
  with 9(3) have "sized n @ (appendValueKey v @ key_fields fs @ r) = sized m @ (appendValueKey x @ key_fields xs @ r')" by simp
  from sized_inj [OF this] have n: "n = m" and eq: "appendValueKey v @ (key_fields fs @ r) = appendValueKey x @ (key_fields xs @ r')"
    by auto
  from 9(1) [OF eq] 9(4-8) gs have "v = x" and "key_fields fs @ r = key_fields xs @ r'" by simp_all
  with 9(2) [OF this(2)] 9(4-8) gs n show ?case by simp
qed (simp, simp, (rule scalar_key_inj; simp)+, simp, simp)

section \<open>Distinct requests have distinct keys\<close>



text \<open>With database type names the key is ambiguous, since a type name is written without its
  length: a collection \<open>T\<close> holding the number 0 and an empty collection of type \<open>T1i\<close> have the
  same key for every statement, so one is answered with the cached result of the other.\<close>

theorem cacheKey_typed_collision:
  "cacheKey sql [VTypedArray ''T'' [VInt 0]] = cacheKey sql [VTypedArray ''T1i'' []] \<and>
   VTypedArray ''T'' [VInt 0] \<noteq> VTypedArray ''T1i'' []"
proof -
  have n: "nat_to_string 0 = ''0''" "nat_to_string (Suc 0) = ''1''"
    by code_simp+
  show ?thesis
    by (simp add: cacheKey_def int_to_string_def n)
qed

end
