(* ===== verification/QueryCache.thy ===== *)
theory QueryCache
  imports CacheKey "HOL-Library.AList"
begin

text \<open>
  The result cache of \<open>src/core/query_cache.cpp\<close>: a hash map from composite keys to entries, a
  recency list, a byte total and the counters. Every method holds the mutex for its whole body,
  so each is one state transformer; the clock is an argument, in nanoseconds. An entry's list
  iterator is the position of its key in the recency list. \<open>sizeof(std::string)\<close> and
  \<open>sizeof(Value)\<close> are parameters of the byte estimate.
\<close>

record cache_config =
  cc_enabled :: bool
  ttl_ms :: int
  max_entries :: int
  max_memory_bytes :: int
  cache_on_replica_only :: bool

record cache_entry =
  entry_rs :: result_set
  entry_expire :: int
  entry_bytes :: nat

record cache_state =
  cfg :: cache_config
  store :: "(string \<times> cache_entry) list"
  lru :: "string list"
  totalBytes :: nat
  cache_enabled :: bool
  replicaOnly :: bool
  hits :: nat
  misses :: nat
  evictions :: nat
  invalidations :: nat

definition compositeKey :: "string \<Rightarrow> string \<Rightarrow> string" where
  "compositeKey dataSource key = dataSource @ [nul] @ key"

definition valueBytes :: "nat \<Rightarrow> val \<Rightarrow> nat" where
  "valueBytes sizeof_value v =
     (case v of
        VString s \<Rightarrow> length s
      | VDecimal s \<Rightarrow> length s
      | VDate s \<Rightarrow> length s
      | VTime s \<Rightarrow> length s
      | VUuid s \<Rightarrow> length s
      | VJson s \<Rightarrow> length s
      | VBlob b \<Rightarrow> length b
      | _ \<Rightarrow> sizeof_value)"

definition approxBytes :: "nat \<Rightarrow> nat \<Rightarrow> result_set \<Rightarrow> nat" where
  "approxBytes sizeof_string sizeof_value rs =
     sum_list (map (\<lambda>f. length f + sizeof_string) (rs_fields rs)) +
     sum_list (map (\<lambda>row. sum_list (map (\<lambda>(col, v). length col + sizeof_string + valueBytes sizeof_value v) row))
       (rs_rows rs))"

definition eraseLocked :: "string \<Rightarrow> cache_state \<Rightarrow> cache_state" where
  "eraseLocked ck s =
     (case map_of (store s) ck of
        None \<Rightarrow> s
      | Some e \<Rightarrow> s\<lparr>totalBytes := totalBytes s - (if entry_bytes e \<le> totalBytes s then entry_bytes e else totalBytes s),
          lru := remove1 ck (lru s), store := AList.delete ck (store s)\<rparr>)"

definition too_many :: "bool \<Rightarrow> cache_state \<Rightarrow> bool" where
  "too_many reserveSlot s \<longleftrightarrow> 0 < max_entries (cfg s) \<and>
     (if reserveSlot then nat (max_entries (cfg s)) \<le> length (store s)
      else nat (max_entries (cfg s)) < length (store s))"

definition too_big :: "nat \<Rightarrow> cache_state \<Rightarrow> bool" where
  "too_big incomingBytes s \<longleftrightarrow> 0 < max_memory_bytes (cfg s) \<and>
     nat (max_memory_bytes (cfg s)) < totalBytes s + incomingBytes"

function evictLocked :: "nat \<Rightarrow> bool \<Rightarrow> cache_state \<Rightarrow> cache_state" where
  "evictLocked incomingBytes reserveSlot s =
     (if lru s = [] \<or> \<not> too_many reserveSlot s \<and> \<not> too_big incomingBytes s then s
      else let old = last (lru s)
        in case map_of (store s) old of
             None \<Rightarrow> evictLocked incomingBytes reserveSlot (s\<lparr>lru := butlast (lru s)\<rparr>)
           | Some e \<Rightarrow> evictLocked incomingBytes reserveSlot
               ((eraseLocked old s)\<lparr>evictions := evictions (eraseLocked old s) + 1\<rparr>))"
  by pat_completeness auto
termination
  by (relation "measure (\<lambda>(i, r, s). length (lru s))")
    (auto simp: eraseLocked_def length_remove1)

declare evictLocked.simps [simp del]

definition configure :: "cache_config \<Rightarrow> cache_state \<Rightarrow> cache_state" where
  "configure c s = s\<lparr>cfg := c, store := [], lru := [], totalBytes := 0,
     cache_enabled := cc_enabled c \<and> 0 < ttl_ms c, replicaOnly := cache_on_replica_only c\<rparr>"

definition touch :: "string \<Rightarrow> cache_state \<Rightarrow> cache_state" where
  "touch ck s = s\<lparr>lru := ck # remove1 ck (lru s)\<rparr>"

definition cache_get :: "int \<Rightarrow> string \<Rightarrow> string \<Rightarrow> cache_state \<Rightarrow> result_set option \<times> cache_state" where
  "cache_get now dataSource key s =
     (if \<not> cache_enabled s then (None, s)
      else if \<not> cc_enabled (cfg s) then (None, s)
      else let ck = compositeKey dataSource key
        in case map_of (store s) ck of
             None \<Rightarrow> (None, s\<lparr>misses := misses s + 1\<rparr>)
           | Some e \<Rightarrow>
             if entry_expire e \<le> now then (None, (eraseLocked ck s)\<lparr>misses := misses s + 1\<rparr>)
             else (Some (entry_rs e), (touch ck s)\<lparr>hits := hits s + 1\<rparr>))"

definition cache_put :: "nat \<Rightarrow> nat \<Rightarrow> int \<Rightarrow> string \<Rightarrow> string \<Rightarrow> result_set \<Rightarrow> cache_state \<Rightarrow> cache_state" where
  "cache_put szs szv now dataSource key rs s =
     (let bytes = approxBytes szs szv rs
      in if \<not> cache_enabled s then s
         else if \<not> cc_enabled (cfg s) then s
         else if ttl_ms (cfg s) \<le> 0 then s
         else if 0 < max_memory_bytes (cfg s) \<and> nat (max_memory_bytes (cfg s)) < bytes then s
         else let ck = compositeKey dataSource key;
                  e = \<lparr>entry_rs = rs, entry_expire = now + ttl_ms (cfg s) * 1000000, entry_bytes = bytes\<rparr>
           in case map_of (store s) ck of
                Some old \<Rightarrow>
                  evictLocked 0 False
                    (touch ck (s\<lparr>totalBytes := totalBytes s -
                         (if entry_bytes old \<le> totalBytes s then entry_bytes old else totalBytes s) + bytes,
                       store := AList.update ck e (store s)\<rparr>))
              | None \<Rightarrow>
                  (let s1 = evictLocked bytes True s
                   in s1\<lparr>lru := ck # lru s1, totalBytes := totalBytes s1 + bytes,
                         store := AList.update ck e (store s1)\<rparr>))"

text \<open>The loop of \<open>invalidate\<close> visits the map's entries once each, in the map's order.\<close>

fun invalidate_loop :: "string \<Rightarrow> (string \<times> cache_entry) list \<Rightarrow> cache_state \<Rightarrow> nat \<times> cache_state" where
  "invalidate_loop pre [] s = (0, s)"
| "invalidate_loop pre ((k, e) # es) s =
     (if prefix pre k
      then (case invalidate_loop pre es
              (s\<lparr>totalBytes := totalBytes s - (if entry_bytes e \<le> totalBytes s then entry_bytes e else totalBytes s),
                 lru := remove1 k (lru s), store := AList.delete k (store s)\<rparr>) of
              (n, s') \<Rightarrow> (Suc n, s'))
      else invalidate_loop pre es s)"

definition cache_invalidate :: "string \<Rightarrow> cache_state \<Rightarrow> cache_state" where
  "cache_invalidate dataSource s =
     (if \<not> cache_enabled s then s
      else if store s = [] then s
      else case invalidate_loop (compositeKey dataSource []) (store s) s of
        (removed, s') \<Rightarrow> s'\<lparr>invalidations := invalidations s' + removed\<rparr>)"

definition initial_cache :: cache_state where
  "initial_cache = \<lparr>cfg = \<lparr>cc_enabled = False, ttl_ms = 60000, max_entries = 1000, max_memory_bytes = 0,
       cache_on_replica_only = False\<rparr>,
     store = [], lru = [], totalBytes = 0, cache_enabled = False, replicaOnly = False,
     hits = 0, misses = 0, evictions = 0, invalidations = 0\<rparr>"

section \<open>Invariant\<close>

definition bytes_of :: "(string \<times> cache_entry) list \<Rightarrow> nat" where
  "bytes_of st = sum_list (map (\<lambda>(k, e). entry_bytes e) st)"

text \<open>The recency list holds exactly the keys of the map, the byte total is the sum over the
  entries, and a cache that is switched off is empty.\<close>

definition consistent :: "cache_state \<Rightarrow> bool" where
  "consistent s \<longleftrightarrow> distinct (map fst (store s)) \<and> distinct (lru s) \<and>
     set (lru s) = set (map fst (store s)) \<and> totalBytes s = bytes_of (store s) \<and>
     (\<not> cache_enabled s \<longrightarrow> store s = [])"

definition within_limits :: "cache_state \<Rightarrow> bool" where
  "within_limits s \<longleftrightarrow> (0 < max_entries (cfg s) \<longrightarrow> length (store s) \<le> nat (max_entries (cfg s))) \<and>
     (0 < max_memory_bytes (cfg s) \<longrightarrow> totalBytes s \<le> nat (max_memory_bytes (cfg s)))"

definition cache_inv :: "cache_state \<Rightarrow> bool" where
  "cache_inv s \<longleftrightarrow> consistent s \<and> within_limits s"

lemma map_le_Some: "m \<subseteq>\<^sub>m n \<Longrightarrow> m k = Some v \<Longrightarrow> n k = Some v"
  by (metis domI map_le_def)

lemma delete_absent: "k \<notin> fst ` set st \<Longrightarrow> AList.delete k st = st"
  by (rule delete_id) (auto simp: image_iff)

lemma delete_split:
  assumes "distinct (map fst st)" and "map_of st k = Some e"
  shows "bytes_of st = bytes_of (AList.delete k st) + entry_bytes e"
    and "length st = Suc (length (AList.delete k st))"
  using assms by (induction st) (auto simp: bytes_of_def delete_absent split: if_splits)

lemma consistentD:
  assumes "consistent s" and "map_of (store s) k = Some e"
  shows "entry_bytes e \<le> totalBytes s" and "k \<in> set (lru s)"
    and "totalBytes s - entry_bytes e = bytes_of (AList.delete k (store s))"
    and "length (store s) = Suc (length (AList.delete k (store s)))"
  using assms delete_split [of "store s" k e] by (auto simp: consistent_def dest: map_of_SomeD)

lemma eraseLocked_eq:
  assumes "consistent s" and "map_of (store s) k = Some e"
  shows "eraseLocked k s = s\<lparr>totalBytes := bytes_of (AList.delete k (store s)),
    lru := remove1 k (lru s), store := AList.delete k (store s)\<rparr>"
  using assms consistentD [OF assms] by (simp add: eraseLocked_def)

lemma consistent_erased:
  assumes "consistent s"
  shows "consistent (s\<lparr>totalBytes := bytes_of (AList.delete k (store s)),
    lru := remove1 k (lru s), store := AList.delete k (store s)\<rparr>)"
  using assms by (auto simp: consistent_def delete_keys distinct_removeAll)

lemma consistent_eraseLocked: "consistent s \<Longrightarrow> consistent (eraseLocked k s)"
  using eraseLocked_eq [of s k] consistent_erased [of s k]
  by (cases "map_of (store s) k") (simp_all add: eraseLocked_def)

lemma eraseLocked_simps [simp]:
  "cfg (eraseLocked k s) = cfg s" "cache_enabled (eraseLocked k s) = cache_enabled s"
  "map_of (store (eraseLocked k s)) = (map_of (store s))(k := None)"
  by (auto simp: eraseLocked_def delete_conv' split: option.splits)

lemma eraseLocked_smaller:
  "totalBytes (eraseLocked k s) \<le> totalBytes s" "length (store (eraseLocked k s)) \<le> length (store s)"
  by (auto simp: eraseLocked_def length_delete_le split: option.splits)

lemma consistent_counters [simp]:
  "consistent (s\<lparr>hits := n\<rparr>) = consistent s" "consistent (s\<lparr>misses := n\<rparr>) = consistent s"
  "consistent (s\<lparr>evictions := n\<rparr>) = consistent s" "consistent (s\<lparr>invalidations := n\<rparr>) = consistent s"
  "within_limits (s\<lparr>hits := n\<rparr>) = within_limits s" "within_limits (s\<lparr>misses := n\<rparr>) = within_limits s"
  "within_limits (s\<lparr>evictions := n\<rparr>) = within_limits s" "within_limits (s\<lparr>invalidations := n\<rparr>) = within_limits s"
  by (simp_all add: consistent_def within_limits_def)

text \<open>Eviction, for an invariant of the single eviction step.\<close>

lemma evict_induct:
  assumes "consistent s" and "P s"
    and step: "\<And>s. consistent s \<Longrightarrow> P s \<Longrightarrow> lru s \<noteq> [] \<Longrightarrow> too_many r s \<or> too_big i s \<Longrightarrow>
      P ((eraseLocked (last (lru s)) s)\<lparr>evictions := evictions (eraseLocked (last (lru s)) s) + 1\<rparr>)"
  shows "consistent (evictLocked i r s) \<and> P (evictLocked i r s)"
  using assms
proof (induction i r s rule: evictLocked.induct)
  case (1 i r s)
  let ?old = "last (lru s)"
  show ?case
  proof (cases "lru s = [] \<or> \<not> too_many r s \<and> \<not> too_big i s")
    case True
    with 1(3,4) show ?thesis by (subst (1 2) evictLocked.simps) simp
  next
    case False
    then have "?old \<in> set (map fst (store s))" using 1(3) by (auto simp: consistent_def)
    then obtain e where e: "map_of (store s) ?old = Some e"
      by (metis map_of_eq_None_iff not_Some_eq set_map)
    with False have "evictLocked i r s =
      evictLocked i r ((eraseLocked ?old s)\<lparr>evictions := evictions (eraseLocked ?old s) + 1\<rparr>)"
      by (subst evictLocked.simps) (auto simp: Let_def)
    moreover have "P ((eraseLocked ?old s)\<lparr>evictions := evictions (eraseLocked ?old s) + 1\<rparr>)"
      using False by (intro 1(5) [OF 1(3,4)]) auto
    ultimately show ?thesis
      using 1(2) [OF False refl e _ _ 1(5)] consistent_eraseLocked [OF 1(3)] by simp
  qed
qed

lemma evict_consistent: "consistent s \<Longrightarrow> consistent (evictLocked i r s)"
  using evict_induct [of s "\<lambda>_. True"] by blast

lemma evict_keeps:
  assumes "consistent s"
  shows "cfg (evictLocked i r s) = cfg s" and "cache_enabled (evictLocked i r s) = cache_enabled s"
    and "map_of (store (evictLocked i r s)) \<subseteq>\<^sub>m map_of (store s)"
proof -
  have "cfg (evictLocked i r s) = cfg s \<and> cache_enabled (evictLocked i r s) = cache_enabled s \<and>
    map_of (store (evictLocked i r s)) \<subseteq>\<^sub>m map_of (store s)"
    by (rule evict_induct [OF assms, THEN conjunct2]) (auto simp: map_le_def)
  then show "cfg (evictLocked i r s) = cfg s" and "cache_enabled (evictLocked i r s) = cache_enabled s"
    and "map_of (store (evictLocked i r s)) \<subseteq>\<^sub>m map_of (store s)" by auto
qed

lemma evict_done:
  "lru (evictLocked i r s) = [] \<or> \<not> too_many r (evictLocked i r s) \<and> \<not> too_big i (evictLocked i r s)"
proof (induction i r s rule: evictLocked.induct)
  case (1 i r s)
  show ?case
  proof (cases "lru s = [] \<or> \<not> too_many r s \<and> \<not> too_big i s")
    case True
    then show ?thesis by (subst (1 2 3) evictLocked.simps) auto
  next
    case False
    with 1 [OF False refl] show ?thesis
      by (subst (1 2 3) evictLocked.simps) (auto simp: Let_def split: option.splits)
  qed
qed

text \<open>After eviction there is room for the incoming entry.\<close>

lemma evict_room:
  assumes "consistent s"
  shows "0 < max_entries (cfg s) \<Longrightarrow> length (store (evictLocked i True s)) < nat (max_entries (cfg s))"
    and "0 < max_memory_bytes (cfg s) \<Longrightarrow> i \<le> nat (max_memory_bytes (cfg s)) \<Longrightarrow>
      totalBytes (evictLocked i r s) + i \<le> nat (max_memory_bytes (cfg s))"
    and "0 < max_entries (cfg s) \<Longrightarrow> length (store (evictLocked i False s)) \<le> nat (max_entries (cfg s))"
proof -
  have empty: "lru t = [] \<Longrightarrow> store t = [] \<and> totalBytes t = 0" if "consistent t" for t
    using that by (auto simp: consistent_def bytes_of_def)
  note facts = evict_keeps(1) [OF assms] empty [OF evict_consistent [OF assms]]
  show "0 < max_entries (cfg s) \<Longrightarrow> length (store (evictLocked i True s)) < nat (max_entries (cfg s))"
    using evict_done [of i True s] facts(1) [of i True] facts(2) [of i True] by (auto simp: too_many_def)
  show "0 < max_memory_bytes (cfg s) \<Longrightarrow> i \<le> nat (max_memory_bytes (cfg s)) \<Longrightarrow>
      totalBytes (evictLocked i r s) + i \<le> nat (max_memory_bytes (cfg s))"
    using evict_done [of i r s] facts(1) [of i r] facts(2) [of i r] by (auto simp: too_big_def)
  show "0 < max_entries (cfg s) \<Longrightarrow> length (store (evictLocked i False s)) \<le> nat (max_entries (cfg s))"
    using evict_done [of i False s] facts(1) [of i False] facts(2) [of i False] by (auto simp: too_many_def)
qed

section \<open>The operations keep the invariant\<close>

lemma initial_cache_inv: "cache_inv initial_cache"
  by (simp add: cache_inv_def consistent_def within_limits_def initial_cache_def bytes_of_def)

lemma configure_inv: "cache_inv (configure c s)"
  by (simp add: cache_inv_def consistent_def within_limits_def configure_def bytes_of_def)

lemma erase_inv: "cache_inv s \<Longrightarrow> cache_inv (eraseLocked k s)"
  using eraseLocked_smaller [of k s] consistent_eraseLocked [of s k]
  by (auto simp: cache_inv_def within_limits_def)

lemma touch_consistent: "consistent s \<Longrightarrow> k \<in> set (lru s) \<Longrightarrow> consistent (touch k s)"
  by (auto simp: touch_def consistent_def)

lemma cache_get_inv:
  assumes "cache_inv s"
  shows "cache_inv (snd (cache_get now ds k s))"
proof -
  have t: "cache_inv (touch q s)" if "map_of (store s) q = Some e" for q e
    using that assms touch_consistent [of s q] consistentD(2) [of s q e]
    by (simp add: cache_inv_def) (simp add: within_limits_def touch_def)
  have "cache_inv (s\<lparr>hits := n\<rparr>) = cache_inv s" "cache_inv (s\<lparr>misses := n\<rparr>) = cache_inv s" for s n
    by (simp_all add: cache_inv_def)
  with assms erase_inv [OF assms] t show ?thesis
    by (simp add: cache_get_def Let_def split: option.splits)
qed

lemma update_present:
  assumes "distinct (map fst st)" and "map_of st k = Some old"
  shows "bytes_of (AList.update k e st) = bytes_of st - entry_bytes old + entry_bytes e \<and>
    entry_bytes old \<le> bytes_of st"
  using assms by (induction st) (auto simp: bytes_of_def)

lemma update_absent:
  "map_of st k = None \<Longrightarrow> AList.update k e st = st @ [(k, e)]"
  by (induction st) (auto split: if_splits)

text \<open>The state \<open>put\<close> hands to eviction when the key is present, and the one it builds after
  eviction when it is absent.\<close>

lemma consistent_replaced:
  assumes "consistent s" and "map_of (store s) k = Some old" and "cache_enabled s"
  shows "consistent (touch k (s\<lparr>totalBytes := totalBytes s -
       (if entry_bytes old \<le> totalBytes s then entry_bytes old else totalBytes s) + entry_bytes e,
     store := AList.update k e (store s)\<rparr>))"
proof -
  have "k \<in> fst ` set (store s)" using assms(2) by (force dest: map_of_SomeD)
  with assms update_present [of "store s" k old e] show ?thesis
    by (auto simp: consistent_def touch_def distinct_update update_keys insert_absorb)
qed

lemma consistent_inserted:
  assumes "consistent s" and "map_of (store s) k = None" and "cache_enabled s"
  shows "consistent (s\<lparr>lru := k # lru s, totalBytes := totalBytes s + entry_bytes e,
    store := AList.update k e (store s)\<rparr>)"
  using assms by (auto simp: consistent_def update_absent bytes_of_def map_of_eq_None_iff image_iff)

definition accepts :: "nat \<Rightarrow> cache_state \<Rightarrow> bool" where
  "accepts bytes s \<longleftrightarrow> cache_enabled s \<and> cc_enabled (cfg s) \<and> 0 < ttl_ms (cfg s) \<and>
     (0 < max_memory_bytes (cfg s) \<longrightarrow> bytes \<le> nat (max_memory_bytes (cfg s)))"

definition fresh_entry :: "nat \<Rightarrow> nat \<Rightarrow> int \<Rightarrow> result_set \<Rightarrow> cache_state \<Rightarrow> cache_entry" where
  "fresh_entry szs szv now rs s =
     \<lparr>entry_rs = rs, entry_expire = now + ttl_ms (cfg s) * 1000000, entry_bytes = approxBytes szs szv rs\<rparr>"

definition replaced :: "string \<Rightarrow> cache_entry \<Rightarrow> cache_entry \<Rightarrow> cache_state \<Rightarrow> cache_state" where
  "replaced k old e s = touch k (s\<lparr>totalBytes := totalBytes s -
       (if entry_bytes old \<le> totalBytes s then entry_bytes old else totalBytes s) + entry_bytes e,
     store := AList.update k e (store s)\<rparr>)"

definition inserted :: "string \<Rightarrow> cache_entry \<Rightarrow> cache_state \<Rightarrow> cache_state" where
  "inserted k e s = s\<lparr>lru := k # lru s, totalBytes := totalBytes s + entry_bytes e,
    store := AList.update k e (store s)\<rparr>"

lemma cache_put_cases:
  "\<not> accepts (approxBytes szs szv rs) s \<Longrightarrow> cache_put szs szv now ds k rs s = s"
  "accepts (approxBytes szs szv rs) s \<Longrightarrow> map_of (store s) (compositeKey ds k) = None \<Longrightarrow>
     cache_put szs szv now ds k rs s =
       inserted (compositeKey ds k) (fresh_entry szs szv now rs s) (evictLocked (approxBytes szs szv rs) True s)"
  "accepts (approxBytes szs szv rs) s \<Longrightarrow> map_of (store s) (compositeKey ds k) = Some old \<Longrightarrow>
     cache_put szs szv now ds k rs s =
       evictLocked 0 False (replaced (compositeKey ds k) old (fresh_entry szs szv now rs s) s)"
  by (auto simp: accepts_def cache_put_def Let_def inserted_def replaced_def fresh_entry_def)

lemma replaced_simps [simp]:
  "cfg (replaced k old e s) = cfg s" "cache_enabled (replaced k old e s) = cache_enabled s"
  "map_of (store (replaced k old e s)) = (map_of (store s))(k \<mapsto> e)"
  "lru (replaced k old e s) = k # remove1 k (lru s)"
  by (simp_all add: replaced_def touch_def update_conv')

lemma inserted_simps [simp]:
  "cfg (inserted k e s) = cfg s" "cache_enabled (inserted k e s) = cache_enabled s"
  "map_of (store (inserted k e s)) = (map_of (store s))(k \<mapsto> e)"
  by (simp_all add: inserted_def update_conv')

lemma evict_absent: "consistent s \<Longrightarrow> map_of (store s) k = None \<Longrightarrow> map_of (store (evictLocked i r s)) k = None"
  using evict_keeps(3) [of s i r] by (auto simp: map_le_def dom_def)

lemma cache_put_inv:
  assumes "cache_inv s"
  shows "cache_inv (cache_put szs szv now ds k rs s)"
proof -
  let ?ck = "compositeKey ds k" and ?b = "approxBytes szs szv rs" and ?e = "fresh_entry szs szv now rs s"
  have c: "consistent s" using assms by (simp add: cache_inv_def)
  consider "\<not> accepts ?b s" | "accepts ?b s" "map_of (store s) ?ck = None"
    | old where "accepts ?b s" "map_of (store s) ?ck = Some old" by fastforce
  then show ?thesis
  proof cases
    case 1
    with assms show ?thesis by (simp add: cache_put_cases)
  next
    case 2
    let ?s1 = "evictLocked ?b True s"
    have "consistent (inserted ?ck ?e ?s1)" "length (store (inserted ?ck ?e ?s1)) = Suc (length (store ?s1))"
      using 2 consistent_inserted [OF evict_consistent [OF c] evict_absent [OF c 2(2)], of ?b True ?e]
        evict_absent [OF c 2(2), of ?b True] evict_keeps(2) [OF c]
      by (simp_all add: inserted_def accepts_def update_absent)
    moreover have "totalBytes (inserted ?ck ?e ?s1) = totalBytes ?s1 + ?b"
      by (simp add: inserted_def fresh_entry_def)
    ultimately show ?thesis
      using 2 evict_room [OF c, of ?b] evict_keeps(1) [OF c, of ?b True]
      by (auto simp: cache_put_cases accepts_def cache_inv_def within_limits_def)
  next
    case 3
    have t: "consistent (replaced ?ck old ?e s)"
      unfolding replaced_def using 3 by (intro consistent_replaced [OF c 3(2)]) (simp add: accepts_def)
    have "cache_inv (evictLocked 0 False (replaced ?ck old ?e s))"
      using evict_room [OF t, of 0] evict_keeps(1) [OF t, of 0 False] evict_consistent [OF t, of 0 False]
      by (auto simp: cache_inv_def within_limits_def)
    with 3 show ?thesis by (simp add: cache_put_cases)
  qed
qed

lemma invalidate_loop_spec:
  assumes "invalidate_loop pre es s = (n, s')" and "consistent s" and "distinct (map fst es)"
    and "\<forall>(k, e)\<in>set es. map_of (store s) k = Some e"
  shows "consistent s' \<and> cfg s' = cfg s \<and> cache_enabled s' = cache_enabled s \<and>
    totalBytes s' \<le> totalBytes s \<and> length (store s') \<le> length (store s) \<and>
    map_of (store s') = (\<lambda>k. if k \<in> fst ` set es \<and> prefix pre k then None else map_of (store s) k)"
  using assms
proof (induction pre es s arbitrary: n s' rule: invalidate_loop.induct)
  case (2 pre k e es s)
  show ?case
  proof (cases "prefix pre k")
    case False
    with 2(2) [OF False, of n s'] 2(3-) show ?thesis by (auto simp: fun_eq_iff)
  next
    case True
    let ?s1 = "eraseLocked k s"
    have ke: "map_of (store s) k = Some e" using 2(6) by simp
    then have s1: "?s1 = s\<lparr>totalBytes := totalBytes s - (if entry_bytes e \<le> totalBytes s then entry_bytes e else totalBytes s),
                 lru := remove1 k (lru s), store := AList.delete k (store s)\<rparr>"
      by (simp add: eraseLocked_def)
    from True 2(3) obtain m where m: "invalidate_loop pre es ?s1 = (m, s')"
      by (auto simp: s1 split: prod.splits)
    have "\<forall>(q, f)\<in>set es. map_of (store ?s1) q = Some f" using 2(5,6) by (fastforce simp: image_iff)
    from 2(1) [OF True, folded s1, OF m consistent_eraseLocked [OF 2(4)] _ this] 2(5) eraseLocked_smaller [of k s] True
    show ?thesis by (auto simp: fun_eq_iff)
  qed
qed (simp add: fun_eq_iff)

lemma invalidate_spec:
  assumes "consistent s"
  shows "consistent (cache_invalidate ds s) \<and> cfg (cache_invalidate ds s) = cfg s \<and>
    totalBytes (cache_invalidate ds s) \<le> totalBytes s \<and>
    length (store (cache_invalidate ds s)) \<le> length (store s) \<and>
    map_of (store (cache_invalidate ds s)) =
      (\<lambda>k. if prefix (compositeKey ds []) k then None else map_of (store s) k)"
proof (cases "store s = [] \<or> \<not> cache_enabled s")
  case True
  with assms show ?thesis by (auto simp: cache_invalidate_def consistent_def)
next
  case False
  obtain n s' where l: "invalidate_loop (compositeKey ds []) (store s) s = (n, s')" by fastforce
  have "\<forall>(k, e)\<in>set (store s). map_of (store s) k = Some e" "distinct (map fst (store s))"
    using assms by (auto simp: consistent_def)
  moreover have "k \<notin> fst ` set (store s) \<Longrightarrow> map_of (store s) k = None" for k
    by (simp add: map_of_eq_None_iff)
  ultimately show ?thesis
    using invalidate_loop_spec [OF l assms] False l by (auto simp: cache_invalidate_def fun_eq_iff)
qed

lemma cache_invalidate_inv: "cache_inv s \<Longrightarrow> cache_inv (cache_invalidate ds s)"
  using invalidate_spec [of s ds] by (auto simp: cache_inv_def within_limits_def)

section \<open>The contract of a result cache\<close>

text \<open>What a client of the cache may rely on. \<open>held\<close> is the result a state keeps for a data source
  and key; \<open>named\<close> says which data source names are legal.\<close>

datatype cache_op =
  OpGet int string string
| OpPut int string string result_set
| OpInvalidate string

fun op_source :: "cache_op \<Rightarrow> string" where
  "op_source (OpGet now ds k) = ds"
| "op_source (OpPut now ds k rs) = ds"
| "op_source (OpInvalidate ds) = ds"

text \<open>The results stored for a data source and key since the data source was last invalidated.\<close>

fun live_results :: "cache_op list \<Rightarrow> string \<Rightarrow> string \<Rightarrow> result_set set \<Rightarrow> result_set set" where
  "live_results [] ds k acc = acc"
| "live_results (OpGet now d q # ops) ds k acc = live_results ops ds k acc"
| "live_results (OpPut now d q rs # ops) ds k acc =
     live_results ops ds k (if d = ds \<and> q = k then insert rs acc else acc)"
| "live_results (OpInvalidate d # ops) ds k acc = live_results ops ds k (if d = ds then {} else acc)"

locale result_cache =
  fixes inv :: "'s \<Rightarrow> bool"
    and named :: "string \<Rightarrow> bool"
    and held :: "'s \<Rightarrow> string \<Rightarrow> string \<Rightarrow> result_set option"
    and get :: "int \<Rightarrow> string \<Rightarrow> string \<Rightarrow> 's \<Rightarrow> result_set option \<times> 's"
    and put :: "int \<Rightarrow> string \<Rightarrow> string \<Rightarrow> result_set \<Rightarrow> 's \<Rightarrow> 's"
    and invalidate :: "string \<Rightarrow> 's \<Rightarrow> 's"
  assumes get_inv: "inv s \<Longrightarrow> inv (snd (get now ds k s))"
    and put_inv: "inv s \<Longrightarrow> inv (put now ds k rs s)"
    and invalidate_inv: "inv s \<Longrightarrow> inv (invalidate ds s)"
    and get_held: "inv s \<Longrightarrow> fst (get now ds k s) = Some rs \<Longrightarrow> held s ds k = Some rs"
    and get_keeps: "inv s \<Longrightarrow> held (snd (get now ds k s)) d q = Some rs \<Longrightarrow> held s d q = Some rs"
    and put_held: "inv s \<Longrightarrow> named ds \<Longrightarrow> named d \<Longrightarrow> held (put now ds k rs s) d q = Some r \<Longrightarrow>
      (d = ds \<and> q = k \<and> r = rs) \<or> held s d q = Some r"
    and invalidate_held: "inv s \<Longrightarrow> held (invalidate ds s) d q = Some r \<Longrightarrow> d \<noteq> ds \<and> held s d q = Some r"
begin

fun run :: "cache_op list \<Rightarrow> 's \<Rightarrow> 's" where
  "run [] s = s"
| "run (OpGet now ds k # ops) s = run ops (snd (get now ds k s))"
| "run (OpPut now ds k rs # ops) s = run ops (put now ds k rs s)"
| "run (OpInvalidate ds # ops) s = run ops (invalidate ds s)"

lemma run_inv: "inv s \<Longrightarrow> inv (run ops s)"
  by (induction ops s rule: run.induct) (simp_all add: get_inv put_inv invalidate_inv)

lemma run_held:
  assumes "inv s" and "named ds" and "\<forall>op\<in>set ops. named (op_source op)"
    and "\<And>r. held s ds k = Some r \<Longrightarrow> r \<in> acc"
    and "held (run ops s) ds k = Some rs"
  shows "rs \<in> live_results ops ds k acc"
  using assms
proof (induction ops s arbitrary: acc rule: run.induct)
  case (2 now d q ops s)
  have "x \<in> acc" if "held (snd (get now d q s)) ds k = Some x" for x
    using get_keeps [OF 2(2) that] 2(5) by simp
  with 2 show ?case using get_inv by simp
next
  case (3 now d q r ops s)
  have "x \<in> (if d = ds \<and> q = k then insert r acc else acc)"
    if "held (put now d q r s) ds k = Some x" for x
    using put_held [OF 3(2) _ 3(3) that] 3(4,5) by auto
  with 3 show ?case using put_inv by simp
next
  case (4 d ops s)
  have "x \<in> (if d = ds then {} else acc)" if "held (invalidate d s) ds k = Some x" for x
    using invalidate_held [OF 4(2) that] 4(5) by auto
  with 4 show ?case using invalidate_inv by simp
qed auto

lemma get_after_history:
  assumes "inv s" and "\<And>d q. held s d q = None" and "named ds" and "\<forall>op\<in>set ops. named (op_source op)"
    and "fst (get now ds k (run ops s)) = Some rs"
  shows "rs \<in> live_results ops ds k {}"
  using run_held [of s ds ops k "{}" rs] get_held [OF run_inv [OF assms(1)] assms(5)] assms by simp

end

definition cache_held :: "cache_state \<Rightarrow> string \<Rightarrow> string \<Rightarrow> result_set option" where
  "cache_held s ds k = map_option entry_rs (map_of (store s) (compositeKey ds k))"

definition legal_name :: "string \<Rightarrow> bool" where
  "legal_name ds \<longleftrightarrow> nul \<notin> set ds"

lemma compositeKey_inj:
  assumes "compositeKey ds k = compositeKey d q" and "legal_name ds" and "legal_name d"
  shows "ds = d \<and> k = q"
  using assms
proof (induction ds arbitrary: d)
  case Nil
  then show ?case by (cases d) (auto simp: compositeKey_def legal_name_def)
next
  case (Cons c ds)
  then show ?case by (cases d) (auto simp: compositeKey_def legal_name_def)
qed

lemma cache_put_held:
  assumes "cache_inv s" and "legal_name ds" and "legal_name d"
    and "cache_held (cache_put szs szv now ds k rs s) d q = Some r"
  shows "(d = ds \<and> q = k \<and> r = rs) \<or> cache_held s d q = Some r"
proof -
  let ?ck = "compositeKey ds k" and ?b = "approxBytes szs szv rs" and ?e = "fresh_entry szs szv now rs s"
  have c: "consistent s" using assms(1) by (simp add: cache_inv_def)
  have "map_of (store (cache_put szs szv now ds k rs s)) \<subseteq>\<^sub>m (map_of (store s))(?ck \<mapsto> ?e) \<or>
      cache_put szs szv now ds k rs s = s"
  proof (cases "accepts ?b s")
    case True
    show ?thesis
    proof (cases "map_of (store s) ?ck")
      case None
      with True show ?thesis using evict_keeps(3) [OF c, of ?b True]
        by (auto simp: cache_put_cases map_le_def)
    next
      case (Some old)
      have t: "consistent (replaced ?ck old ?e s)"
        unfolding replaced_def using True by (intro consistent_replaced [OF c Some]) (simp add: accepts_def)
      with True Some show ?thesis using evict_keeps(3) [OF t, of 0 False] by (simp add: cache_put_cases)
    qed
  qed (simp add: cache_put_cases)
  moreover obtain e' where e': "map_of (store (cache_put szs szv now ds k rs s)) (compositeKey d q) = Some e'"
    and r: "r = entry_rs e'"
    using assms(4) by (auto simp: cache_held_def)
  ultimately have "((map_of (store s))(?ck \<mapsto> ?e)) (compositeKey d q) = Some e' \<or>
      map_of (store s) (compositeKey d q) = Some e'"
    by (auto dest: map_le_Some)
  with r compositeKey_inj [OF _ assms(2,3), of k q] show ?thesis
    by (auto simp: cache_held_def fresh_entry_def split: if_splits)
qed

interpretation qc: result_cache cache_inv legal_name cache_held cache_get "cache_put szs szv" cache_invalidate
  for szs szv
proof unfold_locales
  show "cache_inv s \<Longrightarrow> cache_held (cache_invalidate ds s) d q = Some r \<Longrightarrow> d \<noteq> ds \<and> cache_held s d q = Some r"
    for s ds d q r
    using invalidate_spec [of s ds] by (auto simp: cache_inv_def cache_held_def compositeKey_def split: if_splits)
  show "cache_inv s \<Longrightarrow> cache_held (snd (cache_get now ds k s)) d q = Some rs \<Longrightarrow> cache_held s d q = Some rs"
    for s now ds k d q rs
    by (auto simp: cache_get_def cache_held_def touch_def Let_def split: if_splits option.splits)
  show "cache_inv s \<Longrightarrow> fst (cache_get now ds k s) = Some rs \<Longrightarrow> cache_held s ds k = Some rs" for s now ds k rs
    by (auto simp: cache_get_def cache_held_def Let_def split: if_splits option.splits)
qed (auto simp: cache_get_inv cache_put_inv cache_invalidate_inv dest: cache_put_held)

section \<open>Properties of the cache\<close>

fun cache_run :: "nat \<Rightarrow> nat \<Rightarrow> cache_op list \<Rightarrow> cache_state \<Rightarrow> cache_state" where
  "cache_run szs szv [] s = s"
| "cache_run szs szv (OpGet now ds k # ops) s = cache_run szs szv ops (snd (cache_get now ds k s))"
| "cache_run szs szv (OpPut now ds k rs # ops) s = cache_run szs szv ops (cache_put szs szv now ds k rs s)"
| "cache_run szs szv (OpInvalidate ds # ops) s = cache_run szs szv ops (cache_invalidate ds s)"

lemma cache_run_eq: "cache_run szs szv ops s = qc.run szs szv ops s"
  by (induction szs szv ops s rule: cache_run.induct) simp_all



text \<open>C38: in every state the cache can reach after a configuration, the recency list lists
  exactly the stored keys, once each, the byte total is the sum of the entries' estimates, a
  disabled cache is empty, and the configured limits on entries and bytes hold.\<close>

theorem cache_reachable_inv: "cache_inv (cache_run szs szv ops (configure c s))"
  using qc.run_inv [OF configure_inv] by (simp add: cache_run_eq)

lemma evict_front_survives:
  assumes c: "consistent s" and "lru s = k # ks" and "map_of (store s) k = Some e"
    and small: "0 < max_memory_bytes (cfg s) \<longrightarrow> entry_bytes e \<le> nat (max_memory_bytes (cfg s))"
  shows "map_of (store (evictLocked 0 False s)) k = Some e"
proof -
  let ?P = "\<lambda>t. cfg t = cfg s \<and> (\<exists>ks. lru t = k # ks) \<and> map_of (store t) k = Some e"
  have step: "?P ((eraseLocked (last (lru t)) t)\<lparr>evictions := evictions (eraseLocked (last (lru t)) t) + 1\<rparr>)"
    if t: "consistent t" "?P t" and full: "too_many False t \<or> too_big 0 t" for t
  proof -
    from t obtain ks where ks: "lru t = k # ks" by auto
    have "ks \<noteq> []"
    proof
      assume "ks = []"
      with t ks have "fst ` set (store t) = {k}" "distinct (map fst (store t))" by (auto simp: consistent_def)
      then have "length (store t) = 1" by (metis card_1_singleton_iff distinct_card length_map list.set_map One_nat_def)
      then obtain p where "store t = [p]" by (metis One_nat_def length_0_conv length_Suc_conv)
      with t have "store t = [(k, e)]" by (cases p) (auto split: if_splits)
      with t have "totalBytes t = entry_bytes e" by (simp add: consistent_def bytes_of_def)
      with full small t \<open>length (store t) = 1\<close> show False by (auto simp: too_many_def too_big_def)
    qed
    moreover from this ks t have "last ks \<noteq> k" by (auto simp: consistent_def)
    moreover have "lru (eraseLocked (last ks) t) = k # (if map_of (store t) (last ks) = None then ks else remove1 (last ks) ks)"
      using ks \<open>last ks \<noteq> k\<close> by (auto simp: eraseLocked_def split: option.splits)
    ultimately show ?thesis using t ks by auto
  qed
  show ?thesis
    using evict_induct [OF c, of ?P False 0] assms step by auto
qed

text \<open>A result that the cache accepts is returned by every lookup of the same data source and
  key that comes next and before its time to live has passed: no eviction triggered by storing
  it removes it. A result is accepted when the cache is on and the result alone fits the memory
  limit.\<close>

theorem cache_get_put:
  assumes "cache_inv s" and "accepts (approxBytes szs szv rs) s"
    and "now' < now + ttl_ms (cfg s) * 1000000"
  shows "fst (cache_get now' ds k (cache_put szs szv now ds k rs s)) = Some rs"
proof -
  let ?ck = "compositeKey ds k" and ?b = "approxBytes szs szv rs" and ?e = "fresh_entry szs szv now rs s"
  let ?s = "cache_put szs szv now ds k rs s"
  have c: "consistent s" using assms(1) by (simp add: cache_inv_def)
  have "map_of (store ?s) ?ck = Some ?e \<and> cfg ?s = cfg s \<and> cache_enabled ?s = cache_enabled s"
  proof (cases "map_of (store s) ?ck")
    case None
    with assms(2) evict_keeps [OF c] show ?thesis by (simp add: cache_put_cases)
  next
    case (Some old)
    have t: "consistent (replaced ?ck old ?e s)"
      unfolding replaced_def using assms(2) by (intro consistent_replaced [OF c Some]) (simp add: accepts_def)
    from evict_front_survives [OF this, of ?ck "remove1 ?ck (lru s)" ?e] assms(2) Some evict_keeps [OF t]
    show ?thesis by (simp add: cache_put_cases) (simp add: accepts_def fresh_entry_def)
  qed
  with assms(2,3) show ?thesis by (simp add: cache_get_def accepts_def Let_def fresh_entry_def)
qed

theorem cache_get_put_witness:
  "fst (cache_get 999999 ''a'' ''q'' (cache_put 32 40 0 ''a'' ''q'' empty_rs
     (configure \<lparr>cc_enabled = True, ttl_ms = 1, max_entries = 1, max_memory_bytes = 10, cache_on_replica_only = False\<rparr>
        initial_cache))) = Some empty_rs"
  by (rule cache_get_put [OF configure_inv]) code_simp+

end
