(* ===== verification/Context.thy ===== *)
theory Context
  imports Types
begin

text \<open>
  The per-thread request context of \<open>src/common/context.cpp\<close>: a stack of frames bounded by
  \<open>kMaxDepth\<close>, W3C trace-parent headers, span identifiers; and the marking of a frame as having
  written (\<open>pinRequestWrite\<close> of \<open>src/core/database_manager.cpp\<close>) under the internal frame that
  the interceptor chain pushes around a statement. The back of the vector is the last element.
\<close>

datatype idempotency = Unspecified | Idempotent | NonIdempotent

record sql_context =
  traceId :: string
  spanId :: string
  tenantId :: string
  targetDataSource :: string
  shadow :: bool
  wroteInThisRequest :: bool
  idempotency :: idempotency

definition default_context :: sql_context where
  "default_context = \<lparr>traceId = [], spanId = [], tenantId = [], targetDataSource = [], shadow = False,
     wroteInThisRequest = False, idempotency = Unspecified\<rparr>"

definition context_empty :: "sql_context \<Rightarrow> bool" where
  "context_empty c \<longleftrightarrow> traceId c = [] \<and> spanId c = [] \<and> tenantId c = [] \<and> targetDataSource c = [] \<and>
     \<not> shadow c \<and> \<not> wroteInThisRequest c \<and> idempotency c = Unspecified"

section \<open>The stack of scopes\<close>

definition kMaxDepth :: nat where "kMaxDepth = 64"

text \<open>Entering a scope returns whether the frame was pushed; leaving it pops only then.\<close>

definition enter_scope :: "sql_context \<Rightarrow> sql_context list \<Rightarrow> bool \<times> sql_context list" where
  "enter_scope ctx s = (if length s < kMaxDepth then (True, s @ [ctx]) else (False, s))"

definition leave_scope :: "bool \<Rightarrow> sql_context list \<Rightarrow> sql_context list" where
  "leave_scope entered s = (if entered then butlast s else s)"

definition current_context :: "sql_context list \<Rightarrow> sql_context" where
  "current_context s = (if s = [] then default_context else last s)"

definition mark_wrote :: "sql_context \<Rightarrow> sql_context" where
  "mark_wrote c = c\<lparr>wroteInThisRequest := True\<rparr>"

definition pinRequestWrite :: "sql_context list \<Rightarrow> sql_context list" where
  "pinRequestWrite s =
     (if s = [] then s
      else let sz = length s
        in if 2 \<le> sz then s[sz - 2 := mark_wrote (s ! (sz - 2))] else s[sz - 1 := mark_wrote (s ! (sz - 1))])"

text \<open>A statement run by \<open>runWithInterceptors\<close>: an active interceptor chain runs it in a frame of
  its own, an inactive one runs it directly.\<close>

definition run_framed :: "bool \<Rightarrow> sql_context \<Rightarrow> (sql_context list \<Rightarrow> sql_context list) \<Rightarrow> sql_context list \<Rightarrow> sql_context list" where
  "run_framed active ctx fn s =
     (if \<not> active then fn s
      else case enter_scope ctx s of (entered, s1) \<Rightarrow> leave_scope entered (fn s1))"

section \<open>Trace headers\<close>

definition copyHex :: "string \<Rightarrow> nat \<Rightarrow> nat \<Rightarrow> string option" where
  "copyHex s pos len =
     (if length s < pos + len then None
      else if list_all is_xdigit (take len (drop pos s)) then Some (take len (drop pos s)) else None)"

definition all_zero :: "string \<Rightarrow> bool" where
  "all_zero s \<longleftrightarrow> list_all (\<lambda>c. c = CHR ''0'') s"

definition parseTraceparent :: "string \<Rightarrow> sql_context option" where
  "parseTraceparent header =
     (if length header \<noteq> 55 then None
      else if header ! 0 \<noteq> CHR ''0'' \<or> header ! 1 \<noteq> CHR ''0'' then None
      else if header ! 2 \<noteq> CHR ''-'' \<or> header ! 35 \<noteq> CHR ''-'' \<or> header ! 52 \<noteq> CHR ''-'' then None
      else case copyHex header 3 32 of None \<Rightarrow> None
      | Some trace \<Rightarrow>
        (case copyHex header 36 16 of None \<Rightarrow> None
         | Some span \<Rightarrow>
           (case copyHex header 53 2 of None \<Rightarrow> None
            | Some flags \<Rightarrow>
              if all_zero trace then None
              else if all_zero span then None
              else Some (default_context\<lparr>traceId := trace, spanId := span\<rparr>))))"

definition formatTraceparent :: "sql_context \<Rightarrow> string" where
  "formatTraceparent ctx =
     (if length (traceId ctx) \<noteq> 32 \<or> length (spanId ctx) \<noteq> 16 then []
      else if \<not> list_all is_xdigit (traceId ctx) \<or> \<not> list_all is_xdigit (spanId ctx) then []
      else if all_zero (traceId ctx) \<or> all_zero (spanId ctx) then []
      else ''00-'' @ traceId ctx @ ''-'' @ spanId ctx @ ''-01'')"

text \<open>The next span identifier: the process-wide sequence number, a 64-bit counter, in hex.\<close>

definition hex_lower :: "64 word \<Rightarrow> char" where
  "hex_lower w = ''0123456789abcdef'' ! unat (w AND 15)"

fun span_digits :: "nat \<Rightarrow> 64 word \<Rightarrow> string" where
  "span_digits 0 w = []"
| "span_digits (Suc n) w = span_digits n (drop_bit 4 w) @ [hex_lower w]"

definition nextSpanId :: "sql_context list \<Rightarrow> 64 word \<Rightarrow> string \<times> 64 word" where
  "nextSpanId s globalSeq =
     (let ctx = current_context s
      in if traceId ctx = [] \<and> spanId ctx = [] then ([], globalSeq)
         else (span_digits 16 (globalSeq + 1), globalSeq + 1))"

section \<open>Facts\<close>

lemma enter_leave:
  "enter_scope ctx s = (e, s1) \<Longrightarrow> leave_scope e s1 = s"
  by (auto simp: enter_scope_def leave_scope_def split: if_splits)

lemma length_pin [simp]: "length (pinRequestWrite s) = length s"
  by (simp add: pinRequestWrite_def Let_def)

text \<open>Scopes nest and are bounded: after any sequence of entering a scope, running code that
  leaves the stack as it found it, and leaving, the frames are as before; the stack never
  exceeds 64 frames, and beyond that the scope is simply not entered.\<close>

theorem scope_balanced:
  assumes "length s \<le> kMaxDepth" and "\<And>t. length t \<le> kMaxDepth \<Longrightarrow> fn t = t"
  shows "run_framed active ctx fn s = s \<and> length (snd (enter_scope ctx s)) \<le> kMaxDepth"
proof -
  obtain e s1 where e: "enter_scope ctx s = (e, s1)" by fastforce
  have "length s1 \<le> kMaxDepth" using assms(1) e by (auto simp: enter_scope_def split: if_splits)
  with e assms show ?thesis by (auto simp: run_framed_def dest: enter_leave)
qed

theorem scope_balanced_witness: "run_framed True default_context (\<lambda>t. t) [default_context] = [default_context]"
  using scope_balanced [of "[default_context]" "\<lambda>t. t" True default_context] by (simp add: kMaxDepth_def)

text \<open>A write is remembered by the request that made it. When the interceptor chain is active
  (and the frame stack is not full), a write run inside a request scope marks exactly the frame
  of the request, and every later read in the scope sees the mark; the other frames are
  unchanged.\<close>

theorem write_pins_request_frame:
  assumes "length s < kMaxDepth" and "s \<noteq> []"
  shows "run_framed True ctx pinRequestWrite s = butlast s @ [mark_wrote (last s)] \<and>
    wroteInThisRequest (current_context (run_framed True ctx pinRequestWrite s))"
proof -
  obtain t c where s: "s = t @ [c]" using assms(2) by (metis rev_exhaust)
  then have "pinRequestWrite (s @ [ctx]) = t @ [mark_wrote c] @ [ctx]"
    by (simp add: pinRequestWrite_def Let_def nth_append list_update_append)
  with s assms(1) show ?thesis
    by (simp add: run_framed_def enter_scope_def leave_scope_def current_context_def mark_wrote_def butlast_append)
qed

theorem write_pins_request_frame_witness:
  "wroteInThisRequest (current_context (run_framed True default_context pinRequestWrite [default_context]))"
  by (rule write_pins_request_frame [THEN conjunct2]) (simp_all add: kMaxDepth_def)

text \<open>With the interceptor chain inactive, which is the default, no frame is pushed around the
  statement, but the mark is still put one below the top: in nested request scopes the write
  marks the enclosing frame and leaves the frame that is current, so a read that follows in the
  same scope is not recognized as following a write.\<close>

theorem write_misses_nested_frame:
  assumes "2 \<le> length s" and "\<not> wroteInThisRequest (last s)"
  shows "\<not> wroteInThisRequest (current_context (run_framed False ctx pinRequestWrite s)) \<and>
    wroteInThisRequest (run_framed False ctx pinRequestWrite s ! (length s - 2))"
proof -
  have "s \<noteq> []" using assms(1) by auto
  then have "last (pinRequestWrite s) = last s"
    using assms(1) by (simp add: pinRequestWrite_def Let_def last_conv_nth)
  moreover have "pinRequestWrite s ! (length s - 2) = mark_wrote (s ! (length s - 2))"
    using assms(1) \<open>s \<noteq> []\<close> by (simp add: pinRequestWrite_def Let_def)
  moreover have "pinRequestWrite s \<noteq> []" using \<open>s \<noteq> []\<close> by (metis length_0_conv length_pin)
  ultimately show ?thesis
    using assms(2) by (simp add: run_framed_def current_context_def mark_wrote_def)
qed

theorem write_misses_nested_frame_witness:
  "\<not> wroteInThisRequest (current_context (run_framed False default_context pinRequestWrite [default_context, default_context]))"
  using write_misses_nested_frame [of "[default_context, default_context]" default_context]
  by (simp add: default_context_def)

lemma take_header:
  assumes "length h = 55"
  shows "take 53 h = [h ! 0, h ! 1, h ! 2] @ take 32 (drop 3 h) @ [h ! 35] @ take 16 (drop 36 h) @ [h ! 52]"
proof (rule nth_equalityI)
  fix i
  assume "i < length (take 53 h)"
  with assms have i: "i < 53" by simp
  consider "i < 3" | "3 \<le> i" "i < 35" | "i = 35" | "36 \<le> i" "i < 52" | "i = 52" using i by linarith
  then show "take 53 h ! i = ([h ! 0, h ! 1, h ! 2] @ take 32 (drop 3 h) @ [h ! 35] @ take 16 (drop 36 h) @ [h ! 52]) ! i"
  proof cases
    case 1
    then have "i = 0 \<or> i = 1 \<or> i = 2" by linarith
    with assms show ?thesis by auto
  qed (use assms in \<open>auto simp: nth_append nth_Cons'\<close>)
qed (use assms in simp)

text \<open>Trace headers survive a round trip: a context whose identifiers are well formed is
  rendered to a header that parses back to the same identifiers, and a header that parses is
  rendered to the same text up to its two flag digits, which always become 01.\<close>

theorem traceparent_roundtrip:
  "(formatTraceparent ctx \<noteq> [] \<longrightarrow>
      parseTraceparent (formatTraceparent ctx) = Some (default_context\<lparr>traceId := traceId ctx, spanId := spanId ctx\<rparr>)) \<and>
   (parseTraceparent h = Some ctx \<longrightarrow> formatTraceparent ctx = take 53 h @ ''01'')"
proof (intro conjI impI)
  let ?t = "traceId ctx" and ?s = "spanId ctx"
  assume "formatTraceparent ctx \<noteq> []"
  then have f: "formatTraceparent ctx = ''00-'' @ ?t @ ''-'' @ ?s @ ''-01''" and l: "length ?t = 32" "length ?s = 16"
    and x: "list_all is_xdigit ?t" "list_all is_xdigit ?s" "\<not> all_zero ?t" "\<not> all_zero ?s"
    by (auto simp: formatTraceparent_def split: if_splits)
  have "copyHex (formatTraceparent ctx) 3 32 = Some ?t" "copyHex (formatTraceparent ctx) 36 16 = Some ?s"
    "copyHex (formatTraceparent ctx) 53 2 = Some ''01''"
    using l x by (simp_all add: copyHex_def f is_xdigit_def is_digit_def)
  moreover have "formatTraceparent ctx ! 35 = CHR ''-''" "formatTraceparent ctx ! 52 = CHR ''-''"
    using l by (simp_all add: f nth_append)
  ultimately show "parseTraceparent (formatTraceparent ctx) = Some (default_context\<lparr>traceId := ?t, spanId := ?s\<rparr>)"
    using l x by (simp add: parseTraceparent_def) (simp add: f)
next
  assume p: "parseTraceparent h = Some ctx"
  then have len: "length h = 55" by (auto simp: parseTraceparent_def split: if_splits)
  from p have "h ! 0 = CHR ''0''" "h ! 1 = CHR ''0''" "h ! 2 = CHR ''-''" "h ! 35 = CHR ''-''" "h ! 52 = CHR ''-''"
    "traceId ctx = take 32 (drop 3 h)" "spanId ctx = take 16 (drop 36 h)"
    "list_all is_xdigit (traceId ctx)" "list_all is_xdigit (spanId ctx)" "\<not> all_zero (traceId ctx)" "\<not> all_zero (spanId ctx)"
    by (auto simp: parseTraceparent_def copyHex_def split: if_splits option.splits)
  with len take_header [OF len] show "formatTraceparent ctx = take 53 h @ ''01''"
    by (simp add: formatTraceparent_def)
qed

theorem traceparent_roundtrip_witness:
  "formatTraceparent (default_context\<lparr>traceId := replicate 32 (CHR ''a''), spanId := replicate 16 (CHR ''b'')\<rparr>) \<noteq> [] \<and>
   parseTraceparent (formatTraceparent (default_context\<lparr>traceId := replicate 32 (CHR ''a''), spanId := replicate 16 (CHR ''b'')\<rparr>)) =
     Some (default_context\<lparr>traceId := replicate 32 (CHR ''a''), spanId := replicate 16 (CHR ''b'')\<rparr>)"
proof -
  let ?c = "default_context\<lparr>traceId := replicate 32 (CHR ''a''), spanId := replicate 16 (CHR ''b'')\<rparr>"
  have "formatTraceparent ?c \<noteq> []" by code_simp
  with traceparent_roundtrip [of ?c "[]"] show ?thesis by simp
qed

section \<open>Span identifiers\<close>

lemma hex_lower_inj:
  assumes "hex_lower v = hex_lower w"
  shows "take_bit 4 v = take_bit 4 w"
proof -
  have small: "unat (x AND 15) < 16" for x :: "64 word"
    using word_and_le1 [of x 15] by (simp add: word_le_nat_alt)
  have "distinct ''0123456789abcdef''" by simp
  then have "unat (v AND 15) = unat (w AND 15)"
    using assms small [of v] small [of w] nth_eq_iff_index_eq [of "''0123456789abcdef''" "unat (v AND 15)" "unat (w AND 15)"]
    by (simp add: hex_lower_def)
  then have "v AND 15 = w AND 15" by (simp add: word_unat_eq_iff)
  moreover have "(15 :: 64 word) = mask 4" by (simp add: mask_eq_exp_minus_1)
  ultimately show ?thesis by (simp add: take_bit_eq_mask)
qed

lemma span_digits_inj: "span_digits n v = span_digits n w \<Longrightarrow> take_bit (4 * n) v = take_bit (4 * n) w"
proof (induction n arbitrary: v w)
  case (Suc n)
  from Suc(2) have d: "span_digits n (drop_bit 4 v) = span_digits n (drop_bit 4 w)" and l: "hex_lower v = hex_lower w"
    by simp_all
  note hi = Suc(1) [OF d] and lo = hex_lower_inj [OF l]
  show ?case
  proof (rule bit_eqI)
    fix k
    have "bit v k = bit w k" if "k < 4" using arg_cong [OF lo, of "\<lambda>x. bit x k"] that by (simp add: bit_take_bit_iff)
    moreover have "bit v k = bit w k" if "4 \<le> k" "k < 4 * Suc n"
      using arg_cong [OF hi, of "\<lambda>x. bit x (k - 4)"] that by (simp add: bit_take_bit_iff bit_drop_bit_eq less_diff_conv2)
    ultimately show "bit (take_bit (4 * Suc n) v) k = bit (take_bit (4 * Suc n) w) k"
      by (metis bit_take_bit_iff not_le)
  qed
qed simp

text \<open>Span identifiers are unique: in a traced request each call returns sixteen hexadecimal
  digits, and two calls return the same identifier only if the 64-bit sequence number is the
  same, that is after a wrap-around of the counter.\<close>

theorem nextSpanId_unique:
  assumes "traceId (current_context s) \<noteq> []" and "traceId (current_context s') \<noteq> []"
  shows "length (fst (nextSpanId s q)) = 16 \<and>
    (fst (nextSpanId s q) = fst (nextSpanId s' q') \<longleftrightarrow> q = q') \<and> snd (nextSpanId s q) = q + 1"
proof -
  have len: "length (span_digits n w) = n" for n w by (induction n arbitrary: w) auto
  have "take_bit 64 (q + 1) = take_bit 64 (q' + 1)" if "span_digits 16 (q + 1) = span_digits 16 (q' + 1)"
    using span_digits_inj [OF that] by simp
  then have "q = q'" if "span_digits 16 (q + 1) = span_digits 16 (q' + 1)"
    using that by (simp add: take_bit_word_eq_self)
  then show ?thesis using assms by (auto simp: nextSpanId_def Let_def len)
qed

theorem nextSpanId_unique_witness:
  "fst (nextSpanId [default_context\<lparr>traceId := ''t''\<rparr>] 1) \<noteq> fst (nextSpanId [default_context\<lparr>traceId := ''t''\<rparr>] 2)"
  using nextSpanId_unique [of "[default_context\<lparr>traceId := ''t''\<rparr>]" "[default_context\<lparr>traceId := ''t''\<rparr>]" 1 2]
  by (simp add: current_context_def)

end
