(* ===== verification/DataSource.thy ===== *)
theory DataSource
  imports QueryCache Context
begin

text \<open>
  The resilience and routing logic of a data source (\<open>DataSource\<close> in
  \<open>src/core/database_manager.cpp\<close>): the circuit breaker, the retry loops of reads, writes and
  cursors, the choice of a replica for a read, the failover of a write over the candidate
  primaries, and the invalidation of cached results after a write.

  What an attempt does to the outside world (borrowing a connection, running the statement) is a
  parameter, a function on an environment; the clock readings around each attempt and the
  random jitter are arguments. Time points are nanoseconds; 0 is the default time point.
\<close>

record retry_cfg =
  max_attempts :: int
  initial_backoff_ms :: int
  max_backoff_ms :: int
  retry_writes :: bool

record breaker_cfg =
  failure_threshold :: int
  open_interval_ms :: int

record breaker =
  consecutiveFailures :: int
  circuitOpenUntil :: int
  halfOpenInFlight :: bool

definition closed_breaker :: breaker where
  "closed_breaker = \<lparr>consecutiveFailures = 0, circuitOpenUntil = 0, halfOpenInFlight = False\<rparr>"

section \<open>Circuit breaker\<close>

definition isCircuitOpen :: "breaker_cfg \<Rightarrow> int \<Rightarrow> breaker \<Rightarrow> bool" where
  "isCircuitOpen c now b \<longleftrightarrow> \<not> failure_threshold c \<le> 0 \<and> now < circuitOpenUntil b"

definition beforeAttempt :: "breaker_cfg \<Rightarrow> string \<Rightarrow> int \<Rightarrow> breaker \<Rightarrow> status \<times> breaker" where
  "beforeAttempt c nm now b =
     (if failure_threshold c \<le> 0 then (status_OK, b)
      else if now < circuitOpenUntil b then
        (status_error CircuitOpen (''datasource '' @ [squote] @ nm @ [squote] @ '' circuit is open''), b)
      else if circuitOpenUntil b \<noteq> 0 then
        (if halfOpenInFlight b then
           (status_error CircuitOpen (''datasource '' @ [squote] @ nm @ [squote] @ '' circuit is half-open''), b)
         else (status_OK, b\<lparr>halfOpenInFlight := True\<rparr>))
      else (status_OK, b))"

definition afterAttempt :: "breaker_cfg \<Rightarrow> int \<Rightarrow> status \<Rightarrow> breaker \<Rightarrow> breaker" where
  "afterAttempt c now st b =
     (if failure_threshold c \<le> 0 then b
      else if status_ok st then closed_breaker
      else if \<not> retryable st \<and> \<not> connectionBroken st then closed_breaker
      else let n = consecutiveFailures b + 1
        in if failure_threshold c \<le> n
           then b\<lparr>halfOpenInFlight := False, consecutiveFailures := n,
                  circuitOpenUntil := now + open_interval_ms c * 1000000\<rparr>
           else b\<lparr>halfOpenInFlight := False, consecutiveFailures := n\<rparr>)"

section \<open>Retries\<close>

definition resolveWriteAttempts :: "retry_cfg \<Rightarrow> idempotency \<Rightarrow> int" where
  "resolveWriteAttempts r idem =
     (if idem = NonIdempotent then 1
      else if idem = Idempotent then max 1 (max_attempts r)
      else if retry_writes r then max 1 (max_attempts r) else 1)"

text \<open>The doubling loop of \<open>retryDelay\<close> runs while \<open>i < attempt\<close>; \<open>n\<close> is the number of rounds left.\<close>

fun backoff :: "retry_cfg \<Rightarrow> nat \<Rightarrow> int \<Rightarrow> int" where
  "backoff r 0 delay = delay"
| "backoff r (Suc n) delay =
     (if delay < max_backoff_ms r then backoff r n (min (delay * 2) (max_backoff_ms r)) else delay)"

definition jitter_range :: "int \<Rightarrow> int" where
  "jitter_range delay = max 1 (delay div 4 + 1)"

definition retryDelay :: "retry_cfg \<Rightarrow> nat \<Rightarrow> (int \<Rightarrow> int) \<Rightarrow> int" where
  "retryDelay r attempt randomJitter =
     (if initial_backoff_ms r \<le> 0 then 0
      else let delay = backoff r (attempt - 1) (initial_backoff_ms r);
               jitter = randomJitter (jitter_range delay)
        in min (max_backoff_ms r) (delay + jitter))"

text \<open>What \<open>ConnectionPool::borrow\<close> answered: no pool any more, an error, or a connection.\<close>

datatype borrow_answer = PoolGone | BorrowFailed error_code string | Borrowed

definition borrowSession :: "string \<Rightarrow> borrow_answer \<Rightarrow> status" where
  "borrowSession nm a =
     (case a of
        PoolGone \<Rightarrow> status_error PoolClosed (''datasource '' @ [squote] @ nm @ [squote] @ '' has been shut down'')
      | BorrowFailed ec err \<Rightarrow>
          (if ec = ConnectionFailed then (status_error ec err)\<lparr>retryable := True, connectionBroken := True\<rparr>
           else status_error ec err)
      | Borrowed \<Rightarrow> status_OK)"

text \<open>The environment of the attempts: borrowing, the statement itself with what it writes to the
  output arguments, and the clock before and after an attempt.\<close>

record ('e, 'a) attempt_env =
  env_borrow :: "'e \<Rightarrow> borrow_answer \<times> 'e"
  env_statement :: "'e \<Rightarrow> status \<times> 'a \<times> 'e"
  env_clock :: "'e \<Rightarrow> int"

definition attempt_once :: "('e, 'a) attempt_env \<Rightarrow> string \<Rightarrow> 'a \<Rightarrow> 'e \<Rightarrow> status \<times> 'a \<times> 'e" where
  "attempt_once env nm out e =
     (case env_borrow env e of
        (answer, e1) \<Rightarrow>
          if status_ok (borrowSession nm answer) then env_statement env e1
          else (borrowSession nm answer, out, e1))"

text \<open>The loop over the attempts; \<open>left\<close> counts the attempts not yet made. The outputs are reset to
  \<open>out0\<close> before each.\<close>

fun retry_loop :: "breaker_cfg \<Rightarrow> ('e, 'a) attempt_env \<Rightarrow> string \<Rightarrow> 'a \<Rightarrow> nat \<Rightarrow> status \<times> 'a \<Rightarrow> breaker \<Rightarrow> 'e
    \<Rightarrow> status \<times> 'a \<times> breaker \<times> 'e" where
  "retry_loop c env nm out0 0 prev b e = (fst prev, snd prev, b, e)"
| "retry_loop c env nm out0 (Suc left) prev b e =
     (case beforeAttempt c nm (env_clock env e) b of
        (gate, b1) \<Rightarrow>
          if \<not> status_ok gate then (gate, snd prev, b1, e)
          else case attempt_once env nm out0 e of
            (st, out, e1) \<Rightarrow>
              let b2 = afterAttempt c (env_clock env e1) st b1
              in if status_ok st then (st, out, b2, e1)
                 else if \<not> retryable st \<or> left = 0 then (st, out, b2, e1)
                 else retry_loop c env nm out0 left (st, out) b2 e1)"

definition read_attempts :: "retry_cfg \<Rightarrow> nat" where
  "read_attempts r = nat (max 1 (max_attempts r))"

text \<open>A read of a single data source: cache, attempts, cache. The caller's result set is taken empty
  at the call.\<close>

definition queryUngated ::
  "breaker_cfg \<Rightarrow> retry_cfg \<Rightarrow> ('e, result_set) attempt_env \<Rightarrow> nat \<Rightarrow> nat \<Rightarrow> string \<Rightarrow> bool \<Rightarrow> sql_context \<Rightarrow>
     string \<Rightarrow> params \<Rightarrow> cache_state \<times> breaker \<times> 'e \<Rightarrow> status \<times> result_set \<times> cache_state \<times> breaker \<times> 'e" where
  "queryUngated c r env szs szv nm readReplica ctx sql ps s =
     (case s of (q, b, e) \<Rightarrow>
        let caching = cache_enabled q \<and> (\<not> replicaOnly q \<or> readReplica) \<and> \<not> shadow ctx;
            key = cacheKey sql ps;
            looked = (if caching then cache_get (env_clock env e) nm key q else (None, q))
        in case looked of
             (Some rs, q1) \<Rightarrow> (status_OK, rs, q1, b, e)
           | (None, q1) \<Rightarrow>
             (case retry_loop c env nm empty_rs (read_attempts r) (status_OK, empty_rs) b e of
                (st, out, b', e') \<Rightarrow>
                  (st, out, (if status_ok st \<and> caching then cache_put szs szv (env_clock env e') nm key out q1 else q1), b', e')))"

text \<open>A write of a single data source: attempts as the idempotency allows, then \<open>markWrite\<close>.\<close>

definition executeUngated ::
  "breaker_cfg \<Rightarrow> retry_cfg \<Rightarrow> ('e, 'a) attempt_env \<Rightarrow> 'a \<Rightarrow> string \<Rightarrow>
     cache_state \<times> breaker \<times> 'e \<times> sql_context list \<Rightarrow> status \<times> 'a \<times> cache_state \<times> breaker \<times> 'e \<times> sql_context list" where
  "executeUngated c r env out0 nm s =
     (case s of (q, b, e, stack) \<Rightarrow>
        (case retry_loop c env nm out0 (nat (resolveWriteAttempts r (idempotency (current_context stack)))) (status_OK, out0) b e of
           (st, out, b', e') \<Rightarrow>
             if status_ok st then (st, out, cache_invalidate nm q, b', e', pinRequestWrite stack)
             else (st, out, q, b', e', stack)))"

text \<open>Opening a cursor: the successful path returns from inside the loop.\<close>

fun cursor_loop :: "breaker_cfg \<Rightarrow> ('e, bool) attempt_env \<Rightarrow> string \<Rightarrow> nat \<Rightarrow> status \<Rightarrow> breaker \<Rightarrow> 'e
    \<Rightarrow> status \<times> breaker \<times> 'e" where
  "cursor_loop c env nm 0 prev b e = (prev, b, e)"
| "cursor_loop c env nm (Suc left) prev b e =
     (case beforeAttempt c nm (env_clock env e) b of
        (gate, b1) \<Rightarrow>
          if \<not> status_ok gate then (gate, b1, e)
          else case attempt_once env nm False e of
            (st, impl, e1) \<Rightarrow>
              if status_ok st \<and> impl then (st, b1, e1)
              else let b2 = afterAttempt c (env_clock env e1) st b1
                in if status_ok st then (st, b2, e1)
                   else if \<not> retryable st \<or> left = 0 then (st, b2, e1)
                   else cursor_loop c env nm left st b2 e1)"

text \<open>The budget of open cursors: the limit, if positive, and the number open.\<close>

definition cursorBudgetAcquire :: "int \<Rightarrow> int \<Rightarrow> int option" where
  "cursorBudgetAcquire limit open = (if limit \<le> 0 then Some open else if open < limit then Some (open + 1) else None)"

definition openCursorUngated ::
  "breaker_cfg \<Rightarrow> retry_cfg \<Rightarrow> ('e, bool) attempt_env \<Rightarrow> string \<Rightarrow> int \<Rightarrow> int \<Rightarrow> breaker \<Rightarrow> 'e \<Rightarrow> status \<times> breaker \<times> 'e" where
  "openCursorUngated c r env nm limit open b e =
     (case cursorBudgetAcquire limit open of
        None \<Rightarrow> (status_error CursorLimit (''datasource '' @ [squote] @ nm @ [squote] @ '': cursor limit reached''), b, e)
      | Some _ \<Rightarrow> cursor_loop c env nm (read_attempts r) status_OK b e)"

section \<open>Groups\<close>

text \<open>A member of a group: its name, its breaker, and whether its pool still exists.\<close>

record member =
  m_name :: string
  m_cfg :: breaker_cfg
  m_breaker :: breaker
  m_alive :: bool

record group =
  g_name :: string
  g_primary :: member
  g_replicas :: "member list"
  g_failover :: "member list"
  g_shadow :: "member option"
  readAfterWrite_ms :: int
  lastWriteNs :: int
  requireHealthy :: bool
  fallbackToPrimary :: bool

fun first_open_replica :: "int \<Rightarrow> member list \<Rightarrow> nat \<Rightarrow> nat \<Rightarrow> member option" where
  "first_open_replica now rs start 0 = None"
| "first_open_replica now rs start (Suc n) =
     (let candidate = rs ! ((start + (length rs - Suc n)) mod length rs)
      in if \<not> isCircuitOpen (m_cfg candidate) now (m_breaker candidate) then Some candidate
         else first_open_replica now rs start n)"

text \<open>The member a read goes to; \<open>round\<close> is the thread's round-robin counter.\<close>

definition readTarget :: "int \<Rightarrow> sql_context \<Rightarrow> u64 \<Rightarrow> group \<Rightarrow> member \<times> u64" where
  "readTarget now ctx round g =
     (if g_shadow g \<noteq> None \<and> shadow ctx then (the (g_shadow g), round)
      else if wroteInThisRequest ctx then (g_primary g, round)
      else if 0 < readAfterWrite_ms g \<and> 0 < lastWriteNs g \<and> now - lastWriteNs g < readAfterWrite_ms g * 1000000
        then (g_primary g, round)
      else if g_replicas g = [] then (g_primary g, round)
      else case first_open_replica now (g_replicas g) (unat round mod length (g_replicas g)) (length (g_replicas g)) of
             Some m \<Rightarrow> (m, round + 1)
           | None \<Rightarrow> (g_primary g, round + 1))"

definition writeTargets :: "int \<Rightarrow> sql_context \<Rightarrow> group \<Rightarrow> member list" where
  "writeTargets now ctx g =
     (if g_shadow g \<noteq> None \<and> shadow ctx then [the (g_shadow g)]
      else if g_failover g = [] then [g_primary g]
      else filter (\<lambda>m. \<not> isCircuitOpen (m_cfg m) now (m_breaker m) \<and> (requireHealthy g \<longrightarrow> m_alive m)) (g_failover g))"

definition safeToFailoverWrite :: "status \<Rightarrow> bool" where
  "safeToFailoverWrite st =
     (case code st of
        ConnectionFailed \<Rightarrow> \<not> connectionBroken st \<and> sqlState st = []
      | PoolExhausted \<Rightarrow> True | PoolClosed \<Rightarrow> True | CircuitOpen \<Rightarrow> True | DriverDisabled \<Rightarrow> True
      | _ \<Rightarrow> False)"

definition markWrite :: "int \<Rightarrow> group \<Rightarrow> cache_state \<Rightarrow> group \<times> cache_state" where
  "markWrite now g q =
     (g\<lparr>lastWriteNs := now\<rparr>,
      foldl (\<lambda>q m. cache_invalidate (m_name m) q)
        (foldl (\<lambda>q m. cache_invalidate (m_name m) q)
          (cache_invalidate (m_name (g_primary g)) (cache_invalidate (g_name g) q)) (g_replicas g)) (g_failover g))"

text \<open>The loop of \<open>dispatchWrite\<close> over the targets: the status to return, whether it is final (the
  loop returned), and the targets that were tried.\<close>

fun try_targets :: "(member \<Rightarrow> 'e \<Rightarrow> status \<times> 'e) \<Rightarrow> member list \<Rightarrow> status \<Rightarrow> 'e \<Rightarrow> status \<times> bool \<times> 'e" where
  "try_targets attempt [] st e = (st, False, e)"
| "try_targets attempt (m # ms) st e =
     (case attempt m e of
        (st', e') \<Rightarrow>
          if status_ok st' then (st', True, e')
          else if \<not> safeToFailoverWrite st' then (st', True, e')
          else try_targets attempt ms st' e')"

text \<open>\<open>enqueue\<close> is the group's write buffer, if it has one that is switched on and the call is
  bufferable: whether it accepted the write.\<close>

definition dispatchWrite ::
  "int \<Rightarrow> sql_context \<Rightarrow> (member \<Rightarrow> cache_state \<times> 'e \<Rightarrow> status \<times> cache_state \<times> 'e) \<Rightarrow> ('e \<Rightarrow> bool \<times> 'e) option \<Rightarrow>
     group \<Rightarrow> cache_state \<times> 'e \<Rightarrow> status \<times> group \<times> cache_state \<times> 'e" where
  "dispatchWrite now ctx attempt enqueue g qe =
     (if g_shadow g \<noteq> None \<and> shadow ctx then
        (case attempt (the (g_shadow g)) qe of (st, qe') \<Rightarrow> (st, g, qe'))
      else
        let none = (status_error CircuitOpen (''group '' @ [squote] @ g_name g @ [squote] @ '': no writable primary available''))
              \<lparr>retryable := True\<rparr>
        in case try_targets attempt (writeTargets now ctx g) none qe of
             (st, final, q1, e1) \<Rightarrow>
               if status_ok st then (case markWrite now g q1 of (g', q') \<Rightarrow> (st, g', q', e1))
               else if final then (st, g, q1, e1)
               else case enqueue of
                 None \<Rightarrow> (st, g, q1, e1)
               | Some enq \<Rightarrow>
                 (case enq e1 of
                    (accepted, e2) \<Rightarrow>
                      if accepted then
                        (status_error Buffered (''group '' @ [squote] @ g_name g @ [squote] @
                           '': write accepted into buffer, not yet committed''), g, q1, e2)
                      else (st, g, q1, e2)))"

section \<open>The breaker opens, probes and recovers\<close>

text \<open>A failure the breaker counts.\<close>

definition counted_failure :: "status \<Rightarrow> bool" where
  "counted_failure st \<longleftrightarrow> \<not> status_ok st \<and> (retryable st \<or> connectionBroken st)"

definition after_all :: "breaker_cfg \<Rightarrow> (int \<times> status) list \<Rightarrow> breaker \<Rightarrow> breaker" where
  "after_all c evs b = foldl (\<lambda>b (now, st). afterAttempt c now st b) b evs"

lemma afterAttempt_counted:
  assumes "0 < failure_threshold c" and "counted_failure st"
  shows "afterAttempt c now st b = b\<lparr>halfOpenInFlight := False, consecutiveFailures := consecutiveFailures b + 1,
     circuitOpenUntil := (if failure_threshold c \<le> consecutiveFailures b + 1 then now + open_interval_ms c * 1000000
       else circuitOpenUntil b)\<rparr>"
  using assms by (auto simp: afterAttempt_def counted_failure_def Let_def)

lemma after_all_counted:
  assumes "0 < failure_threshold c" and "\<forall>(t, st)\<in>set evs. counted_failure st"
  shows "consecutiveFailures (after_all c evs closed_breaker) = int (length evs) \<and>
    circuitOpenUntil (after_all c evs closed_breaker) =
      (if failure_threshold c \<le> int (length evs) then fst (last evs) + open_interval_ms c * 1000000 else 0)"
  using assms(2)
proof (induction evs rule: rev_induct)
  case Nil
  then show ?case using assms(1) by (simp add: after_all_def closed_breaker_def)
next
  case (snoc ev evs)
  obtain t st where ev: "ev = (t, st)" by fastforce
  with snoc have "counted_failure st" by simp
  with afterAttempt_counted [OF assms(1)] snoc ev show ?case
    by (auto simp: after_all_def)
qed


definition lost_connection :: status where
  "lost_connection = (status_error ConnectionFailed ''gone'')\<lparr>retryable := True, connectionBroken := True\<rparr>"


text \<open>The states of a breaker: attempts are admitted and completed in any order.\<close>

inductive breaker_step :: "breaker_cfg \<Rightarrow> breaker \<Rightarrow> breaker \<Rightarrow> bool" for c where
  admit: "breaker_step c b (snd (beforeAttempt c nm now b))"
| complete: "0 < now + open_interval_ms c * 1000000 \<Longrightarrow> breaker_step c b (afterAttempt c now st b)"

definition breaker_inv :: "breaker_cfg \<Rightarrow> breaker \<Rightarrow> bool" where
  "breaker_inv c b \<longleftrightarrow> 0 \<le> consecutiveFailures b \<and> 0 \<le> circuitOpenUntil b \<and>
     (circuitOpenUntil b \<noteq> 0 \<longrightarrow> failure_threshold c \<le> consecutiveFailures b) \<and>
     (halfOpenInFlight b \<longrightarrow> circuitOpenUntil b \<noteq> 0)"

interpretation brk: invariant_system "\<lambda>b. b = closed_breaker" "breaker_step c" "breaker_inv c" for c
proof unfold_locales
  show "breaker_step c b b' \<Longrightarrow> breaker_inv c b \<Longrightarrow> breaker_inv c b'" for b b'
    by (induction rule: breaker_step.induct)
      (auto simp: breaker_inv_def beforeAttempt_def afterAttempt_def closed_breaker_def Let_def)
qed (simp add: breaker_inv_def closed_breaker_def)



section \<open>How often a statement is sent\<close>

text \<open>\<open>sent\<close> counts the statements that reached the database: only running one counts.\<close>

definition counts_statements :: "('e, 'a) attempt_env \<Rightarrow> ('e \<Rightarrow> nat) \<Rightarrow> bool" where
  "counts_statements env sent \<longleftrightarrow> (\<forall>e. sent (snd (env_borrow env e)) = sent e) \<and>
     (\<forall>e. sent (snd (snd (env_statement env e))) = Suc (sent e))"

lemma attempt_once_sent:
  assumes "counts_statements env sent" and "attempt_once env nm out e = (st, out', e')"
  shows "sent e' \<le> Suc (sent e)"
  using assms
  by (auto simp: attempt_once_def counts_statements_def split: prod.splits if_splits) (metis le_Suc_eq order_refl snd_conv)+

lemma retry_loop_sent:
  assumes "counts_statements env sent" and "retry_loop c env nm out0 left prev b e = (st, out, b', e')"
  shows "sent e' \<le> sent e + left"
  using assms(2)
proof (induction left arbitrary: prev b e)
  case (Suc left)
  obtain gate b1 where g: "beforeAttempt c nm (env_clock env e) b = (gate, b1)" by fastforce
  obtain st1 out1 e1 where a: "attempt_once env nm out0 e = (st1, out1, e1)" using prod_cases3 by blast
  note one = attempt_once_sent [OF assms(1) a]
  let ?b2 = "afterAttempt c (env_clock env e1) st1 b1"
  have "e' = e \<or> e' = e1 \<or> retry_loop c env nm out0 left (st1, out1) ?b2 e1 = (st, out, b', e')"
    using Suc.prems g a by (auto simp: Let_def split: if_splits)
  with one Suc.IH [of "(st1, out1)" ?b2 e1] show ?case by auto
qed simp

text \<open>C8: a write is sent at most as often as its idempotency allows. A statement declared
  non-idempotent, or left undeclared where write retries are off, reaches the database at most
  once, whatever fails; otherwise at most \<open>max_attempts\<close> times (at least one). The cached
  results of the data source are dropped and the request is marked exactly when the write
  succeeded.\<close>

theorem write_attempts_bounded:
  assumes "counts_statements env sent"
    and "executeUngated c r env out0 nm (q, b, e, stack) = (st, out, q', b', e', stack')"
  shows "sent e' \<le> sent e + nat (resolveWriteAttempts r (idempotency (current_context stack))) \<and>
    (idempotency (current_context stack) = NonIdempotent \<or>
       idempotency (current_context stack) = Unspecified \<and> \<not> retry_writes r \<longrightarrow> sent e' \<le> sent e + 1) \<and>
    (q', stack') = (if status_ok st then (cache_invalidate nm q, pinRequestWrite stack) else (q, stack))"
proof -
  let ?n = "nat (resolveWriteAttempts r (idempotency (current_context stack)))"
  obtain st1 out1 b1 e1 where l: "retry_loop c env nm out0 ?n (status_OK, out0) b e = (st1, out1, b1, e1)"
    using prod_cases4 by blast
  with assms(2) have "st = st1" "e' = e1" "(q', stack') = (if status_ok st then (cache_invalidate nm q, pinRequestWrite stack) else (q, stack))"
    by (auto simp: executeUngated_def split: if_splits)
  with retry_loop_sent [OF assms(1) l] show ?thesis
    by (auto simp: resolveWriteAttempts_def)
qed

text \<open>An environment that counts: borrowing works, every statement fails in a retryable way.\<close>

definition failing_env :: "(nat, unit) attempt_env" where
  "failing_env = \<lparr>env_borrow = (\<lambda>n. (Borrowed, n)), env_statement = (\<lambda>n. (lost_connection, (), Suc n)), env_clock = int\<rparr>"

theorem write_attempts_bounded_witness:
  "fst (snd (snd (snd (snd (executeUngated \<lparr>failure_threshold = 0, open_interval_ms = 0\<rparr>
     \<lparr>max_attempts = 5, initial_backoff_ms = 0, max_backoff_ms = 0, retry_writes = False\<rparr> failing_env () ''x''
     (initial_cache, closed_breaker, 0, [])))))) \<le> 1"
proof -
  let ?r = "executeUngated \<lparr>failure_threshold = 0, open_interval_ms = 0\<rparr>
     \<lparr>max_attempts = 5, initial_backoff_ms = 0, max_backoff_ms = 0, retry_writes = False\<rparr> failing_env () ''x''
     (initial_cache, closed_breaker, 0, [])"
  have c: "counts_statements failing_env id" by (simp add: counts_statements_def failing_env_def)
  obtain st out q' b' e' stack' where r: "?r = (st, out, q', b', e', stack')" using prod_cases6 by blast
  from write_attempts_bounded [OF c r] r show ?thesis
    by (simp add: current_context_def default_context_def)
qed

section \<open>Backoff\<close>

lemma backoff_bounds:
  "0 < delay \<Longrightarrow> delay \<le> max_backoff_ms r \<Longrightarrow> delay \<le> backoff r n delay \<and> backoff r n delay \<le> max_backoff_ms r"
proof (induction r n delay rule: backoff.induct)
  case (2 r n delay)
  then show ?case by (auto simp: min_def split: if_splits)
qed simp

text \<open>The wait before a retry is bounded: never longer than the configured maximum, never
  negative, and at least the initial backoff (or the maximum, if that is smaller), for every
  value the random generator returns within the range asked of it.\<close>

theorem retryDelay_bounds:
  assumes "\<And>range. 0 < range \<Longrightarrow> 0 \<le> rnd range \<and> rnd range < range" and "0 \<le> max_backoff_ms r"
  shows "0 \<le> retryDelay r attempt rnd \<and> retryDelay r attempt rnd \<le> max_backoff_ms r \<and>
    (0 < initial_backoff_ms r \<longrightarrow> min (initial_backoff_ms r) (max_backoff_ms r) \<le> retryDelay r attempt rnd)"
proof (cases "0 < initial_backoff_ms r")
  case False
  with assms(2) show ?thesis by (simp add: retryDelay_def)
next
  case True
  let ?d = "backoff r (attempt - 1) (initial_backoff_ms r)"
  have j: "0 \<le> rnd (jitter_range ?d)" using assms(1) [of "jitter_range ?d"] by (simp add: jitter_range_def)
  have "initial_backoff_ms r \<le> ?d"
  proof (cases "initial_backoff_ms r \<le> max_backoff_ms r")
    case True
    with \<open>0 < initial_backoff_ms r\<close> backoff_bounds show ?thesis by blast
  next
    case False
    then show ?thesis by (cases "attempt - 1") auto
  qed
  with j True assms(2) show ?thesis by (auto simp: retryDelay_def Let_def)
qed

theorem retryDelay_bounds_witness:
  "retryDelay \<lparr>max_attempts = 9, initial_backoff_ms = 50, max_backoff_ms = 1000, retry_writes = False\<rparr> 9 (\<lambda>range. range - 1) \<le> 1000"
  using retryDelay_bounds [of "\<lambda>range. range - 1" "\<lparr>max_attempts = 9, initial_backoff_ms = 50, max_backoff_ms = 1000, retry_writes = False\<rparr>" 9]
  by simp

section \<open>Cursors and the breaker\<close>

text \<open>A cursor opened as the probe of a half-open circuit locks the data source. The successful
  path of \<open>openCursorUngated\<close> does not report its success to the breaker, so the circuit stays
  half-open with its only probe taken: from then on every attempt, at any later time, is refused
  with \<open>CircuitOpen\<close> and leaves that state as it is.\<close>

theorem cursor_success_locks_circuit:
  assumes "0 < failure_threshold c" and "circuitOpenUntil b \<noteq> 0" and "circuitOpenUntil b \<le> env_clock env e"
    and "\<not> halfOpenInFlight b" and "cursorBudgetAcquire limit open = Some n"
    and "attempt_once env nm False e = (st, True, e1)" and "status_ok st" and "circuitOpenUntil b \<le> later"
  shows "\<exists>b'. openCursorUngated c r env nm limit open b e = (st, b', e1) \<and>
    code (fst (beforeAttempt c nm later b')) = CircuitOpen \<and> snd (beforeAttempt c nm later b') = b'"
proof -
  obtain n where n: "read_attempts r = Suc n" by (cases "read_attempts r") (auto simp: read_attempts_def)
  have "openCursorUngated c r env nm limit open b e = (st, b\<lparr>halfOpenInFlight := True\<rparr>, e1)"
    using assms by (simp add: openCursorUngated_def n beforeAttempt_def)
  moreover have "code (fst (beforeAttempt c nm later (b\<lparr>halfOpenInFlight := True\<rparr>))) = CircuitOpen"
    "snd (beforeAttempt c nm later (b\<lparr>halfOpenInFlight := True\<rparr>)) = b\<lparr>halfOpenInFlight := True\<rparr>"
    using assms by (simp_all add: beforeAttempt_def)
  ultimately show ?thesis by blast
qed

definition cursor_env :: "(unit, bool) attempt_env" where
  "cursor_env = \<lparr>env_borrow = (\<lambda>u. (Borrowed, u)), env_statement = (\<lambda>u. (status_OK, True, u)), env_clock = (\<lambda>u. 100)\<rparr>"

theorem cursor_success_locks_circuit_witness:
  "\<exists>b'. openCursorUngated \<lparr>failure_threshold = 1, open_interval_ms = 1\<rparr>
      \<lparr>max_attempts = 1, initial_backoff_ms = 0, max_backoff_ms = 0, retry_writes = False\<rparr> cursor_env ''x'' 0 0
      \<lparr>consecutiveFailures = 1, circuitOpenUntil = 50, halfOpenInFlight = False\<rparr> () = (status_OK, b', ()) \<and>
    code (fst (beforeAttempt \<lparr>failure_threshold = 1, open_interval_ms = 1\<rparr> ''x'' 999999999 b')) = CircuitOpen \<and>
    snd (beforeAttempt \<lparr>failure_threshold = 1, open_interval_ms = 1\<rparr> ''x'' 999999999 b') = b'"
  by (rule cursor_success_locks_circuit)
    (simp_all add: cursor_env_def attempt_once_def borrowSession_def cursorBudgetAcquire_def)

section \<open>Routing\<close>

lemma first_open_replica_Some:
  "first_open_replica now rs start n = Some m \<Longrightarrow> rs \<noteq> [] \<Longrightarrow> m \<in> set rs \<and> \<not> isCircuitOpen (m_cfg m) now (m_breaker m)"
  by (induction n) (auto simp: Let_def split: if_splits)

lemma first_open_replica_None:
  assumes "first_open_replica now rs start n = None" and "i < n" and "n \<le> length rs"
  shows "isCircuitOpen (m_cfg (rs ! ((start + (length rs - Suc i)) mod length rs))) now
    (m_breaker (rs ! ((start + (length rs - Suc i)) mod length rs)))"
  using assms
proof (induction n)
  case (Suc n)
  then show ?case by (cases "i = n") (auto simp: Let_def split: if_splits)
qed simp

lemma rotation_covers:
  assumes "j < length rs"
  shows "\<exists>i < length rs. rs ! ((start + (length rs - Suc i)) mod length rs) = rs ! j"
proof -
  let ?n = "length rs"
  define k where "k = (j + (?n - start mod ?n)) mod ?n"
  have k: "k < ?n" using assms by (simp add: k_def) (metis assms gr_implies_not0 mod_less_divisor neq0_conv)
  have "(start + k) mod ?n = (start mod ?n + (j + (?n - start mod ?n))) mod ?n"
    unfolding k_def by (simp add: mod_simps)
  also have "start mod ?n + (j + (?n - start mod ?n)) = j + ?n"
    using assms mod_less_divisor [of ?n start] by (metis add.commute add.left_commute le_add_diff_inverse less_imp_le
        less_nat_zero_code linorder_neqE_nat)
  finally have "(start + k) mod ?n = j" using assms by simp
  moreover have "?n - Suc (?n - Suc k) = k" using k by simp
  ultimately show ?thesis using k by (intro exI [of _ "?n - Suc k"]) auto
qed

text \<open>Where a read goes. A read of a request that has written goes to the primary, as does a
  read within the read-after-write window of the group; a shadow request goes to the shadow.
  Otherwise it goes to a replica whose circuit is not open whenever the group has one, from
  whatever position the round-robin counter starts, and to the primary only when there is
  none.\<close>

theorem readTarget_routes:
  "(g_shadow g = Some sh \<and> shadow ctx \<longrightarrow> fst (readTarget now ctx round g) = sh) \<and>
   (\<not> (g_shadow g \<noteq> None \<and> shadow ctx) \<and>
      (wroteInThisRequest ctx \<or> (0 < readAfterWrite_ms g \<and> 0 < lastWriteNs g \<and> now - lastWriteNs g < readAfterWrite_ms g * 1000000))
      \<longrightarrow> fst (readTarget now ctx round g) = g_primary g) \<and>
   (\<not> (g_shadow g \<noteq> None \<and> shadow ctx) \<and> \<not> wroteInThisRequest ctx \<and>
      \<not> (0 < readAfterWrite_ms g \<and> 0 < lastWriteNs g \<and> now - lastWriteNs g < readAfterWrite_ms g * 1000000)
      \<longrightarrow> (if \<exists>m\<in>set (g_replicas g). \<not> isCircuitOpen (m_cfg m) now (m_breaker m)
           then fst (readTarget now ctx round g) \<in> set (g_replicas g) \<and>
             \<not> isCircuitOpen (m_cfg (fst (readTarget now ctx round g))) now (m_breaker (fst (readTarget now ctx round g)))
           else fst (readTarget now ctx round g) = g_primary g))"
proof (intro conjI impI)
  let ?rs = "g_replicas g" and ?start = "unat round mod length (g_replicas g)"
  let ?f = "first_open_replica now ?rs ?start (length ?rs)"
  assume plain: "\<not> (g_shadow g \<noteq> None \<and> shadow ctx) \<and> \<not> wroteInThisRequest ctx \<and>
      \<not> (0 < readAfterWrite_ms g \<and> 0 < lastWriteNs g \<and> now - lastWriteNs g < readAfterWrite_ms g * 1000000)"
  have none: "isCircuitOpen (m_cfg m) now (m_breaker m)" if "?f = None" "m \<in> set ?rs" for m
  proof -
    from that(2) obtain j where j: "j < length ?rs" "m = ?rs ! j" by (metis in_set_conv_nth)
    from rotation_covers [OF j(1), of ?start] obtain i where
      i: "i < length ?rs" "?rs ! ((?start + (length ?rs - Suc i)) mod length ?rs) = ?rs ! j" by blast
    with first_open_replica_None [OF that(1) i(1)] j(2) show ?thesis by simp
  qed
  have target: "fst (readTarget now ctx round g) = (if ?rs = [] then g_primary g else case ?f of Some m \<Rightarrow> m | None \<Rightarrow> g_primary g)"
    using plain by (auto simp: readTarget_def split: option.splits)
  show "if \<exists>m\<in>set ?rs. \<not> isCircuitOpen (m_cfg m) now (m_breaker m)
        then fst (readTarget now ctx round g) \<in> set ?rs \<and>
          \<not> isCircuitOpen (m_cfg (fst (readTarget now ctx round g))) now (m_breaker (fst (readTarget now ctx round g)))
        else fst (readTarget now ctx round g) = g_primary g"
  proof (cases ?f)
    case None
    with none target show ?thesis by auto
  next
    case (Some m)
    show ?thesis
    proof (cases "?rs = []")
      case False
      with first_open_replica_Some [OF Some] Some target show ?thesis by auto
    qed (simp add: target)
  qed
qed (auto simp: readTarget_def)

definition replica_group :: group where
  "replica_group = \<lparr>g_name = ''g'',
     g_primary = \<lparr>m_name = ''p'', m_cfg = \<lparr>failure_threshold = 0, open_interval_ms = 0\<rparr>, m_breaker = closed_breaker, m_alive = True\<rparr>,
     g_replicas = [\<lparr>m_name = ''r1'', m_cfg = \<lparr>failure_threshold = 1, open_interval_ms = 9\<rparr>,
         m_breaker = \<lparr>consecutiveFailures = 1, circuitOpenUntil = 100, halfOpenInFlight = False\<rparr>, m_alive = True\<rparr>,
       \<lparr>m_name = ''r2'', m_cfg = \<lparr>failure_threshold = 1, open_interval_ms = 9\<rparr>, m_breaker = closed_breaker, m_alive = True\<rparr>],
     g_failover = [], g_shadow = None, readAfterWrite_ms = 0, lastWriteNs = 0, requireHealthy = False, fallbackToPrimary = True\<rparr>"

theorem readTarget_routes_witness:
  "m_name (fst (readTarget 50 default_context 0 replica_group)) = ''r2'' \<and>
   m_name (fst (readTarget 50 (default_context\<lparr>wroteInThisRequest := True\<rparr>) 0 replica_group)) = ''p''"
  using readTarget_routes [of replica_group undefined default_context 50 0]
    readTarget_routes [of replica_group undefined "default_context\<lparr>wroteInThisRequest := True\<rparr>" 50 0]
  by (auto simp: replica_group_def default_context_def isCircuitOpen_def closed_breaker_def)

section \<open>Writes over several primaries\<close>

text \<open>A group of two primaries.\<close>

definition two_primaries :: group where
  "two_primaries = \<lparr>g_name = ''g'',
     g_primary = \<lparr>m_name = ''p1'', m_cfg = \<lparr>failure_threshold = 0, open_interval_ms = 0\<rparr>, m_breaker = closed_breaker, m_alive = True\<rparr>,
     g_replicas = [],
     g_failover = [\<lparr>m_name = ''p1'', m_cfg = \<lparr>failure_threshold = 0, open_interval_ms = 0\<rparr>, m_breaker = closed_breaker, m_alive = True\<rparr>,
       \<lparr>m_name = ''p2'', m_cfg = \<lparr>failure_threshold = 0, open_interval_ms = 0\<rparr>, m_breaker = closed_breaker, m_alive = True\<rparr>],
     g_shadow = None, readAfterWrite_ms = 0, lastWriteNs = 0, requireHealthy = False, fallbackToPrimary = True\<rparr>"

text \<open>A primary that cannot be connected to is not failed over from. A connect failure reported by
  the pool is marked as a broken connection by \<open>borrowSession\<close>, and a broken connection is not on
  the list of safe failures, so the loop over the candidate primaries stops at the first one and
  returns its failure: the other candidates are not tried and the write is not buffered.\<close>

theorem connect_failure_not_failed_over:
  assumes "attempt m e = (borrowSession nm (BorrowFailed ConnectionFailed err), e')"
  shows "try_targets attempt (m # ms) st e = (borrowSession nm (BorrowFailed ConnectionFailed err), True, e')"
  using assms by (simp add: borrowSession_def safeToFailoverWrite_def status_ok_def)

theorem connect_failure_not_failed_over_witness:
  "fst (try_targets (\<lambda>m (n :: nat). (borrowSession (m_name m) (BorrowFailed ConnectionFailed ''refused''), Suc n))
     (g_failover two_primaries) status_OK 0) = borrowSession ''p1'' (BorrowFailed ConnectionFailed ''refused'') \<and>
   snd (snd (try_targets (\<lambda>m (n :: nat). (borrowSession (m_name m) (BorrowFailed ConnectionFailed ''refused''), Suc n))
     (g_failover two_primaries) status_OK 0)) = 1"
  unfolding two_primaries_def group.simps
  by (subst (1 2) connect_failure_not_failed_over [where nm = "''p1''" and err = "''refused''" and e' = 1]) simp_all

section \<open>Cached results after a write\<close>

lemma invalidate_members:
  assumes "cache_inv q"
  shows "cache_inv (foldl (\<lambda>q m. cache_invalidate (m_name m) q) q ms) \<and>
    (\<forall>d k. cache_held (foldl (\<lambda>q m. cache_invalidate (m_name m) q) q ms) d k =
      (if \<exists>m\<in>set ms. prefix (compositeKey (m_name m) []) (compositeKey d k) then None else cache_held q d k))"
  using assms
proof (induction ms arbitrary: q)
  case (Cons m ms)
  have "cache_inv (cache_invalidate (m_name m) q)" using Cons.prems by (rule cache_invalidate_inv)
  moreover have "cache_held (cache_invalidate (m_name m) q) d k =
      (if prefix (compositeKey (m_name m) []) (compositeKey d k) then None else cache_held q d k)" for d k
    using invalidate_spec [of q "m_name m"] Cons.prems by (simp add: cache_held_def cache_inv_def)
  ultimately show ?case using Cons.IH [of "cache_invalidate (m_name m) q"] by auto
qed simp

lemma own_prefix: "prefix (compositeKey d []) (compositeKey d k)"
  by (simp add: compositeKey_def)

text \<open>After a successful write to a group no member of the group answers from the cache: the
  results cached for the group, its primary, each replica and each failover candidate are all
  gone, the cache's invariant is kept, and the read-after-write window starts at the write.\<close>

theorem markWrite_drops_cached:
  assumes "cache_inv q" and "markWrite now g q = (g', q')"
    and "d \<in> {g_name g, m_name (g_primary g)} \<union> m_name ` set (g_replicas g) \<union> m_name ` set (g_failover g)"
  shows "cache_held q' d k = None \<and> cache_inv q' \<and> lastWriteNs g' = now"
proof -
  let ?q1 = "cache_invalidate (m_name (g_primary g)) (cache_invalidate (g_name g) q)"
  have i: "cache_inv ?q1" using assms(1) by (simp add: cache_invalidate_inv)
  have h: "cache_held ?q1 d k = (if prefix (compositeKey (m_name (g_primary g)) []) (compositeKey d k) \<or>
      prefix (compositeKey (g_name g) []) (compositeKey d k) then None else cache_held q d k)"
    using invalidate_members [OF assms(1), of "[g_primary g\<lparr>m_name := g_name g\<rparr>, g_primary g]"] by simp
  let ?q2 = "foldl (\<lambda>q m. cache_invalidate (m_name m) q) ?q1 (g_replicas g)"
  note r = invalidate_members [OF i, of "g_replicas g"]
  note f = invalidate_members [OF conjunct1 [OF r], of "g_failover g"]
  have "g' = g\<lparr>lastWriteNs := now\<rparr>" "q' = foldl (\<lambda>q m. cache_invalidate (m_name m) q) ?q2 (g_failover g)"
    using assms(2) by (simp_all add: markWrite_def)
  with r f h assms(3) own_prefix [of d k] show ?thesis by auto
qed

theorem markWrite_drops_cached_witness:
  "cache_held (snd (markWrite 5 two_primaries (cache_put 32 40 0 ''p2'' ''k'' empty_rs
     (configure \<lparr>cc_enabled = True, ttl_ms = 1, max_entries = 1, max_memory_bytes = 10, cache_on_replica_only = False\<rparr> initial_cache))))
     ''p2'' ''k'' = None"
proof -
  let ?q = "cache_put 32 40 0 ''p2'' ''k'' empty_rs
     (configure \<lparr>cc_enabled = True, ttl_ms = 1, max_entries = 1, max_memory_bytes = 10, cache_on_replica_only = False\<rparr> initial_cache)"
  have q: "cache_inv ?q" by (rule cache_put_inv [OF configure_inv])
  obtain g' q' where m: "markWrite 5 two_primaries ?q = (g', q')" by fastforce
  have "''p2'' \<in> {g_name two_primaries, m_name (g_primary two_primaries)} \<union> m_name ` set (g_replicas two_primaries)
      \<union> m_name ` set (g_failover two_primaries)"
    by (simp add: two_primaries_def)
  from markWrite_drops_cached [OF q m this, of "''k''"] m show ?thesis by simp
qed

end
