(* ===== verification/Gate.thy ===== *)
theory Gate
  imports SqlAnalyze Complex_Main
begin

text \<open>
  The gate every statement passes before it is routed: the SQL auditor
  (\<open>src/core/sql_auditor.cpp\<close>), the token-bucket rate limiter
  (\<open>include/sqlconduit/core/rate_limiter.h\<close>), and \<open>DataSource::preGate\<close> and \<open>gateSession\<close> of
  \<open>src/core/database_manager.cpp\<close>, which put the two together.

  The doubles of the token bucket are taken as real numbers, without rounding; time points are
  seconds as real numbers. The auditor's log lines are not modelled.
\<close>

section \<open>The SQL auditor\<close>

record audit_config =
  ac_enabled :: bool
  ac_action :: string
  ac_block_no_where_dml :: bool
  ac_require_limit_select :: bool
  ac_enforce_read_only :: bool
  ac_log_blocked :: bool
  blacklist_fingerprints :: "u64 list"
  whitelist_fingerprints :: "u64 list"

record policy =
  blocking :: bool
  log_blocked :: bool
  block_no_where_dml :: bool
  require_limit_select :: bool
  enforce_read_only :: bool
  blacklist :: "u64 list"
  whitelist :: "u64 list"
  needsFingerprint :: bool
  needsKind :: bool

record auditor =
  aud_enabled :: bool
  aud_policy :: "policy option"
  checked :: u64
  warned :: u64
  blocked :: u64

definition initial_auditor :: auditor where
  "initial_auditor = \<lparr>aud_enabled = False, aud_policy = None, checked = 0, warned = 0, blocked = 0\<rparr>"

definition audit_configure :: "audit_config \<Rightarrow> auditor \<Rightarrow> auditor" where
  "audit_configure cfg a =
     a\<lparr>aud_policy := Some
         \<lparr>blocking = (ac_action cfg = ''block''),
          log_blocked = ac_log_blocked cfg,
          block_no_where_dml = ac_block_no_where_dml cfg,
          require_limit_select = ac_require_limit_select cfg,
          enforce_read_only = ac_enforce_read_only cfg,
          blacklist = blacklist_fingerprints cfg,
          whitelist = whitelist_fingerprints cfg,
          needsFingerprint = (blacklist_fingerprints cfg \<noteq> [] \<or> whitelist_fingerprints cfg \<noteq> []),
          needsKind = (ac_enforce_read_only cfg \<or> ac_block_no_where_dml cfg \<or> ac_require_limit_select cfg)\<rparr>,
       aud_enabled := ac_enabled cfg\<rparr>"

definition verdict :: "bool \<Rightarrow> string \<Rightarrow> auditor \<Rightarrow> status \<times> auditor" where
  "verdict block reason a =
     (if block then (status_error SqlBlocked reason, a\<lparr>blocked := blocked a + 1\<rparr>)
      else (status_OK, a\<lparr>warned := warned a + 1\<rparr>))"

text \<open>The checks that need the kind of statement.\<close>

definition check_kind :: "policy \<Rightarrow> string \<Rightarrow> operation_type \<Rightarrow> bool \<Rightarrow> auditor \<Rightarrow> status \<times> auditor" where
  "check_kind p sql type readOnly a =
     (let kind = classifyStatement sql in
      if enforce_read_only p \<and> readOnly \<and> isWrite kind then
        verdict (blocking p) ''write on read-only datasource'' a
      else if block_no_where_dml p \<and> (kind = UpdateStmt \<or> kind = DeleteStmt) \<and> \<not> hasWhereClause sql then
        verdict (blocking p) ''UPDATE/DELETE without WHERE clause'' a
      else if require_limit_select p \<and> type \<noteq> OpSelect \<and> kind = SelectStmt \<and> \<not> hasRowLimitClause sql then
        verdict (blocking p) ''SELECT without LIMIT clause'' a
      else (status_OK, a))"

definition audit_check :: "string \<Rightarrow> operation_type \<Rightarrow> bool \<Rightarrow> auditor \<Rightarrow> status \<times> auditor" where
  "audit_check sql type readOnly a =
     (if \<not> aud_enabled a then (status_OK, a)
      else case aud_policy a of
        None \<Rightarrow> (status_OK, a)
      | Some p \<Rightarrow>
        let a1 = a\<lparr>checked := checked a + 1\<rparr> in
        if hasMultipleStatements sql True then
          verdict (blocking p) ''multiple SQL statements are not allowed'' a1
        else if needsFingerprint p \<and> whitelist p \<noteq> [] \<and> fingerprintTemplate sql \<notin> set (whitelist p) then
          verdict True ''SQL not in audit whitelist'' a1
        else if needsFingerprint p \<and> fingerprintTemplate sql \<in> set (blacklist p) then
          verdict True ''SQL in audit blacklist'' a1
        else if \<not> needsKind p then (status_OK, a1)
        else check_kind p sql type readOnly a1)"

section \<open>The rate limiter\<close>

record token_bucket =
  tokens :: real
  bucket_rate :: real
  bucket_burst :: real
  last_time :: real

definition new_bucket :: "real \<Rightarrow> real \<Rightarrow> real \<Rightarrow> token_bucket" where
  "new_bucket now ratePerSec burst = \<lparr>tokens = burst, bucket_rate = ratePerSec, bucket_burst = burst, last_time = now\<rparr>"

definition tryAcquire :: "real \<Rightarrow> token_bucket \<Rightarrow> bool \<times> token_bucket" where
  "tryAcquire now b =
     (let grown = tokens b + (now - last_time b) * bucket_rate b;
          filled = (if bucket_burst b < grown then bucket_burst b else grown)
      in if 1 \<le> filled then (True, b\<lparr>last_time := now, tokens := filled - 1\<rparr>)
         else (False, b\<lparr>last_time := now, tokens := filled\<rparr>))"

record rate_limiter =
  global_bucket :: "token_bucket option"
  perFpQps :: real
  rl_burst :: int
  fpMode :: string
  fpBuckets :: "(u64 \<times> token_bucket) list"

definition kFpCap :: nat where "kFpCap = 1024"

definition burst_or :: "int \<Rightarrow> real \<Rightarrow> real" where
  "burst_or burst qps = (if 0 < burst then of_int burst else qps)"

definition new_limiter :: "real \<Rightarrow> real \<Rightarrow> real \<Rightarrow> int \<Rightarrow> string \<Rightarrow> rate_limiter" where
  "new_limiter now globalQps fpQps burst mode =
     \<lparr>global_bucket = (if 0 < globalQps then Some (new_bucket now globalQps (burst_or burst globalQps)) else None),
      perFpQps = fpQps, rl_burst = burst, fpMode = mode, fpBuckets = []\<rparr>"

definition usesFingerprint :: "rate_limiter \<Rightarrow> bool" where
  "usesFingerprint l \<longleftrightarrow> fpMode l \<noteq> ''off'' \<and> 0 < perFpQps l"

text \<open>The bucket of one fingerprint; a fingerprint beyond the cap has none and passes.\<close>

definition acquire_fp :: "real \<Rightarrow> u64 \<Rightarrow> rate_limiter \<Rightarrow> bool \<times> rate_limiter" where
  "acquire_fp now fp l =
     (case map_of (fpBuckets l) fp of
        None \<Rightarrow>
          if kFpCap \<le> length (fpBuckets l) then (True, l)
          else (case tryAcquire now (new_bucket now (perFpQps l) (burst_or (rl_burst l) (perFpQps l))) of
                  (ok, b) \<Rightarrow> (ok, l\<lparr>fpBuckets := (fp, b) # fpBuckets l\<rparr>))
      | Some b \<Rightarrow>
          (case tryAcquire now b of
             (ok, b') \<Rightarrow> (ok, l\<lparr>fpBuckets := map (\<lambda>(k, v). if k = fp then (k, b') else (k, v)) (fpBuckets l)\<rparr>)))"

definition acquire :: "real \<Rightarrow> u64 \<Rightarrow> rate_limiter \<Rightarrow> bool \<times> rate_limiter" where
  "acquire now fp l =
     (case (case global_bucket l of
              None \<Rightarrow> (True, l)
            | Some g \<Rightarrow> (case tryAcquire now g of (ok, g') \<Rightarrow> (ok, l\<lparr>global_bucket := Some g'\<rparr>))) of
        (ok, l1) \<Rightarrow>
          if \<not> ok then (False, l1)
          else if fp \<noteq> 0 \<and> fpMode l1 \<noteq> ''off'' \<and> 0 < perFpQps l1 then acquire_fp now fp l1
          else (True, l1))"

record rate_limit_config =
  rlc_enabled :: bool
  global_qps :: int
  per_fingerprint_qps :: int
  rlc_burst :: int
  fingerprint_mode :: string

definition makeRateLimiter :: "real \<Rightarrow> rate_limit_config \<Rightarrow> rate_limiter option \<Rightarrow> rate_limiter option" where
  "makeRateLimiter now cfg defaultLimiter =
     (if rlc_enabled cfg \<and> (0 < global_qps cfg \<or> 0 < per_fingerprint_qps cfg)
      then Some (new_limiter now (of_int (global_qps cfg)) (of_int (per_fingerprint_qps cfg)) (rlc_burst cfg) (fingerprint_mode cfg))
      else defaultLimiter)"

section \<open>The gate\<close>

definition rate_limited :: "string \<Rightarrow> status" where
  "rate_limited nm = (status_error RateLimited (''datasource '' @ [squote] @ nm @ [squote] @ '' rate limited''))\<lparr>retryable := False\<rparr>"

definition preGate :: "string \<Rightarrow> bool \<Rightarrow> real \<Rightarrow> string \<Rightarrow> operation_type \<Rightarrow>
    auditor \<times> rate_limiter option \<Rightarrow> status \<times> auditor \<times> rate_limiter option" where
  "preGate nm readOnly now sql type s =
     (case s of (a, limiter) \<Rightarrow>
        case audit_check sql type readOnly a of
          (st, a') \<Rightarrow>
            if \<not> status_ok st then (st, a', limiter)
            else case limiter of
              None \<Rightarrow> (status_OK, a', None)
            | Some l \<Rightarrow>
              (case acquire now (if usesFingerprint l then fingerprintTemplate sql else 0) l of
                 (ok, l') \<Rightarrow> ((if ok then status_OK else rate_limited nm), a', Some l')))"

definition gateSession :: "string \<Rightarrow> real \<Rightarrow> rate_limiter option \<Rightarrow> status \<times> rate_limiter option" where
  "gateSession nm now limiter =
     (case limiter of
        None \<Rightarrow> (status_OK, None)
      | Some l \<Rightarrow> (case acquire now 0 l of (ok, l') \<Rightarrow> ((if ok then status_OK else rate_limited nm), Some l')))"

section \<open>What the auditor lets through\<close>

text \<open>The rules of a configuration, each as a condition on the statement.\<close>

definition rule_single :: "string \<Rightarrow> bool" where
  "rule_single sql \<longleftrightarrow> \<not> hasMultipleStatements sql True"

definition rule_lists :: "audit_config \<Rightarrow> string \<Rightarrow> bool" where
  "rule_lists cfg sql \<longleftrightarrow>
     (whitelist_fingerprints cfg \<noteq> [] \<longrightarrow> fingerprintTemplate sql \<in> set (whitelist_fingerprints cfg)) \<and>
     fingerprintTemplate sql \<notin> set (blacklist_fingerprints cfg)"

definition rule_kind :: "audit_config \<Rightarrow> operation_type \<Rightarrow> bool \<Rightarrow> string \<Rightarrow> bool" where
  "rule_kind cfg type readOnly sql \<longleftrightarrow>
     \<not> (ac_enforce_read_only cfg \<and> readOnly \<and> isWrite (classifyStatement sql)) \<and>
     \<not> (ac_block_no_where_dml cfg \<and> classifyStatement sql \<in> {UpdateStmt, DeleteStmt} \<and> \<not> hasWhereClause sql) \<and>
     \<not> (ac_require_limit_select cfg \<and> type \<noteq> OpSelect \<and> classifyStatement sql = SelectStmt \<and> \<not> hasRowLimitClause sql)"

lemma verdict_status: "status_ok (fst (verdict b r a)) \<longleftrightarrow> \<not> b"
  by (simp add: verdict_def status_ok_def status_OK_def status_error_def)

lemma check_kind_status:
  assumes "aud_policy (audit_configure cfg a) = Some p"
  shows "status_ok (fst (check_kind p sql type readOnly a1)) \<longleftrightarrow>
    ac_action cfg \<noteq> ''block'' \<or> rule_kind cfg type readOnly sql"
proof -
  have "blocking p = (ac_action cfg = ''block'')" "enforce_read_only p = ac_enforce_read_only cfg"
    "block_no_where_dml p = ac_block_no_where_dml cfg" "require_limit_select p = ac_require_limit_select cfg"
    using assms by (auto simp: audit_configure_def)
  then show ?thesis
    by (auto simp: check_kind_def Let_def rule_kind_def verdict_status)
qed

lemma rule_kind_needed:
  assumes "\<not> (ac_enforce_read_only cfg \<or> ac_block_no_where_dml cfg \<or> ac_require_limit_select cfg)"
  shows "rule_kind cfg type readOnly sql"
  using assms by (simp add: rule_kind_def)

lemma audit_check_status:
  assumes "ac_enabled cfg"
  shows "status_ok (fst (audit_check sql type readOnly (audit_configure cfg a))) \<longleftrightarrow>
    (if ac_action cfg = ''block'' then rule_single sql \<and> rule_lists cfg sql \<and> rule_kind cfg type readOnly sql
     else \<not> rule_single sql \<or> rule_lists cfg sql)"
proof -
  obtain p where p: "aud_policy (audit_configure cfg a) = Some p" by (simp add: audit_configure_def)
  then have f: "blocking p = (ac_action cfg = ''block'')" "blacklist p = blacklist_fingerprints cfg"
    "whitelist p = whitelist_fingerprints cfg"
    "needsFingerprint p = (blacklist_fingerprints cfg \<noteq> [] \<or> whitelist_fingerprints cfg \<noteq> [])"
    "needsKind p = (ac_enforce_read_only cfg \<or> ac_block_no_where_dml cfg \<or> ac_require_limit_select cfg)"
    by (auto simp: audit_configure_def)
  have e: "aud_enabled (audit_configure cfg a)" using assms by (simp add: audit_configure_def)
  show ?thesis
  proof (cases "rule_single sql \<and> rule_lists cfg sql")
    case True
    then have "audit_check sql type readOnly (audit_configure cfg a) =
        (let a1 = (audit_configure cfg a)\<lparr>checked := checked (audit_configure cfg a) + 1\<rparr>
         in if \<not> needsKind p then (status_OK, a1) else check_kind p sql type readOnly a1)"
      using e p f by (auto simp: audit_check_def Let_def rule_single_def rule_lists_def)
    then show ?thesis
      using True f(5) check_kind_status [OF p] rule_kind_needed [of cfg type readOnly sql]
      by (auto simp: Let_def)
  next
    case False
    then show ?thesis
      using e p f by (auto simp: audit_check_def Let_def rule_single_def rule_lists_def verdict_status)
  qed
qed

text \<open>The counters: every check counts once, every refusal counts as blocked.\<close>

definition counted :: "auditor \<Rightarrow> status \<times> auditor \<Rightarrow> bool" where
  "counted a r \<longleftrightarrow> checked (snd r) = checked a + 1 \<and>
     (if status_ok (fst r) then blocked (snd r) = blocked a
      else code (fst r) = SqlBlocked \<and> blocked (snd r) = blocked a + 1)"

lemma counted_pass: "counted a (status_OK, a\<lparr>checked := checked a + 1\<rparr>)"
  by (simp add: counted_def)

lemma counted_verdict: "counted a (verdict b r (a\<lparr>checked := checked a + 1\<rparr>))"
  by (simp add: counted_def verdict_def status_ok_def status_error_def status_OK_def)

lemma counted_kind: "counted a (check_kind p sql type readOnly (a\<lparr>checked := checked a + 1\<rparr>))"
  by (simp add: check_kind_def Let_def counted_verdict counted_pass)

lemma audit_check_counted:
  assumes "ac_enabled cfg"
  shows "counted a (audit_check sql type readOnly (audit_configure cfg a))"
proof -
  let ?a = "audit_configure cfg a"
  obtain p where p: "aud_policy ?a = Some p" by (simp add: audit_configure_def)
  have "aud_enabled ?a" using assms by (simp add: audit_configure_def)
  with p have "counted ?a (audit_check sql type readOnly ?a)"
    by (simp add: audit_check_def Let_def counted_verdict counted_pass counted_kind)
  then show ?thesis by (simp add: counted_def audit_configure_def)
qed

text \<open>C11: what the gate lets through when auditing blocks. A statement is accepted exactly when it is
  a single statement, is on the allow list (if there is one) and not on the deny list, does not
  write on a read-only source, is no UPDATE or DELETE without WHERE, and no unbounded SELECT
  (cursors excepted), each as far as configured. A refused statement returns \<open>SqlBlocked\<close>, is
  counted as blocked and consumes no token of the rate limiter.\<close>

theorem preGate_audit:
  assumes "ac_enabled cfg" and "ac_action cfg = ''block''"
    and "preGate nm readOnly now sql type (audit_configure cfg a, limiter) = (st, a', limiter')"
  shows "(rule_single sql \<and> rule_lists cfg sql \<and> rule_kind cfg type readOnly sql \<longrightarrow>
      code st \<in> {Ok, RateLimited} \<and> (limiter = None \<longrightarrow> status_ok st) \<and> blocked a' = blocked a) \<and>
    (\<not> (rule_single sql \<and> rule_lists cfg sql \<and> rule_kind cfg type readOnly sql) \<longrightarrow>
      code st = SqlBlocked \<and> limiter' = limiter \<and> blocked a' = blocked a + 1) \<and>
    checked a' = checked a + 1"
proof -
  obtain st1 a1 where c: "audit_check sql type readOnly (audit_configure cfg a) = (st1, a1)" by fastforce
  have "counted a (st1, a1)"
    using audit_check_counted [OF assms(1), of a sql type readOnly] c by simp
  moreover have "status_ok st1 \<longleftrightarrow> rule_single sql \<and> rule_lists cfg sql \<and> rule_kind cfg type readOnly sql"
    using audit_check_status [OF assms(1), of sql type readOnly a] c assms(2) by simp
  moreover have "if status_ok st1 then a' = a1 \<and> code st \<in> {Ok, RateLimited} \<and> (limiter = None \<longrightarrow> status_ok st)
      else st = st1 \<and> a' = a1 \<and> limiter' = limiter"
    using assms(3) c by (auto simp: preGate_def rate_limited_def status_OK_def status_ok_def status_error_def
        split: option.splits prod.splits if_splits)
  ultimately show ?thesis by (auto simp: counted_def split: if_splits)
qed

definition read_only_cfg :: audit_config where
  "read_only_cfg = \<lparr>ac_enabled = True, ac_action = ''block'', ac_block_no_where_dml = False, ac_require_limit_select = False,
     ac_enforce_read_only = True, ac_log_blocked = True, blacklist_fingerprints = [], whitelist_fingerprints = []\<rparr>"

theorem preGate_audit_witness:
  "code (fst (preGate ''ds'' True 0 ''WITH a AS (SELECT 1) DELETE FROM t'' OpQuery
     (audit_configure read_only_cfg initial_auditor, None))) = SqlBlocked"
proof -
  let ?sql = "''WITH a AS (SELECT 1) DELETE FROM t''"
  obtain st a' l' where g: "preGate ''ds'' True 0 ?sql OpQuery (audit_configure read_only_cfg initial_auditor, None) = (st, a', l')"
    using prod_cases3 by blast
  have "isWrite (classifyStatement ?sql)" by code_simp
  then have "\<not> rule_kind read_only_cfg OpQuery True ?sql" by (simp add: rule_kind_def read_only_cfg_def)
  with preGate_audit [OF _ _ g] g show ?thesis by (simp add: read_only_cfg_def)
qed

text \<open>The allow list does not hold in the default mode. With \<open>action\<close> other than \<open>block\<close> the check
  for several statements only warns, and returns before the allow list and the deny list are
  consulted, although those refuse statements in every mode: any text with a second statement
  passes.\<close>

theorem whitelist_bypassed:
  assumes "ac_enabled cfg" and "ac_action cfg \<noteq> ''block''"
  shows "status_ok (fst (audit_check sql type readOnly (audit_configure cfg a))) \<longleftrightarrow>
    hasMultipleStatements sql True \<or> rule_lists cfg sql"
  using audit_check_status [OF assms(1), of sql type readOnly a] assms(2) by (simp add: rule_single_def)

theorem whitelist_bypassed_witness:
  "status_ok (fst (audit_check ''SELECT 1; DROP TABLE t'' OpExecute False
     (audit_configure (read_only_cfg\<lparr>ac_action := ''warn'', whitelist_fingerprints := [1]\<rparr>) initial_auditor)))"
proof -
  have "hasMultipleStatements ''SELECT 1; DROP TABLE t'' True" by code_simp
  then show ?thesis
    by (subst whitelist_bypassed) (simp_all add: read_only_cfg_def)
qed

section \<open>The rate the limiter admits\<close>

text \<open>The grants of a bucket over a sequence of calls at the given times.\<close>

fun grants :: "real list \<Rightarrow> token_bucket \<Rightarrow> nat \<times> token_bucket" where
  "grants [] b = (0, b)"
| "grants (t # ts) b =
     (case tryAcquire t b of (ok, b1) \<Rightarrow> (case grants ts b1 of (n, b2) \<Rightarrow> ((if ok then Suc n else n), b2)))"

definition bucket_inv :: "token_bucket \<Rightarrow> bool" where
  "bucket_inv b \<longleftrightarrow> 0 \<le> bucket_rate b \<and> 0 \<le> tokens b \<and> tokens b \<le> bucket_burst b"

lemma tryAcquire_step:
  assumes "bucket_inv b" and "last_time b \<le> now" and "tryAcquire now b = (ok, b')"
  shows "bucket_inv b' \<and> last_time b' = now \<and> bucket_rate b' = bucket_rate b \<and> bucket_burst b' = bucket_burst b \<and>
    tokens b' + (if ok then 1 else 0) \<le> tokens b + (now - last_time b) * bucket_rate b"
proof -
  have "0 \<le> (now - last_time b) * bucket_rate b" using assms by (simp add: bucket_inv_def)
  with assms show ?thesis
    by (auto simp: tryAcquire_def Let_def bucket_inv_def split: if_splits)
qed

lemma grants_bound:
  assumes "bucket_inv b" and "sorted (last_time b # ts)" and "grants ts b = (n, b')"
  shows "bucket_inv b' \<and> of_nat n + tokens b' \<le> tokens b + (last_time b' - last_time b) * bucket_rate b \<and>
    bucket_rate b' = bucket_rate b \<and> bucket_burst b' = bucket_burst b \<and> last_time b' = last (last_time b # ts)"
  using assms
proof (induction ts arbitrary: b n b')
  case (Cons t ts)
  obtain ok b1 where a: "tryAcquire t b = (ok, b1)" by fastforce
  obtain m b2 where g: "grants ts b1 = (m, b2)" by fastforce
  have s: "bucket_inv b1 \<and> last_time b1 = t \<and> bucket_rate b1 = bucket_rate b \<and> bucket_burst b1 = bucket_burst b \<and>
      tokens b1 + (if ok then 1 else 0) \<le> tokens b + (t - last_time b) * bucket_rate b"
    using tryAcquire_step [OF Cons.prems(1) _ a] Cons.prems(2) by simp
  with Cons.IH [OF _ _ g] Cons.prems(2) have "bucket_inv b2 \<and> of_nat m + tokens b2 \<le> tokens b1 + (last_time b2 - t) * bucket_rate b \<and>
      bucket_rate b2 = bucket_rate b \<and> bucket_burst b2 = bucket_burst b \<and> last_time b2 = last (t # ts)"
    by (cases "ts = []") auto
  with s Cons.prems(3) a g show ?case by (auto simp: algebra_simps split: if_splits)
qed simp

text \<open>C34: the limiter keeps its rate. Over any sequence of calls at non-decreasing times, a bucket
  grants at most its burst plus its rate times the time elapsed since it was made, and its
  fill level stays between 0 and the burst.\<close>

theorem token_bucket_rate:
  assumes "0 \<le> rate" and "0 \<le> burst" and "sorted (start # ts)" and "grants ts (new_bucket start rate burst) = (n, b)"
  shows "real n \<le> burst + (last (start # ts) - start) * rate \<and> 0 \<le> tokens b \<and> tokens b \<le> burst"
proof -
  have "bucket_inv (new_bucket start rate burst)" using assms by (simp add: bucket_inv_def new_bucket_def)
  from grants_bound [OF this _ assms(4)] assms(3) show ?thesis
    by (auto simp: new_bucket_def bucket_inv_def split: if_splits)
qed

theorem token_bucket_rate_witness: "fst (grants [0, 0, 1, 1] (new_bucket 0 1 1)) \<le> 2"
proof -
  obtain n b where g: "grants [0, 0, 1, 1] (new_bucket 0 1 1) = (n, b)" by fastforce
  from token_bucket_rate [OF _ _ _ g] g show ?thesis by simp
qed

end
