(* ===== verification/Session.thy ===== *)
theory Session
  imports Connection DataSource Gate
begin

text \<open>
  Sessions and transactions (\<open>Session\<close>, \<open>DataSource::withSessionInternal\<close> and
  \<open>DataSource::transactionInternal\<close> in \<open>src/core/database_manager.cpp\<close>).

  A session holds a borrowed connection (an \<open>'c\<close>, driven through the operations of the driver
  interface), whether the handle may go back to the pool, whether a transaction is open, and
  whether a statement has written. The thread-local transaction depth and the auditor are carried
  along. The interceptor chain is taken inactive, as it is by default and whenever the session
  works for a \<open>DataSource\<close> operation, which runs the chain itself; events for observers are not
  modelled.
\<close>

datatype isolation = DefaultLevel | ReadUncommitted | ReadCommitted | RepeatableRead | Serializable

record tx_options =
  isolation :: isolation
  tx_readOnly :: bool
  tx_timeout_ms :: int

text \<open>The driver operations a session uses beyond those of \<open>conn_ops\<close>.\<close>

record 'c sess_ops = "'c conn_ops" +
  op_begin_opts :: "tx_options \<Rightarrow> 'c \<Rightarrow> status \<times> 'c"
  op_savepoint :: "string \<Rightarrow> 'c \<Rightarrow> status \<times> 'c"
  op_releaseSavepoint :: "string \<Rightarrow> 'c \<Rightarrow> status \<times> 'c"
  op_rollbackToSavepoint :: "string \<Rightarrow> 'c \<Rightarrow> status \<times> 'c"
  op_executeBatch :: "string \<Rightarrow> params list \<Rightarrow> 'c \<Rightarrow> status \<times> batch_result \<times> 'c"
  op_supportsPrepared :: bool
  op_prepare :: "string \<Rightarrow> params \<Rightarrow> 'c \<Rightarrow> status \<times> nat \<times> 'c"
  op_executePrepared_query :: "nat \<Rightarrow> params \<Rightarrow> 'c \<Rightarrow> status \<times> result_set \<times> 'c"
  op_executePrepared :: "nat \<Rightarrow> params \<Rightarrow> 'c \<Rightarrow> status \<times> int \<times> 'c"

text \<open>The default of \<open>begin\<close> with options.\<close>

definition begin_opts_default :: "('c \<Rightarrow> status \<times> 'c) \<Rightarrow> tx_options \<Rightarrow> 'c \<Rightarrow> status \<times> 'c" where
  "begin_opts_default begin opts c =
     (if isolation opts \<noteq> DefaultLevel \<or> tx_readOnly opts
      then (not_supported ''driver does not support transaction options'', c)
      else begin c)"

record 'c session =
  s_conn :: 'c
  s_reusable :: bool
  s_txOpen :: bool
  s_didWrite :: bool
  s_audit :: bool
  s_auditReadOnly :: bool
  gTxDepth :: int
  s_auditor :: auditor

definition leave_tx :: "'c session \<Rightarrow> 'c session" where
  "leave_tx s = s\<lparr>s_txOpen := False, gTxDepth := (if 0 < gTxDepth s then gTxDepth s - 1 else gTxDepth s)\<rparr>"

text \<open>A connection reported as broken is not given back to the pool.\<close>

definition after_call :: "status \<Rightarrow> 'c \<Rightarrow> 'c session \<Rightarrow> 'c session" where
  "after_call st c s = s\<lparr>s_conn := c, s_reusable := (if connectionBroken st then False else s_reusable s)\<rparr>"

definition session_begin :: "('c \<Rightarrow> status \<times> 'c) \<Rightarrow> 'c session \<Rightarrow> status \<times> 'c session" where
  "session_begin op s =
     (case op (s_conn s) of
        (st, c) \<Rightarrow>
          let s1 = after_call st c s
          in (st, if status_ok st
                  then s1\<lparr>gTxDepth := (if s_txOpen s1 then gTxDepth s1 else gTxDepth s1 + 1), s_txOpen := True\<rparr>
                  else s1))"

definition session_commit :: "('c, 'z) sess_ops_scheme \<Rightarrow> 'c session \<Rightarrow> status \<times> 'c session" where
  "session_commit d s =
     (case op_commit d (s_conn s) of
        (st, c) \<Rightarrow> let s1 = after_call st c s in (st, if s_txOpen s1 then leave_tx s1 else s1))"

definition session_rollback :: "('c, 'z) sess_ops_scheme \<Rightarrow> 'c session \<Rightarrow> status \<times> 'c session" where
  "session_rollback d s =
     (case op_rollback d (s_conn s) of
        (st, c) \<Rightarrow> let s1 = after_call st c s in (st, if s_txOpen s1 then leave_tx s1 else s1))"

definition session_savepoint :: "('c \<Rightarrow> status \<times> 'c) \<Rightarrow> 'c session \<Rightarrow> status \<times> 'c session" where
  "session_savepoint op s = (case op (s_conn s) of (st, c) \<Rightarrow> (st, after_call st c s))"

text \<open>The destructor: an open transaction is rolled back; if that fails the connection is given up.\<close>

definition cleanupOpenTransaction :: "('c, 'z) sess_ops_scheme \<Rightarrow> 'c session \<Rightarrow> 'c session" where
  "cleanupOpenTransaction d s =
     (if \<not> s_txOpen s then s
      else case op_rollback d (s_conn s) of
        (st, c) \<Rightarrow>
          if status_ok st then leave_tx (s\<lparr>s_conn := c\<rparr>)
          else (leave_tx (s\<lparr>s_conn := c\<rparr>))\<lparr>s_reusable := False\<rparr>)"

section \<open>Statements of a session\<close>

definition auditStatement :: "string \<Rightarrow> operation_type \<Rightarrow> 'c session \<Rightarrow> status \<times> 'c session" where
  "auditStatement sql type s =
     (if \<not> s_audit s then (status_OK, s)
      else case audit_check sql type (s_auditReadOnly s) (s_auditor s) of
        (st, a) \<Rightarrow> (st, s\<lparr>s_auditor := a\<rparr>))"

text \<open>The common shape of the statements: audit, run, remember a write, give up a broken connection.\<close>

definition run_statement ::
  "operation_type \<Rightarrow> bool \<Rightarrow> string \<Rightarrow> ('c \<Rightarrow> status \<times> 'o \<times> 'c) \<Rightarrow> 'o \<Rightarrow> 'c session \<Rightarrow> status \<times> 'o \<times> 'c session" where
  "run_statement type writes sql op out0 s =
     (case auditStatement sql type s of
        (a, s1) \<Rightarrow>
          if \<not> status_ok a then (a, out0, s1)
          else case op (s_conn s1) of
            (st, out, c) \<Rightarrow>
              (st, out, (after_call st c s1)\<lparr>s_didWrite := s_didWrite s1 \<or> (writes \<and> status_ok st)\<rparr>))"

definition runPreparedQuery :: "bool \<Rightarrow> ('c, 'z) sess_ops_scheme \<Rightarrow> string \<Rightarrow> params \<Rightarrow> 'c \<Rightarrow> status \<times> result_set \<times> 'c" where
  "runPreparedQuery cacheOn d sql ps c =
     (if \<not> (cacheOn \<and> op_supportsPrepared d) then op_query_params d sql ps c
      else case op_prepare d sql ps c of
        (st, h, c1) \<Rightarrow> if \<not> status_ok st then op_query_params d sql ps c1 else op_executePrepared_query d h ps c1)"

definition runPreparedExec :: "bool \<Rightarrow> ('c, 'z) sess_ops_scheme \<Rightarrow> string \<Rightarrow> params \<Rightarrow> 'c \<Rightarrow> status \<times> int \<times> 'c" where
  "runPreparedExec cacheOn d sql ps c =
     (if \<not> (cacheOn \<and> op_supportsPrepared d) then op_execute_params d sql ps c
      else case op_prepare d sql ps c of
        (st, h, c1) \<Rightarrow> if \<not> status_ok st then op_execute_params d sql ps c1 else op_executePrepared d h ps c1)"

definition session_query :: "('c, 'z) sess_ops_scheme \<Rightarrow> string \<Rightarrow> 'c session \<Rightarrow> status \<times> result_set \<times> 'c session" where
  "session_query d sql s = run_statement OpQuery False sql (op_query d sql) empty_rs s"

definition session_query_params ::
  "bool \<Rightarrow> ('c, 'z) sess_ops_scheme \<Rightarrow> string \<Rightarrow> params \<Rightarrow> 'c session \<Rightarrow> status \<times> result_set \<times> 'c session" where
  "session_query_params cacheOn d sql ps s = run_statement OpQuery False sql (runPreparedQuery cacheOn d sql ps) empty_rs s"

definition session_execute :: "('c, 'z) sess_ops_scheme \<Rightarrow> string \<Rightarrow> int \<Rightarrow> 'c session \<Rightarrow> status \<times> int \<times> 'c session" where
  "session_execute d sql aff s = run_statement OpExecute True sql (op_execute d sql) aff s"

definition session_execute_params ::
  "bool \<Rightarrow> ('c, 'z) sess_ops_scheme \<Rightarrow> string \<Rightarrow> params \<Rightarrow> int \<Rightarrow> 'c session \<Rightarrow> status \<times> int \<times> 'c session" where
  "session_execute_params cacheOn d sql ps aff s = run_statement OpExecute True sql (runPreparedExec cacheOn d sql ps) aff s"

definition session_execute_keys ::
  "('c, 'z) sess_ops_scheme \<Rightarrow> string \<Rightarrow> params \<Rightarrow> int \<times> result_set \<Rightarrow> 'c session \<Rightarrow> status \<times> (int \<times> result_set) \<times> 'c session" where
  "session_execute_keys d sql ps out s =
     run_statement OpExecute True sql (\<lambda>c. case op_execute_keys d sql ps c of (st, aff, ks, c') \<Rightarrow> (st, (aff, ks), c')) out s"

definition session_executeBatch ::
  "('c, 'z) sess_ops_scheme \<Rightarrow> string \<Rightarrow> params list \<Rightarrow> batch_result \<Rightarrow> 'c session \<Rightarrow> status \<times> batch_result \<times> 'c session" where
  "session_executeBatch d sql batch out s = run_statement OpBatch True sql (op_executeBatch d sql batch) out s"

text \<open>\<open>prepare\<close> does not look at the status of the connection; a prepared statement is not audited
  again when it is run.\<close>

definition session_prepare :: "('c, 'z) sess_ops_scheme \<Rightarrow> string \<Rightarrow> params \<Rightarrow> 'c session \<Rightarrow> status \<times> nat \<times> 'c session" where
  "session_prepare d sql ps s =
     (case auditStatement sql OpQuery s of
        (a, s1) \<Rightarrow>
          if \<not> status_ok a then (a, 0, s1)
          else case op_prepare d sql ps (s_conn s1) of (st, h, c) \<Rightarrow> (st, h, s1\<lparr>s_conn := c\<rparr>))"

definition session_executePrepared :: "('c, 'z) sess_ops_scheme \<Rightarrow> nat \<Rightarrow> params \<Rightarrow> 'c session \<Rightarrow> status \<times> int \<times> 'c session" where
  "session_executePrepared d h ps s =
     (case op_executePrepared d h ps (s_conn s) of
        (st, aff, c) \<Rightarrow> (st, aff, (after_call st c s)\<lparr>s_didWrite := s_didWrite s \<or> status_ok st\<rparr>))"

section \<open>Callbacks and transactions\<close>

text \<open>How the user's callback ends.\<close>

datatype fn_result = Returns status | Throws string | ThrowsUnknown

fun guarded :: "fn_result \<Rightarrow> status" where
  "guarded (Returns st) = st"
| "guarded (Throws what) = status_error TxError (''exception in session: '' @ what)"
| "guarded ThrowsUnknown = status_error TxError ''unknown exception in session''"

definition runGuarded :: "('c session \<Rightarrow> fn_result \<times> 'c session) \<Rightarrow> 'c session \<Rightarrow> status \<times> 'c session" where
  "runGuarded fn s = (case fn s of (r, s') \<Rightarrow> (guarded r, s'))"

text \<open>A session over a freshly borrowed connection.\<close>

definition new_session :: "'c \<Rightarrow> bool \<Rightarrow> int \<Rightarrow> auditor \<Rightarrow> 'c session" where
  "new_session c readOnly depth a =
     \<lparr>s_conn = c, s_reusable = True, s_txOpen = False, s_didWrite = False, s_audit = True,
      s_auditReadOnly = readOnly, gTxDepth = depth, s_auditor = a\<rparr>"

text \<open>\<open>clock i\<close> is the time read by the \<open>i\<close>-th call of \<open>beforeAttempt\<close> or \<open>afterAttempt\<close>.\<close>

text \<open>\<open>withSessionInternal\<close> of a single data source: the status, the breaker, whether the write was
  marked, and the session after its destructor (none if no connection was obtained).\<close>

definition withSessionInternal ::
  "breaker_cfg \<Rightarrow> ('c, 'z) sess_ops_scheme \<Rightarrow> string \<Rightarrow> bool \<Rightarrow> ('c session \<Rightarrow> fn_result \<times> 'c session) \<Rightarrow>
     (nat \<Rightarrow> int) \<Rightarrow> borrow_answer \<Rightarrow> 'c \<Rightarrow> int \<Rightarrow> auditor \<Rightarrow> breaker \<Rightarrow> status \<times> breaker \<times> bool \<times> 'c session option" where
  "withSessionInternal bc d nm readOnly fn clock answer c depth a b =
     (case beforeAttempt bc nm (clock 0) b of
        (gate, b1) \<Rightarrow>
          if \<not> status_ok gate then (gate, b1, False, None)
          else let st = borrowSession nm answer in
            if \<not> status_ok st then (st, afterAttempt bc (clock 1) st b1, False, None)
            else case runGuarded fn (new_session c readOnly depth a) of
              (st1, s1) \<Rightarrow> (st1, afterAttempt bc (clock 1) st1 b1, s_didWrite s1, Some (cleanupOpenTransaction d s1)))"

text \<open>What the deadline of a transaction does: whether the watcher fired, and then whether the driver
  accepted the cancellation; whether the deadline had passed when the callback returned. The
  cancellation itself is the driver's.\<close>

record tx_deadline =
  watcher_fired :: bool
  cancelDelivered :: bool
  returned_late :: bool

definition timedOut :: "tx_options \<Rightarrow> tx_deadline \<Rightarrow> bool" where
  "timedOut opts t \<longleftrightarrow> 0 < tx_timeout_ms opts \<and> (watcher_fired t \<or> returned_late t)"

definition timeout_status :: "tx_options \<Rightarrow> tx_deadline \<Rightarrow> status" where
  "timeout_status opts t =
     (status_error QueryTimeout (''transaction timed out after '' @ int_to_string (tx_timeout_ms opts) @ ''ms'' @
        (if watcher_fired t \<and> cancelDelivered t then []
         else '' (driver could not cancel the running statement; the callback had to run to completion)'')))
     \<lparr>retryable := True\<rparr>"

text \<open>The end of a transaction: commit or rollback. The result is the status, the statuses the breaker
  is told in order, whether the write is marked, and the session.\<close>

definition finish_transaction ::
  "('c, 'z) sess_ops_scheme \<Rightarrow> status \<Rightarrow> 'c session \<Rightarrow> status \<times> status list \<times> bool \<times> 'c session" where
  "finish_transaction d st s =
     (if \<not> status_ok st then
        (case session_rollback d s of (rb, s') \<Rightarrow> (st, [st], \<not> status_ok rb \<and> s_didWrite s', s'))
      else if s_txOpen s then
        (case session_commit d s of
           (cm, s') \<Rightarrow>
             if \<not> status_ok cm then (cm, [st, cm], s_didWrite s', s')
             else (status_OK, [st], s_didWrite s', s'))
      else (status_OK, [st], s_didWrite s, s))"

definition transactionInternal ::
  "breaker_cfg \<Rightarrow> ('c, 'z) sess_ops_scheme \<Rightarrow> string \<Rightarrow> tx_options \<Rightarrow> bool \<Rightarrow> ('c session \<Rightarrow> fn_result \<times> 'c session) \<Rightarrow>
     tx_deadline \<Rightarrow> (nat \<Rightarrow> int) \<Rightarrow> borrow_answer \<Rightarrow> 'c \<Rightarrow> int \<Rightarrow> auditor \<Rightarrow> breaker \<Rightarrow>
     status \<times> breaker \<times> bool \<times> 'c session option" where
  "transactionInternal bc d nm opts enforceReadOnly fn t clock answer c depth a b =
     (case beforeAttempt bc nm (clock 0) b of
        (gate, b1) \<Rightarrow>
          if \<not> status_ok gate then (gate, b1, False, None)
          else let st = borrowSession nm answer in
            if \<not> status_ok st then (st, afterAttempt bc (clock 1) st b1, False, None)
            else case session_begin (op_begin_opts d opts) (new_session c (enforceReadOnly \<or> tx_readOnly opts) depth a) of
              (st1, s1) \<Rightarrow>
                if \<not> status_ok st1 then
                  (st1, afterAttempt bc (clock 1) st1 b1, False, Some (cleanupOpenTransaction d s1))
                else case runGuarded fn s1 of
                  (st2, s2) \<Rightarrow>
                    let st3 = (if timedOut opts t then timeout_status opts t else st2)
                    in case finish_transaction d st3 s2 of
                         (st4, told, marked, s3) \<Rightarrow>
                           (st4, after_all bc (zip (map clock [1..<Suc (length told)]) told) b1, marked, Some (cleanupOpenTransaction d s3)))"

section \<open>The transaction depth\<close>

text \<open>What a callback can do with its session: any sequence of its operations.\<close>

inductive session_step :: "('c, 'z) sess_ops_scheme \<Rightarrow> 'c session \<Rightarrow> 'c session \<Rightarrow> bool" for d where
  s_begin: "session_step d s (snd (session_begin (op_begin d) s))"
| s_begin_opts: "session_step d s (snd (session_begin (op_begin_opts d opts) s))"
| s_commit: "session_step d s (snd (session_commit d s))"
| s_rollback: "session_step d s (snd (session_rollback d s))"
| s_savepoint: "session_step d s (snd (session_savepoint (op_savepoint d n) s))"
| s_release: "session_step d s (snd (session_savepoint (op_releaseSavepoint d n) s))"
| s_rollback_to: "session_step d s (snd (session_savepoint (op_rollbackToSavepoint d n) s))"
| s_query: "session_step d s (snd (snd (session_query d sql s)))"
| s_query_params: "session_step d s (snd (snd (session_query_params pc d sql ps s)))"
| s_execute: "session_step d s (snd (snd (session_execute d sql aff s)))"
| s_execute_params: "session_step d s (snd (snd (session_execute_params pc d sql ps aff s)))"
| s_execute_keys: "session_step d s (snd (snd (session_execute_keys d sql ps out s)))"
| s_batch: "session_step d s (snd (snd (session_executeBatch d sql batch bout s)))"
| s_prepare: "session_step d s (snd (snd (session_prepare d sql ps s)))"
| s_executePrepared: "session_step d s (snd (snd (session_executePrepared d h ps s)))"

definition depth_inv :: "int \<Rightarrow> 'c session \<Rightarrow> bool" where
  "depth_inv base s \<longleftrightarrow> gTxDepth s = base + (if s_txOpen s then 1 else 0)"

lemma after_call_tx [simp]:
  "s_txOpen (after_call st c s) = s_txOpen s" "gTxDepth (after_call st c s) = gTxDepth s"
  "s_conn (after_call st c s) = c" "s_didWrite (after_call st c s) = s_didWrite s"
  by (simp_all add: after_call_def)

lemma run_statement_tx [simp]:
  "s_txOpen (snd (snd (run_statement type w sql op out s))) = s_txOpen s"
  "gTxDepth (snd (snd (run_statement type w sql op out s))) = gTxDepth s"
  by (auto simp: run_statement_def auditStatement_def split: prod.splits if_splits)

lemma session_begin_depth: "depth_inv base s \<Longrightarrow> depth_inv base (snd (session_begin op s))"
  by (auto simp: depth_inv_def session_begin_def Let_def split: prod.splits)

lemma session_end_depth:
  assumes "depth_inv base s" and "0 \<le> base"
  shows "depth_inv base (snd (session_commit d s))" and "depth_inv base (snd (session_rollback d s))"
    and "\<not> s_txOpen (snd (session_commit d s))" and "\<not> s_txOpen (snd (session_rollback d s))"
  using assms by (auto simp: depth_inv_def session_commit_def session_rollback_def leave_tx_def Let_def split: prod.splits)

lemma session_step_depth:
  assumes "session_step d s s'" and "depth_inv base s" and "0 \<le> base"
  shows "depth_inv base s'"
  using assms
proof cases
  case s_prepare
  with assms show ?thesis by (auto simp: depth_inv_def session_prepare_def auditStatement_def split: prod.splits)
next
  case s_executePrepared
  with assms show ?thesis by (auto simp: depth_inv_def session_executePrepared_def split: prod.splits)
next
  case s_begin
  with assms show ?thesis by (simp add: session_begin_depth)
next
  case s_begin_opts
  with assms show ?thesis by (simp add: session_begin_depth)
next
  case s_commit
  with assms show ?thesis by (simp add: session_end_depth)
next
  case s_rollback
  with assms show ?thesis by (simp add: session_end_depth)
qed (use assms in \<open>simp_all add: depth_inv_def session_savepoint_def case_prod_beta
    session_query_def session_query_params_def session_execute_def session_execute_params_def
    session_execute_keys_def session_executeBatch_def\<close>)

interpretation sess: invariant_system "depth_inv base" "\<lambda>s s'. session_step d s s' \<and> 0 \<le> base" "depth_inv base" for d base
  by unfold_locales (auto intro: session_step_depth)

lemma session_steps_depth:
  assumes "(session_step d)\<^sup>*\<^sup>* s s'" and "depth_inv base s" and "0 \<le> base"
  shows "depth_inv base s'"
proof -
  from assms(1,3) have "(\<lambda>s s'. session_step d s s' \<and> 0 \<le> base)\<^sup>*\<^sup>* s s'"
    by (induction rule: rtranclp_induct) (auto intro: rtranclp.rtrancl_into_rtrancl)
  from sess.steps_inv [OF this assms(2)] show ?thesis .
qed

lemma cleanup_depth:
  assumes "depth_inv base s" and "0 \<le> base"
  shows "gTxDepth (cleanupOpenTransaction d s) = base \<and> \<not> s_txOpen (cleanupOpenTransaction d s)"
  using assms by (auto simp: cleanupOpenTransaction_def depth_inv_def leave_tx_def split: prod.splits)

lemma finish_depth:
  assumes "depth_inv base s" and "0 \<le> base" and "finish_transaction d st s = (st', told, marked, s')"
  shows "depth_inv base s'"
  using assms session_end_depth [OF assms(1,2), of d]
  by (auto simp: finish_transaction_def split: prod.splits if_splits) 

text \<open>Transactions nest properly on every path. Whatever operations the callback performs on its
  session, also \<open>begin\<close>, \<open>commit\<close> and \<open>rollback\<close> of its own, and however it ends, by a status, an
  exception, a timeout, or a failing \<open>begin\<close>, \<open>commit\<close> or \<open>rollback\<close>, afterwards no transaction is
  counted as open and the thread's transaction depth is what it was before.\<close>

theorem transaction_depth_restored:
  assumes "0 \<le> depth" and "\<And>s. (session_step d)\<^sup>*\<^sup>* s (snd (fn s))"
    and "transactionInternal bc d nm opts ro fn t clock answer c depth a b = (st, b', marked, Some s')"
  shows "gTxDepth s' = depth \<and> \<not> s_txOpen s'"
proof -
  let ?s0 = "new_session c (ro \<or> tx_readOnly opts) depth a"
  have "depth_inv depth ?s0" by (simp add: depth_inv_def new_session_def)
  then have d1: "depth_inv depth (snd (session_begin (op_begin_opts d opts) ?s0))" by (rule session_begin_depth)
  have d2: "depth_inv depth (snd (runGuarded fn s))" if "depth_inv depth s" for s
    using session_steps_depth [OF assms(2) that assms(1)] by (simp add: runGuarded_def case_prod_beta)
  have d3: "depth_inv depth (snd (snd (snd (finish_transaction d x s))))" if "depth_inv depth s" for x s
    using finish_depth [OF that assms(1)] by (metis prod.collapse)
  have "\<exists>s. depth_inv depth s \<and> s' = cleanupOpenTransaction d s"
    using assms(3) d1 d2 d3
    by (auto simp: transactionInternal_def Let_def split: prod.splits if_splits) (metis snd_conv)+
  with cleanup_depth [OF _ assms(1)] show ?thesis by blast
qed

section \<open>All or nothing\<close>

text \<open>A server with one cell: the committed value and, in a transaction, the pending one. \<open>commit_st\<close>
  is what it answers to a commit; a refused commit leaves the transaction open, as a server does
  that could not be reached in time.\<close>

definition cell_driver :: "status \<Rightarrow> (int \<times> int option) sess_ops" where
  "cell_driver commit_st =
    \<lparr>op_query = (\<lambda>sql c. (status_OK, empty_rs, c)),
     op_query_params = (\<lambda>sql ps c. (status_OK, empty_rs, c)),
     op_execute = (\<lambda>sql c. (status_OK, 1, (case snd c of None \<Rightarrow> c | Some _ \<Rightarrow> (fst c, Some 7)))),
     op_execute_params = (\<lambda>sql ps c. (status_OK, 0, c)),
     op_execute_keys = (\<lambda>sql ps c. (status_OK, 0, empty_rs, c)),
     op_begin = (\<lambda>c. (status_OK, (fst c, Some (fst c)))),
     op_commit = (\<lambda>c. if status_ok commit_st then (commit_st, (case snd c of None \<Rightarrow> c | Some v \<Rightarrow> (v, None))) else (commit_st, c)),
     op_rollback = (\<lambda>c. (status_OK, (fst c, None))),
     op_inTransaction = (\<lambda>c. snd c \<noteq> None),
     op_escapeLiteral = (\<lambda>_. ''?''),
     op_allowsLiteralInterpolation = False,
     op_begin_opts = (\<lambda>opts c. (status_OK, (fst c, Some (fst c)))),
     op_savepoint = (\<lambda>n c. (not_supported ''savepoint'', c)),
     op_releaseSavepoint = (\<lambda>n c. (not_supported ''savepoint'', c)),
     op_rollbackToSavepoint = (\<lambda>n c. (not_supported ''savepoint'', c)),
     op_executeBatch = (\<lambda>sql batch c. (status_OK, empty_batch, c)),
     op_supportsPrepared = False,
     op_prepare = (\<lambda>sql ps c. (not_supported ''prepare'', 0, c)),
     op_executePrepared_query = (\<lambda>h ps c. (not_supported ''prepare'', empty_rs, c)),
     op_executePrepared = (\<lambda>h ps c. (not_supported ''prepare'', 0, c))\<rparr>"

definition plain_tx :: tx_options where
  "plain_tx = \<lparr>isolation = DefaultLevel, tx_readOnly = False, tx_timeout_ms = 0\<rparr>"

definition in_time :: tx_deadline where
  "in_time = \<lparr>watcher_fired = False, cancelDelivered = False, returned_late = False\<rparr>"

definition no_breaker :: breaker_cfg where
  "no_breaker = \<lparr>failure_threshold = 0, open_interval_ms = 0\<rparr>"

text \<open>The callback that writes and then ends with the given status.\<close>

definition write_then :: "('c, 'z) sess_ops_scheme \<Rightarrow> status \<Rightarrow> 'c session \<Rightarrow> fn_result \<times> 'c session" where
  "write_then d st s = (Returns st, snd (snd (session_execute d ''UPDATE cell SET v = 7'' 0 s)))"

lemmas tx_defs = transactionInternal_def finish_transaction_def session_begin_def session_commit_def session_rollback_def
  leave_tx_def after_call_def new_session_def runGuarded_def cleanupOpenTransaction_def timedOut_def after_all_def
  beforeAttempt_def afterAttempt_def borrowSession_def run_statement_def session_execute_def auditStatement_def
  audit_check_def initial_auditor_def

lemmas tx_instance = plain_tx_def in_time_def no_breaker_def cell_driver_def write_then_def

theorem transaction_depth_restored_witness:
  "\<exists>s'. snd (snd (snd (transactionInternal no_breaker (cell_driver status_OK) ''ds'' plain_tx False
     (write_then (cell_driver status_OK) lost_connection) in_time int Borrowed (5, None) 3 initial_auditor closed_breaker))) = Some s' \<and>
   gTxDepth s' = 3"
proof -
  let ?d = "cell_driver status_OK" and ?f = "write_then (cell_driver status_OK) lost_connection"
  let ?r = "transactionInternal no_breaker ?d ''ds'' plain_tx False ?f in_time int Borrowed (5, None) 3 initial_auditor closed_breaker"
  obtain st b' m o' where r: "?r = (st, b', m, o')" using prod_cases4 by blast
  have "\<not> Option.is_none (snd (snd (snd ?r)))" by code_simp
  then obtain s' where s': "o' = Some s'" using r by (auto simp: Option.is_none_def)
  have "(session_step ?d)\<^sup>*\<^sup>* s (snd (?f s))" for s
    by (simp add: write_then_def) (rule r_into_rtranclp, rule session_step.s_execute)
  from transaction_depth_restored [OF _ this r [unfolded s']] r s' show ?thesis by simp
qed



text \<open>A failed commit or rollback gives the connection back with its transaction still open. When
  the driver reports the failure without marking the connection as broken, the session no longer
  counts a transaction as open, so neither the destructor's rollback nor its invalidation
  happens: the handle stays reusable and the pool lends the connection, transaction included, to
  the next borrower.\<close>

theorem failed_commit_repools_transaction:
  assumes "s_txOpen s" and "s_reusable s" and "\<not> status_ok bad" and "\<not> connectionBroken bad"
  shows "(status_ok st \<and> op_commit d (s_conn s) = (bad, c') \<or> \<not> status_ok st \<and> op_rollback d (s_conn s) = (bad, c')) \<longrightarrow>
    (let s' = cleanupOpenTransaction d (snd (snd (snd (finish_transaction d st s)))) in s_conn s' = c' \<and> s_reusable s')"
  using assms
  by (auto simp: finish_transaction_def session_commit_def session_rollback_def Let_def leave_tx_def after_call_def
      cleanupOpenTransaction_def)

theorem failed_commit_repools_transaction_witness:
  "let d = cell_driver (status_error QueryError ''lock wait timeout'');
       s = (new_session (5, Some 7) False 0 initial_auditor)\<lparr>s_txOpen := True\<rparr>;
       s' = cleanupOpenTransaction d (snd (snd (snd (finish_transaction d status_OK s))))
   in op_inTransaction d (s_conn s') \<and> s_reusable s'"
proof -
  let ?d = "cell_driver (status_error QueryError ''lock wait timeout'')"
  let ?s = "(new_session (5, Some 7) False 0 initial_auditor)\<lparr>s_txOpen := True\<rparr> :: (int \<times> int option) session"
  have "op_commit ?d (s_conn ?s) = (status_error QueryError ''lock wait timeout'', (5, Some 7))"
    by (simp add: cell_driver_def new_session_def status_ok_def status_error_def)
  moreover have "s_txOpen ?s" "s_reusable ?s" by (simp_all add: new_session_def)
  moreover have "\<not> status_ok (status_error QueryError ''lock wait timeout'')" "\<not> connectionBroken (status_error QueryError ''lock wait timeout'')"
    by (simp_all add: status_ok_def)
  ultimately show ?thesis
    using failed_commit_repools_transaction [of ?s "status_error QueryError ''lock wait timeout''" status_OK ?d "(5, Some 7)"]
    by (auto simp: Let_def cell_driver_def)
qed

definition commit_then_fail :: "('c, 'z) sess_ops_scheme \<Rightarrow> 'c session \<Rightarrow> fn_result \<times> 'c session" where
  "commit_then_fail d s =
     (Returns lost_connection, snd (session_commit d (snd (snd (session_execute d ''UPDATE cell SET v = 7'' 0 s)))))"

text \<open>A callback that commits by itself and then fails leaves stale results in the cache. The
  final rollback finds nothing to undo and succeeds, and the write is then not marked, so the
  cached results of the data source are kept although the committed data has changed.\<close>

theorem explicit_commit_not_marked:
  "case transactionInternal no_breaker (cell_driver status_OK) ''ds'' plain_tx False
      (commit_then_fail (cell_driver status_OK)) in_time int Borrowed (5, None) 0 initial_auditor closed_breaker of
     (st, b', marked, so) \<Rightarrow> \<not> marked \<and> map_option (\<lambda>s'. (s_didWrite s', s_conn s')) so = Some (True, (7, None))"
  by code_simp

end
