(* ===== verification/Interceptor.thy ===== *)
theory Interceptor
  imports Context
begin

text \<open>
  The interceptor chain (\<open>src/core/interceptor.cpp\<close>) and \<open>runWithInterceptors\<close> of
  \<open>src/core/database_manager.cpp\<close>, which runs a statement inside it.

  The two thread-local stacks name the registries whose execution, or whose callbacks, are under
  way on this thread. The hooks of an interceptor are arbitrary functions on the world, given by
  \<open>hooks\<close>: they may call back into the library. A hook that throws returns \<open>None\<close>. The top of a
  stack is the head of the list, except for the context stack (see theory Context).
\<close>

record exec_view =
  v_dataSource :: string
  v_sql :: string
  v_type :: operation_type
  v_has_result :: bool
  v_affected :: int
  v_status :: status
  v_ctx :: sql_context

record 'i registry =
  reg_id :: nat
  reg_enabled :: bool
  interceptors :: "'i list"

definition registry_add :: "'i option \<Rightarrow> 'i registry \<Rightarrow> 'i registry" where
  "registry_add i r = (case i of None \<Rightarrow> r | Some x \<Rightarrow> r\<lparr>interceptors := interceptors r @ [x]\<rparr>)"

definition registry_clear :: "'i registry \<Rightarrow> 'i registry" where
  "registry_clear r = r\<lparr>interceptors := []\<rparr>"

record 'e thread_world =
  executionStack :: "nat list"
  callbackStack :: "nat list"
  contexts :: "sql_context list"
  env :: 'e

record ('i, 'e) hooks =
  onRoute :: "'i \<Rightarrow> string \<Rightarrow> string \<Rightarrow> operation_type \<Rightarrow> sql_context \<Rightarrow> 'e thread_world \<Rightarrow> sql_context \<times> 'e thread_world"
  beforeExecution :: "'i \<Rightarrow> exec_view \<Rightarrow> 'e thread_world \<Rightarrow> status option \<times> 'e thread_world"
  afterExecution :: "'i \<Rightarrow> exec_view \<Rightarrow> 'e thread_world \<Rightarrow> 'e thread_world"
  onRow :: "'i \<Rightarrow> exec_view \<Rightarrow> row \<Rightarrow> 'e thread_world \<Rightarrow> row \<times> 'e thread_world"
  onCompletion :: "'i \<Rightarrow> exec_view \<Rightarrow> 'e thread_world \<Rightarrow> 'e thread_world"

definition depth_of :: "nat list \<Rightarrow> 'i registry \<Rightarrow> nat" where
  "depth_of stack r = count_list stack (reg_id r)"

definition enter_callback :: "'i registry \<Rightarrow> 'e thread_world \<Rightarrow> 'e thread_world" where
  "enter_callback r w = w\<lparr>callbackStack := reg_id r # callbackStack w\<rparr>"

definition leave_callback :: "'e thread_world \<Rightarrow> 'e thread_world" where
  "leave_callback w = w\<lparr>callbackStack := tl (callbackStack w)\<rparr>"

definition guard_active :: "'i registry \<Rightarrow> 'e thread_world \<Rightarrow> bool" where
  "guard_active r w \<longleftrightarrow> reg_enabled r \<and> depth_of (executionStack w) r = 0 \<and> depth_of (callbackStack w) r = 0"

fun route_loop :: "('i, 'e) hooks \<Rightarrow> string \<Rightarrow> string \<Rightarrow> operation_type \<Rightarrow> 'i list \<Rightarrow> sql_context \<times> 'e thread_world \<Rightarrow> sql_context \<times> 'e thread_world" where
  "route_loop h ds sql type [] s = s"
| "route_loop h ds sql type (i # is) s = route_loop h ds sql type is (onRoute h i ds sql type (fst s) (snd s))"

definition runOnRoute :: "('i, 'e) hooks \<Rightarrow> 'i registry \<Rightarrow> string \<Rightarrow> string \<Rightarrow> operation_type \<Rightarrow>
    sql_context \<Rightarrow> 'e thread_world \<Rightarrow> sql_context \<times> 'e thread_world" where
  "runOnRoute h r ds sql type ctx w =
     (if \<not> reg_enabled r \<or> 0 < depth_of (executionStack w) r \<or> 0 < depth_of (callbackStack w) r then (ctx, w)
      else case route_loop h ds sql type (interceptors r) (ctx, enter_callback r w) of
        (ctx', w') \<Rightarrow> (ctx', leave_callback w'))"

text \<open>The first hook that returns a failure ends the loop; a hook that throws leaves the status as it
  was.\<close>

fun before_loop :: "('i, 'e) hooks \<Rightarrow> exec_view \<Rightarrow> 'i list \<Rightarrow> status \<Rightarrow> 'e thread_world \<Rightarrow> status \<times> 'e thread_world" where
  "before_loop h v [] st w = (st, w)"
| "before_loop h v (i # is) st w =
     (case beforeExecution h i v w of
        (answer, w1) \<Rightarrow>
          let st1 = (case answer of None \<Rightarrow> st | Some x \<Rightarrow> x)
          in if \<not> status_ok st1 then (st1, w1) else before_loop h v is st1 w1)"

definition chain_closed :: "'i registry \<Rightarrow> 'e thread_world \<Rightarrow> bool" where
  "chain_closed r w \<longleftrightarrow> \<not> reg_enabled r \<or> 1 < depth_of (executionStack w) r \<or> 0 < depth_of (callbackStack w) r"

definition runBeforeExecution :: "('i, 'e) hooks \<Rightarrow> 'i registry \<Rightarrow> exec_view \<Rightarrow> 'e thread_world \<Rightarrow> status \<times> 'e thread_world" where
  "runBeforeExecution h r v w =
     (if chain_closed r w then (status_OK, w)
      else case before_loop h v (interceptors r) status_OK (enter_callback r w) of (st, w') \<Rightarrow> (st, leave_callback w'))"

definition runAfterExecution :: "('i, 'e) hooks \<Rightarrow> 'i registry \<Rightarrow> exec_view \<Rightarrow> 'e thread_world \<Rightarrow> 'e thread_world" where
  "runAfterExecution h r v w =
     (if chain_closed r w then w
      else leave_callback (fold (\<lambda>i. afterExecution h i v) (interceptors r) (enter_callback r w)))"

fun row_loop :: "('i, 'e) hooks \<Rightarrow> exec_view \<Rightarrow> 'i list \<Rightarrow> row \<times> 'e thread_world \<Rightarrow> row \<times> 'e thread_world" where
  "row_loop h v [] s = s"
| "row_loop h v (i # is) s = row_loop h v is (onRow h i v (fst s) (snd s))"

definition runOnRow :: "('i, 'e) hooks \<Rightarrow> 'i registry \<Rightarrow> exec_view \<Rightarrow> row \<Rightarrow> 'e thread_world \<Rightarrow> row \<times> 'e thread_world" where
  "runOnRow h r v row w =
     (if chain_closed r w then (row, w)
      else case row_loop h v (interceptors r) (row, enter_callback r w) of (row', w') \<Rightarrow> (row', leave_callback w'))"

text \<open>The destructor of an active guard.\<close>

definition guard_end :: "('i, 'e) hooks \<Rightarrow> 'i registry \<Rightarrow> exec_view \<Rightarrow> 'e thread_world \<Rightarrow> 'e thread_world" where
  "guard_end h r v w =
     (let w1 = leave_callback (fold (\<lambda>i. onCompletion h i v) (interceptors r) (enter_callback r w))
      in w1\<lparr>executionStack := tl (executionStack w1)\<rparr>)"

text \<open>The context frame is left before the guard ends.\<close>

definition runWithInterceptors :: "('i, 'e) hooks \<Rightarrow> 'i registry \<Rightarrow> exec_view \<Rightarrow>
    ('e thread_world \<Rightarrow> status \<times> int \<times> 'e thread_world) \<Rightarrow> 'e thread_world \<Rightarrow> status \<times> 'e thread_world" where
  "runWithInterceptors h r v fn w =
     (if \<not> guard_active r w then (case fn w of (st, aff, w') \<Rightarrow> (st, w'))
      else
        (case runBeforeExecution h r v (w\<lparr>executionStack := reg_id r # executionStack w\<rparr>) of
           (st, w1) \<Rightarrow>
             if \<not> status_ok st then (st, guard_end h r (v\<lparr>v_status := st, v_has_result := False\<rparr>) w1)
             else case enter_scope (v_ctx v) (contexts w1) of
               (entered, cs) \<Rightarrow>
                 (case fn (w1\<lparr>contexts := cs\<rparr>) of
                    (st', aff, w2) \<Rightarrow>
                      let v' = v\<lparr>v_status := st', v_has_result := (status_ok st' \<and> v_has_result v),
                                  v_affected := (if status_ok st' then aff else v_affected v)\<rparr>;
                          w3 = runAfterExecution h r v' w2
                      in (st', guard_end h r v' (w3\<lparr>contexts := leave_scope entered (contexts w3)\<rparr>)))))"

section \<open>Exactly once per request\<close>

text \<open>Hooks that record their calls, with each interceptor's answer before the execution.\<close>

datatype 'i event = Before 'i | Body | After 'i | Done 'i

definition recording :: "('i \<Rightarrow> status option) \<Rightarrow> ('i, 'i event list) hooks" where
  "recording answer =
     \<lparr>onRoute = (\<lambda>i ds sql type ctx w. (ctx, w)),
      beforeExecution = (\<lambda>i v w. (answer i, w\<lparr>env := env w @ [Before i]\<rparr>)),
      afterExecution = (\<lambda>i v w. w\<lparr>env := env w @ [After i]\<rparr>),
      onRow = (\<lambda>i v row w. (row, w)),
      onCompletion = (\<lambda>i v w. w\<lparr>env := env w @ [Done i]\<rparr>)\<rparr>"

text \<open>A statement dispatched through \<open>n\<close> nested levels of the library, each of which runs the chain:
  the public operation of a group, of its member, and of the session.\<close>

fun nested :: "('i, 'i event list) hooks \<Rightarrow> 'i registry \<Rightarrow> exec_view \<Rightarrow> nat \<Rightarrow> status \<Rightarrow>
    'i event list thread_world \<Rightarrow> status \<times> int \<times> 'i event list thread_world" where
  "nested h r v 0 st w = (st, 0, w\<lparr>env := env w @ [Body]\<rparr>)"
| "nested h r v (Suc n) st w = (case runWithInterceptors h r v (nested h r v n st) w of (st', w') \<Rightarrow> (st', 0, w'))"

definition vetoes :: "('i \<Rightarrow> status option) \<Rightarrow> 'i \<Rightarrow> bool" where
  "vetoes answer i \<longleftrightarrow> (\<exists>st. answer i = Some st \<and> \<not> status_ok st)"

lemma before_loop_recording:
  assumes "status_ok st"
  shows "\<exists>st'. before_loop (recording answer) v is st w =
      (st', w\<lparr>env := env w @ map Before (takeWhile (Not \<circ> vetoes answer) is @ take 1 (dropWhile (Not \<circ> vetoes answer) is))\<rparr>) \<and>
    (status_ok st' \<longleftrightarrow> (\<forall>i\<in>set is. \<not> vetoes answer i)) \<and>
    (\<forall>i is'. dropWhile (Not \<circ> vetoes answer) is = i # is' \<longrightarrow> answer i = Some st')"
  using assms
proof (induction "is" arbitrary: st w)
  case (Cons i "is")
  show ?case
  proof (cases "vetoes answer i")
    case True
    then show ?thesis by (auto simp: recording_def vetoes_def)
  next
    case False
    let ?st = "case answer i of None \<Rightarrow> st | Some x \<Rightarrow> x"
    have ok: "status_ok ?st" using False Cons.prems by (auto simp: vetoes_def split: option.splits)
    from Cons.IH [OF ok, of "w\<lparr>env := env w @ [Before i]\<rparr>"] ok False show ?thesis
      by (auto simp: recording_def Let_def)
  qed
qed simp

lemma fold_record_after:
  "fold (\<lambda>i. afterExecution (recording answer) i v) is w = w\<lparr>env := env w @ map After is\<rparr>"
  by (induction "is" arbitrary: w) (auto simp: recording_def)

lemma fold_record_done:
  "fold (\<lambda>i. onCompletion (recording answer) i v) is w = w\<lparr>env := env w @ map Done is\<rparr>"
  by (induction "is" arbitrary: w) (auto simp: recording_def)

lemma recording_after:
  "\<not> chain_closed r w \<Longrightarrow> runAfterExecution (recording answer) r v w = w\<lparr>env := env w @ map After (interceptors r)\<rparr>"
  by (cases w) (simp add: runAfterExecution_def fold_record_after enter_callback_def leave_callback_def)

lemma recording_end:
  "guard_end (recording answer) r v w =
     w\<lparr>env := env w @ map Done (interceptors r), executionStack := tl (executionStack w)\<rparr>"
  by (cases w) (simp add: guard_end_def fold_record_done enter_callback_def leave_callback_def)

text \<open>Inside an execution or a callback of the same registry the chain does not run again.\<close>

lemma nested_inner:
  assumes "\<not> guard_active r w"
  shows "nested h r v n st w = (st, 0, w\<lparr>env := env w @ [Body]\<rparr>)"
  using assms
proof (induction n)
  case (Suc n)
  then show ?case by (simp add: runWithInterceptors_def)
qed simp

text \<open>What the interceptors see when all agree, and when one refuses.\<close>

abbreviation agreed :: "('i \<Rightarrow> status option) \<Rightarrow> 'i registry \<Rightarrow> 'i event list" where
  "agreed answer r \<equiv> (map Before (interceptors r) @ [Body] @ map After (interceptors r)) @ map Done (interceptors r)"

abbreviation asked :: "('i \<Rightarrow> status option) \<Rightarrow> 'i registry \<Rightarrow> 'i event list" where
  "asked answer r \<equiv> map Before (takeWhile (Not \<circ> vetoes answer) (interceptors r) @
     take 1 (dropWhile (Not \<circ> vetoes answer) (interceptors r)))"

lemma before_recorded:
  assumes "guard_active r w"
  obtains st1 where "runBeforeExecution (recording answer) r v (w\<lparr>executionStack := reg_id r # executionStack w\<rparr>) =
      (st1, w\<lparr>executionStack := reg_id r # executionStack w, env := env w @ asked answer r\<rparr>)"
    and "status_ok st1 \<longleftrightarrow> (\<forall>i\<in>set (interceptors r). \<not> vetoes answer i)"
    and "\<And>i is'. dropWhile (Not \<circ> vetoes answer) (interceptors r) = i # is' \<Longrightarrow> answer i = Some st1"
proof -
  let ?w0 = "w\<lparr>executionStack := reg_id r # executionStack w\<rparr>"
  have closed: "\<not> chain_closed r ?w0"
    using assms by (auto simp: guard_active_def chain_closed_def depth_of_def)
  obtain st1 where b: "before_loop (recording answer) v (interceptors r) status_OK (enter_callback r ?w0) =
      (st1, (enter_callback r ?w0)\<lparr>env := env w @ asked answer r\<rparr>)"
    and ok: "status_ok st1 \<longleftrightarrow> (\<forall>i\<in>set (interceptors r). \<not> vetoes answer i)"
    and veto: "\<And>i is'. dropWhile (Not \<circ> vetoes answer) (interceptors r) = i # is' \<Longrightarrow> answer i = Some st1"
    using before_loop_recording [OF status_ok_OK, of answer v "interceptors r" "enter_callback r ?w0"]
    by (auto simp: enter_callback_def)
  have "runBeforeExecution (recording answer) r v ?w0 = (st1, ?w0\<lparr>env := env w @ asked answer r\<rparr>)"
    using closed b by (simp add: runBeforeExecution_def enter_callback_def leave_callback_def)
  then show thesis using that ok veto by blast
qed

lemma chain_agrees:
  assumes act: "guard_active r w" and all: "\<forall>i\<in>set (interceptors r). \<not> vetoes answer i"
  shows "nested (recording answer) r v (Suc n) st w = (st, 0, w\<lparr>env := env w @ agreed answer r\<rparr>)"
proof -
  let ?is = "interceptors r" and ?h = "recording answer"
  have tw: "takeWhile (Not \<circ> vetoes answer) ?is = ?is" "dropWhile (Not \<circ> vetoes answer) ?is = []"
    using all by (auto simp: takeWhile_eq_all_conv dropWhile_eq_Nil_conv)
  obtain st1 where before: "runBeforeExecution ?h r v (w\<lparr>executionStack := reg_id r # executionStack w\<rparr>) =
      (st1, w\<lparr>executionStack := reg_id r # executionStack w, env := env w @ asked answer r\<rparr>)" and ok: "status_ok st1"
    using before_recorded [OF act, of answer v] all by metis
  obtain entered cs where sc: "enter_scope (v_ctx v) (contexts w) = (entered, cs)" by fastforce
  let ?w2 = "w\<lparr>executionStack := reg_id r # executionStack w, env := env w @ asked answer r, contexts := cs\<rparr>"
  let ?w3 = "?w2\<lparr>env := env ?w2 @ [Body]\<rparr>"
  have closed: "\<not> guard_active r ?w2" "\<not> chain_closed r ?w3"
    using act by (auto simp: guard_active_def chain_closed_def depth_of_def)
  have body: "nested ?h r v n st ?w2 = (st, 0, ?w3)" using nested_inner [OF closed(1)] .
  have "runWithInterceptors ?h r v (nested ?h r v n st) w =
      (st, ?w3\<lparr>env := env ?w3 @ map After ?is @ map Done ?is, contexts := contexts w, executionStack := executionStack w\<rparr>)"
    using act ok before body sc enter_leave [OF sc] recording_after [OF closed(2)]
    by (simp add: runWithInterceptors_def Let_def recording_end)
  moreover have "?w3\<lparr>env := env ?w3 @ map After ?is @ map Done ?is, contexts := contexts w, executionStack := executionStack w\<rparr> =
      w\<lparr>env := env w @ agreed answer r\<rparr>"
    by (cases w) (simp add: tw)
  ultimately show ?thesis by simp
qed

lemma chain_refuses:
  assumes act: "guard_active r w" and some: "\<not> (\<forall>i\<in>set (interceptors r). \<not> vetoes answer i)"
  obtains st1 where "nested (recording answer) r v (Suc n) st w =
      (st1, 0, w\<lparr>env := env w @ asked answer r @ map Done (interceptors r)\<rparr>)"
    and "answer (hd (dropWhile (Not \<circ> vetoes answer) (interceptors r))) = Some st1" and "\<not> status_ok st1"
proof -
  let ?is = "interceptors r" and ?h = "recording answer"
  let ?w1 = "w\<lparr>executionStack := reg_id r # executionStack w, env := env w @ asked answer r\<rparr>"
  obtain i is' where d: "dropWhile (Not \<circ> vetoes answer) ?is = i # is'"
    using some by (cases "dropWhile (Not \<circ> vetoes answer) ?is") (auto simp: dropWhile_eq_Nil_conv)
  obtain st1 where before: "runBeforeExecution ?h r v (w\<lparr>executionStack := reg_id r # executionStack w\<rparr>) = (st1, ?w1)"
    and st1: "\<not> status_ok st1" "answer i = Some st1"
    using before_recorded [OF act, of answer v] some d by metis
  have "runWithInterceptors ?h r v (nested ?h r v n st) w =
      (st1, ?w1\<lparr>env := env ?w1 @ map Done ?is, executionStack := executionStack w\<rparr>)"
    using act before st1 by (simp add: runWithInterceptors_def recording_end)
  moreover have "?w1\<lparr>env := env ?w1 @ map Done ?is, executionStack := executionStack w\<rparr> =
      w\<lparr>env := env w @ asked answer r @ map Done ?is\<rparr>"
    by (cases w) simp
  ultimately show thesis using that d st1 by simp
qed

text \<open>C31: a request passes the interceptors exactly once. However many layers of the library it
  goes through, each of which runs the chain around the next, every interceptor is asked before
  the statement in the order of registration, the statement runs, every interceptor is told after
  it and at completion, each once. If one refuses, the later ones are not asked, the statement
  does not run, the refusal is returned, and all are told of the completion. An interceptor that
  throws counts as agreeing. The thread's stacks and contexts are as before.\<close>

theorem interceptors_once:
  assumes "guard_active r w"
  shows "\<exists>st'. nested (recording answer) r v (Suc n) st w =
     (st', 0, w\<lparr>env := env w @
        (if \<forall>i\<in>set (interceptors r). \<not> vetoes answer i
         then map Before (interceptors r) @ [Body] @ map After (interceptors r)
         else map Before (takeWhile (Not \<circ> vetoes answer) (interceptors r) @
                take 1 (dropWhile (Not \<circ> vetoes answer) (interceptors r))))
        @ map Done (interceptors r)\<rparr>) \<and>
    (if \<forall>i\<in>set (interceptors r). \<not> vetoes answer i then st' = st
     else answer (hd (dropWhile (Not \<circ> vetoes answer) (interceptors r))) = Some st' \<and> \<not> status_ok st')"
proof (cases "\<forall>i\<in>set (interceptors r). \<not> vetoes answer i")
  case True
  with chain_agrees [OF assms True] show ?thesis by simp
next
  case False
  obtain st1 where "nested (recording answer) r v (Suc n) st w = (st1, 0, w\<lparr>env := env w @ asked answer r @ map Done (interceptors r)\<rparr>)"
    and "answer (hd (dropWhile (Not \<circ> vetoes answer) (interceptors r))) = Some st1" and "\<not> status_ok st1"
    using chain_refuses [OF assms False] .
  then show ?thesis unfolding if_not_P [OF False] by simp
qed

definition two_interceptors :: "nat registry" where
  "two_interceptors = \<lparr>reg_id = 0, reg_enabled = True, interceptors = [1, 2]\<rparr>"

definition quiet_world :: "nat event list thread_world" where
  "quiet_world = \<lparr>executionStack = [], callbackStack = [], contexts = [], env = []\<rparr>"

definition plain_view :: exec_view where
  "plain_view = \<lparr>v_dataSource = ''ds'', v_sql = ''q'', v_type = OpQuery, v_has_result = True, v_affected = 0,
     v_status = status_OK, v_ctx = default_context\<rparr>"

theorem interceptors_once_witness:
  "env (snd (snd (nested (recording (\<lambda>i. None)) two_interceptors plain_view (Suc 2) status_OK quiet_world))) =
     [Before 1, Before 2, Body, After 1, After 2, Done 1, Done 2]"
proof -
  have g: "guard_active two_interceptors quiet_world"
    by (simp add: guard_active_def two_interceptors_def quiet_world_def depth_of_def)
  have v: "(\<forall>i\<in>set (interceptors two_interceptors). \<not> vetoes (\<lambda>i. None) i) = True" by (simp add: vetoes_def)
  obtain st' where "nested (recording (\<lambda>i. None)) two_interceptors plain_view (Suc 2) status_OK quiet_world =
      (st', 0, quiet_world\<lparr>env := env quiet_world @ (map Before (interceptors two_interceptors) @ [Body] @
        map After (interceptors two_interceptors)) @ map Done (interceptors two_interceptors)\<rparr>)"
    using interceptors_once [OF g, of "\<lambda>i. None" plain_view 2 status_OK] unfolding v if_True by blast
  then show ?thesis by (simp only:) (simp add: two_interceptors_def quiet_world_def)
qed

end
