(* ===== verification/WriteBuffer.thy ===== *)
theory WriteBuffer
  imports Types "HOL-Library.Multiset"
begin

text \<open>
  The buffer of writes that found no writable primary (\<open>WriteBuffer\<close> in
  \<open>src/core/write_buffer.cpp\<close>): a bounded queue and one worker thread that takes the whole queue,
  tries each write outside the lock, and puts back what may be tried again.

  The sections under the lock are functions on the buffer; the worker's position between them is
  a value of \<open>worker\<close>; \<open>wb_step\<close> interleaves the callers and the worker. A buffered task is the
  value it was enqueued as (an \<open>'k\<close>); its status when run is an argument of the step, so that
  every behaviour of the database is covered. Time points are milliseconds.
\<close>

record wb_config =
  wb_enabled :: bool
  max_queue :: int
  wb_ttl_ms :: int
  flush_interval_ms :: int

text \<open>The constructor's corrections of the configuration.\<close>

definition wb_construct_cfg :: "wb_config \<Rightarrow> wb_config" where
  "wb_construct_cfg c =
     (let c1 = (if max_queue c < 1 then c\<lparr>max_queue := 1\<rparr> else c)
      in if flush_interval_ms c1 < 10 then c1\<lparr>flush_interval_ms := 10\<rparr> else c1)"

type_synonym 'k item = "'k \<times> int"

record 'k wbuf =
  wb_cfg :: wb_config
  wb_q :: "'k item list"
  wb_stop :: bool
  wb_running :: bool

definition new_wbuf :: "wb_config \<Rightarrow> 'k wbuf" where
  "new_wbuf c = \<lparr>wb_cfg = wb_construct_cfg c, wb_q = [], wb_stop = False, wb_running = False\<rparr>"

definition wb_enqueue :: "int \<Rightarrow> 'k \<Rightarrow> 'k wbuf \<Rightarrow> bool \<times> 'k wbuf" where
  "wb_enqueue now task b =
     (if \<not> wb_enabled (wb_cfg b) then (False, b)
      else if wb_stop b \<or> \<not> wb_running b then (False, b)
      else if max_queue (wb_cfg b) \<le> int (length (wb_q b)) then (False, b)
      else (True, b\<lparr>wb_q := wb_q b @ [(task, now)]\<rparr>))"

definition wb_pending :: "'k wbuf \<Rightarrow> nat" where
  "wb_pending b = length (wb_q b)"

text \<open>\<open>wb_start\<close> also says whether a worker thread is started.\<close>

definition wb_start :: "'k wbuf \<Rightarrow> bool \<times> 'k wbuf" where
  "wb_start b =
     (if \<not> wb_enabled (wb_cfg b) then (False, b)
      else if wb_running b then (False, b)
      else (True, b\<lparr>wb_running := True, wb_stop := False\<rparr>))"

text \<open>\<open>stop\<close> before and after it joins the worker.\<close>

definition wb_stop_begin :: "'k wbuf \<Rightarrow> 'k wbuf" where
  "wb_stop_begin b = (if \<not> wb_running b then b else b\<lparr>wb_stop := True\<rparr>)"

definition wb_stop_end :: "'k wbuf \<Rightarrow> 'k wbuf" where
  "wb_stop_end b = b\<lparr>wb_running := False\<rparr>"

section \<open>The worker\<close>

text \<open>What becomes of one buffered write.\<close>

datatype outcome = Flushed | Expired | Failed | Overflow | Abandoned

definition wb_take :: "'k wbuf \<Rightarrow> bool \<times> 'k item list \<times> 'k wbuf" where
  "wb_take b = (wb_stop b, wb_q b, b\<lparr>wb_q := []\<rparr>)"

text \<open>One turn of the inner loop: \<open>None\<close> puts the item into the retry queue.\<close>

definition flush_item :: "wb_config \<Rightarrow> bool \<Rightarrow> int \<Rightarrow> 'k item \<Rightarrow> status \<Rightarrow> outcome option" where
  "flush_item c finalPass now item st =
     (if 0 < wb_ttl_ms c \<and> wb_ttl_ms c < now - snd item then Some Expired
      else if status_ok st then Some Flushed
      else if \<not> finalPass \<and> (retryable st \<or> connectionBroken st) then None
      else Some Failed)"

text \<open>Putting back: what is in the queue by now is appended to the retries, and the result refills the
  queue up to its limit.\<close>

fun refill :: "int \<Rightarrow> 'k item list \<Rightarrow> 'k item list \<Rightarrow> 'k item list \<times> 'k item list" where
  "refill limit q [] = (q, [])"
| "refill limit q (x # retry) =
     (if limit \<le> int (length q) then (case refill limit q retry of (q', dropped) \<Rightarrow> (q', x # dropped))
      else refill limit (q @ [x]) retry)"

definition wb_requeue :: "'k item list \<Rightarrow> 'k wbuf \<Rightarrow> 'k item list \<times> 'k wbuf" where
  "wb_requeue retry b =
     (if retry = [] then ([], b)
      else case refill (max_queue (wb_cfg b)) [] (retry @ wb_q b) of
             (q', dropped) \<Rightarrow> (dropped, b\<lparr>wb_q := q'\<rparr>))"

definition wb_abandon :: "'k wbuf \<Rightarrow> 'k item list \<times> 'k wbuf" where
  "wb_abandon b = (wb_q b, b\<lparr>wb_q := []\<rparr>)"

text \<open>Where the worker is: at the top of the loop, inside a pass (with the retries collected so far
  and the items left), or gone.\<close>

datatype 'k worker = Waiting | Passing bool "'k item list" "'k item list" | Gone

text \<open>The interleaving. \<open>accepted\<close> lists the writes taken into the buffer, \<open>settled\<close> what became of
  those that have left it.\<close>

record 'k wb_world =
  buf :: "'k wbuf"
  wk :: "'k worker"
  accepted :: "'k item list"
  settled :: "(outcome \<times> 'k item) list"

inductive wb_step :: "'k wb_world \<Rightarrow> 'k wb_world \<Rightarrow> bool" where
  step_enqueue: "wb_enqueue now k (buf w) = (ok, b') \<Longrightarrow>
     wb_step w (w\<lparr>buf := b', accepted := accepted w @ (if ok then [(k, now)] else [])\<rparr>)"
| step_start: "wk w = Gone \<Longrightarrow> wb_start (buf w) = (started, b') \<Longrightarrow>
     wb_step w (w\<lparr>buf := b', wk := (if started then Waiting else Gone)\<rparr>)"
| step_stop_begin: "wb_step w (w\<lparr>buf := wb_stop_begin (buf w)\<rparr>)"
| step_stop_end: "wk w = Gone \<Longrightarrow> wb_stop (buf w) \<Longrightarrow> wb_step w (w\<lparr>buf := wb_stop_end (buf w)\<rparr>)"
| step_take: "wk w = Waiting \<Longrightarrow> wb_take (buf w) = (final, batch, b') \<Longrightarrow>
     wb_step w (w\<lparr>buf := b', wk := Passing final [] batch\<rparr>)"
| step_item: "wk w = Passing final retry (x # batch) \<Longrightarrow>
     wb_step w (case flush_item (wb_cfg (buf w)) final now x st of
        None \<Rightarrow> w\<lparr>wk := Passing final (retry @ [x]) batch\<rparr>
      | Some oc \<Rightarrow> w\<lparr>wk := Passing final retry batch, settled := settled w @ [(oc, x)]\<rparr>)"
| step_requeue: "wk w = Passing False retry [] \<Longrightarrow> wb_requeue retry (buf w) = (dropped, b') \<Longrightarrow>
     wb_step w (w\<lparr>buf := b', wk := Waiting, settled := settled w @ map (Pair Overflow) dropped\<rparr>)"
| step_last: "wk w = Passing True retry [] \<Longrightarrow> wb_requeue retry (buf w) = (dropped, b') \<Longrightarrow>
     wb_abandon b' = (left, b'') \<Longrightarrow>
     wb_step w (w\<lparr>buf := b'', wk := Gone,
       settled := settled w @ map (Pair Overflow) dropped @ map (Pair Abandoned) left\<rparr>)"

definition wb_init :: "'k wb_world \<Rightarrow> bool" where
  "wb_init w \<longleftrightarrow> (\<exists>c. buf w = new_wbuf c) \<and> wk w = Gone \<and> accepted w = [] \<and> settled w = []"

section \<open>Invariants\<close>

lemma refill_split:
  assumes "refill limit q retry = (q', dropped)"
  shows "q' @ dropped = q @ retry \<and> (int (length q) \<le> limit \<longrightarrow> int (length q') \<le> limit)"
  using assms
proof (induction limit q retry arbitrary: dropped rule: refill.induct)
  case (2 limit q x retry)
  show ?case
  proof (cases "limit \<le> int (length q)")
    case True
    obtain q1 d1 where r: "refill limit q retry = (q1, d1)" by fastforce
    have full: "q1 = q" using True r
      by (induction limit q retry arbitrary: q1 d1 rule: refill.induct) (auto split: prod.splits)
    with 2 True r show ?thesis by auto
  qed (use 2 in auto)
qed simp

text \<open>The writes a worker has taken and not yet settled.\<close>

fun in_hand :: "'k worker \<Rightarrow> 'k item list" where
  "in_hand (Passing final retry batch) = retry @ batch"
| "in_hand _ = []"

fun in_retry :: "'k worker \<Rightarrow> 'k item list" where
  "in_retry (Passing True retry batch) = retry"
| "in_retry _ = []"

fun final_pass :: "'k worker \<Rightarrow> bool" where
  "final_pass (Passing final retry batch) = final"
| "final_pass _ = False"

definition wb_inv :: "'k wb_world \<Rightarrow> bool" where
  "wb_inv w \<longleftrightarrow>
     1 \<le> max_queue (wb_cfg (buf w)) \<and>
     int (wb_pending (buf w)) \<le> max_queue (wb_cfg (buf w)) \<and>
     mset (accepted w) = mset (in_hand (wk w)) + mset (wb_q (buf w)) + mset (map snd (settled w)) \<and>
     subseq (in_hand (wk w) @ wb_q (buf w)) (accepted w) \<and>
     (final_pass (wk w) \<longrightarrow> wb_stop (buf w) \<and> wb_q (buf w) = [] \<and> in_retry (wk w) = []) \<and>
     (wk w = Gone \<longrightarrow> wb_q (buf w) = [] \<and> (wb_running (buf w) \<longrightarrow> wb_stop (buf w))) \<and>
     (wk w \<noteq> Gone \<longrightarrow> wb_running (buf w)) \<and>
     Abandoned \<notin> fst ` set (settled w)"

lemma wb_init_inv: "wb_init w \<Longrightarrow> wb_inv w"
  by (auto simp: wb_init_def wb_inv_def new_wbuf_def wb_construct_cfg_def Let_def wb_pending_def)


lemma inv_enqueue:
  assumes "wb_inv w" and "wb_enqueue now k (buf w) = (ok, b')"
  shows "wb_inv (w\<lparr>buf := b', accepted := accepted w @ (if ok then [(k, now)] else [])\<rparr>)"
proof (cases ok)
  case True
  then have b: "b' = (buf w)\<lparr>wb_q := wb_q (buf w) @ [(k, now)]\<rparr>" and opn: "\<not> wb_stop (buf w)" "wb_running (buf w)"
    and room: "int (length (wb_q (buf w))) < max_queue (wb_cfg (buf w))"
    using assms(2) by (auto simp: wb_enqueue_def split: if_splits)
  have "wk w \<noteq> Gone" "\<not> final_pass (wk w)" using assms(1) opn by (auto simp: wb_inv_def)
  with assms(1) b opn room True show ?thesis
    by (simp add: wb_inv_def wb_pending_def flip: append_assoc)
next
  case False
  then have "b' = buf w" using assms(2) by (auto simp: wb_enqueue_def split: if_splits)
  with False assms(1) show ?thesis by simp
qed

lemma inv_take:
  assumes "wb_inv w" and "wk w = Waiting" and "wb_take (buf w) = (final, batch, b')"
  shows "wb_inv (w\<lparr>buf := b', wk := Passing final [] batch\<rparr>)"
  using assms by (cases final) (auto simp: wb_inv_def wb_take_def wb_pending_def)

lemma flush_item_final: "flush_item c True now x st \<noteq> None"
  by (simp add: flush_item_def)

lemma flush_item_settles: "flush_item c final now x st = Some oc \<Longrightarrow> oc \<noteq> Abandoned"
  by (auto simp: flush_item_def split: if_splits)

lemma inv_item:
  assumes "wb_inv w" and wk: "wk w = Passing final retry (x # batch)"
  shows "wb_inv (case flush_item (wb_cfg (buf w)) final now x st of
        None \<Rightarrow> w\<lparr>wk := Passing final (retry @ [x]) batch\<rparr>
      | Some oc \<Rightarrow> w\<lparr>wk := Passing final retry batch, settled := settled w @ [(oc, x)]\<rparr>)"
proof (cases "flush_item (wb_cfg (buf w)) final now x st")
  case None
  then have "\<not> final" by (auto simp: flush_item_final)
  with None assms show ?thesis by (simp add: wb_inv_def)
next
  case (Some oc)
  have "subseq (retry @ batch @ wb_q (buf w)) (retry @ x # batch @ wb_q (buf w))" by (rule list_emb_append_mono) auto
  then have "subseq (retry @ batch @ wb_q (buf w)) (accepted w)"
    using assms by (auto simp: wb_inv_def intro: subseq_order.trans)
  with Some assms flush_item_settles [OF Some] show ?thesis
    by (cases final) (auto simp: wb_inv_def)
qed

lemma requeue_split:
  assumes "wb_requeue retry b = (dropped, b')" and "1 \<le> max_queue (wb_cfg b)"
    and "int (wb_pending b) \<le> max_queue (wb_cfg b)"
  shows "wb_q b' @ dropped = retry @ wb_q b \<and> int (wb_pending b') \<le> max_queue (wb_cfg b) \<and>
    b' = b\<lparr>wb_q := wb_q b'\<rparr>"
proof (cases "retry = []")
  case False
  obtain q' d where r: "refill (max_queue (wb_cfg b)) [] (retry @ wb_q b) = (q', d)" by fastforce
  then show ?thesis
    using assms False refill_split [OF r] by (auto simp: wb_requeue_def wb_pending_def)
qed (use assms in \<open>simp add: wb_requeue_def\<close>)

lemma inv_requeue:
  assumes inv: "wb_inv w" and wk: "wk w = Passing False retry []" and r: "wb_requeue retry (buf w) = (dropped, b')"
  shows "wb_inv (w\<lparr>buf := b', wk := Waiting, settled := settled w @ map (Pair Overflow) dropped\<rparr>)"
proof -
  have s: "wb_q b' @ dropped = retry @ wb_q (buf w)" and len: "int (wb_pending b') \<le> max_queue (wb_cfg (buf w))"
    and b: "b' = (buf w)\<lparr>wb_q := wb_q b'\<rparr>"
    using requeue_split [OF r] inv by (auto simp: wb_inv_def)
  have m: "mset retry + mset (wb_q (buf w)) = mset (wb_q b') + mset dropped"
    by (metis s mset_append)
  have "subseq (wb_q b') (retry @ wb_q (buf w))" by (metis s prefixI prefix_imp_subseq)
  then have sub: "subseq (wb_q b') (accepted w)"
    using inv wk by (auto simp: wb_inv_def intro: subseq_order.trans)
  have fields: "wb_cfg b' = wb_cfg (buf w)" "wb_running b' = wb_running (buf w)" by (subst b, simp)+
  have snds: "map snd (map (Pair Overflow) dropped) = dropped" by (simp add: comp_def)
  from inv wk m sub len fields snds show ?thesis
    by (auto simp: wb_inv_def ac_simps comp_def)
qed

lemma inv_last:
  assumes inv: "wb_inv w" and wk: "wk w = Passing True retry []" and r: "wb_requeue retry (buf w) = (dropped, b')"
    and a: "wb_abandon b' = (left, b'')"
  shows "wb_inv (w\<lparr>buf := b'', wk := Gone,
    settled := settled w @ map (Pair Overflow) dropped @ map (Pair Abandoned) left\<rparr>)"
proof -
  have "retry = []" "wb_q (buf w) = []" "wb_stop (buf w)" using inv wk by (auto simp: wb_inv_def)
  then have "dropped = []" "left = []" "b'' = buf w"
    using r a by (auto simp: wb_requeue_def wb_abandon_def)
  with inv wk \<open>retry = []\<close> \<open>wb_q (buf w) = []\<close> \<open>wb_stop (buf w)\<close> show ?thesis by (simp add: wb_inv_def)
qed

lemma wb_step_inv:
  assumes "wb_inv w" and "wb_step w w'"
  shows "wb_inv w'"
  using assms(2)
proof cases
  case step_enqueue
  with assms(1) show ?thesis by (simp add: inv_enqueue)
next
  case (step_start started b')
  with assms(1) show ?thesis by (auto simp: wb_inv_def wb_start_def wb_pending_def split: if_splits)
next
  case step_stop_begin
  with assms(1) show ?thesis by (auto simp: wb_inv_def wb_stop_begin_def wb_pending_def)
next
  case step_stop_end
  with assms(1) show ?thesis by (auto simp: wb_inv_def wb_stop_end_def wb_pending_def)
next
  case step_take
  with assms(1) show ?thesis by (simp add: inv_take)
next
  case step_item
  with assms(1) show ?thesis by (simp add: inv_item)
next
  case step_requeue
  with assms(1) show ?thesis by (simp add: inv_requeue)
next
  case step_last
  with assms(1) show ?thesis by (simp add: inv_last)
qed

interpretation wbs: invariant_system wb_init wb_step wb_inv
  by unfold_locales (fact wb_init_inv, fact wb_step_inv)

section \<open>Properties\<close>

text \<open>C12: the buffer is a bounded first-in first-out queue that loses nothing silently. In every
  state reachable by any interleaving of callers and the worker: it holds at most \<open>max_queue\<close>
  writes; every accepted write is either still queued, in the worker's hands, or settled exactly
  once (so a write that was flushed is never run again); what is still to be tried is in the
  order of acceptance, retries included; and the final pass of a shutdown never finds writes to
  abandon, since nothing is accepted after \<open>stop\<close>.\<close>

theorem wb_queue_contract:
  assumes "reachable wb_init wb_step w"
  shows "int (wb_pending (buf w)) \<le> max_queue (wb_cfg (buf w)) \<and>
    mset (accepted w) = mset (in_hand (wk w)) + mset (wb_q (buf w)) + mset (map snd (settled w)) \<and>
    subseq (in_hand (wk w) @ wb_q (buf w)) (accepted w) \<and>
    Abandoned \<notin> fst ` set (settled w)"
  using wbs.reachable_inv [OF assms] by (simp add: wb_inv_def)

text \<open>A buffer of one write: started, one write accepted, taken by the worker.\<close>

definition one_cfg :: wb_config where
  "one_cfg = \<lparr>wb_enabled = True, max_queue = 1, wb_ttl_ms = 0, flush_interval_ms = 10\<rparr>"

definition taken_world :: "nat wb_world" where
  "taken_world = \<lparr>buf = \<lparr>wb_cfg = one_cfg, wb_q = [], wb_stop = False, wb_running = True\<rparr>,
     wk = Passing False [] [(7, 0)], accepted = [(7, 0)], settled = []\<rparr>"

lemma taken_reachable: "reachable wb_init wb_step taken_world"
proof -
  let ?w0 = "\<lparr>buf = new_wbuf one_cfg, wk = Gone, accepted = [], settled = []\<rparr> :: nat wb_world"
  let ?w1 = "?w0\<lparr>buf := snd (wb_start (buf ?w0)), wk := Waiting\<rparr>"
  let ?w2 = "?w1\<lparr>buf := snd (wb_enqueue 0 7 (buf ?w1)), accepted := [(7, 0)]\<rparr>"
  note defs = new_wbuf_def wb_construct_cfg_def one_cfg_def wb_start_def wb_enqueue_def wb_take_def Let_def
  have "reachable wb_init wb_step ?w0" by (rule reach_init) (auto simp: wb_init_def)
  moreover have "wb_step ?w0 ?w1"
    using wb_step.step_start [of ?w0 True "snd (wb_start (buf ?w0))"] by (simp add: defs)
  moreover have "wb_step ?w1 ?w2"
    using wb_step.step_enqueue [of 0 7 ?w1 True "snd (wb_enqueue 0 7 (buf ?w1))"] by (simp add: defs)
  moreover have "wb_step ?w2 taken_world"
    using wb_step.step_take [of ?w2 False "[(7, 0)]" "(buf ?w2)\<lparr>wb_q := []\<rparr>"] by (simp add: defs taken_world_def)
  ultimately show ?thesis by (blast intro: reach_step)
qed

theorem wb_queue_contract_witness:
  "mset (accepted taken_world) = mset (in_hand (wk taken_world)) + mset (wb_q (buf taken_world)) + mset (map snd (settled taken_world))"
  using wb_queue_contract [OF taken_reachable] by blast

subsection \<open>Shutdown ends\<close>

text \<open>One step of the worker thread with the clock and the task's status as inputs.\<close>

definition worker_turn :: "int \<times> status \<Rightarrow> 'k wb_world \<Rightarrow> 'k wb_world" where
  "worker_turn i w =
     (case wk w of
        Gone \<Rightarrow> w
      | Waiting \<Rightarrow> (case wb_take (buf w) of (final, batch, b') \<Rightarrow> w\<lparr>buf := b', wk := Passing final [] batch\<rparr>)
      | Passing final retry (x # batch) \<Rightarrow>
          (case flush_item (wb_cfg (buf w)) final (fst i) x (snd i) of
             None \<Rightarrow> w\<lparr>wk := Passing final (retry @ [x]) batch\<rparr>
           | Some oc \<Rightarrow> w\<lparr>wk := Passing final retry batch, settled := settled w @ [(oc, x)]\<rparr>)
      | Passing final retry [] \<Rightarrow>
          (case wb_requeue retry (buf w) of (dropped, b') \<Rightarrow>
             if final then
               (case wb_abandon b' of (left, b'') \<Rightarrow> w\<lparr>buf := b'', wk := Gone,
                  settled := settled w @ map (Pair Overflow) dropped @ map (Pair Abandoned) left\<rparr>)
             else w\<lparr>buf := b', wk := Waiting, settled := settled w @ map (Pair Overflow) dropped\<rparr>))"

lemma worker_turn_step:
  assumes "wk w \<noteq> Gone"
  shows "wb_step w (worker_turn i w)"
proof (cases "wk w")
  case Waiting
  then show ?thesis using wb_step.step_take [of w "wb_stop (buf w)" "wb_q (buf w)"] by (simp add: worker_turn_def wb_take_def)
next
  case (Passing final retry batch)
  show ?thesis
  proof (cases batch)
    case Nil
    obtain dropped b' where r: "wb_requeue retry (buf w) = (dropped, b')" by fastforce
    obtain left b'' where a: "wb_abandon b' = (left, b'')" by fastforce
    show ?thesis
      using Passing Nil r a wb_step.step_last [of w retry dropped b' left b''] wb_step.step_requeue [of w retry dropped b']
      by (cases final) (simp_all add: worker_turn_def)
  next
    case (Cons x xs)
    with Passing wb_step.step_item [of w final retry x xs "fst i" "snd i"] show ?thesis by (simp add: worker_turn_def)
  qed
qed (use assms in simp)

fun drain_bound :: "'k worker \<Rightarrow> nat \<Rightarrow> nat" where
  "drain_bound Gone n = 0"
| "drain_bound Waiting n = n + 2"
| "drain_bound (Passing True retry batch) n = length batch + 1"
| "drain_bound (Passing False retry batch) n = 2 * length batch + length retry + n + 4"

lemma worker_turn_drains:
  assumes "wb_inv w" and "wb_stop (buf w)" and "wk w \<noteq> Gone"
  shows "drain_bound (wk (worker_turn i w)) (wb_pending (buf (worker_turn i w))) < drain_bound (wk w) (wb_pending (buf w)) \<and>
    wb_stop (buf (worker_turn i w)) \<and> accepted (worker_turn i w) = accepted w"
proof (cases "wk w")
  case Waiting
  with assms show ?thesis by (simp add: worker_turn_def wb_take_def wb_pending_def)
next
  case (Passing final retry batch)
  show ?thesis
  proof (cases batch)
    case Nil
    obtain dropped b' where r: "wb_requeue retry (buf w) = (dropped, b')" by fastforce
    have q: "wb_q b' @ dropped = retry @ wb_q (buf w)" "b' = (buf w)\<lparr>wb_q := wb_q b'\<rparr>"
      using requeue_split [OF r] assms(1) by (auto simp: wb_inv_def)
    have "length (wb_q b') \<le> length retry + length (wb_q (buf w))"
      using arg_cong [OF q(1), of length] by simp
    moreover have "wb_stop b'" using q(2) assms(2) by (metis wbuf.select_convs(3) wbuf.surjective wbuf.update_convs(2))
    ultimately show ?thesis
      using Passing Nil r by (cases final) (auto simp: worker_turn_def wb_abandon_def wb_pending_def)
  next
    case (Cons x xs)
    with Passing assms(2) flush_item_final [of "wb_cfg (buf w)" "fst i" x "snd i"] show ?thesis
      by (cases final) (auto simp: worker_turn_def split: option.splits)
  qed
qed (use assms in simp)

text \<open>C29: shutting down ends. Once \<open>stop\<close> has been called no write is accepted any more, and
  whatever the clock and the database do, the worker is gone after at most \<open>drain_bound\<close> of its own
  steps, so that the join in \<open>stop\<close> returns; the queue is then empty and every write ever
  accepted has been settled.\<close>

theorem wb_stop_terminates:
  assumes "reachable wb_init wb_step w" and "wb_stop (buf w)"
    and "drain_bound (wk w) (wb_pending (buf w)) \<le> length inputs"
  shows "wk (fold worker_turn inputs w) = Gone \<and> wb_q (buf (fold worker_turn inputs w)) = [] \<and>
    mset (accepted w) = mset (map snd (settled (fold worker_turn inputs w))) \<and>
    wb_enqueue now k (buf w) = (False, buf w)"
proof -
  have "wk (fold worker_turn inputs w) = Gone \<and> accepted (fold worker_turn inputs w) = accepted w \<and>
      wb_inv (fold worker_turn inputs w)"
    using wbs.reachable_inv [OF assms(1)] assms(2,3)
  proof (induction inputs arbitrary: w)
    case Nil
    then show ?case by (cases "wk w" rule: in_hand.cases) (auto elim: drain_bound.elims)
  next
    case (Cons i inputs)
    show ?case
    proof (cases "wk w = Gone")
      case True
      then have "worker_turn j w = w" for j by (simp add: worker_turn_def)
      with Cons True show ?thesis by simp
    next
      case False
      note d = worker_turn_drains [OF Cons.prems(1,2) False, of i]
      from Cons.IH [of "worker_turn i w"] wb_step_inv [OF Cons.prems(1) worker_turn_step [OF False]] d Cons.prems(3)
      show ?thesis by simp
    qed
  qed
  with assms(2) show ?thesis by (auto simp: wb_inv_def wb_enqueue_def)
qed

theorem wb_stop_terminates_witness:
  "wk (fold worker_turn (replicate 6 (0, status_OK)) (taken_world\<lparr>buf := wb_stop_begin (buf taken_world)\<rparr>)) = Gone"
proof -
  let ?w = "taken_world\<lparr>buf := wb_stop_begin (buf taken_world)\<rparr>"
  have "reachable wb_init wb_step ?w" using reach_step [OF taken_reachable wb_step.step_stop_begin] .
  moreover have "wb_stop (buf ?w)" by (simp add: taken_world_def wb_stop_begin_def)
  moreover have "drain_bound (wk ?w) (wb_pending (buf ?w)) \<le> length (replicate 6 (0 :: int, status_OK))"
    by (simp add: taken_world_def wb_stop_begin_def wb_pending_def)
  ultimately show ?thesis using wb_stop_terminates [of ?w "replicate 6 (0, status_OK)"] by blast
qed

end
