(* ===== verification/GroupOps.thy ===== *)
theory GroupOps
  imports DataSource WriteBuffer
begin

text \<open>
  The operations of a read-write group (the \<open>primary_\<close> branches of \<open>DataSource\<close> in
  \<open>src/core/database_manager.cpp\<close>), composed from the operations of its members: reads with
  fallback to the primary, streamed reads, writes dispatched over the candidate primaries into
  the write buffer; and the single-attempt operations of a member (batch, stream, call).

  The members' circuit breakers are kept in a map by name; \<open>with_breakers\<close> gives a group the
  current ones. Two members are the same object exactly if they have the same name, as in the
  manager's registry.
\<close>

section \<open>Operations of one attempt\<close>

text \<open>\<open>call\<close>, \<open>queryEachUngated\<close> and the batch operations of a single data source: gate, borrow,
  run, tell the breaker.\<close>

definition single_attempt :: "breaker_cfg \<Rightarrow> ('e, 'a) attempt_env \<Rightarrow> string \<Rightarrow> 'a \<Rightarrow> breaker \<Rightarrow> 'e
    \<Rightarrow> status \<times> 'a \<times> breaker \<times> 'e" where
  "single_attempt c env nm out0 b e =
     (case beforeAttempt c nm (env_clock env e) b of
        (gate, b1) \<Rightarrow>
          if \<not> status_ok gate then (gate, out0, b1, e)
          else case attempt_once env nm out0 e of
            (st, out, e1) \<Rightarrow> (st, out, afterAttempt c (env_clock env e1) st b1, e1))"

definition executeBatchUngated ::
  "breaker_cfg \<Rightarrow> ('e, 'a) attempt_env \<Rightarrow> 'a \<Rightarrow> string \<Rightarrow>
     cache_state \<times> breaker \<times> 'e \<times> sql_context list \<Rightarrow> status \<times> 'a \<times> cache_state \<times> breaker \<times> 'e \<times> sql_context list" where
  "executeBatchUngated c env out0 nm s =
     (case s of (q, b, e, stack) \<Rightarrow>
        case single_attempt c env nm out0 b e of
          (st, out, b', e') \<Rightarrow>
            if status_ok st then (st, out, cache_invalidate nm q, b', e', pinRequestWrite stack)
            else (st, out, q, b', e', stack))"

section \<open>Reads of a group\<close>

text \<open>The failures on which a read is repeated on the primary.\<close>

definition read_falls_back :: "status \<Rightarrow> bool" where
  "read_falls_back st \<longleftrightarrow> retryable st \<or> connectionBroken st \<or> code st = CircuitOpen"

definition group_query :: "int \<Rightarrow> sql_context \<Rightarrow> u64 \<Rightarrow> group \<Rightarrow> (member \<Rightarrow> 'e \<Rightarrow> status \<times> result_set \<times> 'e) \<Rightarrow> 'e
    \<Rightarrow> status \<times> result_set \<times> u64 \<times> 'e" where
  "group_query now ctx round g read e =
     (case readTarget now ctx round g of
        (target, round') \<Rightarrow>
          (case read target e of
             (st, out, e1) \<Rightarrow>
               if m_name target \<noteq> m_name (g_primary g) \<and> fallbackToPrimary g \<and> read_falls_back st
               then (case read (g_primary g) e1 of (st', out', e2) \<Rightarrow> (st', out', round', e2))
               else (st, out, round', e1)))"

text \<open>A streamed read hands its rows to the callback as they come; \<open>rows\<close> counts them. It is
  repeated on the primary only if no row was delivered.\<close>

definition group_queryEach :: "int \<Rightarrow> sql_context \<Rightarrow> u64 \<Rightarrow> group \<Rightarrow> (member \<Rightarrow> 'e \<Rightarrow> status \<times> row list \<times> 'e) \<Rightarrow> 'e
    \<Rightarrow> status \<times> row list \<times> u64 \<times> 'e" where
  "group_queryEach now ctx round g stream e =
     (case readTarget now ctx round g of
        (target, round') \<Rightarrow>
          (case stream target e of
             (st, delivered, e1) \<Rightarrow>
               if delivered = [] \<and> m_name target \<noteq> m_name (g_primary g) \<and> fallbackToPrimary g \<and> read_falls_back st
               then (case stream (g_primary g) e1 of (st', delivered', e2) \<Rightarrow> (st', delivered @ delivered', round', e2))
               else (st, delivered, round', e1)))"

section \<open>Writes of a group\<close>

definition with_breakers :: "(string \<Rightarrow> breaker) \<Rightarrow> group \<Rightarrow> group" where
  "with_breakers bs g =
     g\<lparr>g_failover := map (\<lambda>m. m\<lparr>m_breaker := bs (m_name m)\<rparr>) (g_failover g)\<rparr>"

text \<open>What a write works on besides the cache: the members' breakers, the context stack, the outside
  world and the group's write buffer, whose tasks are the statements' names.\<close>

record 'e write_env =
  we_breakers :: "string \<Rightarrow> breaker"
  we_stack :: "sql_context list"
  we_world :: 'e
  we_buffer :: "string wbuf"

definition member_execute ::
  "(string \<Rightarrow> retry_cfg) \<Rightarrow> (string \<Rightarrow> ('e, 'a) attempt_env) \<Rightarrow> 'a \<Rightarrow> member \<Rightarrow> cache_state \<times> 'e write_env
     \<Rightarrow> status \<times> cache_state \<times> 'e write_env" where
  "member_execute rc env out0 m s =
     (case s of (q, we) \<Rightarrow>
        case executeUngated (m_cfg m) (rc (m_name m)) (env (m_name m)) out0 (m_name m)
               (q, we_breakers we (m_name m), we_world we, we_stack we) of
          (st, out, q', b', e', stack') \<Rightarrow>
            (st, q', we\<lparr>we_breakers := (we_breakers we)(m_name m := b'), we_world := e', we_stack := stack'\<rparr>))"

definition buffer_write :: "int \<Rightarrow> string \<Rightarrow> 'e write_env \<Rightarrow> bool \<times> 'e write_env" where
  "buffer_write now task we =
     (if \<not> wb_enabled (wb_cfg (we_buffer we)) then (False, we)
      else case wb_enqueue now task (we_buffer we) of (ok, wb) \<Rightarrow> (ok, we\<lparr>we_buffer := wb\<rparr>))"

definition group_execute ::
  "int \<Rightarrow> (string \<Rightarrow> retry_cfg) \<Rightarrow> (string \<Rightarrow> ('e, 'a) attempt_env) \<Rightarrow> 'a \<Rightarrow> string \<Rightarrow> group \<Rightarrow>
     cache_state \<times> 'e write_env \<Rightarrow> status \<times> group \<times> cache_state \<times> 'e write_env" where
  "group_execute now rc env out0 sql g s =
     dispatchWrite now (current_context (we_stack (snd s))) (member_execute rc env out0) (Some (buffer_write now sql))
       (with_breakers (we_breakers (snd s)) g) s"

section \<open>A write reaches one primary\<close>

text \<open>The statuses by which the library itself says that a statement was never sent.\<close>

definition never_sent_status :: "status \<Rightarrow> bool" where
  "never_sent_status st \<longleftrightarrow> code st \<in> {PoolExhausted, PoolClosed, CircuitOpen, DriverDisabled} \<or>
     code st = ConnectionFailed \<and> \<not> connectionBroken st \<and> sqlState st = []"

text \<open>\<open>sent\<close> counts the statements that reached a database: borrowing sends none, running one sends it
  at most once, and a driver that sent it does not answer with one of the statuses above.\<close>

definition honest_driver :: "('e, 'a) attempt_env \<Rightarrow> ('e \<Rightarrow> nat) \<Rightarrow> bool" where
  "honest_driver env sent \<longleftrightarrow> (\<forall>e. sent (snd (env_borrow env e)) = sent e) \<and>
     (\<forall>e. case env_statement env e of (st, out, e') \<Rightarrow>
        sent e' = sent e \<or> sent e' = Suc (sent e) \<and> \<not> never_sent_status st)"

lemma attempt_once_honest:
  assumes "honest_driver env sent" and "attempt_once env nm out e = (st, out', e')"
  shows "sent e' \<le> Suc (sent e) \<and> (never_sent_status st \<longrightarrow> sent e' = sent e)"
proof -
  obtain ans e1 where b: "env_borrow env e = (ans, e1)" by fastforce
  obtain st1 out1 e2 where s: "env_statement env e1 = (st1, out1, e2)" using prod_cases3 by blast
  have "sent e1 = sent e" using assms(1) b by (metis honest_driver_def snd_conv)
  moreover have "sent e2 = sent e1 \<or> sent e2 = Suc (sent e1) \<and> \<not> never_sent_status st1"
    using assms(1) s unfolding honest_driver_def by (metis (mono_tags, lifting) case_prod_conv)
  ultimately show ?thesis
    using assms(2) b s by (auto simp: attempt_once_def split: if_splits)
qed

lemma retry_once_honest:
  assumes "honest_driver env sent" and "retry_loop c env nm out0 1 prev b e = (st, out, b', e')"
  shows "sent e' \<le> Suc (sent e) \<and> (never_sent_status st \<longrightarrow> sent e' = sent e)"
proof -
  obtain gate b1 where g: "beforeAttempt c nm (env_clock env e) b = (gate, b1)" by fastforce
  obtain st1 out1 e1 where a: "attempt_once env nm out0 e = (st1, out1, e1)" using prod_cases3 by blast
  show ?thesis
    using assms(2) g a attempt_once_honest [OF assms(1) a] by (auto simp: Let_def split: if_splits)
qed

lemma safe_never_sent: "safeToFailoverWrite st \<Longrightarrow> never_sent_status st"
  by (cases "code st") (auto simp: safeToFailoverWrite_def never_sent_status_def)

lemma member_execute_once:
  assumes honest: "\<And>nm. honest_driver (env nm) sent"
    and once: "idempotency (current_context (we_stack we)) = NonIdempotent"
    and run: "member_execute rc env out0 m (q, we) = (st, q', we')"
  shows "sent (we_world we') \<le> Suc (sent (we_world we)) \<and> we_buffer we' = we_buffer we \<and>
    (safeToFailoverWrite st \<longrightarrow> sent (we_world we') = sent (we_world we) \<and> we_stack we' = we_stack we)"
proof -
  have n: "nat (resolveWriteAttempts (rc (m_name m)) (idempotency (current_context (we_stack we)))) = 1"
    using once by (simp add: resolveWriteAttempts_def)
  obtain st1 out1 b1 e1 where l: "retry_loop (m_cfg m) (env (m_name m)) (m_name m) out0 1 (status_OK, out0)
      (we_breakers we (m_name m)) (we_world we) = (st1, out1, b1, e1)" using prod_cases4 by blast
  note h = retry_once_honest [OF honest l]
  have "st = st1" "we_world we' = e1" "we_buffer we' = we_buffer we" "\<not> status_ok st1 \<longrightarrow> we_stack we' = we_stack we"
    using run l n by (auto simp: member_execute_def executeUngated_def split: if_splits)
  moreover have "safeToFailoverWrite st1 \<longrightarrow> \<not> status_ok st1"
    by (auto simp: safeToFailoverWrite_def status_ok_def)
  ultimately show ?thesis using h safe_never_sent [of st1] by auto
qed

lemma try_targets_once:
  assumes honest: "\<And>nm. honest_driver (env nm) sent"
    and "idempotency (current_context (we_stack we)) = NonIdempotent"
    and "try_targets (member_execute rc env out0) ms st0 (q, we) = (st, final, q', we')"
  shows "sent (we_world we') \<le> Suc (sent (we_world we)) \<and> we_buffer we' = we_buffer we \<and>
    (\<not> final \<longrightarrow> sent (we_world we') = sent (we_world we))"
  using assms(2,3)
proof (induction ms arbitrary: st0 q we)
  case (Cons m ms)
  obtain st1 q1 we1 where a: "member_execute rc env out0 m (q, we) = (st1, q1, we1)" using prod_cases3 by blast
  note one = member_execute_once [OF honest Cons.prems(1) a]
  show ?case
  proof (cases "status_ok st1 \<or> \<not> safeToFailoverWrite st1")
    case True
    with Cons.prems(2) a one show ?thesis by (auto split: if_splits)
  next
    case False
    with Cons.prems(2) a have "try_targets (member_execute rc env out0) ms st1 (q1, we1) = (st, final, q', we')" by simp
    with Cons.IH [OF _ this] Cons.prems(1) one False show ?thesis by simp
  qed
qed simp

text \<open>C3: failover never sends a write twice. Assume of the drivers that running a statement sends it
  at most once and that a statement that was sent is not answered with a status by which the
  library says it obtained no connection. Then a write declared non-idempotent, dispatched over
  any number of candidate primaries with any outcome, reaches at most one database, once; and if
  the answer is that it was buffered, it has reached none and is the last entry of the buffer.\<close>

theorem group_write_sent_once:
  assumes honest: "\<And>nm. honest_driver (env nm) sent"
    and "idempotency (current_context (we_stack we)) = NonIdempotent"
    and no_shadow: "g_shadow g = None"
    and result: "group_execute now rc env out0 sql g (q, we) = (st, g', q', we')"
  shows "sent (we_world we') \<le> Suc (sent (we_world we)) \<and>
    (we_buffer we' \<noteq> we_buffer we \<longrightarrow> sent (we_world we') = sent (we_world we) \<and> code st = Buffered \<and>
       wb_q (we_buffer we') = wb_q (we_buffer we) @ [(sql, now)])"
proof -
  let ?g = "with_breakers (we_breakers we) g" and ?ctx = "current_context (we_stack we)"
  let ?none = "(status_error CircuitOpen (''group '' @ [squote] @ g_name ?g @ [squote] @ '': no writable primary available''))\<lparr>retryable := True\<rparr>"
  have ns: "g_shadow ?g = None" using no_shadow by (simp add: with_breakers_def)
  obtain st1 final q1 we1 where t: "try_targets (member_execute rc env out0) (writeTargets now ?ctx ?g) ?none (q, we) = (st1, final, q1, we1)"
    using prod_cases4 by blast
  note one = try_targets_once [OF honest assms(2) t]
  obtain ok we2 where w: "buffer_write now sql we1 = (ok, we2)" by fastforce
  have buf: "we_world we2 = we_world we1" "ok \<Longrightarrow> wb_q (we_buffer we2) = wb_q (we_buffer we1) @ [(sql, now)]"
    "\<not> ok \<Longrightarrow> we_buffer we2 = we_buffer we1"
    using w by (auto simp: buffer_write_def wb_enqueue_def split: if_splits)
  have cases: "we' = we1 \<or> we' = we2 \<and> \<not> final \<and> (ok \<longrightarrow> code st = Buffered)"
    using result ns t w
    by (auto simp: group_execute_def dispatchWrite_def Let_def status_error_def split: if_splits prod.splits)
  then show ?thesis using one buf by (cases ok) auto
qed

text \<open>Two primaries, of which the first has no connection to lend; the world counts statements.\<close>

definition counting_env :: "string \<Rightarrow> (nat, unit) attempt_env" where
  "counting_env nm =
     \<lparr>env_borrow = (\<lambda>n. (if nm = ''p1'' then BorrowFailed PoolExhausted ''full'' else Borrowed, n)),
      env_statement = (\<lambda>n. (status_OK, (), Suc n)), env_clock = int\<rparr>"

definition no_breaker_cfg :: breaker_cfg where
  "no_breaker_cfg = \<lparr>failure_threshold = 0, open_interval_ms = 0\<rparr>"

definition no_retry :: retry_cfg where
  "no_retry = \<lparr>max_attempts = 1, initial_backoff_ms = 0, max_backoff_ms = 0, retry_writes = False\<rparr>"

definition write_once_env :: "nat write_env" where
  "write_once_env = \<lparr>we_breakers = (\<lambda>_. closed_breaker), we_stack = [default_context\<lparr>idempotency := NonIdempotent\<rparr>],
     we_world = 0, we_buffer = new_wbuf \<lparr>wb_enabled = True, max_queue = 1, wb_ttl_ms = 0, flush_interval_ms = 10\<rparr>\<rparr>"

theorem group_write_sent_once_witness:
  "we_world (snd (snd (snd (group_execute 1 (\<lambda>_. no_retry) counting_env () ''w'' two_primaries (initial_cache, write_once_env))))) \<le> 1"
proof -
  let ?r = "group_execute 1 (\<lambda>_. no_retry) counting_env () ''w'' two_primaries (initial_cache, write_once_env)"
  obtain st g' q' we' where r: "?r = (st, g', q', we')" using prod_cases4 by blast
  have h: "honest_driver (counting_env nm) id" for nm
    by (simp add: honest_driver_def counting_env_def never_sent_status_def status_OK_def)
  have "id (we_world we') \<le> Suc (id (we_world write_once_env))"
    using group_write_sent_once [OF h _ _ r] by (simp add: write_once_env_def current_context_def two_primaries_def)
  with r show ?thesis by (simp add: write_once_env_def)
qed

section \<open>What becomes of a buffered write\<close>

text \<open>A buffered write is dropped, not kept, while its primary is still unavailable. The worker
  keeps a failed write only if its status is retryable or marks a broken connection; an open
  circuit and an exhausted or closed pool, the very conditions under which writes are buffered,
  are reported without either mark. The first flush under such a condition therefore settles the
  write as failed, before its time to live is over.\<close>

theorem buffered_write_dropped:
  assumes "executeUngated bc r env out0 nm (q, b, e, stack) = (st, out, q', b', e', stack')"
    and "isCircuitOpen bc (env_clock env e) b \<or>
      status_ok (fst (beforeAttempt bc nm (env_clock env e) b)) \<and>
      (\<exists>ec err. fst (env_borrow env e) = BorrowFailed ec err \<and> ec \<in> {PoolExhausted, PoolClosed})"
    and "\<not> (0 < wb_ttl_ms c \<and> wb_ttl_ms c < now - snd item)"
  shows "flush_item c final now item st = Some Failed"
proof -
  let ?n = "nat (resolveWriteAttempts r (idempotency (current_context stack)))"
  have "0 < ?n" by (auto simp: resolveWriteAttempts_def)
  then obtain left where n: "?n = Suc left" using gr0_implies_Suc by blast
  have "\<not> status_ok st \<and> \<not> retryable st \<and> \<not> connectionBroken st"
  proof (cases "isCircuitOpen bc (env_clock env e) b")
    case True
    with assms(1) n show ?thesis
      by (auto simp: executeUngated_def isCircuitOpen_def beforeAttempt_def status_ok_def split: prod.splits if_splits)
  next
    case False
    with assms(2) obtain ec err e1 where w: "status_ok (fst (beforeAttempt bc nm (env_clock env e) b))"
      "env_borrow env e = (BorrowFailed ec err, e1)" "ec \<in> {PoolExhausted, PoolClosed}"
      by (metis prod.collapse)
    then have "attempt_once env nm out0 e = (status_error ec err, out0, e1)" "\<not> status_ok (status_error ec err)"
      by (auto simp: attempt_once_def borrowSession_def status_ok_def)
    with assms(1) n w(1) show ?thesis
      by (auto simp: executeUngated_def Let_def split: prod.splits if_splits)
  qed
  with assms(3) show ?thesis by (simp add: flush_item_def)
qed

theorem buffered_write_dropped_witness:
  "flush_item \<lparr>wb_enabled = True, max_queue = 10, wb_ttl_ms = 30000, flush_interval_ms = 1000\<rparr> False 1000 (''w'', 0)
     (fst (executeUngated no_breaker_cfg no_retry (counting_env ''p1'') () ''p1'' (initial_cache, closed_breaker, 0, []))) = Some Failed"
proof -
  let ?r = "executeUngated no_breaker_cfg no_retry (counting_env ''p1'') () ''p1'' (initial_cache, closed_breaker, 0, [])"
  obtain st out q' b' e' stack' where r: "?r = (st, out, q', b', e', stack')" using prod_cases6 by blast
  have "flush_item \<lparr>wb_enabled = True, max_queue = 10, wb_ttl_ms = 30000, flush_interval_ms = 1000\<rparr> False 1000 (''w'', 0) st = Some Failed"
    by (rule buffered_write_dropped [OF r]) (simp_all add: beforeAttempt_def no_breaker_cfg_def counting_env_def)
  with r show ?thesis by simp
qed

section \<open>Reads fall back\<close>



definition shadow_member :: member where
  "shadow_member = \<lparr>m_name = ''sh'', m_cfg = \<lparr>failure_threshold = 0, open_interval_ms = 0\<rparr>, m_breaker = closed_breaker, m_alive = True\<rparr>"

text \<open>A shadow read that fails falls back to production. The fallback condition only asks whether
  the member that failed is the primary, so a transient failure of the shadow target sends the
  load-test read to the primary when fallback is on, which is the default.\<close>

theorem shadow_read_reaches_primary:
  assumes "shadow ctx" and "g_shadow g = Some sh" and "m_name sh \<noteq> m_name (g_primary g)" and "fallbackToPrimary g"
    and "read sh e = (st, out, e')" and "read_falls_back st"
  shows "group_query now ctx round g read e = (case read (g_primary g) e' of (st', out', e2) \<Rightarrow> (st', out', round, e2))"
  using assms by (simp add: group_query_def readTarget_def)

theorem shadow_read_reaches_primary_witness:
  "snd (snd (snd (group_query 50 (default_context\<lparr>shadow := True\<rparr>) 0 (replica_group\<lparr>g_shadow := Some shadow_member\<rparr>)
     (\<lambda>m l. if m_name m = ''sh'' then (lost_connection, empty_rs, l) else (status_OK, empty_rs, l @ [m_name m])) []))) = [''p'']"
  by (subst shadow_read_reaches_primary [where st = lost_connection and out = empty_rs and e' = "[]" and sh = shadow_member])
    (simp_all add: replica_group_def read_falls_back_def lost_connection_def shadow_member_def)

end
