(* ===== verification/Registry.thy ===== *)
theory Registry
  imports Types "HOL-Library.AList"
begin

text \<open>
  The registry of data sources and groups (\<open>DatabaseManager\<close> in \<open>src/core/database_manager.cpp\<close>):
  building it from a configuration, adding and removing members while it runs, resolving shadow
  targets, shutting it down.

  A data source is known by its name, which stands for the shared pointers the code keeps: a
  registered name denotes one object, and a name that is still referenced cannot be removed (see
  below). The tables are association lists, whose order is the unspecified iteration order of
  the hash tables. A write buffer is named by its group, a rate limiter by a number. Each
  operation runs under the manager's lock; what happens outside (stopping workers, closing pools)
  is reported as a list of names. \<open>known\<close> says for which driver types a driver is registered.
\<close>

record ds_config =
  dc_name :: string
  dc_type :: string

record group_config =
  gc_name :: string
  gc_primary :: string
  gc_replicas :: "(string \<times> int) list"
  gc_read_after_write_ms :: int
  gc_fallback_to_primary :: bool
  gc_read_only :: bool
  gc_failover :: "string list"
  gc_ack_fencing :: bool
  gc_require_healthy :: bool
  gc_buffer :: bool
  gc_ack_loss :: bool
  gc_shadow :: string

record 'v global_config =
  cfg_default :: string
  cfg_datasources :: "ds_config list"
  cfg_groups :: "group_config list"
  cfg_limiter :: "nat option"
  cfg_services :: 'v

record group_info =
  gi_primary :: string
  gi_replicas :: "string list"
  gi_failover :: "string list"
  gi_readAfterWrite_ms :: int
  gi_fallback :: bool
  gi_requireHealthy :: bool
  gi_buffer :: bool
  gi_shadowName :: string
  gi_shadow :: "string option"

record source =
  src_name :: string
  src_driver :: string
  src_group :: "group_info option"
  src_readOnly :: bool
  src_readReplica :: bool
  src_limiter :: "nat option"
  src_inherits :: bool

type_synonym sources = "(string \<times> source) list"

record 'v manager =
  pools :: "string list"
  datasources :: sources
  writeBuffers :: "string list"
  defaultName :: string
  defaultRateLimiter :: "nat option"
  services :: 'v

definition new_manager :: "'v \<Rightarrow> 'v manager" where
  "new_manager v = \<lparr>pools = [], datasources = [], writeBuffers = [], defaultName = [], defaultRateLimiter = None, services = v\<rparr>"

abbreviation quoted :: "string \<Rightarrow> string" where
  "quoted s \<equiv> [squote] @ s @ [squote]"

definition config_error :: "string \<Rightarrow> status" where
  "config_error msg = status_error ConfigError msg"

section \<open>Building members\<close>

definition validateGroupRefs :: "group_config \<Rightarrow> string list \<Rightarrow> status" where
  "validateGroupRefs cfg candidates =
     (if gc_primary cfg \<notin> set candidates then
        config_error (''group '' @ quoted (gc_name cfg) @ '' references unknown primary '' @ quoted (gc_primary cfg)
          @ '' (must be a plain datasource, not a group)'')
      else case find (\<lambda>r. fst r \<notin> set candidates) (gc_replicas cfg) of
        Some r \<Rightarrow> config_error (''group '' @ quoted (gc_name cfg) @ '' references unknown replica '' @ quoted (fst r))
      | None \<Rightarrow>
        (case find (\<lambda>c. c \<notin> set candidates) (gc_failover cfg) of
           Some c \<Rightarrow> config_error (''group '' @ quoted (gc_name cfg) @ '' failover.primaries references unknown datasource ''
             @ quoted c @ '' (must be a plain datasource, not a group)'')
         | None \<Rightarrow> status_OK))"

definition buildSingleDataSource :: "(string \<Rightarrow> bool) \<Rightarrow> ds_config \<Rightarrow> nat option \<Rightarrow> string list \<Rightarrow> status + source" where
  "buildSingleDataSource known dsc limiter replicaNames =
     (if dc_name dsc = [] then Inl (config_error ''datasource name must not be empty'')
      else if \<not> known (dc_type dsc) then
        Inl (status_error UnknownDriver (''unknown datasource type: '' @ quoted (dc_type dsc) @ '' (name='' @ dc_name dsc
          @ ''). Register it on this Client and link the matching sqlconduit driver component''))
      else Inr \<lparr>src_name = dc_name dsc, src_driver = dc_type dsc, src_group = None, src_readOnly = False,
             src_readReplica = (dc_name dsc \<in> set replicaNames), src_limiter = limiter, src_inherits = False\<rparr>)"

text \<open>Every replica is listed as often as its weight says.\<close>

definition weighted :: "(string \<times> int) list \<Rightarrow> string list" where
  "weighted rs = concat (map (\<lambda>(n, weight). replicate (nat weight) n) rs)"

text \<open>The candidates after the primary, each once.\<close>

fun unseen :: "string list \<Rightarrow> string list \<Rightarrow> string list" where
  "unseen seen [] = []"
| "unseen seen (c # cs) = (if c \<in> set seen then unseen seen cs else c # unseen (c # seen) cs)"

definition buildSingleDataSourceGroup :: "group_config \<Rightarrow> nat option \<Rightarrow> sources \<Rightarrow> status + source" where
  "buildSingleDataSourceGroup gc limiter sources =
     (if gc_name gc = [] then Inl (config_error ''group name must not be empty'')
      else if gc_read_only gc \<and> gc_buffer gc then
        Inl (config_error (''group '' @ quoted (gc_name gc) @ '' is read_only but enables failover.write_buffer; a read-only group never writes''))
      else case map_of sources (gc_primary gc) of
        None \<Rightarrow> Inl (config_error (''group '' @ quoted (gc_name gc) @ '' references unknown primary '' @ quoted (gc_primary gc)))
      | Some p \<Rightarrow>
        (case find (\<lambda>r. map_of sources (fst r) = None) (gc_replicas gc) of
           Some r \<Rightarrow> Inl (config_error (''group '' @ quoted (gc_name gc) @ '' references unknown replica '' @ quoted (fst r)))
         | None \<Rightarrow>
           let candidates = (if gc_failover gc = [] then [] else gc_primary gc # unseen [gc_primary gc] (gc_failover gc))
           in case find (\<lambda>c. map_of sources c = None) candidates of
                Some c \<Rightarrow> Inl (config_error (''group '' @ quoted (gc_name gc) @ '' failover.primaries references unknown datasource ''
                  @ quoted c @ '' (must be a plain datasource, not a group)''))
              | None \<Rightarrow>
                Inr \<lparr>src_name = gc_name gc, src_driver = src_driver p,
                  src_group = Some \<lparr>gi_primary = gc_primary gc, gi_replicas = weighted (gc_replicas gc), gi_failover = candidates,
                    gi_readAfterWrite_ms = gc_read_after_write_ms gc, gi_fallback = gc_fallback_to_primary gc,
                    gi_requireHealthy = gc_require_healthy gc, gi_buffer = gc_buffer gc, gi_shadowName = gc_shadow gc, gi_shadow = None\<rparr>,
                  src_readOnly = gc_read_only gc, src_readReplica = False, src_limiter = limiter, src_inherits = False\<rparr>))"

section \<open>Shadow targets\<close>

definition is_group :: "source \<Rightarrow> bool" where
  "is_group s \<longleftrightarrow> src_group s \<noteq> None"

text \<open>The shadow target of one group, if it is acceptable.\<close>

definition resolve_one :: "sources \<Rightarrow> source \<Rightarrow> group_info \<Rightarrow> status + string" where
  "resolve_one all s gi =
     (let name = gi_shadowName gi in
      case map_of all name of
        None \<Rightarrow> Inl (config_error (''group '' @ quoted (src_name s) @ '' references unknown shadow '' @ quoted name))
      | Some t \<Rightarrow>
        if is_group t then
          Inl (config_error (''group '' @ quoted (src_name s) @ '' shadow '' @ quoted name @ '' is a group; shadow target must be a plain datasource''))
        else if name = gi_primary gi then
          Inl (config_error (''group '' @ quoted (src_name s) @ '' shadow '' @ quoted name @ '' is the group's primary; self-shadowing is rejected''))
        else if name \<in> set (gi_replicas gi) then
          Inl (config_error (''group '' @ quoted (src_name s) @ '' shadow '' @ quoted name @ '' is a replica of the group; self-shadowing is rejected''))
        else Inr name)"

definition set_shadow :: "string \<Rightarrow> source \<Rightarrow> source" where
  "set_shadow t s = s\<lparr>src_group := map_option (\<lambda>gi. gi\<lparr>gi_shadow := Some t\<rparr>) (src_group s)\<rparr>"

text \<open>The loop over the table: entries already visited may have been updated when it fails.\<close>

fun resolve_loop :: "sources \<Rightarrow> sources \<Rightarrow> status \<times> sources" where
  "resolve_loop all [] = (status_OK, [])"
| "resolve_loop all ((n, s) # rest) =
     (case src_group s of
        None \<Rightarrow> (case resolve_loop all rest of (st, rest') \<Rightarrow> (st, (n, s) # rest'))
      | Some gi \<Rightarrow>
        if gi_shadowName gi = [] then (case resolve_loop all rest of (st, rest') \<Rightarrow> (st, (n, s) # rest'))
        else case resolve_one all s gi of
          Inl st \<Rightarrow> (st, (n, s) # rest)
        | Inr t \<Rightarrow> (case resolve_loop all rest of (st, rest') \<Rightarrow> (st, (n, set_shadow t s) # rest')))"

definition resolveShadows :: "'v manager \<Rightarrow> status \<times> 'v manager" where
  "resolveShadows m = (case resolve_loop (datasources m) (datasources m) of (st, ds) \<Rightarrow> (st, m\<lparr>datasources := ds\<rparr>))"

section \<open>Initialisation\<close>

fun build_sources :: "(string \<Rightarrow> bool) \<Rightarrow> nat option \<Rightarrow> bool \<Rightarrow> string list \<Rightarrow> ds_config list \<Rightarrow> string list \<times> sources
    \<Rightarrow> status + (string list \<times> sources)" where
  "build_sources known limiter inherits replicaNames [] acc = Inr acc"
| "build_sources known limiter inherits replicaNames (dsc # rest) acc =
     (if dc_name dsc \<in> set (fst acc) then Inl (config_error (''duplicate datasource name: '' @ dc_name dsc))
      else case buildSingleDataSource known dsc limiter replicaNames of
        Inl st \<Rightarrow> Inl st
      | Inr s \<Rightarrow> build_sources known limiter inherits replicaNames rest
          (dc_name dsc # fst acc, (dc_name dsc, s\<lparr>src_inherits := inherits\<rparr>) # snd acc))"

definition fencing_error :: "group_config \<Rightarrow> bool \<Rightarrow> bool \<Rightarrow> status option" where
  "fencing_error gc ackFencing ackLoss =
     (if gc_failover gc \<noteq> [] \<and> \<not> ackFencing then
        Some (config_error (''group '' @ quoted (gc_name gc) @ '' configures automatic write failover without acknowledging external fencing''))
      else if gc_buffer gc \<and> \<not> ackLoss then
        Some (config_error (''group '' @ quoted (gc_name gc) @ '' enables volatile write buffering without acknowledging data-loss and duplicate-replay risk''))
      else None)"

fun build_groups :: "nat option \<Rightarrow> bool \<Rightarrow> string list \<Rightarrow> group_config list \<Rightarrow> sources \<times> string list
    \<Rightarrow> status + (sources \<times> string list)" where
  "build_groups limiter inherits newPools [] acc = Inr acc"
| "build_groups limiter inherits newPools (gc # rest) acc =
     (if map_of (fst acc) (gc_name gc) \<noteq> None then Inl (config_error (''duplicate datasource/group name: '' @ gc_name gc))
      else case fencing_error gc (gc_ack_fencing gc) (gc_ack_loss gc) of
        Some st \<Rightarrow> Inl st
      | None \<Rightarrow>
        let st = validateGroupRefs gc newPools in
        if \<not> status_ok st then Inl st
        else case buildSingleDataSourceGroup gc limiter (fst acc) of
          Inl st \<Rightarrow> Inl st
        | Inr s \<Rightarrow> build_groups limiter inherits newPools rest
            ((gc_name gc, s\<lparr>src_inherits := inherits\<rparr>) # fst acc,
             (if gc_buffer gc then snd acc @ [gc_name gc] else snd acc)))"

text \<open>Everything \<open>init\<close> builds before it touches the manager: pools, members, write buffers.\<close>

definition build_all :: "(string \<Rightarrow> bool) \<Rightarrow> 'v global_config \<Rightarrow> nat option \<Rightarrow> status + (string list \<times> sources \<times> string list)" where
  "build_all known cfg defaultLimiter =
     (let limiter = (case cfg_limiter cfg of Some l \<Rightarrow> Some l | None \<Rightarrow> defaultLimiter);
          inherits = (cfg_limiter cfg = None);
          replicaNames = concat (map (\<lambda>g. map fst (gc_replicas g)) (cfg_groups cfg))
      in if cfg_datasources cfg = [] then Inl (config_error ''no datasource configured'')
         else case build_sources known limiter inherits replicaNames (cfg_datasources cfg) ([], []) of
           Inl st \<Rightarrow> Inl st
         | Inr (newPools, leaves) \<Rightarrow>
           (case build_groups limiter inherits newPools (cfg_groups cfg) (leaves, []) of
              Inl st \<Rightarrow> Inl st
            | Inr (newSources, newBuffers) \<Rightarrow>
              if map_of newSources (cfg_default cfg) = None then
                Inl (config_error (''default_datasource '' @ quoted (cfg_default cfg) @ '' is not defined in datasources[] or groups[]''))
              else Inr (newPools, newSources, newBuffers)))"

definition inherit_limiter :: "nat option \<Rightarrow> source \<Rightarrow> source" where
  "inherit_limiter l s = (if src_inherits s then s\<lparr>src_limiter := l\<rparr> else s)"

text \<open>The result is the status, the manager, and the names of the pools and write buffers that are shut
  down afterwards. A failing \<open>resolveShadows\<close> puts the old tables back, but not \<open>defaultName\<close>
  and the services.\<close>

definition init :: "(string \<Rightarrow> bool) \<Rightarrow> 'v global_config \<Rightarrow> 'v manager \<Rightarrow> status \<times> 'v manager \<times> string list \<times> string list" where
  "init known cfg m =
     (case build_all known cfg (defaultRateLimiter m) of
        Inl st \<Rightarrow> (st, m, [], [])
      | Inr (newPools, newSources, newBuffers) \<Rightarrow>
        let m1 = m\<lparr>pools := newPools,
                   datasources := map (\<lambda>(n, s). (n, inherit_limiter (defaultRateLimiter m) s)) newSources,
                   writeBuffers := newBuffers, defaultName := cfg_default cfg, services := cfg_services cfg\<rparr>
        in case resolveShadows m1 of
             (st, m2) \<Rightarrow>
               if \<not> status_ok st then
                 (st, m2\<lparr>pools := pools m, datasources := datasources m, writeBuffers := writeBuffers m\<rparr>, [], [])
               else (status_OK, m2, pools m, writeBuffers m))"

section \<open>Changes at run time\<close>

definition name_taken :: "string \<Rightarrow> 'v manager \<Rightarrow> bool" where
  "name_taken n m \<longleftrightarrow> n \<in> set (pools m) \<or> map_of (datasources m) n \<noteq> None"

definition addDataSource :: "(string \<Rightarrow> bool) \<Rightarrow> ds_config \<Rightarrow> nat option \<Rightarrow> bool \<Rightarrow> 'v manager \<Rightarrow> status \<times> 'v manager" where
  "addDataSource known cfg optLimiter optReadOnly m =
     (if dc_name cfg = [] then (config_error ''datasource name must not be empty'', m)
      else if name_taken (dc_name cfg) m then (config_error (''datasource name already exists: '' @ dc_name cfg), m)
      else let limiter = (case optLimiter of Some l \<Rightarrow> Some l | None \<Rightarrow> defaultRateLimiter m) in
        case buildSingleDataSource known cfg limiter [] of
          Inl st \<Rightarrow> (st, m)
        | Inr s \<Rightarrow> (status_OK, m\<lparr>pools := dc_name cfg # pools m,
            datasources := (dc_name cfg, s\<lparr>src_inherits := (optLimiter = None), src_readOnly := optReadOnly\<rparr>) # datasources m\<rparr>))"

text \<open>How a group still uses a data source.\<close>

definition reference_of :: "string \<Rightarrow> group_info \<Rightarrow> string option" where
  "reference_of name gi =
     (if gi_primary gi = name then Some ''primary''
      else if name \<in> set (gi_replicas gi) then Some ''replica''
      else if name \<in> set (gi_failover gi) then Some ''failover candidate''
      else if gi_shadow gi = Some name then Some ''shadow''
      else None)"

fun find_reference :: "string \<Rightarrow> sources \<Rightarrow> status option" where
  "find_reference name [] = None"
| "find_reference name ((n, s) # rest) =
     (if src_name s = name then find_reference name rest
      else case src_group s of
        None \<Rightarrow> find_reference name rest
      | Some gi \<Rightarrow>
        (case reference_of name gi of
           None \<Rightarrow> find_reference name rest
         | Some role \<Rightarrow> Some (config_error (''datasource '' @ quoted name @ '' is still referenced by group ''
             @ quoted (src_name s) @ '' as '' @ role @ '' (remove the group first)''))))"

definition removeDataSource :: "string \<Rightarrow> 'v manager \<Rightarrow> status \<times> 'v manager \<times> string list" where
  "removeDataSource name m =
     (if name \<notin> set (pools m) then (config_error (''datasource not found: '' @ name), m, [])
      else if name = defaultName m then
        (config_error (''datasource '' @ quoted name @ '' is the current default and cannot be removed''), m, [])
      else case find_reference name (datasources m) of
        Some st \<Rightarrow> (st, m, [])
      | None \<Rightarrow> (status_OK, m\<lparr>pools := removeAll name (pools m), datasources := AList.delete name (datasources m)\<rparr>, [name]))"

definition flag_replicas :: "string list \<Rightarrow> sources \<Rightarrow> sources" where
  "flag_replicas names ds = map (\<lambda>(n, s). (n, if n \<in> set names then s\<lparr>src_readReplica := True\<rparr> else s)) ds"

text \<open>\<open>started\<close> says whether the worker thread of the write buffer could be started.\<close>

definition addGroup :: "group_config \<Rightarrow> nat option \<Rightarrow> bool \<Rightarrow> bool \<Rightarrow> bool \<Rightarrow> 'v manager \<Rightarrow> status \<times> 'v manager" where
  "addGroup cfg optLimiter ackFencing ackLoss started m =
     (if gc_name cfg = [] then (config_error ''group name must not be empty'', m)
      else if name_taken (gc_name cfg) m then (config_error (''group name already exists: '' @ gc_name cfg), m)
      else case fencing_error cfg ackFencing ackLoss of
        Some st \<Rightarrow> (st, m)
      | None \<Rightarrow>
        let st = validateGroupRefs cfg (pools m) in
        if \<not> status_ok st then (st, m)
        else let limiter = (case optLimiter of Some l \<Rightarrow> Some l | None \<Rightarrow> defaultRateLimiter m) in
          case buildSingleDataSourceGroup cfg limiter (datasources m) of
            Inl st \<Rightarrow> (st, m)
          | Inr s \<Rightarrow>
            let flagged = flag_replicas (map fst (gc_replicas cfg)) (datasources m);
                m1 = m\<lparr>datasources := (gc_name cfg, s\<lparr>src_inherits := (optLimiter = None)\<rparr>) # flagged,
                       writeBuffers := (if gc_buffer cfg then writeBuffers m @ [gc_name cfg] else writeBuffers m)\<rparr>;
                undo = (\<lambda>m. m\<lparr>datasources := AList.delete (gc_name cfg) (datasources m),
                                writeBuffers := (if gc_buffer cfg then removeAll (gc_name cfg) (writeBuffers m) else writeBuffers m)\<rparr>)
            in if gc_buffer cfg \<and> \<not> started then (status_error Unknown ''write buffer start failed'', undo m1)
               else case resolveShadows m1 of
                 (st, m2) \<Rightarrow> if \<not> status_ok st then (st, undo m2) else (status_OK, m2))"

text \<open>Removing a group recomputes which data sources are read replicas of some group.\<close>

definition all_replicas :: "sources \<Rightarrow> string list" where
  "all_replicas ds = concat (map (\<lambda>(n, s). case src_group s of None \<Rightarrow> [] | Some gi \<Rightarrow> gi_replicas gi) ds)"

definition reset_flags :: "sources \<Rightarrow> sources" where
  "reset_flags ds = map (\<lambda>(n, s). (n, if is_group s then s else s\<lparr>src_readReplica := False\<rparr>)) ds"

definition removeGroup :: "string \<Rightarrow> 'v manager \<Rightarrow> status \<times> 'v manager \<times> string list" where
  "removeGroup name m =
     (case map_of (datasources m) name of
        None \<Rightarrow> (config_error (''group not found: '' @ name), m, [])
      | Some s \<Rightarrow>
        if name \<in> set (pools m) then (config_error (''datasource '' @ quoted name @ '' is not a group (use removeDataSource)''), m, [])
        else if name = defaultName m then
          (config_error (''group '' @ quoted name @ '' is the current default and cannot be removed''), m, [])
        else
          let buffered = (case src_group s of None \<Rightarrow> False | Some gi \<Rightarrow> gi_buffer gi);
              left = AList.delete name (datasources m)
          in (status_OK, m\<lparr>datasources := flag_replicas (all_replicas left) (reset_flags left),
                writeBuffers := (if buffered then removeAll name (writeBuffers m) else writeBuffers m)\<rparr>,
              if buffered then [name] else []))"

definition setDefaultRateLimiter :: "nat option \<Rightarrow> 'v manager \<Rightarrow> 'v manager" where
  "setDefaultRateLimiter l m =
     m\<lparr>defaultRateLimiter := l, datasources := map (\<lambda>(n, s). (n, inherit_limiter l s)) (datasources m)\<rparr>"

definition getDataSource :: "string \<Rightarrow> 'v manager \<Rightarrow> source option" where
  "getDataSource n m = map_of (datasources m) n"

definition getDefault :: "'v manager \<Rightarrow> source option" where
  "getDefault m = (if defaultName m = [] then None else map_of (datasources m) (defaultName m))"

definition dataSourceCount :: "'v manager \<Rightarrow> nat" where
  "dataSourceCount m = length (datasources m)"

definition mgr_shutdown :: "'v manager \<Rightarrow> 'v manager \<times> string list \<times> string list" where
  "mgr_shutdown m = (m\<lparr>pools := [], datasources := [], writeBuffers := [], defaultName := []\<rparr>, pools m, writeBuffers m)"

end
