(* ===== verification/RegistryProps.thy ===== *)
theory RegistryProps
  imports Registry
begin

text \<open>
  The registry's invariant and what follows from it: names are unique, every reference a group
  holds leads to a registered plain data source, every pool belongs to a data source and every
  write buffer to a group, through any sequence of initialisations and changes.
\<close>

definition refs :: "group_info \<Rightarrow> string set" where
  "refs gi = insert (gi_primary gi) (set (gi_replicas gi) \<union> set (gi_failover gi) \<union> set_option (gi_shadow gi))"

definition leaf_names :: "sources \<Rightarrow> string set" where
  "leaf_names ds = {n. \<exists>s. map_of ds n = Some s \<and> src_group s = None}"

definition buffered :: "sources \<Rightarrow> string set" where
  "buffered ds = {n. \<exists>s gi. map_of ds n = Some s \<and> src_group s = Some gi \<and> gi_buffer gi}"

definition ds_ok :: "string set \<Rightarrow> sources \<Rightarrow> bool" where
  "ds_ok P ds \<longleftrightarrow> distinct (map fst ds) \<and> (\<forall>n s. map_of ds n = Some s \<longrightarrow> src_name s = n \<and> n \<noteq> []) \<and>
     leaf_names ds = P \<and> (\<forall>n s gi. map_of ds n = Some s \<longrightarrow> src_group s = Some gi \<longrightarrow> refs gi \<subseteq> P)"

definition reg_inv :: "'v manager \<Rightarrow> bool" where
  "reg_inv m \<longleftrightarrow> ds_ok (set (pools m)) (datasources m) \<and> distinct (pools m) \<and>
     set (writeBuffers m) = buffered (datasources m) \<and> distinct (writeBuffers m)"

section \<open>Updates that keep the structure\<close>

lemma map_of_values: "map_of (map (\<lambda>(n, s). (n, f n s)) ds) n = map_option (f n) (map_of ds n)"
  by (induction ds) auto

lemma keys_of_values: "map fst (map (\<lambda>(n, s). (n, f n s)) ds) = map fst ds"
  by (induction ds) auto

lemma same_structure:
  assumes "map fst ds' = map fst ds"
    and "\<And>n s'. map_of ds' n = Some s' \<Longrightarrow> \<exists>s. map_of ds n = Some s \<and> src_name s' = src_name s \<and>
      (src_group s' = src_group s \<or>
       (\<exists>gi t. src_group s = Some gi \<and> src_group s' = Some (gi\<lparr>gi_shadow := Some t\<rparr>) \<and> t \<in> leaf_names ds))"
  shows "(ds_ok P ds \<longrightarrow> ds_ok P ds') \<and> buffered ds' = buffered ds"
proof -
  have keys: "map_of ds n = None \<longleftrightarrow> map_of ds' n = None" for n
    by (metis assms(1) list.set_map map_of_eq_None_iff)
  have grp: "\<exists>s'. map_of ds' n = Some s' \<and> src_name s' = src_name s \<and>
      (src_group s' = src_group s \<or>
       (\<exists>gi t. src_group s = Some gi \<and> src_group s' = Some (gi\<lparr>gi_shadow := Some t\<rparr>) \<and> t \<in> leaf_names ds))"
    if "map_of ds n = Some s" for n s
    using assms(2) [of n] keys [of n] that by (cases "map_of ds' n") auto
  have leaf: "leaf_names ds' = leaf_names ds"
    unfolding leaf_names_def using assms(2) grp by (auto, metis option.distinct(1), metis option.distinct(1))
  have "buffered ds' \<subseteq> buffered ds"
  proof
    fix n assume "n \<in> buffered ds'"
    then obtain s' gi where s': "map_of ds' n = Some s'" "src_group s' = Some gi" "gi_buffer gi" by (auto simp: buffered_def)
    from assms(2) [OF s'(1)] s'(2,3) show "n \<in> buffered ds" unfolding buffered_def by fastforce
  qed
  moreover have "buffered ds \<subseteq> buffered ds'"
  proof
    fix n assume "n \<in> buffered ds"
    then obtain s gi where s: "map_of ds n = Some s" "src_group s = Some gi" "gi_buffer gi" by (auto simp: buffered_def)
    from grp [OF s(1)] s(2,3) show "n \<in> buffered ds'" by (auto simp: buffered_def)
  qed
  moreover have "ds_ok P ds'" if ok: "ds_ok P ds"
    unfolding ds_ok_def
  proof (intro conjI allI impI)
    show "distinct (map fst ds')" using ok assms(1) by (simp add: ds_ok_def)
    show "leaf_names ds' = P" using ok leaf by (simp add: ds_ok_def)
  next
    fix n s' assume "map_of ds' n = Some s'"
    from assms(2) [OF this] obtain s where s: "map_of ds n = Some s" "src_name s' = src_name s" by blast
    moreover from s(1) ok have "src_name s = n \<and> n \<noteq> []" unfolding ds_ok_def by blast
    ultimately show "src_name s' = n" "n \<noteq> []" by simp_all
  next
    fix n s' gi' assume s': "map_of ds' n = Some s'" "src_group s' = Some gi'"
    from assms(2) [OF s'(1)] obtain s where s: "map_of ds n = Some s"
      and alt: "src_group s = Some gi' \<or> (\<exists>gi t. src_group s = Some gi \<and> gi' = gi\<lparr>gi_shadow := Some t\<rparr> \<and> t \<in> P)"
      using s'(2) ok unfolding ds_ok_def by fastforce
    from alt show "refs gi' \<subseteq> P"
    proof
      assume "src_group s = Some gi'"
      with s ok show ?thesis unfolding ds_ok_def by blast
    next
      assume "\<exists>gi t. src_group s = Some gi \<and> gi' = gi\<lparr>gi_shadow := Some t\<rparr> \<and> t \<in> P"
      then obtain gi t where g: "src_group s = Some gi" "gi' = gi\<lparr>gi_shadow := Some t\<rparr>" "t \<in> P" by blast
      have "refs gi \<subseteq> P" using s g(1) ok unfolding ds_ok_def by blast
      with g show ?thesis by (auto simp: refs_def)
    qed
  qed
  ultimately show ?thesis by blast
qed

lemma structure_of_values:
  assumes "\<And>n s. src_name (f n s) = src_name s \<and> src_group (f n s) = src_group s"
  shows "(ds_ok P ds \<longrightarrow> ds_ok P (map (\<lambda>(n, s). (n, f n s)) ds)) \<and> buffered (map (\<lambda>(n, s). (n, f n s)) ds) = buffered ds"
  by (rule same_structure) (use assms in \<open>auto simp: map_of_values keys_of_values\<close>)

lemma structure_flag_replicas: "(ds_ok P ds \<longrightarrow> ds_ok P (flag_replicas names ds)) \<and> buffered (flag_replicas names ds) = buffered ds"
  unfolding flag_replicas_def by (rule structure_of_values) simp

lemma structure_reset_flags: "(ds_ok P ds \<longrightarrow> ds_ok P (reset_flags ds)) \<and> buffered (reset_flags ds) = buffered ds"
  unfolding reset_flags_def by (rule structure_of_values) simp

lemma structure_inherit:
  "(ds_ok P ds \<longrightarrow> ds_ok P (map (\<lambda>(n, s). (n, inherit_limiter l s)) ds)) \<and>
   buffered (map (\<lambda>(n, s). (n, inherit_limiter l s)) ds) = buffered ds"
  by (rule structure_of_values) (simp add: inherit_limiter_def)

section \<open>Shadow targets\<close>

lemma resolve_one_leaf: "resolve_one all s gi = Inr t \<Longrightarrow> t \<in> leaf_names all \<and> t \<noteq> gi_primary gi \<and> t \<notin> set (gi_replicas gi)"
  by (auto simp: resolve_one_def Let_def is_group_def leaf_names_def split: option.splits if_splits)

lemma resolve_loop_structure:
  assumes "resolve_loop all ds = (st, ds')"
  shows "map fst ds' = map fst ds \<and>
    (\<forall>n s'. map_of ds' n = Some s' \<longrightarrow> (\<exists>s. map_of ds n = Some s \<and> src_name s' = src_name s \<and>
      (src_group s' = src_group s \<or>
       (\<exists>gi t. src_group s = Some gi \<and> src_group s' = Some (gi\<lparr>gi_shadow := Some t\<rparr>) \<and> t \<in> leaf_names all))))"
  using assms
proof (induction all ds arbitrary: st ds' rule: resolve_loop.induct)
  case (2 all n s rest)
  obtain st1 rest' where r: "resolve_loop all rest = (st1, rest')" by fastforce
  show ?case
  proof (cases "src_group s")
    case None
    with 2 r show ?thesis by auto
  next
    case (Some gi)
    show ?thesis
    proof (cases "gi_shadowName gi = []")
      case True
      with Some 2 r show ?thesis by auto
    next
      case False
      show ?thesis
      proof (cases "resolve_one all s gi")
        case (Inl e)
        with Some False 2 show ?thesis by auto
      next
        case (Inr t)
        with Some False 2 r resolve_one_leaf [OF Inr] show ?thesis by (auto simp: set_shadow_def)
      qed
    qed
  qed
qed simp

lemma resolveShadows_inv:
  assumes "reg_inv m" and "resolveShadows m = (st, m')"
  shows "reg_inv m' \<and> pools m' = pools m \<and> writeBuffers m' = writeBuffers m \<and> map fst (datasources m') = map fst (datasources m)"
proof -
  obtain ds' where r: "resolve_loop (datasources m) (datasources m) = (st, ds')" "m' = m\<lparr>datasources := ds'\<rparr>"
    using assms(2) by (auto simp: resolveShadows_def split: prod.splits)
  note s = resolve_loop_structure [OF r(1)]
  have "(ds_ok (set (pools m)) (datasources m) \<longrightarrow> ds_ok (set (pools m)) ds') \<and> buffered ds' = buffered (datasources m)"
    by (rule same_structure) (use s in auto)
  with assms(1) r(2) s show ?thesis by (simp add: reg_inv_def)
qed

section \<open>Adding and deleting entries\<close>

lemma fresh_not_leaf: "map_of ds n = None \<Longrightarrow> n \<notin> leaf_names ds \<and> n \<notin> buffered ds"
  by (simp add: leaf_names_def buffered_def)

lemma ds_ok_fresh:
  assumes "ds_ok P ds" and "map_of ds n = None" and "n \<noteq> []" and "src_name s = n"
    and "\<And>gi. src_group s = Some gi \<Longrightarrow> refs gi \<subseteq> P"
  shows "ds_ok (if src_group s = None then insert n P else P) ((n, s) # ds) \<and>
    buffered ((n, s) # ds) = (case src_group s of Some gi \<Rightarrow> if gi_buffer gi then insert n (buffered ds) else buffered ds | None \<Rightarrow> buffered ds)"
proof -
  have leaf: "leaf_names ((n, s) # ds) = (if src_group s = None then insert n (leaf_names ds) else leaf_names ds)"
    using fresh_not_leaf [OF assms(2)] assms(2) by (auto simp: leaf_names_def)
  have "buffered ((n, s) # ds) = (case src_group s of Some gi \<Rightarrow> if gi_buffer gi then insert n (buffered ds) else buffered ds | None \<Rightarrow> buffered ds)"
    using assms(2) by (auto simp: buffered_def split: option.splits)
  moreover have "n \<notin> fst ` set ds" using assms(2) by (simp add: map_of_eq_None_iff)
  moreover have "leaf_names ds = P" using assms(1) by (simp add: ds_ok_def)
  moreover have "refs gi \<subseteq> P" if "map_of ds k = Some x" "src_group x = Some gi" for k x gi
    using assms(1) that unfolding ds_ok_def by blast
  ultimately show ?thesis
    using assms leaf unfolding ds_ok_def by (auto split: if_splits) blast+
qed

lemma map_of_delete: "map_of (AList.delete k ds) n = (if n = k then None else map_of ds n)"
  by (simp add: AList.delete_conv)

lemma ds_ok_delete:
  assumes "ds_ok P ds" and "\<And>n s gi. map_of ds n = Some s \<Longrightarrow> n \<noteq> k \<Longrightarrow> src_group s = Some gi \<Longrightarrow> k \<notin> refs gi"
  shows "ds_ok (P - {k}) (AList.delete k ds) \<and> buffered (AList.delete k ds) = buffered ds - {k}"
proof -
  have "leaf_names (AList.delete k ds) = leaf_names ds - {k}" "buffered (AList.delete k ds) = buffered ds - {k}"
    by (auto simp: leaf_names_def buffered_def map_of_delete)
  moreover have "distinct (map fst (AList.delete k ds))" using assms(1) by (simp add: ds_ok_def distinct_delete)
  moreover have "refs gi \<subseteq> P - {k}" if "map_of ds n = Some s" "n \<noteq> k" "src_group s = Some gi" for n s gi
    using assms(1) assms(2) [OF that] that unfolding ds_ok_def by blast
  ultimately show ?thesis using assms(1) by (auto simp: ds_ok_def map_of_delete split: if_splits)
qed

section \<open>Building\<close>

lemma unseen_subset: "set (unseen seen cs) \<subseteq> set cs"
  by (induction seen cs rule: unseen.induct) auto

lemma weighted_subset: "set (weighted rs) \<subseteq> fst ` set rs"
  by (force simp: weighted_def)

lemma built_leaf:
  assumes "buildSingleDataSource known dsc limiter replicaNames = Inr s"
  shows "src_name s = dc_name dsc \<and> src_group s = None \<and> dc_name dsc \<noteq> []"
  using assms by (auto simp: buildSingleDataSource_def split: if_splits)

lemma built_group:
  assumes "buildSingleDataSourceGroup gc limiter sources = Inr s" and "status_ok (validateGroupRefs gc P)"
  shows "src_name s = gc_name gc \<and> gc_name gc \<noteq> [] \<and>
    (\<exists>gi. src_group s = Some gi \<and> refs gi \<subseteq> set P \<and> gi_buffer gi = gc_buffer gc \<and> gi_shadow gi = None)"
proof -
  have v: "gc_primary gc \<in> set P" "fst ` set (gc_replicas gc) \<subseteq> set P" "set (gc_failover gc) \<subseteq> set P"
    using assms(2) by (auto simp: validateGroupRefs_def config_error_def status_ok_def find_None_iff split: if_splits option.splits)
  have "set (unseen [gc_primary gc] (gc_failover gc)) \<subseteq> set P" using v(3) unseen_subset by blast
  moreover have "set (weighted (gc_replicas gc)) \<subseteq> set P" using v(2) weighted_subset by blast
  ultimately show ?thesis
    using assms(1) v(1) by (auto simp: buildSingleDataSourceGroup_def Let_def refs_def split: if_splits option.splits)
qed

lemma build_sources_ok:
  assumes "build_sources known limiter inherits replicaNames cfgs acc = Inr (P, ds)"
    and "ds_ok (set (fst acc)) (snd acc)" and "distinct (fst acc)" and "buffered (snd acc) = {}"
    and "fst ` set (snd acc) \<subseteq> set (fst acc)"
  shows "ds_ok (set P) ds \<and> distinct P \<and> buffered ds = {}"
  using assms
proof (induction known limiter inherits replicaNames cfgs acc rule: build_sources.induct)
  case (2 known limiter inherits replicaNames dsc rest acc)
  obtain s where b: "buildSingleDataSource known dsc limiter replicaNames = Inr s" and fresh: "dc_name dsc \<notin> set (fst acc)"
    using 2(2) by (auto split: if_splits sum.splits)
  note s = built_leaf [OF b]
  let ?s = "s\<lparr>src_inherits := inherits\<rparr>"
  have "map_of (snd acc) (dc_name dsc) = None" using fresh 2(6) by (auto simp: map_of_eq_None_iff)
  from ds_ok_fresh [OF 2(3) this, of ?s] s 2(5)
  have "ds_ok (set (dc_name dsc # fst acc)) ((dc_name dsc, ?s) # snd acc) \<and> buffered ((dc_name dsc, ?s) # snd acc) = {}" by simp
  with 2(1) [OF fresh b] 2(2,4,6) fresh b show ?case by auto
qed simp

lemma build_groups_ok:
  assumes "build_groups limiter inherits P gcs acc = Inr (ds, bufs)"
    and "ds_ok (set P) (fst acc)" and "set (snd acc) = buffered (fst acc)" and "distinct (snd acc)"
  shows "ds_ok (set P) ds \<and> set bufs = buffered ds \<and> distinct bufs"
  using assms
proof (induction limiter inherits P gcs acc rule: build_groups.induct)
  case (2 limiter inherits P gc rest acc)
  obtain s where fresh: "map_of (fst acc) (gc_name gc) = None" and f: "fencing_error gc (gc_ack_fencing gc) (gc_ack_loss gc) = None"
    and v: "status_ok (validateGroupRefs gc P)" and b: "buildSingleDataSourceGroup gc limiter (fst acc) = Inr s"
    using 2(2) by (auto simp: Let_def split: if_splits option.splits sum.splits)
  obtain gi where g: "src_group s = Some gi" "refs gi \<subseteq> set P" "gi_buffer gi = gc_buffer gc" "src_name s = gc_name gc" "gc_name gc \<noteq> []"
    using built_group [OF b v] by blast
  let ?s = "s\<lparr>src_inherits := inherits\<rparr>"
  let ?bufs = "if gc_buffer gc then snd acc @ [gc_name gc] else snd acc"
  from ds_ok_fresh [OF 2(3) fresh, of ?s] g
  have ok: "ds_ok (set P) ((gc_name gc, ?s) # fst acc)"
    and buf: "buffered ((gc_name gc, ?s) # fst acc) = (if gc_buffer gc then insert (gc_name gc) (buffered (fst acc)) else buffered (fst acc))"
    by auto
  have new: "gc_name gc \<notin> set (snd acc)" using fresh_not_leaf [OF fresh] 2(4) by simp
  have eq: "build_groups limiter inherits P rest ((gc_name gc, ?s) # fst acc, ?bufs) = Inr (ds, bufs)"
    using 2(2) fresh f v b by simp
  have "set ?bufs = buffered ((gc_name gc, ?s) # fst acc)" "distinct ?bufs" using buf 2(4,5) new by auto
  with 2(1) [OF _ f refl _ b] fresh v eq ok show ?case by auto
qed simp

section \<open>Every operation keeps the invariant\<close>

lemma build_all_ok:
  assumes "build_all known cfg l = Inr (P, ds, bufs)"
  shows "ds_ok (set P) ds \<and> distinct P \<and> set bufs = buffered ds \<and> distinct bufs \<and> map_of ds (cfg_default cfg) \<noteq> None"
proof -
  obtain limiter inherits replicaNames leaves where
    b: "build_sources known limiter inherits replicaNames (cfg_datasources cfg) ([], []) = Inr (P, leaves)"
    and g: "build_groups limiter inherits P (cfg_groups cfg) (leaves, []) = Inr (ds, bufs)"
    and d: "map_of ds (cfg_default cfg) \<noteq> None"
    using assms by (auto simp: build_all_def Let_def split: if_splits sum.splits)
  have "ds_ok (set P) leaves \<and> distinct P \<and> buffered leaves = {}"
    by (rule build_sources_ok [OF b]) (simp_all add: ds_ok_def leaf_names_def buffered_def)
  with build_groups_ok [OF g] d show ?thesis by simp
qed

lemma init_inv:
  assumes "reg_inv m" and "init known cfg m = (st, m', shut, stopped)"
  shows "reg_inv m'"
proof (cases "build_all known cfg (defaultRateLimiter m)")
  case (Inl e)
  with assms show ?thesis by (simp add: init_def)
next
  case (Inr built)
  obtain P ds bufs where built: "built = (P, ds, bufs)" using prod_cases3 by blast
  let ?m1 = "m\<lparr>pools := P, datasources := map (\<lambda>(n, s). (n, inherit_limiter (defaultRateLimiter m) s)) ds,
      writeBuffers := bufs, defaultName := cfg_default cfg, services := cfg_services cfg\<rparr>"
  have "reg_inv ?m1"
    using build_all_ok [OF Inr [unfolded built]] structure_inherit [of "set P" ds "defaultRateLimiter m"]
    by (simp add: reg_inv_def)
  moreover obtain st1 m2 where r: "resolveShadows ?m1 = (st1, m2)" by fastforce
  ultimately have "reg_inv m2" by (blast dest: resolveShadows_inv)
  with assms Inr built r show ?thesis by (auto simp: init_def Let_def reg_inv_def split: if_splits)
qed

lemma addDataSource_inv:
  assumes "reg_inv m" and "addDataSource known cfg l ro m = (st, m')"
  shows "reg_inv m'"
proof (cases "m' = m")
  case False
  then obtain s where b: "buildSingleDataSource known cfg (case l of Some l \<Rightarrow> Some l | None \<Rightarrow> defaultRateLimiter m) [] = Inr s"
    and fresh: "\<not> name_taken (dc_name cfg) m" and m': "m' = m\<lparr>pools := dc_name cfg # pools m,
        datasources := (dc_name cfg, s\<lparr>src_inherits := (l = None), src_readOnly := ro\<rparr>) # datasources m\<rparr>"
    using assms(2) by (auto simp: addDataSource_def Let_def split: if_splits sum.splits)
  note s = built_leaf [OF b]
  have ok: "ds_ok (set (pools m)) (datasources m)" and n: "map_of (datasources m) (dc_name cfg) = None"
    using assms(1) fresh by (simp_all add: reg_inv_def name_taken_def)
  from ds_ok_fresh [OF ok n, of "s\<lparr>src_inherits := (l = None), src_readOnly := ro\<rparr>"] s assms(1) m' fresh
  show ?thesis by (simp add: reg_inv_def name_taken_def)
qed (use assms in simp)

lemma reference_of_None: "reference_of name gi = None \<longleftrightarrow> name \<notin> refs gi"
  by (auto simp: reference_of_def refs_def split: option.splits)

lemma find_reference_None:
  assumes "find_reference name ds = None" and "map_of ds n = Some s" and "src_name s \<noteq> name" and "src_group s = Some gi"
  shows "name \<notin> refs gi"
  using assms
  by (induction name ds rule: find_reference.induct) (auto simp: reference_of_None split: if_splits option.splits)

lemma find_reference_error: "find_reference name ds = Some st \<Longrightarrow> code st = ConfigError"
  by (induction name ds rule: find_reference.induct) (auto simp: config_error_def split: if_splits option.splits)

lemma find_reference_absent:
  assumes "\<forall>(n, x)\<in>set ds. \<forall>gi. src_group x = Some gi \<longrightarrow> name \<notin> refs gi"
  shows "find_reference name ds = None"
  using assms
proof (induction ds)
  case (Cons a ds)
  obtain n x where a: "a = (n, x)" by fastforce
  have "reference_of name gi = None" if "src_group x = Some gi" for gi
    using Cons.prems a that by (auto simp: reference_of_None)
  with Cons a show ?case by (cases "src_group x") auto
qed simp

lemma leaf_not_buffered: "n \<in> leaf_names ds \<Longrightarrow> n \<notin> buffered ds"
  by (auto simp: leaf_names_def buffered_def)

lemma removeDataSource_inv:
  assumes "reg_inv m" and "removeDataSource name m = (st, m', shut)"
  shows "reg_inv m'"
proof (cases "m' = m")
  case False
  then have f: "find_reference name (datasources m) = None" and pool: "name \<in> set (pools m)"
    and m': "m' = m\<lparr>pools := removeAll name (pools m), datasources := AList.delete name (datasources m)\<rparr>"
    using assms(2) by (auto simp: removeDataSource_def split: if_splits option.splits)
  have ok: "ds_ok (set (pools m)) (datasources m)" using assms(1) by (simp add: reg_inv_def)
  then have names: "src_name s = n" if "map_of (datasources m) n = Some s" for n s
    using that unfolding ds_ok_def by blast
  have "ds_ok (set (pools m) - {name}) (AList.delete name (datasources m)) \<and>
      buffered (AList.delete name (datasources m)) = buffered (datasources m) - {name}"
    by (rule ds_ok_delete [OF ok]) (metis f find_reference_None names)
  moreover have "name \<notin> buffered (datasources m)"
    using ok pool leaf_not_buffered [of name "datasources m"] by (simp add: ds_ok_def)
  ultimately show ?thesis using assms(1) m' by (simp add: reg_inv_def distinct_removeAll)
qed (use assms in simp)

lemma not_pool_not_referenced:
  assumes "ds_ok P ds" and "k \<notin> P" and "map_of ds n = Some s" and "src_group s = Some gi"
  shows "k \<notin> refs gi"
  using assms unfolding ds_ok_def by blast

lemma addGroup_inv:
  assumes inv: "reg_inv m" and run: "addGroup cfg l af al started m = (st, m')"
  shows "reg_inv m'"
proof -
  let ?l = "case l of Some l \<Rightarrow> Some l | None \<Rightarrow> defaultRateLimiter m"
  show ?thesis
  proof (cases "gc_name cfg = [] \<or> name_taken (gc_name cfg) m \<or> fencing_error cfg af al \<noteq> None \<or>
      \<not> status_ok (validateGroupRefs cfg (pools m)) \<or> (\<exists>e. buildSingleDataSourceGroup cfg ?l (datasources m) = Inl e)")
    case True
    with run inv show ?thesis by (auto simp: addGroup_def Let_def split: if_splits option.splits sum.splits)
  next
    case False
    then obtain s where fresh: "\<not> name_taken (gc_name cfg) m" and v: "status_ok (validateGroupRefs cfg (pools m))"
      and b: "buildSingleDataSourceGroup cfg ?l (datasources m) = Inr s"
      by (metis sum.exhaust)
    obtain gi where g: "src_group s = Some gi" "refs gi \<subseteq> set (pools m)" "gi_buffer gi = gc_buffer cfg"
      "src_name s = gc_name cfg" "gc_name cfg \<noteq> []"
      using built_group [OF b v] by blast
    let ?fl = "flag_replicas (map fst (gc_replicas cfg)) (datasources m)"
    let ?s = "s\<lparr>src_inherits := (l = None)\<rparr>"
    let ?m1 = "m\<lparr>datasources := (gc_name cfg, ?s) # ?fl,
        writeBuffers := (if gc_buffer cfg then writeBuffers m @ [gc_name cfg] else writeBuffers m)\<rparr>"
    have fl: "ds_ok (set (pools m)) ?fl" "buffered ?fl = buffered (datasources m)"
      using inv structure_flag_replicas [of "set (pools m)" "datasources m"] by (simp_all add: reg_inv_def)
    have new: "map_of ?fl (gc_name cfg) = None" "gc_name cfg \<notin> set (pools m)"
      using fresh by (simp_all add: name_taken_def flag_replicas_def map_of_values)
    have nb: "gc_name cfg \<notin> set (writeBuffers m)" using fresh_not_leaf [OF new(1)] fl(2) inv by (simp add: reg_inv_def)
    have m1: "reg_inv ?m1" using ds_ok_fresh [OF fl(1) new(1), of ?s] g inv fl(2) nb by (auto simp: reg_inv_def)
    obtain st2 m2 where r: "resolveShadows ?m1 = (st2, m2)" by fastforce
    note m2 = resolveShadows_inv [OF m1 r]
    define undo where "undo = (\<lambda>x :: 'a manager. x\<lparr>datasources := AList.delete (gc_name cfg) (datasources x),
        writeBuffers := (if gc_buffer cfg then removeAll (gc_name cfg) (writeBuffers x) else writeBuffers x)\<rparr>)"
    have u: "reg_inv (undo x)" if x: "reg_inv x" "pools x = pools m" "gc_name cfg \<in> buffered (datasources x) \<longleftrightarrow> gc_buffer cfg" for x
    proof -
      have ok: "ds_ok (set (pools m)) (datasources x)" using x by (simp add: reg_inv_def)
      have "ds_ok (set (pools m) - {gc_name cfg}) (AList.delete (gc_name cfg) (datasources x)) \<and>
          buffered (AList.delete (gc_name cfg) (datasources x)) = buffered (datasources x) - {gc_name cfg}"
        by (rule ds_ok_delete [OF ok]) (metis ok new(2) not_pool_not_referenced)
      with x new(2) show ?thesis by (auto simp: reg_inv_def undo_def distinct_removeAll)
    qed
    have bufs: "set (writeBuffers x) = buffered (datasources x)" if "reg_inv x" for x :: "'a manager"
      using that by (simp add: reg_inv_def)
    have wb: "gc_name cfg \<in> set (writeBuffers ?m1) \<longleftrightarrow> gc_buffer cfg" using nb by simp
    have b1: "gc_name cfg \<in> buffered (datasources ?m1) \<longleftrightarrow> gc_buffer cfg" using wb unfolding bufs [OF m1] .
    have m2': "reg_inv m2" "pools m2 = pools m" "writeBuffers m2 = writeBuffers ?m1" using m2 by simp_all
    have b2: "gc_name cfg \<in> buffered (datasources m2) \<longleftrightarrow> gc_buffer cfg"
      using wb unfolding bufs [OF m2'(1), symmetric] m2'(3) .
    have "addGroup cfg l af al started m =
        (if gc_buffer cfg \<and> \<not> started then (status_error Unknown ''write buffer start failed'', undo ?m1)
         else case resolveShadows ?m1 of (st, m2) \<Rightarrow> if \<not> status_ok st then (st, undo m2) else (status_OK, m2))"
      using False b unfolding addGroup_def Let_def undo_def by simp
    then have "m' = undo ?m1 \<or> m' = undo m2 \<or> m' = m2"
      unfolding r using run by (auto split: if_splits)
    moreover have "reg_inv (undo ?m1)" by (rule u [OF m1 _ b1]) simp
    moreover have "reg_inv (undo m2)" by (rule u [OF m2'(1,2) b2])
    ultimately show ?thesis using m2'(1) by blast
  qed
qed

lemma removeGroup_inv:
  assumes "reg_inv m" and "removeGroup name m = (st, m', stopped)"
  shows "reg_inv m'"
proof (cases "m' = m")
  case False
  let ?left = "AList.delete name (datasources m)"
  obtain s where s: "map_of (datasources m) name = Some s" and np: "name \<notin> set (pools m)"
    and m': "m' = m\<lparr>datasources := flag_replicas (all_replicas ?left) (reset_flags ?left),
      writeBuffers := (if (case src_group s of None \<Rightarrow> False | Some gi \<Rightarrow> gi_buffer gi) then removeAll name (writeBuffers m) else writeBuffers m)\<rparr>"
    using False assms(2) by (auto simp: removeGroup_def Let_def split: if_splits option.splits)
  have ok: "ds_ok (set (pools m)) (datasources m)" using assms(1) by (simp add: reg_inv_def)
  have "ds_ok (set (pools m) - {name}) ?left \<and> buffered ?left = buffered (datasources m) - {name}"
    by (rule ds_ok_delete [OF ok]) (metis ok np not_pool_not_referenced)
  then have "ds_ok (set (pools m)) (datasources m') \<and> buffered (datasources m') = buffered (datasources m) - {name}"
    using np m' structure_reset_flags [of "set (pools m)" ?left]
      structure_flag_replicas [of "set (pools m)" "reset_flags ?left" "all_replicas ?left"] by simp
  moreover have "name \<in> buffered (datasources m) \<longleftrightarrow> (case src_group s of None \<Rightarrow> False | Some gi \<Rightarrow> gi_buffer gi)"
    using s by (auto simp: buffered_def split: option.splits)
  ultimately show ?thesis using assms(1) m' by (auto simp: reg_inv_def distinct_removeAll)
qed (use assms in simp)

lemma setDefaultRateLimiter_inv: "reg_inv m \<Longrightarrow> reg_inv (setDefaultRateLimiter l m)"
  using structure_inherit [of "set (pools m)" "datasources m" l]
  by (simp add: reg_inv_def setDefaultRateLimiter_def)

lemma mgr_shutdown_inv: "reg_inv (fst (mgr_shutdown m))"
  by (simp add: reg_inv_def mgr_shutdown_def ds_ok_def leaf_names_def buffered_def)

section \<open>The registry as a system\<close>

inductive reg_step :: "(string \<Rightarrow> bool) \<Rightarrow> 'v manager \<Rightarrow> 'v manager \<Rightarrow> bool" for known where
  step_init: "init known cfg m = (st, m', shut, stopped) \<Longrightarrow> reg_step known m m'"
| step_addDataSource: "addDataSource known dsc l ro m = (st, m') \<Longrightarrow> reg_step known m m'"
| step_removeDataSource: "removeDataSource name m = (st, m', shut) \<Longrightarrow> reg_step known m m'"
| step_addGroup: "addGroup gc l af al started m = (st, m') \<Longrightarrow> reg_step known m m'"
| step_removeGroup: "removeGroup name m = (st, m', stopped) \<Longrightarrow> reg_step known m m'"
| step_limiter: "reg_step known m (setDefaultRateLimiter l m)"
| step_shutdown: "reg_step known m (fst (mgr_shutdown m))"

lemma reg_step_inv: "reg_step known m m' \<Longrightarrow> reg_inv m \<Longrightarrow> reg_inv m'"
  by (induction rule: reg_step.induct)
    (auto intro: init_inv addDataSource_inv removeDataSource_inv addGroup_inv removeGroup_inv setDefaultRateLimiter_inv mgr_shutdown_inv)

lemma new_manager_inv: "reg_inv (new_manager v)"
  by (simp add: reg_inv_def new_manager_def ds_ok_def leaf_names_def buffered_def)

interpretation reg: invariant_system "\<lambda>m. \<exists>v. m = new_manager v" "reg_step known" reg_inv for known
  by unfold_locales (auto intro: new_manager_inv reg_step_inv)

text \<open>C7: the registry never holds a dangling reference. Through any sequence of initialisations,
  additions and removals of data sources and groups, successful or refused, and shutdowns: the
  primary, every replica, every failover candidate and the shadow of every registered group are
  registered plain data sources, each with a pool; the pools are exactly those of the plain data
  sources; and the write buffers are exactly those of the registered groups that have one, so no
  worker outlives its group.\<close>

theorem registry_integrity:
  assumes "reachable (\<lambda>m. \<exists>v. m = new_manager v) (reg_step known) m"
  shows "(\<forall>n s gi r. getDataSource n m = Some s \<and> src_group s = Some gi \<and> r \<in> refs gi \<longrightarrow>
      r \<in> set (pools m) \<and> (\<exists>t. getDataSource r m = Some t \<and> src_group t = None)) \<and>
    set (pools m) = leaf_names (datasources m) \<and> set (writeBuffers m) = buffered (datasources m) \<and>
    distinct (pools m) \<and> distinct (writeBuffers m) \<and> distinct (map fst (datasources m))"
proof -
  have inv: "reg_inv m" using reg.reachable_inv [OF assms] .
  then have ok: "ds_ok (set (pools m)) (datasources m)" by (simp add: reg_inv_def)
  have leaf: "leaf_names (datasources m) = set (pools m)" using ok by (simp add: ds_ok_def)
  have "r \<in> set (pools m)" if "map_of (datasources m) n = Some s" "src_group s = Some gi" "r \<in> refs gi" for n s gi r
    using ok that unfolding ds_ok_def by blast
  with inv ok leaf show ?thesis
    unfolding getDataSource_def by (auto simp: reg_inv_def leaf_names_def) (auto simp: ds_ok_def)
qed

text \<open>A configuration of one data source \<open>a\<close>, and one that adds a replica \<open>b\<close> and a group over both.\<close>

definition one_source :: "nat global_config" where
  "one_source = \<lparr>cfg_default = ''a'', cfg_datasources = [\<lparr>dc_name = ''a'', dc_type = ''pg''\<rparr>], cfg_groups = [], cfg_limiter = None, cfg_services = 1\<rparr>"

definition group_ab :: "string \<Rightarrow> group_config" where
  "group_ab sh = \<lparr>gc_name = ''g'', gc_primary = ''a'', gc_replicas = [(''b'', 2)], gc_read_after_write_ms = 0, gc_fallback_to_primary = True,
     gc_read_only = False, gc_failover = [''b''], gc_ack_fencing = True, gc_require_healthy = False, gc_buffer = True, gc_ack_loss = True,
     gc_shadow = sh\<rparr>"

definition two_sources :: "string \<Rightarrow> nat global_config" where
  "two_sources sh = \<lparr>cfg_default = ''g'', cfg_datasources = [\<lparr>dc_name = ''a'', dc_type = ''pg''\<rparr>, \<lparr>dc_name = ''b'', dc_type = ''pg''\<rparr>],
     cfg_groups = [group_ab sh], cfg_limiter = None, cfg_services = 2\<rparr>"

definition manager_ab :: "nat manager" where
  "manager_ab = fst (snd (init (\<lambda>t. t = ''pg'') (two_sources []) (new_manager 0)))"

lemma manager_ab_reachable: "reachable (\<lambda>m. \<exists>v. m = new_manager v) (reg_step (\<lambda>t. t = ''pg'')) manager_ab"
proof -
  have "reachable (\<lambda>m. \<exists>v. m = new_manager v) (reg_step (\<lambda>t. t = ''pg'')) (new_manager (0 :: nat))"
    by (rule reach_init) blast
  then show ?thesis
    by (rule reach_step) (rule step_init [where st = "fst (init (\<lambda>t. t = ''pg'') (two_sources []) (new_manager 0))"
      and shut = "fst (snd (snd (init (\<lambda>t. t = ''pg'') (two_sources []) (new_manager 0))))"
      and stopped = "snd (snd (snd (init (\<lambda>t. t = ''pg'') (two_sources []) (new_manager 0))))" and cfg = "two_sources []"], simp add: manager_ab_def)
qed

theorem registry_integrity_witness:
  "set (pools manager_ab) = leaf_names (datasources manager_ab) \<and> set (writeBuffers manager_ab) = buffered (datasources manager_ab)"
  using registry_integrity [OF manager_ab_reachable] by blast

text \<open>A failed re-initialisation does not leave the manager as it was. When the shadow target of the
  new configuration is refused, the old data sources are put back but the default name and the
  services (audit policy, result cache, interceptors) are those of the refused configuration: here
  the manager has a working data source and no default any more.\<close>

theorem failed_init_changes_default:
  "case init (\<lambda>t. t = ''pg'') one_source (new_manager 0) of (st1, m1, shut1, stopped1) \<Rightarrow>
   (case init (\<lambda>t. t = ''pg'') (two_sources ''nowhere'') m1 of (st2, m2, shut2, stopped2) \<Rightarrow>
      status_ok st1 \<and> \<not> status_ok st2 \<and> datasources m2 = datasources m1 \<and>
      map_option src_name (getDefault m1) = Some ''a'' \<and> Option.is_none (getDefault m2) \<and> services m1 = 1 \<and> services m2 = 2)"
  by code_simp

text \<open>A refused group leaves its mark on the replicas. \<open>addGroup\<close> marks the replicas before it
  resolves the shadow target; when that is refused the group is taken out again but the marks
  stay, so that with \<open>cache_on_replica_only\<close> results of a data source that is no replica of any
  group are cached.\<close>

theorem refused_group_marks_replicas:
  "case addDataSource (\<lambda>t. t = ''pg'') \<lparr>dc_name = ''b'', dc_type = ''pg''\<rparr> None False
      (fst (snd (init (\<lambda>t. t = ''pg'') one_source (new_manager 0)))) of (st1, m1) \<Rightarrow>
   (case addGroup (group_ab ''nowhere'') None True True True m1 of (st2, m2) \<Rightarrow>
      status_ok st1 \<and> \<not> status_ok st2 \<and> Option.is_none (getDataSource ''g'' m2) \<and>
      map_option src_readReplica (getDataSource ''b'' m1) = Some False \<and>
      map_option src_readReplica (getDataSource ''b'' m2) = Some True)"
  by code_simp

text \<open>Adding and removing a data source are inverse. A data source that was added to a consistent
  registry can be removed again, which closes exactly its pool and restores the registry; and a
  data source that is in use by a group, or is the default, is never removed.\<close>

theorem add_remove_source:
  assumes "reachable (\<lambda>m. \<exists>v. m = new_manager v) (reg_step known) m"
    and "addDataSource known cfg l ro m = (st, m')" and "status_ok st" and "defaultName m \<noteq> dc_name cfg"
  shows "removeDataSource (dc_name cfg) m' = (status_OK, m, [dc_name cfg]) \<and>
    (\<forall>n s gi. getDataSource n m = Some s \<and> src_group s = Some gi \<longrightarrow> (\<forall>r\<in>refs gi. \<not> status_ok (fst (removeDataSource r m))))"
proof -
  have inv: "reg_inv m" using reg.reachable_inv [OF assms(1)] .
  then have ok: "ds_ok (set (pools m)) (datasources m)" by (simp add: reg_inv_def)
  obtain s where b: "buildSingleDataSource known cfg (case l of Some l \<Rightarrow> Some l | None \<Rightarrow> defaultRateLimiter m) [] = Inr s"
    and fresh: "\<not> name_taken (dc_name cfg) m" and m': "m' = m\<lparr>pools := dc_name cfg # pools m,
        datasources := (dc_name cfg, s\<lparr>src_inherits := (l = None), src_readOnly := ro\<rparr>) # datasources m\<rparr>"
    using assms(2,3) by (auto simp: addDataSource_def Let_def config_error_def status_ok_def buildSingleDataSource_def split: if_splits sum.splits)
  note leaf = built_leaf [OF b]
  have np: "dc_name cfg \<notin> set (pools m)" and nd: "dc_name cfg \<notin> fst ` set (datasources m)"
    using fresh by (auto simp: name_taken_def map_of_eq_None_iff)
  have "\<forall>(n, x)\<in>set (datasources m). \<forall>gi. src_group x = Some gi \<longrightarrow> dc_name cfg \<notin> refs gi"
  proof clarify
    fix n x gi assume x: "(n, x) \<in> set (datasources m)" "src_group x = Some gi" "dc_name cfg \<in> refs gi"
    then have "map_of (datasources m) n = Some x" using ok by (simp add: ds_ok_def)
    from not_pool_not_referenced [OF ok np this x(2)] x(3) show False by blast
  qed
  then have "find_reference (dc_name cfg) (datasources m) = None" by (rule find_reference_absent)
  then have "removeDataSource (dc_name cfg) m' = (status_OK, m, [dc_name cfg])"
    using m' leaf np nd assms(4) by (cases m) (auto simp: removeDataSource_def)
  moreover have "\<not> status_ok (fst (removeDataSource r m))"
    if g: "map_of (datasources m) n = Some x" "src_group x = Some gi" and r: "r \<in> refs gi" for n x gi r
  proof -
    have "r \<in> set (pools m)" "src_name x = n" using ok g r unfolding ds_ok_def by blast+
    moreover have "n \<noteq> r"
    proof
      assume "n = r"
      have "r \<in> leaf_names (datasources m)" using \<open>r \<in> set (pools m)\<close> ok by (simp add: ds_ok_def)
      with g \<open>n = r\<close> show False by (simp add: leaf_names_def)
    qed
    ultimately have "find_reference r (datasources m) \<noteq> None" using find_reference_None [OF _ g(1) _ g(2), of r] r by auto
    then show ?thesis
      by (auto simp: removeDataSource_def config_error_def status_ok_def find_reference_error split: option.splits)
  qed
  ultimately show ?thesis unfolding getDataSource_def by blast
qed

theorem add_remove_source_witness:
  "removeDataSource ''c'' (snd (addDataSource (\<lambda>t. t = ''pg'') \<lparr>dc_name = ''c'', dc_type = ''pg''\<rparr> None False manager_ab)) =
     (status_OK, manager_ab, [''c''])"
proof -
  let ?a = "addDataSource (\<lambda>t. t = ''pg'') \<lparr>dc_name = ''c'', dc_type = ''pg''\<rparr> None False manager_ab"
  have a: "?a = (fst ?a, snd ?a)" by simp
  have "status_ok (fst ?a)" "defaultName manager_ab \<noteq> dc_name \<lparr>dc_name = ''c'', dc_type = ''pg''\<rparr>" by code_simp+
  from add_remove_source [OF manager_ab_reachable a this] show ?thesis by simp
qed

end
