(* ===== verification/Yaml.thy ===== *)
theory Yaml
  imports Prelude Complex_Main
begin

text \<open>
  The YAML reader of \<open>src/config/yaml_parser.cpp\<close>: lines with their indentation, comments, scalars,
  flow sequences, block mappings and sequences. The result is a JSON value. Where the reader calls
  \<open>json::parse\<close> of the JSON library (double-quoted strings, flow collections that are JSON,
  numbers) that function is the parameter \<open>jparse\<close>; \<open>None\<close> stands for its exception.

  The mutually recursive block parsers work on the list of lines not yet consumed and carry fuel;
  running out of it is the result \<open>NoFuel\<close>, and it is shown that it does not happen. Error messages
  are as in the source, without the text of the JSON exception some of them append.
\<close>

datatype json = JNull | JBool bool | JInt int | JFloat rat | JString string
  | JArray "json list" | JObject "(string \<times> json) list"

text \<open>Objects are kept in key order, as by the library.\<close>

fun obj_set :: "string \<Rightarrow> json \<Rightarrow> (string \<times> json) list \<Rightarrow> (string \<times> json) list" where
  "obj_set k v [] = [(k, v)]"
| "obj_set k v ((k', v') # fs) =
     (if k = k' then (k, v) # fs else if k < k' then (k, v) # (k', v') # fs else (k', v') # obj_set k v fs)"

definition trim :: "string \<Rightarrow> string" where
  "trim s = rev (dropWhile is_space (rev (dropWhile is_space s)))"

definition to_lower :: "char \<Rightarrow> char" where
  "to_lower c = (if is_upper c then char_of (of_char c + 32 :: nat) else c)"

definition lower :: "string \<Rightarrow> string" where
  "lower s = map to_lower s"

section \<open>Scanners\<close>

text \<open>\<open>single\<close>, \<open>dq\<close> and \<open>esc\<close> are the quotation state; \<open>prev\<close> is the character before, if any.\<close>

fun without_comment :: "bool \<Rightarrow> bool \<Rightarrow> bool \<Rightarrow> char option \<Rightarrow> string \<Rightarrow> string" where
  "without_comment single dq esc prev [] = []"
| "without_comment single dq esc prev (c # cs) =
     (if dq \<and> esc then c # without_comment single dq False (Some c) cs
      else if dq \<and> c = backslash then c # without_comment single dq True (Some c) cs
      else if \<not> dq \<and> c = squote then
        (case cs of
           d # ds \<Rightarrow> if single \<and> d = squote then c # d # without_comment single dq esc (Some d) ds
                     else c # without_comment (\<not> single) dq esc (Some c) cs
         | [] \<Rightarrow> [c])
      else if \<not> single \<and> c = dquote then c # without_comment single (\<not> dq) esc (Some c) cs
      else if \<not> single \<and> \<not> dq \<and> c = CHR ''#'' \<and> (case prev of None \<Rightarrow> True | Some p \<Rightarrow> is_space p) then []
      else c # without_comment single dq esc (Some c) cs)"

definition withoutComment :: "string \<Rightarrow> string" where
  "withoutComment s = without_comment False False False None s"

fun mapping_colon :: "bool \<Rightarrow> bool \<Rightarrow> bool \<Rightarrow> int \<Rightarrow> string \<Rightarrow> nat option" where
  "mapping_colon single dq esc depth [] = None"
| "mapping_colon single dq esc depth (c # cs) =
     (if dq \<and> esc then map_option Suc (mapping_colon single dq False depth cs)
      else if dq \<and> c = backslash then map_option Suc (mapping_colon single dq True depth cs)
      else if \<not> dq \<and> c = squote then
        (case cs of
           d # ds \<Rightarrow> if single \<and> d = squote then map_option (Suc \<circ> Suc) (mapping_colon single dq esc depth ds)
                     else map_option Suc (mapping_colon (\<not> single) dq esc depth cs)
         | [] \<Rightarrow> None)
      else if \<not> single \<and> c = dquote then map_option Suc (mapping_colon single (\<not> dq) esc depth cs)
      else if single \<or> dq then map_option Suc (mapping_colon single dq esc depth cs)
      else if c = CHR ''['' \<or> c = CHR ''{'' then map_option Suc (mapping_colon single dq esc (depth + 1) cs)
      else if c = CHR '']'' \<or> c = CHR ''}'' then map_option Suc (mapping_colon single dq esc (depth - 1) cs)
      else if c = CHR '':'' \<and> depth = 0 \<and> (cs = [] \<or> is_space (hd cs)) then Some 0
      else map_option Suc (mapping_colon single dq esc depth cs))"

definition mappingColon :: "string \<Rightarrow> nat option" where
  "mappingColon s = mapping_colon False False False 0 s"

definition sequenceLine :: "string \<Rightarrow> bool" where
  "sequenceLine s \<longleftrightarrow> s \<noteq> [] \<and> hd s = CHR ''-'' \<and> (length s = 1 \<or> is_space (s ! 1))"

record line =
  lnumber :: nat
  lindent :: nat
  ltext :: string

text \<open>\<open>std::getline\<close>: the text between line feeds; nothing after a final one.\<close>

fun getlines :: "string \<Rightarrow> string \<Rightarrow> string list" where
  "getlines cur [] = (if cur = [] then [] else [cur])"
| "getlines cur (c # cs) = (if c = newline then cur # getlines [] cs else getlines (cur @ [c]) cs)"

fun tokenize_lines :: "nat \<Rightarrow> string list \<Rightarrow> string + line list" where
  "tokenize_lines number [] = Inr []"
| "tokenize_lines number (raw0 # rest) =
     (let raw = (if raw0 \<noteq> [] \<and> last raw0 = CHR 0x0D then butlast raw0 else raw0);
          indent = length (takeWhile (\<lambda>c. c = space) raw);
          n = number + 1
      in if indent < length raw \<and> raw ! indent = CHR 0x09 then
           Inl (''line '' @ nat_to_string n @ '': tabs are not allowed for YAML indentation'')
         else let content = trim (withoutComment (drop indent raw))
           in if content = [] \<or> content = ''---'' \<or> content = ''...'' then tokenize_lines n rest
              else case tokenize_lines n rest of
                Inl e \<Rightarrow> Inl e
              | Inr ls \<Rightarrow> Inr (\<lparr>lnumber = n, lindent = indent, ltext = content\<rparr> # ls))"

definition tokenize :: "string \<Rightarrow> string + line list" where
  "tokenize text = tokenize_lines 0 (getlines [] text)"

definition fail :: "line \<Rightarrow> string \<Rightarrow> string" where
  "fail l msg = ''line '' @ nat_to_string (lnumber l) @ '': '' @ msg"

section \<open>Scalars\<close>

text \<open>The loop of a single-quoted scalar: the text after the opening quote; the last character is the
  closing one.\<close>

fun unquote_single :: "string \<Rightarrow> string" where
  "unquote_single [] = []"
| "unquote_single [c] = []"
| "unquote_single (c # d # cs) =
     (if c = squote \<and> d = squote \<and> cs \<noteq> [] then squote # unquote_single cs else c # unquote_single (d # cs))"

text \<open>The parts of a flow sequence: \<open>cur\<close> is the part begun. A part still inside quotes or brackets at
  the end of the text is not among them.\<close>

fun flow_parts :: "bool \<Rightarrow> bool \<Rightarrow> bool \<Rightarrow> int \<Rightarrow> string \<Rightarrow> string \<Rightarrow> string list" where
  "flow_parts single dq esc depth cur [] =
     (if dq \<and> esc \<or> single \<or> dq \<or> depth \<noteq> 0 then [] else [cur])"
| "flow_parts single dq esc depth cur (c # cs) =
     (if dq \<and> esc then flow_parts single dq False depth (cur @ [c]) cs
      else if dq \<and> c = backslash then flow_parts single dq True depth (cur @ [c]) cs
      else if \<not> dq \<and> c = squote then flow_parts (\<not> single) dq esc depth (cur @ [c]) cs
      else if \<not> single \<and> c = dquote then flow_parts single (\<not> dq) esc depth (cur @ [c]) cs
      else if single \<or> dq then flow_parts single dq esc depth (cur @ [c]) cs
      else if c = CHR ''['' \<or> c = CHR ''{'' then flow_parts single dq esc (depth + 1) (cur @ [c]) cs
      else if c = CHR '']'' \<or> c = CHR ''}'' then flow_parts single dq esc (depth - 1) (cur @ [c]) cs
      else if c = CHR '','' \<and> depth = 0 then cur # flow_parts single dq esc depth [] cs
      else flow_parts single dq esc depth (cur @ [c]) cs)"

lemma flow_parts_size:
  "sum_list (map (\<lambda>p. length p + 1) (flow_parts single dq esc depth cur s)) \<le> length cur + length s + 1"
proof (induction s arbitrary: single dq esc depth cur)
  case (Cons c cs)
  have grow: "sum_list (map (\<lambda>p. length p + 1) (flow_parts s1 d1 e1 n1 (cur @ [c]) cs)) \<le> length cur + length (c # cs) + 1"
    for s1 d1 e1 n1
    using Cons.IH [of s1 d1 e1 n1 "cur @ [c]"] by simp
  have "sum_list (map (\<lambda>p. length p + 1) (cur # flow_parts s1 d1 e1 n1 [] cs)) \<le> length cur + length (c # cs) + 1"
    for s1 d1 e1 n1
    using Cons.IH [of s1 d1 e1 n1 "[]"] by simp
  with grow show ?case unfolding flow_parts.simps by presburger
qed simp

lemma length_dropWhile: "length (dropWhile P s) \<le> length s"
  by (induction s) auto

lemma length_trim: "length (trim s) \<le> length s"
  using length_dropWhile [of is_space "rev (dropWhile is_space s)"] length_dropWhile [of is_space s]
  by (simp add: trim_def)

lemma two_chars: "v \<noteq> [] \<Longrightarrow> hd v \<noteq> last v \<Longrightarrow> 2 \<le> length v"
  by (cases v; cases "tl v") auto

text \<open>The value of a double-quoted text or JSON collection is what \<open>jparse\<close> says.\<close>

definition is_string :: "json \<Rightarrow> bool" where
  "is_string j \<longleftrightarrow> (case j of JString _ \<Rightarrow> True | _ \<Rightarrow> False)"

definition is_number :: "json \<Rightarrow> bool" where
  "is_number j \<longleftrightarrow> (case j of JInt _ \<Rightarrow> True | JFloat _ \<Rightarrow> True | _ \<Rightarrow> False)"

definition parsePlain :: "(string \<Rightarrow> json option) \<Rightarrow> string \<Rightarrow> json" where
  "parsePlain jparse value =
     (if lower value = ''true'' then JBool True
      else if lower value = ''false'' then JBool False
      else if lower value = ''null'' \<or> value = ''~'' then JNull
      else case jparse value of
        Some j \<Rightarrow> if is_number j then j else JString value
      | None \<Rightarrow> JString value)"

function (sequential) parseScalar :: "(string \<Rightarrow> json option) \<Rightarrow> line \<Rightarrow> string \<Rightarrow> string + json"
  and parseParts :: "(string \<Rightarrow> json option) \<Rightarrow> line \<Rightarrow> string list \<Rightarrow> string + json list" where
  "parseScalar jparse l raw =
     (let value = trim raw in
      if value = [] then Inl (fail l ''scalar value is empty'')
      else if hd value = squote then
        (if length value < 2 \<or> last value \<noteq> squote then Inl (fail l ''unterminated single-quoted string'')
         else Inr (JString (unquote_single (tl value))))
      else if hd value = dquote then
        (case jparse value of
           None \<Rightarrow> Inl (fail l ''invalid double-quoted string'')
         | Some j \<Rightarrow> if is_string j then Inr j else Inl (fail l ''quoted scalar must be a string''))
      else if hd value = CHR ''['' \<and> last value = CHR '']'' then
        (case jparse value of
           Some j \<Rightarrow> Inr j
         | None \<Rightarrow>
           let body = trim (butlast (tl value))
           in if body = [] then Inr (JArray [])
              else case parseParts jparse l (flow_parts False False False 0 [] body) of
                Inl e \<Rightarrow> Inl e
              | Inr js \<Rightarrow> Inr (JArray js))
      else if hd value = CHR ''{'' \<and> last value = CHR ''}'' then
        (case jparse value of
           Some j \<Rightarrow> Inr j
         | None \<Rightarrow> Inl (fail l ''invalid flow mapping''))
      else Inr (parsePlain jparse value))"
| "parseParts jparse l [] = Inr []"
| "parseParts jparse l (p # ps) =
     (let part = trim p in
      if part = [] then Inl (fail l ''empty value in flow sequence'')
      else case parseScalar jparse l part of
        Inl e \<Rightarrow> Inl e
      | Inr j \<Rightarrow> (case parseParts jparse l ps of Inl e \<Rightarrow> Inl e | Inr js \<Rightarrow> Inr (j # js)))"
  by pat_completeness auto

termination
proof (relation "measure (case_sum (\<lambda>(_, _, raw). length raw) (\<lambda>(_, _, ps). sum_list (map (\<lambda>p. length p + 1) ps)))", goal_cases)
  case (2 jparse l raw v body)
  have "2 \<le> length v" by (rule two_chars) (use 2 in simp_all)
  then have "length body + 1 < length v"
    using 2 length_trim [of "butlast (tl v)"] by simp
  moreover have "sum_list (map (\<lambda>p. length p + 1) (flow_parts False False False 0 [] body)) \<le> length body + 1"
    using flow_parts_size [of False False False 0 "[]" body] by simp
  ultimately show ?case using 2 length_trim [of raw] by simp
next
  case (3 jparse l p ps part)
  then show ?case using length_trim [of p] by simp
qed simp_all

declare parseScalar.simps [simp del]

section \<open>Blocks\<close>

datatype 'a pres = Done 'a "line list" | Fail string | NoFuel

definition parseKey :: "(string \<Rightarrow> json option) \<Rightarrow> line \<Rightarrow> string \<Rightarrow> string + string" where
  "parseKey jparse l raw =
     (let k = trim raw in
      if k = [] then Inl (fail l ''mapping key is empty'')
      else if hd k = squote \<or> hd k = dquote then
        (case parseScalar jparse l k of
           Inl e \<Rightarrow> Inl e
         | Inr (JString s) \<Rightarrow> Inr s
         | Inr _ \<Rightarrow> Inl (fail l ''mapping key must be a string''))
      else Inr k)"

text \<open>The parsers of a mapping entry, a mapping, a sequence item and a sequence, over the parser \<open>node\<close>
  of a nested block. The loops carry fuel.\<close>

type_synonym node_parser = "nat \<Rightarrow> line list \<Rightarrow> json pres"

definition parseMappingEntry :: "(string \<Rightarrow> json option) \<Rightarrow> node_parser \<Rightarrow> nat \<Rightarrow> (string \<times> json) list \<Rightarrow> line \<Rightarrow> line list
    \<Rightarrow> (string \<times> json) list pres" where
  "parseMappingEntry jp node indent obj l ls =
     (if lindent l \<noteq> indent \<or> sequenceLine (ltext l) then Fail (fail l ''expected a mapping entry'')
      else case mappingColon (ltext l) of
        None \<Rightarrow> Fail (fail l (''expected '' @ [squote] @ '':'' @ [squote] @ '' after mapping key''))
      | Some colon \<Rightarrow>
        (case parseKey jp l (take colon (ltext l)) of
           Inl e \<Rightarrow> Fail e
         | Inr key \<Rightarrow>
           if map_of obj key \<noteq> None then Fail (fail l (''duplicate mapping key '' @ [squote] @ key @ [squote]))
           else let rawValue = trim (drop (colon + 1) (ltext l)) in
             if rawValue = [] then
               (case ls of
                  l2 # _ \<Rightarrow>
                    if indent < lindent l2 then
                      (case node (lindent l2) ls of
                         Done v rest \<Rightarrow> Done (obj_set key v obj) rest
                       | Fail e \<Rightarrow> Fail e
                       | NoFuel \<Rightarrow> NoFuel)
                    else Done (obj_set key JNull obj) ls
                | [] \<Rightarrow> Done (obj_set key JNull obj) [])
             else (case parseScalar jp l rawValue of
                     Inl e \<Rightarrow> Fail e
                   | Inr v \<Rightarrow> Done (obj_set key v obj) ls)))"

fun parseMapping :: "(string \<Rightarrow> json option) \<Rightarrow> node_parser \<Rightarrow> nat \<Rightarrow> nat \<Rightarrow> (string \<times> json) list \<Rightarrow> line list \<Rightarrow> json pres" where
  "parseMapping jp node indent 0 obj ls = NoFuel"
| "parseMapping jp node indent (Suc n) obj ls =
     (case ls of
        [] \<Rightarrow> Done (JObject obj) []
      | l # rest \<Rightarrow>
        if lindent l < indent then Done (JObject obj) ls
        else if indent < lindent l then Fail (fail l ''unexpected indentation'')
        else if sequenceLine (ltext l) then Done (JObject obj) ls
        else case parseMappingEntry jp node indent obj l rest of
          Done obj' rest' \<Rightarrow> parseMapping jp node indent n obj' rest'
        | Fail e \<Rightarrow> Fail e
        | NoFuel \<Rightarrow> NoFuel)"

text \<open>The further entries of a mapping that began on the line of a sequence item.\<close>

fun parseItemEntries :: "(string \<Rightarrow> json option) \<Rightarrow> node_parser \<Rightarrow> nat \<Rightarrow> nat \<Rightarrow> (string \<times> json) list \<Rightarrow> line list \<Rightarrow> json pres" where
  "parseItemEntries jp node indent 0 obj ls = NoFuel"
| "parseItemEntries jp node indent (Suc n) obj ls =
     (case ls of
        [] \<Rightarrow> Done (JObject obj) []
      | l # rest \<Rightarrow>
        if indent < lindent l then
          (if lindent l \<noteq> indent + 2 then Fail (fail l ''unexpected indentation'')
           else case parseMappingEntry jp node (indent + 2) obj l rest of
             Done obj' rest' \<Rightarrow> parseItemEntries jp node indent n obj' rest'
           | Fail e \<Rightarrow> Fail e
           | NoFuel \<Rightarrow> NoFuel)
        else Done (JObject obj) ls)"

definition parseItem :: "(string \<Rightarrow> json option) \<Rightarrow> node_parser \<Rightarrow> nat \<Rightarrow> line \<Rightarrow> line list \<Rightarrow> json pres" where
  "parseItem jp node indent l rest =
     (let item = trim (drop 1 (ltext l)) in
      if item = [] then
        (case rest of
           [] \<Rightarrow> Fail (fail l ''sequence item has no value'')
         | l2 # _ \<Rightarrow>
           if lindent l2 \<le> indent then Fail (fail l ''sequence item has no value'')
           else node (lindent l2) rest)
      else case mappingColon item of
        None \<Rightarrow>
          (case parseScalar jp l item of
             Inl e \<Rightarrow> Fail e
           | Inr v \<Rightarrow>
             (case rest of
                [] \<Rightarrow> Done v []
              | l2 # _ \<Rightarrow> if indent < lindent l2 then Fail (fail l2 ''scalar sequence item cannot have nested content'')
                         else Done v rest))
      | Some colon \<Rightarrow>
        (case parseKey jp l (take colon item) of
           Inl e \<Rightarrow> Fail e
         | Inr key \<Rightarrow>
           let rawValue = trim (drop (colon + 1) item) in
           if rawValue = [] then
             (case rest of
                l2 # _ \<Rightarrow>
                  if indent + 2 < lindent l2 then
                    (case node (lindent l2) rest of
                       Done child rest' \<Rightarrow> parseItemEntries jp node indent (Suc (length rest')) [(key, child)] rest'
                     | Fail e \<Rightarrow> Fail e
                     | NoFuel \<Rightarrow> NoFuel)
                  else parseItemEntries jp node indent (Suc (length rest)) [(key, JNull)] rest
              | [] \<Rightarrow> Done (JObject [(key, JNull)]) [])
           else (case parseScalar jp l rawValue of
                   Inl e \<Rightarrow> Fail e
                 | Inr v \<Rightarrow> parseItemEntries jp node indent (Suc (length rest)) [(key, v)] rest)))"

fun parseSequence :: "(string \<Rightarrow> json option) \<Rightarrow> node_parser \<Rightarrow> nat \<Rightarrow> nat \<Rightarrow> json list \<Rightarrow> line list \<Rightarrow> json pres" where
  "parseSequence jp node indent 0 acc ls = NoFuel"
| "parseSequence jp node indent (Suc n) acc ls =
     (case ls of
        [] \<Rightarrow> Done (JArray acc) []
      | l # rest \<Rightarrow>
        if lindent l = indent \<and> sequenceLine (ltext l) then
          (case parseItem jp node indent l rest of
             Done v rest' \<Rightarrow> parseSequence jp node indent n (acc @ [v]) rest'
           | Fail e \<Rightarrow> Fail e
           | NoFuel \<Rightarrow> NoFuel)
        else Done (JArray acc) ls)"

fun parseNode :: "(string \<Rightarrow> json option) \<Rightarrow> nat \<Rightarrow> node_parser" where
  "parseNode jp 0 indent ls = NoFuel"
| "parseNode jp (Suc f) indent ls =
     (case ls of
        [] \<Rightarrow> Fail ''unexpected end of YAML document''
      | l # _ \<Rightarrow>
        if lindent l \<noteq> indent then Fail (fail l ''unexpected indentation'')
        else if sequenceLine (ltext l) then parseSequence jp (parseNode jp f) indent (Suc (length ls)) [] ls
        else parseMapping jp (parseNode jp f) indent (Suc (length ls)) [] ls)"

text \<open>A block nested in another has fewer lines, so the depth is at most the number of lines.\<close>

definition parse_document :: "(string \<Rightarrow> json option) \<Rightarrow> line list \<Rightarrow> json pres" where
  "parse_document jp ls =
     (case ls of
        [] \<Rightarrow> Fail ''YAML document is empty''
      | l # _ \<Rightarrow>
        (case parseNode jp (Suc (length ls)) (lindent l) ls of
           Done j rest \<Rightarrow> (case rest of [] \<Rightarrow> Done j [] | l2 # _ \<Rightarrow> Fail (fail l2 ''unexpected indentation''))
         | Fail e \<Rightarrow> Fail e
         | NoFuel \<Rightarrow> NoFuel))"

definition parseYaml :: "(string \<Rightarrow> json option) \<Rightarrow> string \<Rightarrow> json pres" where
  "parseYaml jp text = (case tokenize text of Inl e \<Rightarrow> Fail e | Inr ls \<Rightarrow> parse_document jp ls)"

section \<open>The reader ends\<close>

text \<open>What the block parsers need of the parser of nested blocks: it does not invent lines, and it does
  not run out of fuel on fewer than \<open>bound\<close> lines.\<close>

locale nested_parser =
  fixes node :: node_parser and bound :: nat
  assumes node_consumes: "node i ls = Done j rest \<Longrightarrow> length rest \<le> length ls"
    and node_ends: "length ls < bound \<Longrightarrow> node i ls \<noteq> NoFuel"
begin

lemma entry_consumes: "parseMappingEntry jp node i obj l ls = Done obj' rest \<Longrightarrow> length rest \<le> length ls"
  by (auto simp: parseMappingEntry_def Let_def dest!: node_consumes split: if_splits option.splits sum.splits list.splits pres.splits)

lemma entry_ends: "length ls < bound \<Longrightarrow> parseMappingEntry jp node i obj l ls \<noteq> NoFuel"
  using node_ends [of ls]
  by (auto simp: parseMappingEntry_def Let_def split: option.splits sum.splits list.splits pres.splits)

lemma mapping_consumes: "parseMapping jp node i n obj ls = Done j rest \<Longrightarrow> length rest \<le> length ls"
proof (induction n arbitrary: obj ls)
  case (Suc n)
  show ?case
  proof (cases ls)
    case (Cons l ls')
    then show ?thesis
      using Suc entry_consumes [of jp i obj l ls'] by (auto split: if_splits pres.splits) fastforce
  qed (use Suc in simp)
qed simp

lemma mapping_ends: "length ls \<le> bound \<Longrightarrow> length ls < n \<Longrightarrow> parseMapping jp node i n obj ls \<noteq> NoFuel"
proof (induction n arbitrary: obj ls)
  case (Suc n)
  show ?case
  proof (cases ls)
    case (Cons l ls')
    then show ?thesis
      using Suc entry_consumes [of jp i obj l ls'] entry_ends [of ls' jp i obj l]
      by (auto split: pres.splits)
  qed simp
qed simp

lemma item_entries_consumes: "parseItemEntries jp node i n obj ls = Done j rest \<Longrightarrow> length rest \<le> length ls"
proof (induction n arbitrary: obj ls)
  case (Suc n)
  show ?case
  proof (cases ls)
    case (Cons l ls')
    then show ?thesis
      using Suc entry_consumes [of jp "i + 2" obj l ls'] by (auto split: if_splits pres.splits) fastforce
  qed (use Suc in simp)
qed simp

lemma item_entries_ends: "length ls \<le> bound \<Longrightarrow> length ls < n \<Longrightarrow> parseItemEntries jp node i n obj ls \<noteq> NoFuel"
proof (induction n arbitrary: obj ls)
  case (Suc n)
  show ?case
  proof (cases ls)
    case (Cons l ls')
    then show ?thesis
      using Suc entry_consumes [of jp "i + 2" obj l ls'] entry_ends [of ls' jp "i + 2" obj l]
      by (auto split: pres.splits)
  qed simp
qed simp

lemma item_consumes: "parseItem jp node i l ls = Done j rest \<Longrightarrow> length rest \<le> length ls"
  by (auto simp: parseItem_def Let_def dest!: node_consumes item_entries_consumes
      split: if_splits option.splits sum.splits list.splits pres.splits simp del: parseItemEntries.simps)

lemma item_ends: "length ls < bound \<Longrightarrow> parseItem jp node i l ls \<noteq> NoFuel"
  using node_ends [of ls] item_entries_ends
  by (auto simp: parseItem_def Let_def dest: node_consumes split: option.splits sum.splits list.splits pres.splits
      simp del: parseItemEntries.simps)

lemma sequence_consumes: "parseSequence jp node i n acc ls = Done j rest \<Longrightarrow> length rest \<le> length ls"
proof (induction n arbitrary: acc ls)
  case (Suc n)
  show ?case
  proof (cases ls)
    case (Cons l ls')
    then show ?thesis
      using Suc item_consumes [of jp i l ls'] by (auto split: if_splits pres.splits) fastforce
  qed (use Suc in simp)
qed simp

lemma sequence_ends: "length ls \<le> bound \<Longrightarrow> length ls < n \<Longrightarrow> parseSequence jp node i n acc ls \<noteq> NoFuel"
proof (induction n arbitrary: acc ls)
  case (Suc n)
  show ?case
  proof (cases ls)
    case (Cons l ls')
    then show ?thesis
      using Suc item_consumes [of jp i l ls'] item_ends [of ls' jp i l]
      by (auto split: pres.splits)
  qed simp
qed simp

end

lemma nested_parseNode: "nested_parser (parseNode jp f) f"
proof (induction f)
  case 0
  show ?case by unfold_locales simp_all
next
  case (Suc f)
  show ?case
  proof
    fix i ls j rest
    assume "parseNode jp (Suc f) i ls = Done j rest"
    then show "length rest \<le> length ls"
      using nested_parser.mapping_consumes [OF Suc, of jp i "Suc (length ls)" "[]" ls j rest]
        nested_parser.sequence_consumes [OF Suc, of jp i "Suc (length ls)" "[]" ls j rest]
      by (auto split: list.splits if_splits simp del: parseMapping.simps parseSequence.simps)
  next
    fix i and ls :: "line list"
    assume "length ls < Suc f"
    then show "parseNode jp (Suc f) i ls \<noteq> NoFuel"
      using nested_parser.mapping_ends [OF Suc, of ls "Suc (length ls)"] nested_parser.sequence_ends [OF Suc, of ls "Suc (length ls)"]
      by (auto split: list.splits simp del: parseMapping.simps parseSequence.simps)
  qed
qed

interpretation yaml: nested_parser "parseNode jp f" f for jp f
  by (rule nested_parseNode)

text \<open>C33: reading a document always ends with a value or an error. On any text, with any behaviour of
  the JSON library, the recursion through blocks, flow collections and lines reaches its end
  within the number of lines of the document, and a value is returned only if every line was
  consumed.\<close>

theorem parseYaml_total: "(\<exists>j. parseYaml jp text = Done j []) \<or> (\<exists>e. parseYaml jp text = Fail e)"
proof (cases "tokenize text")
  case (Inr ls)
  have "parseNode jp (Suc (length ls)) i ls \<noteq> NoFuel" for i by (rule yaml.node_ends) simp
  with Inr show ?thesis
    by (auto simp: parseYaml_def parse_document_def simp del: parseNode.simps split: list.splits pres.splits)
qed (simp add: parseYaml_def)

section \<open>Round trip\<close>

text \<open>A printer in block style, the counterpart of the reader: strings in single quotes, nested blocks
  indented by two. It gives the lines as pairs of indentation and text.\<close>

fun scalar_text :: "json \<Rightarrow> string" where
  "scalar_text (JString s) = [squote] @ concat (map (\<lambda>c. if c = squote then [squote, squote] else [c]) s) @ [squote]"
| "scalar_text (JBool b) = (if b then ''true'' else ''false'')"
| "scalar_text _ = ''null''"

fun is_block :: "json \<Rightarrow> bool" where
  "is_block (JArray _) = True"
| "is_block (JObject _) = True"
| "is_block _ = False"

fun emit :: "nat \<Rightarrow> json \<Rightarrow> (nat \<times> string) list"
  and emit_fields :: "nat \<Rightarrow> (string \<times> json) list \<Rightarrow> (nat \<times> string) list"
  and emit_items :: "nat \<Rightarrow> json list \<Rightarrow> (nat \<times> string) list" where
  "emit i (JObject fs) = emit_fields i fs"
| "emit i (JArray js) = emit_items i js"
| "emit i _ = []"
| "emit_fields i [] = []"
| "emit_fields i ((k, v) # fs) =
     (if is_block v then (i, k @ '':'') # emit (i + 2) v else [(i, k @ '': '' @ scalar_text v)]) @ emit_fields i fs"
| "emit_items i [] = []"
| "emit_items i (v # vs) =
     (if is_block v then (i, ''-'') # emit (i + 2) v else [(i, ''- '' @ scalar_text v)]) @ emit_items i vs"

definition key_ok :: "string \<Rightarrow> bool" where
  "key_ok k \<longleftrightarrow> k \<noteq> [] \<and> list_all (\<lambda>c. is_alnum c \<or> c = CHR ''_'') k"

text \<open>The values the printer is for: blocks are not empty, keys are identifiers in strictly increasing
  order, numbers are left to the JSON library.\<close>

fun printable :: "json \<Rightarrow> bool"
  and printable_fields :: "(string \<times> json) list \<Rightarrow> bool"
  and printable_items :: "json list \<Rightarrow> bool" where
  "printable (JObject fs) = (fs \<noteq> [] \<and> printable_fields fs)"
| "printable (JArray js) = (js \<noteq> [] \<and> printable_items js)"
| "printable (JInt _) = False"
| "printable (JFloat _) = False"
| "printable (JString s) = (newline \<notin> set s)"
| "printable _ = True"
| "printable_fields [] = True"
| "printable_fields ((k, v) # fs) = (key_ok k \<and> list_all (\<lambda>f. k < fst f) fs \<and> printable v \<and> printable_fields fs)"
| "printable_items [] = True"
| "printable_items (v # vs) = (printable v \<and> printable_items vs)"

fun number_lines :: "nat \<Rightarrow> (nat \<times> string) list \<Rightarrow> line list" where
  "number_lines n [] = []"
| "number_lines n ((i, t) # ps) = \<lparr>lnumber = n, lindent = i, ltext = t\<rparr> # number_lines (Suc n) ps"

lemma number_lines_append: "number_lines n (ps @ qs) = number_lines n ps @ number_lines (n + length ps) qs"
  by (induction n ps rule: number_lines.induct) auto

lemma length_number_lines [simp]: "length (number_lines n ps) = length ps"
  by (induction n ps rule: number_lines.induct) auto

subsection \<open>Scalars\<close>

abbreviation dbl :: "string \<Rightarrow> string" where
  "dbl s \<equiv> concat (map (\<lambda>c. if c = squote then [squote, squote] else [c]) s)"

lemma unquote_dbl: "unquote_single (dbl s @ [squote]) = s"
proof (induction s)
  case (Cons c s)
  obtain d ds where d: "dbl s @ [squote] = d # ds" by (cases "dbl s @ [squote]") auto
  show ?case
  proof (cases "c = squote")
    case True
    with Cons show ?thesis by simp
  next
    case False
    with d have "unquote_single (dbl (c # s) @ [squote]) = c # unquote_single (d # ds)" by simp
    with Cons d show ?thesis by simp
  qed
qed simp

lemma trim_id: "s \<noteq> [] \<Longrightarrow> \<not> is_space (hd s) \<Longrightarrow> \<not> is_space (last s) \<Longrightarrow> trim s = s"
proof -
  assume s: "s \<noteq> []" "\<not> is_space (hd s)" "\<not> is_space (last s)"
  then have "dropWhile is_space s = s" by (cases s) auto
  moreover have "dropWhile is_space (rev s) = rev s" using s by (cases s rule: rev_cases) auto
  ultimately show ?thesis by (simp add: trim_def)
qed

lemma space_chars [simp]: "\<not> is_space squote" "\<not> is_space (CHR ''t'')" "\<not> is_space (CHR ''e'')" "\<not> is_space (CHR ''f'')"
  "\<not> is_space (CHR ''n'')" "\<not> is_space (CHR ''l'')" "\<not> is_space (CHR '':'')" "\<not> is_space (CHR ''-'')" "is_space space"
  by (simp_all add: is_space_def)

lemma scalar_text_ends:
  "scalar_text j \<noteq> [] \<and> \<not> is_space (hd (scalar_text j)) \<and> \<not> is_space (last (scalar_text j))"
  by (cases j) auto

lemma trim_scalar_text [simp]: "trim (scalar_text j) = scalar_text j"
  using scalar_text_ends [of j] by (intro trim_id) auto

lemma lower_words: "lower ''true'' = ''true''" "lower ''false'' = ''false''" "lower ''null'' = ''null''"
  by (simp_all add: lower_def to_lower_def is_upper_def)

lemma parseScalar_text:
  assumes "\<not> is_block j" and "printable j"
  shows "parseScalar jp l (scalar_text j) = Inr j"
proof (cases j)
  case (JString s)
  have "parseScalar jp l (scalar_text j) = Inr (JString (unquote_single (tl (scalar_text j))))"
    using JString trim_scalar_text [of j] by (subst parseScalar.simps) (auto simp: Let_def)
  with JString unquote_dbl [of s] show ?thesis by simp
qed (use assms trim_scalar_text [of j] lower_words in \<open>auto simp: parseScalar.simps Let_def parsePlain_def\<close>)

subsection \<open>Lines\<close>

lemma key_chars:
  assumes "is_alnum c \<or> c = CHR ''_''"
  shows "\<not> is_space c \<and> c \<noteq> squote \<and> c \<noteq> dquote \<and> c \<noteq> CHR '':'' \<and> c \<noteq> CHR ''['' \<and> c \<noteq> CHR ''{'' \<and>
    c \<noteq> CHR '']'' \<and> c \<noteq> CHR ''}'' \<and> c \<noteq> CHR ''-'' \<and> c \<noteq> CHR ''#'' \<and> c \<noteq> backslash \<and> c \<noteq> CHR ''.''"
proof (cases "is_alnum c")
  case True
  then have "48 \<le> char_code c \<and> char_code c \<le> 57 \<or> 65 \<le> char_code c \<and> char_code c \<le> 90 \<or>
      97 \<le> char_code c \<and> char_code c \<le> 122"
    unfolding char_class by blast
  moreover from this have "\<not> is_space c" unfolding char_class by linarith
  ultimately show ?thesis by auto
next
  case False
  with assms have "c = CHR ''_''" by simp
  then show ?thesis by (simp add: char_class)
qed

lemma mapping_colon_key:
  assumes "list_all (\<lambda>c. is_alnum c \<or> c = CHR ''_'') k" and "rest = [] \<or> is_space (hd rest)"
  shows "mapping_colon False False False 0 (k @ CHR '':'' # rest) = Some (length k)"
  using assms
proof (induction k)
  case (Cons c k)
  then have c: "is_alnum c \<or> c = CHR ''_''"
    and IH: "mapping_colon False False False 0 (k @ CHR '':'' # rest) = Some (length k)" by simp_all
  show ?case using key_chars [OF c] IH by (simp del: mapping_colon.simps add: mapping_colon.simps(2) [of _ _ _ _ c])
qed simp

lemma mapping_colon_quoted: "mapping_colon True False False d (dbl s @ [squote]) = None"
proof (induction s)
  case (Cons c s)
  obtain x xs where x: "dbl s @ [squote] = x # xs" by (cases "dbl s @ [squote]") auto
  with Cons show ?case by (cases "c = squote") auto
qed simp

lemma mapping_colon_quote: "mapping_colon False False False d (squote # t) =
    (if t = [] then None else map_option Suc (mapping_colon True False False d t))"
  by (cases t) simp_all

lemma mapping_colon_scalar: "\<not> is_block j \<Longrightarrow> mappingColon (scalar_text j) = None"
  using mapping_colon_quoted [of 0] mapping_colon_quote [of 0]
  by (cases j) (simp_all add: mappingColon_def)

lemma key_line:
  assumes "key_ok k"
  shows "\<not> sequenceLine (k @ rest)" and "trim k = k" and "parseKey jp l k = Inr k"
proof -
  have k: "k \<noteq> []" "list_all (\<lambda>c. is_alnum c \<or> c = CHR ''_'') k" using assms by (simp_all add: key_ok_def)
  then have ends: "is_alnum (hd k) \<or> hd k = CHR ''_''" "is_alnum (last k) \<or> last k = CHR ''_''"
    by (auto simp: list_all_iff)
  show t: "trim k = k" using k key_chars [OF ends(1)] key_chars [OF ends(2)] by (intro trim_id) auto
  show "\<not> sequenceLine (k @ rest)" using k key_chars [OF ends(1)] by (simp add: sequenceLine_def)
  show "parseKey jp l k = Inr k" using k t key_chars [OF ends(1)] by (simp add: parseKey_def Let_def)
qed

lemma trim_space: "trim (space # s) = trim s"
  by (simp add: trim_def)

lemma trim_Nil [simp]: "trim [] = []"
  by (simp add: trim_def)

lemma field_line:
  assumes "key_ok k" and "rest = [] \<or> is_space (hd rest)"
  shows "mappingColon (k @ CHR '':'' # rest) = Some (length k)"
  using assms mapping_colon_key by (simp add: mappingColon_def key_ok_def)

lemma item_line: "sequenceLine ''-''" "sequenceLine (CHR ''-'' # space # t)"
  by (simp_all add: sequenceLine_def)

subsection \<open>Blocks\<close>

text \<open>The lines after a block: none, or the first is indented less than the block.\<close>

definition ends_block :: "nat \<Rightarrow> line list \<Rightarrow> bool" where
  "ends_block i rest \<longleftrightarrow> (case rest of [] \<Rightarrow> True | l # _ \<Rightarrow> lindent l < i)"

lemma obj_set_last: "list_all (\<lambda>f. fst f < k) obj \<Longrightarrow> obj_set k v obj = obj @ [(k, v)]"
  by (induction obj) auto

lemma obj_fresh: "list_all (\<lambda>f. fst f < (k :: string)) obj \<Longrightarrow> map_of obj k = None"
  by (induction obj) auto

lemma first_field: "\<exists>t ps. emit_fields i ((k, v) # fs) = (i, k @ t) # ps"
  by (cases "is_block v") auto

lemma first_item: "\<exists>t ps. emit_items i (v # vs) = (i, t) # ps \<and> sequenceLine t"
  using item_line by (cases "is_block v") auto

lemma emit_first:
  assumes "is_block j" and "printable j"
  obtains l ls where "number_lines n (emit i j) = l # ls" "lindent l = i"
    "sequenceLine (ltext l) \<longleftrightarrow> (\<exists>js. j = JArray js)"
proof (cases j)
  case (JArray js)
  with assms obtain v vs where "js = v # vs" by (cases js) auto
  moreover obtain t ps where "emit_items i (v # vs) = (i, t) # ps" "sequenceLine t" using first_item by blast
  ultimately show thesis using JArray that by (simp del: emit_items.simps)
next
  case (JObject fs)
  with assms obtain k v fs' where fs: "fs = (k, v) # fs'" and k: "key_ok k" by (cases fs) auto
  moreover obtain t ps where "emit_fields i ((k, v) # fs') = (i, k @ t) # ps" using first_field by blast
  ultimately show thesis using JObject that key_line(1) [OF k, of t] by (simp del: emit_fields.simps)
qed (use assms in simp_all)

lemma after_fields:
  assumes "ends_block i rest"
  shows "ends_block (Suc (Suc i)) (number_lines n (emit_fields i fs) @ rest)"
proof (cases fs)
  case Nil
  with assms show ?thesis by (auto simp: ends_block_def split: list.splits)
next
  case (Cons f fs')
  obtain k v where "f = (k, v)" by (cases f)
  with Cons show ?thesis using first_field [of i k v fs'] by (auto simp: ends_block_def simp del: emit_fields.simps)
qed

lemma after_items:
  assumes "ends_block i rest"
  shows "ends_block (Suc i) (number_lines n (emit_items i js) @ rest)"
proof (cases js)
  case Nil
  with assms show ?thesis by (auto simp: ends_block_def split: list.splits)
next
  case (Cons v vs)
  then show ?thesis using first_item [of i v vs] by (auto simp: ends_block_def simp del: emit_items.simps)
qed

lemma ends_block_mono: "ends_block i rest \<Longrightarrow> i \<le> i' \<Longrightarrow> ends_block i' rest"
  by (auto simp: ends_block_def split: list.splits)

lemma entry_scalar:
  assumes k: "key_ok k" and v: "\<not> is_block v" "printable v" and fresh: "list_all (\<lambda>f. fst f < k) obj"
    and l: "lindent l = i" "ltext l = k @ CHR '':'' # space # scalar_text v"
  shows "parseMappingEntry jp node i obj l ls = Done (obj @ [(k, v)]) ls"
  using key_line [OF k] field_line [OF k, of "space # scalar_text v"] parseScalar_text [OF v] scalar_text_ends [of v]
    obj_fresh [OF fresh] obj_set_last [OF fresh]
  unfolding parseMappingEntry_def l by (simp add: Let_def trim_space)

lemma entry_block:
  assumes k: "key_ok k" and fresh: "list_all (\<lambda>f. fst f < k) obj"
    and l: "lindent l = i" "ltext l = k @ [CHR '':'']"
    and node: "i < lindent l2" "node (lindent l2) (l2 # ls) = Done v rest"
  shows "parseMappingEntry jp node i obj l (l2 # ls) = Done (obj @ [(k, v)]) rest"
  using key_line [OF k] field_line [OF k, of "[]"] obj_fresh [OF fresh] obj_set_last [OF fresh] node
  unfolding parseMappingEntry_def l by (simp add: Let_def)

lemma item_scalar:
  assumes v: "\<not> is_block v" "printable v" and rest: "ends_block (Suc i) rest"
    and l: "ltext l = CHR ''-'' # space # scalar_text v"
  shows "parseItem jp node i l rest = Done v rest"
  using mapping_colon_scalar [OF v(1)] parseScalar_text [OF v] scalar_text_ends [of v] rest
  unfolding parseItem_def l by (auto simp: Let_def trim_space ends_block_def split: list.splits)

lemma item_block:
  assumes "ltext l = ''-''" and "i < lindent l2"
  shows "parseItem jp node i l (l2 # ls) = node (lindent l2) (l2 # ls)"
  using assms by (simp add: parseItem_def Let_def)

lemma length_emit_fields: "length fs \<le> length (emit_fields i fs)"
proof (induction fs)
  case (Cons f fs)
  then show ?case by (cases f) auto
qed simp

lemma length_emit_items: "length js \<le> length (emit_items i js)"
  by (induction js) auto

text \<open>A field or an item at the head of the lines is consumed, whatever follows the block it holds.\<close>

lemma field_step:
  assumes k: "key_ok k" and v: "printable v" and fresh: "list_all (\<lambda>f. fst f < k) obj"
    and nested: "\<And>n. is_block v \<Longrightarrow> node (i + 2) (number_lines n (emit (i + 2) v) @ rest) = Done v rest"
  shows "parseMapping jp node i (Suc m) obj
      (number_lines n (if is_block v then (i, k @ '':'') # emit (i + 2) v else [(i, k @ '': '' @ scalar_text v)]) @ rest)
    = parseMapping jp node i m (obj @ [(k, v)]) rest"
proof (cases "is_block v")
  case True
  obtain l2 ls where l2: "number_lines (Suc n) (emit (i + 2) v) = l2 # ls" "lindent l2 = i + 2"
    using emit_first [OF True v] by metis
  have "parseMappingEntry jp node i obj \<lparr>lnumber = n, lindent = i, ltext = k @ '':''\<rparr> (l2 # ls @ rest) = Done (obj @ [(k, v)]) rest"
    by (rule entry_block [OF k fresh]) (use nested [OF True, of "Suc n"] l2 in simp_all)
  with True l2 key_line(1) [OF k, of "'':''"] show ?thesis by simp
next
  case False
  have "parseMappingEntry jp node i obj \<lparr>lnumber = n, lindent = i, ltext = k @ '': '' @ scalar_text v\<rparr> rest = Done (obj @ [(k, v)]) rest"
    by (rule entry_scalar [OF k False v fresh]) simp_all
  with False key_line(1) [OF k, of "'': '' @ scalar_text v"] show ?thesis by simp
qed

lemma item_step:
  assumes v: "printable v" and rest: "ends_block (Suc i) rest"
    and nested: "\<And>n. is_block v \<Longrightarrow> node (i + 2) (number_lines n (emit (i + 2) v) @ rest) = Done v rest"
  shows "parseSequence jp node i (Suc m) acc
      (number_lines n (if is_block v then (i, ''-'') # emit (i + 2) v else [(i, ''- '' @ scalar_text v)]) @ rest)
    = parseSequence jp node i m (acc @ [v]) rest"
proof (cases "is_block v")
  case True
  obtain l2 ls where l2: "number_lines (Suc n) (emit (i + 2) v) = l2 # ls" "lindent l2 = i + 2"
    using emit_first [OF True v] by metis
  have "parseItem jp node i \<lparr>lnumber = n, lindent = i, ltext = ''-''\<rparr> (l2 # ls @ rest) = Done v rest"
    using nested [OF True, of "Suc n"] l2 by (subst item_block) simp_all
  with True l2 item_line show ?thesis by simp
next
  case False
  have "parseItem jp node i \<lparr>lnumber = n, lindent = i, ltext = ''- '' @ scalar_text v\<rparr> rest = Done v rest"
    by (rule item_scalar [OF False v rest]) simp
  with False item_line show ?thesis by simp
qed

lemma emitted_blocks:
  shows "is_block j \<Longrightarrow> printable j \<Longrightarrow> length (emit i j) < f \<Longrightarrow> ends_block i rest \<Longrightarrow>
      parseNode jp f i (number_lines n (emit i j) @ rest) = Done j rest"
    and "printable_fields fs \<Longrightarrow> length (emit_fields i fs) \<le> f \<Longrightarrow> ends_block i rest \<Longrightarrow> length fs < m \<Longrightarrow>
      list_all (\<lambda>e. list_all (\<lambda>g. fst e < fst g) fs) obj \<Longrightarrow>
      parseMapping jp (parseNode jp f) i m obj (number_lines n (emit_fields i fs) @ rest) = Done (JObject (obj @ fs)) rest"
    and "printable_items js \<Longrightarrow> length (emit_items i js) \<le> f \<Longrightarrow> ends_block i rest \<Longrightarrow> length js < m \<Longrightarrow>
      parseSequence jp (parseNode jp f) i m acc (number_lines n (emit_items i js) @ rest) = Done (JArray (acc @ js)) rest"
proof (induction i j and i fs and i js arbitrary: f n rest and f n rest m obj and f n rest m acc
    rule: emit_emit_fields_emit_items.induct)
  case (1 i fs)
  obtain l ls where l: "number_lines n (emit i (JObject fs)) = l # ls" "lindent l = i" "\<not> sequenceLine (ltext l)"
    using emit_first [OF 1(2,3)] by (metis json.distinct(41))
  obtain g where f: "f = Suc g" using 1(4) by (cases f) auto
  have "parseMapping jp (parseNode jp g) i (Suc (length (number_lines n (emit i (JObject fs)) @ rest))) []
      (number_lines n (emit i (JObject fs)) @ rest) = Done (JObject ([] @ fs)) rest"
    using 1 f length_emit_fields [of fs i] by (simp del: parseMapping.simps)
  with l f show ?case by (simp del: parseMapping.simps)
next
  case (2 i js)
  obtain l ls where l: "number_lines n (emit i (JArray js)) = l # ls" "lindent l = i" "sequenceLine (ltext l)"
    using emit_first [OF 2(2,3)] by metis
  obtain g where f: "f = Suc g" using 2(4) by (cases f) auto
  have "parseSequence jp (parseNode jp g) i (Suc (length (number_lines n (emit i (JArray js)) @ rest))) []
      (number_lines n (emit i (JArray js)) @ rest) = Done (JArray ([] @ js)) rest"
    using 2 f length_emit_items [of js i] by (simp del: parseSequence.simps)
  with l f show ?case by (simp del: parseSequence.simps)
next
  case (4 i)
  obtain m' where "m = Suc m'" using 4 by (cases m) auto
  with 4 show ?case by (auto simp: ends_block_def split: list.splits)
next
  case (5 i k v fs)
  obtain m' where m: "m = Suc m'" using 5 by (cases m) auto
  let ?head = "if is_block v then (i, k @ '':'') # emit (i + 2) v else [(i, k @ '': '' @ scalar_text v)]"
  let ?tail = "number_lines (n + length ?head) (emit_fields i fs) @ rest"
  have tail: "ends_block (i + 2) ?tail" using after_fields [OF 5(5)] by simp
  have "parseMapping jp (parseNode jp f) i m obj (number_lines n (emit_fields i ((k, v) # fs)) @ rest) =
      parseMapping jp (parseNode jp f) i (Suc m') obj (number_lines n ?head @ ?tail)"
    using m by (simp only: emit_fields.simps number_lines_append append_assoc)
  also have "\<dots> = parseMapping jp (parseNode jp f) i m' (obj @ [(k, v)]) ?tail"
    using 5 tail by (intro field_step) (auto simp: list_all_iff)
  also have "\<dots> = Done (JObject ((obj @ [(k, v)]) @ fs)) rest"
    using 5 m by (intro 5(2)) (auto simp: list_all_iff)
  finally show ?case by simp
next
  case (6 i)
  obtain m' where "m = Suc m'" using 6 by (cases m) auto
  with 6 show ?case by (auto simp: ends_block_def split: list.splits)
next
  case (7 i v vs)
  obtain m' where m: "m = Suc m'" using 7 by (cases m) auto
  let ?head = "if is_block v then (i, ''-'') # emit (i + 2) v else [(i, ''- '' @ scalar_text v)]"
  let ?tail = "number_lines (n + length ?head) (emit_items i vs) @ rest"
  have tail: "ends_block (Suc i) ?tail" using after_items [OF 7(5)] .
  have "parseSequence jp (parseNode jp f) i m acc (number_lines n (emit_items i (v # vs)) @ rest) =
      parseSequence jp (parseNode jp f) i (Suc m') acc (number_lines n ?head @ ?tail)"
    using m by (simp only: emit_items.simps number_lines_append append_assoc)
  also have "\<dots> = parseSequence jp (parseNode jp f) i m' (acc @ [v]) ?tail"
    using 7 tail ends_block_mono [OF tail, of "i + 2"] by (intro item_step) auto
  also have "\<dots> = Done (JArray ((acc @ [v]) @ vs)) rest"
    using 7 m by (intro 7(2)) auto
  finally show ?case by simp
qed simp_all

subsection \<open>Text\<close>

definition yaml_text :: "json \<Rightarrow> string" where
  "yaml_text j = concat (map (\<lambda>(i, t). replicate i space @ t @ [newline]) (emit 0 j))"

text \<open>What a line must be like to be read back as it is.\<close>

definition line_ok :: "string \<Rightarrow> bool" where
  "line_ok t \<longleftrightarrow> withoutComment t = t \<and> newline \<notin> set t \<and> t \<noteq> [] \<and> \<not> is_space (hd t) \<and> \<not> is_space (last t) \<and>
     t \<noteq> ''---'' \<and> t \<noteq> ''...''"

lemma getlines_line: "newline \<notin> set t \<Longrightarrow> getlines cur (t @ newline # rest) = (cur @ t) # getlines [] rest"
  by (induction t arbitrary: cur) auto

lemma getlines_text:
  "list_all (\<lambda>(i, t). newline \<notin> set t) ps \<Longrightarrow>
   getlines [] (concat (map (\<lambda>(i, t). replicate i space @ t @ [newline]) ps)) = map (\<lambda>(i, t). replicate i space @ t) ps"
proof (induction ps)
  case (Cons p ps)
  obtain i t where p: "p = (i, t)" by (cases p)
  with Cons.prems have "newline \<notin> set (replicate i space @ t)" by auto
  from getlines_line [OF this, of "[]"] Cons p show ?case by simp
qed simp

lemma tokenize_line:
  assumes "line_ok t"
  shows "tokenize_lines n ((replicate i space @ t) # raws) =
    (case tokenize_lines (Suc n) raws of Inl e \<Rightarrow> Inl e | Inr ls \<Rightarrow> Inr (\<lparr>lnumber = Suc n, lindent = i, ltext = t\<rparr> # ls))"
proof -
  have t: "t \<noteq> []" "\<not> is_space (hd t)" "\<not> is_space (last t)" "withoutComment t = t" "t \<noteq> ''---''" "t \<noteq> ''...''"
    using assms by (auto simp: line_ok_def)
  then have cr: "last t \<noteq> CHR 0x0D" "hd t \<noteq> CHR 0x09" "hd t \<noteq> space" by (auto simp: is_space_def)
  then have indent: "takeWhile (\<lambda>c. c = space) (replicate i space @ t) = replicate i space"
    using t(1) by (cases t) (auto simp: takeWhile_append)
  have nth: "(replicate i space @ t) ! i = hd t" using t(1) by (simp add: nth_append hd_conv_nth)
  have "trim t = t" using t by (intro trim_id)
  with t cr indent nth show ?thesis by (simp add: Let_def split: sum.split)
qed

lemma tokenize_emitted:
  "list_all (\<lambda>(i, t). line_ok t) ps \<Longrightarrow>
   tokenize_lines n (map (\<lambda>(i, t). replicate i space @ t) ps) = Inr (number_lines (Suc n) ps)"
proof (induction ps arbitrary: n)
  case (Cons p ps)
  obtain i t where "p = (i, t)" by (cases p)
  with Cons tokenize_line [of t n i] show ?case by (simp del: tokenize_lines.simps(2))
qed simp

lemma comment_word:
  "list_all (\<lambda>c. is_alnum c \<or> c = CHR ''_'') k \<Longrightarrow>
   without_comment False False False prev (k @ rest) =
     k @ without_comment False False False (if k = [] then prev else Some (last k)) rest"
proof (induction k arbitrary: prev)
  case (Cons c k)
  then have c: "is_alnum c \<or> c = CHR ''_''"
    and IH: "without_comment False False False (Some c) (k @ rest) =
      k @ without_comment False False False (if k = [] then Some c else Some (last k)) rest" by simp_all
  show ?case using key_chars [OF c] IH by (simp del: without_comment.simps add: without_comment.simps(2) [of _ _ _ _ c])
qed simp

lemma comment_quoted: "without_comment True False False prev (dbl s @ [squote]) = dbl s @ [squote]"
proof (induction s arbitrary: prev)
  case (Cons c s)
  obtain x xs where x: "dbl s @ [squote] = x # xs" by (cases "dbl s @ [squote]") auto
  with Cons show ?case by (cases "c = squote") auto
qed simp

lemma comment_quote: "t \<noteq> [] \<Longrightarrow> without_comment False False False prev (squote # t) = squote # without_comment True False False (Some squote) t"
  by (cases t) simp_all

lemma comment_scalar: "without_comment False False False prev (scalar_text j) = scalar_text j"
  using comment_quoted comment_quote by (cases j) simp_all

lemma newline_scalar: "printable j \<Longrightarrow> newline \<notin> set (scalar_text j)"
  by (cases j) auto

lemma line_ok_field:
  assumes k: "key_ok k"
  shows "line_ok (k @ '':'')" and "printable v \<Longrightarrow> line_ok (k @ '': '' @ scalar_text v)"
proof -
  have cs: "k \<noteq> []" "list_all (\<lambda>c. is_alnum c \<or> c = CHR ''_'') k" using k by (simp_all add: key_ok_def)
  then have "is_alnum (hd k) \<or> hd k = CHR ''_''" by (cases k) auto
  note hd = key_chars [OF this]
  have nl: "newline \<notin> set k" using cs(2) key_chars [of newline] by (auto simp: list_all_iff is_space_def)
  have dash: "k @ t \<noteq> ''---'' \<and> k @ t \<noteq> ''...''" for t
    using cs(1) hd by (cases k) auto
  show "line_ok (k @ '':'')"
    using cs hd nl dash comment_word [OF cs(2), of None "'':''"] by (simp add: line_ok_def withoutComment_def)
  assume "printable v"
  with cs hd nl dash newline_scalar [of v] scalar_text_ends [of v] comment_word [OF cs(2), of None "'': '' @ scalar_text v"]
    comment_scalar [of "Some space" v]
  show "line_ok (k @ '': '' @ scalar_text v)" by (simp add: line_ok_def withoutComment_def)
qed

lemma line_ok_item: "line_ok ''-''" "printable v \<Longrightarrow> line_ok (''- '' @ scalar_text v)"
  using newline_scalar scalar_text_ends comment_scalar
  by (simp_all add: line_ok_def withoutComment_def)

lemma emitted_lines_ok:
  shows "printable j \<Longrightarrow> list_all (\<lambda>(i, t). line_ok t) (emit i j)"
    and "printable_fields fs \<Longrightarrow> list_all (\<lambda>(i, t). line_ok t) (emit_fields i fs)"
    and "printable_items js \<Longrightarrow> list_all (\<lambda>(i, t). line_ok t) (emit_items i js)"
proof (induction i j and i fs and i js rule: emit_emit_fields_emit_items.induct)
  case (5 i k v fs)
  then show ?case using line_ok_field [of k] by (cases "is_block v") auto
next
  case (7 i v vs)
  then show ?case using line_ok_item by (cases "is_block v") auto
qed simp_all

text \<open>C32: reading back what was written. Nested mappings and sequences of strings, booleans and nulls,
  written one entry or item per line and two columns deeper per level, with every string in single
  quotes, are read as the value that was written, whatever the JSON library makes of the texts:
  strings that look like numbers, comments, keys or flow collections stay strings.\<close>

theorem yaml_roundtrip:
  assumes "printable j" and "is_block j"
  shows "parseYaml jp (yaml_text j) = Done j []"
proof -
  have "list_all (\<lambda>(i, t). line_ok t) (emit 0 j)" by (rule emitted_lines_ok(1) [OF assms(1)])
  moreover from this have "list_all (\<lambda>(i, t). newline \<notin> set t) (emit 0 j)" by (auto simp: list_all_iff line_ok_def)
  ultimately have tok: "tokenize (yaml_text j) = Inr (number_lines 1 (emit 0 j))"
    using getlines_text tokenize_emitted [of _ 0] by (simp add: tokenize_def yaml_text_def)
  obtain l ls where "number_lines 1 (emit 0 j) = l # ls" "lindent l = 0"
    using emit_first [OF assms(2,1)] by metis
  moreover have "parseNode jp (Suc (length (number_lines 1 (emit 0 j)))) 0 (number_lines 1 (emit 0 j) @ []) = Done j []"
    by (rule emitted_blocks(1)) (use assms in \<open>auto simp: ends_block_def\<close>)
  ultimately show ?thesis
    unfolding parseYaml_def tok parse_document_def by (simp del: parseNode.simps)
qed

lemma yaml_roundtrip_witness:
  "parseYaml (\<lambda>_. None) (yaml_text (JObject [(''a'', JArray [JString ''x: # 1'', JObject [(''b'', JNull)]]), (''c'', JBool True)])) =
   Done (JObject [(''a'', JArray [JString ''x: # 1'', JObject [(''b'', JNull)]]), (''c'', JBool True)]) []"
  by (rule yaml_roundtrip) code_simp+

text \<open>An element of a flow sequence can vanish. Where the text of a sequence is not JSON, the reader
  splits it at the commas outside quotes and brackets. If a quote or a bracket is not closed before
  the end, the last comma is not seen and what follows the one before is dropped without an error:
  here the two elements become one.\<close>

theorem flow_sequence_drops_element:
  "parseYaml (\<lambda>_. None) (''xs: [a, '' @ [squote] @ ''b]'') = Done (JObject [(''xs'', JArray [JString ''a''])]) []"
  by code_simp

end
