(* ===== verification/Config.thy ===== *)
theory Config
  imports Yaml Registry Gate DataSource WriteBuffer "HOL-Library.Monad_Syntax"
begin

text \<open>
  The configuration loader (\<open>src/config/config_loader.cpp\<close>): a file is read as YAML or JSON and
  turned into the records the other components take.

  \<open>loadFromFile\<close> is one function of the source; here every section of a configuration is a
  definition of its own and \<open>load_json\<close> runs them in the order of the source. A conversion that
  throws an exception of the JSON library is \<open>None\<close>, which the handler at the end turns into an
  error (without the text of the exception); a rejected value is \<open>Inl\<close> with the message. What is
  left in the output parameter after an error is not modelled. Conversions are those of
  \<open>third_party/nlohmann/json.hpp\<close>: \<open>get<int>\<close> keeps the low 32 bits of an integer and accepts
  booleans. The casts of floating-point numbers to integers, which C++ leaves undefined out of
  range, are parameters, as are the environment and \<open>json::parse\<close>.
\<close>

section \<open>Conversions\<close>

record casts =
  cast_int :: "rat \<Rightarrow> int"
  cast_i64 :: "rat \<Rightarrow> int"
  cast_u64 :: "rat \<Rightarrow> u64"

fun as_bool :: "json \<Rightarrow> bool option" where
  "as_bool (JBool b) = Some b"
| "as_bool _ = None"

fun as_string :: "json \<Rightarrow> string option" where
  "as_string (JString s) = Some s"
| "as_string _ = None"

fun as_int :: "casts \<Rightarrow> json \<Rightarrow> int option" where
  "as_int c (JInt n) = Some (signed_take_bit 31 n)"
| "as_int c (JFloat r) = Some (cast_int c r)"
| "as_int c (JBool b) = Some (of_bool b)"
| "as_int c _ = None"

fun as_i64 :: "casts \<Rightarrow> json \<Rightarrow> int option" where
  "as_i64 c (JInt n) = Some (signed_take_bit 63 n)"
| "as_i64 c (JFloat r) = Some (cast_i64 c r)"
| "as_i64 c _ = None"

fun as_u64 :: "casts \<Rightarrow> json \<Rightarrow> u64 option" where
  "as_u64 c (JInt n) = Some (word_of_int n)"
| "as_u64 c (JFloat r) = Some (cast_u64 c r)"
| "as_u64 c _ = None"

fun as_double :: "json \<Rightarrow> rat option" where
  "as_double (JInt n) = Some (of_int n)"
| "as_double (JFloat r) = Some r"
| "as_double _ = None"

fun as_vector :: "(json \<Rightarrow> 'a option) \<Rightarrow> json \<Rightarrow> 'a list option" where
  "as_vector conv (JArray js) = those (map conv js)"
| "as_vector conv _ = None"

type_synonym fields = "(string \<times> json) list"

text \<open>\<open>j.value(key, default)\<close> of an object.\<close>

definition value_of :: "(json \<Rightarrow> 'a option) \<Rightarrow> fields \<Rightarrow> string \<Rightarrow> 'a \<Rightarrow> 'a option" where
  "value_of conv fs k d = (case map_of fs k of None \<Rightarrow> Some d | Some j \<Rightarrow> conv j)"

definition has :: "fields \<Rightarrow> string \<Rightarrow> bool" where
  "has fs k \<longleftrightarrow> map_of fs k \<noteq> None"

section \<open>Sequencing\<close>

type_synonym 'a loaded = "string + 'a"

definition json_error :: string where
  "json_error = ''config validation error: ''"

fun chain :: "'a loaded \<Rightarrow> ('a \<Rightarrow> 'b loaded) \<Rightarrow> 'b loaded" where
  "chain (Inl e) f = Inl e"
| "chain (Inr x) f = f x"

definition converted :: "'a option \<Rightarrow> ('a \<Rightarrow> 'b loaded) \<Rightarrow> 'b loaded" where
  "converted x f = (case x of None \<Rightarrow> Inl json_error | Some y \<Rightarrow> f y)"

definition accept_if :: "bool \<Rightarrow> string \<Rightarrow> 'a \<Rightarrow> 'a loaded" where
  "accept_if ok msg x = (if ok then Inr x else Inl msg)"

text \<open>An optional section: absent, the default stands; present, it must be an object.\<close>

definition section_of :: "fields \<Rightarrow> string \<Rightarrow> string \<Rightarrow> 'a \<Rightarrow> (fields \<Rightarrow> 'a loaded) \<Rightarrow> 'a loaded" where
  "section_of fs k label d f =
     (case map_of fs k of
        None \<Rightarrow> Inr d
      | Some (JObject ob) \<Rightarrow> f ob
      | Some _ \<Rightarrow> Inl (label @ '' must be an object''))"

fun load_all :: "('a \<Rightarrow> 'b loaded) \<Rightarrow> 'a list \<Rightarrow> 'b list loaded" where
  "load_all f [] = Inr []"
| "load_all f (x # xs) = chain (f x) (\<lambda>y. chain (load_all f xs) (\<lambda>ys. Inr (y # ys)))"

section \<open>Pool, retry, circuit breaker\<close>

record pool_config =
  pc_enabled :: bool
  pc_min :: int
  pc_max :: int
  pc_borrow_timeout_ms :: int
  pc_idle_timeout_ms :: int
  pc_max_lifetime_ms :: int
  pc_leak_detection_threshold_ms :: int
  pc_validation_interval_ms :: int

definition default_pool :: pool_config where
  "default_pool = \<lparr>pc_enabled = True, pc_min = 1, pc_max = 8, pc_borrow_timeout_ms = 30000, pc_idle_timeout_ms = 600000,
     pc_max_lifetime_ms = 1800000, pc_leak_detection_threshold_ms = 30000, pc_validation_interval_ms = 500\<rparr>"

definition read_pool :: "casts \<Rightarrow> fields \<Rightarrow> pool_config \<Rightarrow> pool_config option" where
  "read_pool c fs p = do {
     enabled \<leftarrow> value_of as_bool fs ''enabled'' (pc_enabled p);
     mn \<leftarrow> value_of (as_int c) fs ''min'' (pc_min p);
     mx \<leftarrow> value_of (as_int c) fs ''max'' (pc_max p);
     borrow \<leftarrow> value_of (as_int c) fs ''borrow_timeout_ms'' (pc_borrow_timeout_ms p);
     idle \<leftarrow> value_of (as_int c) fs ''idle_timeout_ms'' (pc_idle_timeout_ms p);
     life \<leftarrow> value_of (as_int c) fs ''max_lifetime_ms'' (pc_max_lifetime_ms p);
     leak \<leftarrow> value_of (as_int c) fs ''leak_detection_threshold_ms'' (pc_leak_detection_threshold_ms p);
     valid \<leftarrow> value_of (as_int c) fs ''validation_interval_ms'' (pc_validation_interval_ms p);
     Some \<lparr>pc_enabled = enabled, pc_min = mn, pc_max = mx, pc_borrow_timeout_ms = borrow, pc_idle_timeout_ms = idle,
       pc_max_lifetime_ms = life, pc_leak_detection_threshold_ms = leak, pc_validation_interval_ms = valid\<rparr>
   }"

definition clamp_pool :: "pool_config \<Rightarrow> pool_config" where
  "clamp_pool p =
     (let mn = (if pc_min p < 0 then 0 else pc_min p);
          mx = (if pc_max p < 1 then 1 else pc_max p)
      in p\<lparr>pc_min := (if mx < mn then mx else mn), pc_max := mx,
           pc_borrow_timeout_ms := max 0 (pc_borrow_timeout_ms p), pc_idle_timeout_ms := max 0 (pc_idle_timeout_ms p),
           pc_max_lifetime_ms := max 0 (pc_max_lifetime_ms p),
           pc_leak_detection_threshold_ms := max 0 (pc_leak_detection_threshold_ms p),
           pc_validation_interval_ms := max 0 (pc_validation_interval_ms p)\<rparr>)"

text \<open>A pool section that is not an object is ignored.\<close>

definition load_pool :: "casts \<Rightarrow> fields \<Rightarrow> pool_config loaded" where
  "load_pool c fs =
     converted (case map_of fs ''pool'' of Some (JObject ob) \<Rightarrow> read_pool c ob default_pool | _ \<Rightarrow> Some default_pool)
       (\<lambda>p. Inr (clamp_pool p))"

definition default_retry :: retry_cfg where
  "default_retry = \<lparr>max_attempts = 1, initial_backoff_ms = 50, max_backoff_ms = 1000, retry_writes = False\<rparr>"

definition load_retry :: "casts \<Rightarrow> fields \<Rightarrow> retry_cfg loaded" where
  "load_retry c fs = section_of fs ''retry'' ''retry'' default_retry (\<lambda>ob.
     converted (do {
         attempts \<leftarrow> value_of (as_int c) ob ''max_attempts'' (max_attempts default_retry);
         initial \<leftarrow> value_of (as_int c) ob ''initial_backoff_ms'' (initial_backoff_ms default_retry);
         mx \<leftarrow> value_of (as_int c) ob ''max_backoff_ms'' (max_backoff_ms default_retry);
         writes \<leftarrow> value_of as_bool ob ''retry_writes'' (retry_writes default_retry);
         Some \<lparr>max_attempts = attempts, initial_backoff_ms = initial, max_backoff_ms = mx, retry_writes = writes\<rparr>
       })
       (\<lambda>r. accept_if (\<not> (max_attempts r < 1 \<or> initial_backoff_ms r < 0 \<or> max_backoff_ms r < initial_backoff_ms r))
          ''invalid retry configuration'' r))"

definition default_breaker :: breaker_cfg where
  "default_breaker = \<lparr>failure_threshold = 0, open_interval_ms = 30000\<rparr>"

definition load_breaker :: "casts \<Rightarrow> fields \<Rightarrow> breaker_cfg loaded" where
  "load_breaker c fs = section_of fs ''circuit_breaker'' ''circuit_breaker'' default_breaker (\<lambda>ob.
     converted (do {
         threshold \<leftarrow> value_of (as_int c) ob ''failure_threshold'' (failure_threshold default_breaker);
         interval \<leftarrow> value_of (as_int c) ob ''open_interval_ms'' (open_interval_ms default_breaker);
         Some \<lparr>failure_threshold = threshold, open_interval_ms = interval\<rparr>
       })
       (\<lambda>b. accept_if (\<not> (failure_threshold b < 0 \<or> open_interval_ms b < 1)) ''invalid circuit_breaker configuration'' b))"

section \<open>Observability\<close>

record sql_log_config =
  sl_enabled :: bool
  sl_mode :: string
  sl_level :: string
  sl_log_success :: bool
  sl_log_errors :: bool
  sl_slow_only :: bool
  sl_sample_rate :: rat
  sl_max_sql_length :: int
  sl_max_param_length :: int
  sl_include_string_values :: bool
  sl_include_blob_values :: bool

definition default_sql_log :: sql_log_config where
  "default_sql_log = \<lparr>sl_enabled = False, sl_mode = ''template'', sl_level = ''debug'', sl_log_success = True, sl_log_errors = True,
     sl_slow_only = False, sl_sample_rate = 1, sl_max_sql_length = 8192, sl_max_param_length = 256,
     sl_include_string_values = False, sl_include_blob_values = False\<rparr>"

definition valid_sql_log :: "sql_log_config \<Rightarrow> bool" where
  "valid_sql_log s \<longleftrightarrow> \<not> (sl_mode s \<noteq> ''template'' \<and> sl_mode s \<noteq> ''full'' \<or>
     sl_level s \<noteq> ''debug'' \<and> sl_level s \<noteq> ''info'' \<and> sl_level s \<noteq> ''warn'' \<and> sl_level s \<noteq> ''error'' \<or>
     sl_sample_rate s < 0 \<or> 1 < sl_sample_rate s \<or> sl_max_sql_length s < 64 \<or> sl_max_param_length s < 1)"

definition load_sql_log :: "casts \<Rightarrow> fields \<Rightarrow> sql_log_config loaded" where
  "load_sql_log c fs = section_of fs ''sql_log'' ''observability.sql_log'' default_sql_log (\<lambda>ob.
     converted (do {
         enabled \<leftarrow> value_of as_bool ob ''enabled'' (sl_enabled default_sql_log);
         mode \<leftarrow> value_of as_string ob ''mode'' (sl_mode default_sql_log);
         level \<leftarrow> value_of as_string ob ''level'' (sl_level default_sql_log);
         success \<leftarrow> value_of as_bool ob ''log_success'' (sl_log_success default_sql_log);
         errors \<leftarrow> value_of as_bool ob ''log_errors'' (sl_log_errors default_sql_log);
         slow \<leftarrow> value_of as_bool ob ''slow_only'' (sl_slow_only default_sql_log);
         rate \<leftarrow> value_of as_double ob ''sample_rate'' (sl_sample_rate default_sql_log);
         sql_len \<leftarrow> value_of (as_int c) ob ''max_sql_length'' (sl_max_sql_length default_sql_log);
         param_len \<leftarrow> value_of (as_int c) ob ''max_param_length'' (sl_max_param_length default_sql_log);
         strings \<leftarrow> value_of as_bool ob ''include_string_values'' (sl_include_string_values default_sql_log);
         blobs \<leftarrow> value_of as_bool ob ''include_blob_values'' (sl_include_blob_values default_sql_log);
         Some \<lparr>sl_enabled = enabled, sl_mode = mode, sl_level = level, sl_log_success = success, sl_log_errors = errors,
           sl_slow_only = slow, sl_sample_rate = rate, sl_max_sql_length = sql_len, sl_max_param_length = param_len,
           sl_include_string_values = strings, sl_include_blob_values = blobs\<rparr>
       })
       (\<lambda>s. accept_if (valid_sql_log s) ''invalid observability.sql_log configuration'' s))"

record slow_sql_config =
  ss_enabled :: bool
  ss_threshold_ms :: int
  ss_aggregate_capacity :: int
  ss_recent_capacity :: int
  ss_retain_rendered_sql :: bool
  ss_max_sql_length :: int
  ss_histogram_buckets_ms :: "int list"

definition default_slow_sql :: slow_sql_config where
  "default_slow_sql = \<lparr>ss_enabled = False, ss_threshold_ms = 500, ss_aggregate_capacity = 1000, ss_recent_capacity = 200,
     ss_retain_rendered_sql = False, ss_max_sql_length = 4096,
     ss_histogram_buckets_ms = [10, 50, 100, 200, 500, 1000, 3000, 10000]\<rparr>"

definition valid_slow_sql :: "slow_sql_config \<Rightarrow> bool" where
  "valid_slow_sql s \<longleftrightarrow> \<not> (ss_threshold_ms s < 0 \<or> ss_aggregate_capacity s < 1 \<or> ss_recent_capacity s < 0 \<or>
     ss_max_sql_length s < 64 \<or> ss_histogram_buckets_ms s = [])"

fun buckets_increase :: "int \<Rightarrow> int list \<Rightarrow> bool" where
  "buckets_increase previous [] = True"
| "buckets_increase previous (b # bs) = (if b \<le> 0 \<or> b \<le> previous then False else buckets_increase b bs)"

definition load_slow_sql :: "casts \<Rightarrow> fields \<Rightarrow> slow_sql_config loaded" where
  "load_slow_sql c fs = section_of fs ''slow_sql'' ''observability.slow_sql'' default_slow_sql (\<lambda>ob.
     converted (do {
         enabled \<leftarrow> value_of as_bool ob ''enabled'' (ss_enabled default_slow_sql);
         threshold \<leftarrow> value_of (as_int c) ob ''threshold_ms'' (ss_threshold_ms default_slow_sql);
         aggregate \<leftarrow> value_of (as_int c) ob ''aggregate_capacity'' (ss_aggregate_capacity default_slow_sql);
         recent \<leftarrow> value_of (as_int c) ob ''recent_capacity'' (ss_recent_capacity default_slow_sql);
         retain \<leftarrow> value_of as_bool ob ''retain_rendered_sql'' (ss_retain_rendered_sql default_slow_sql);
         sql_len \<leftarrow> value_of (as_int c) ob ''max_sql_length'' (ss_max_sql_length default_slow_sql);
         buckets \<leftarrow> value_of (as_vector (as_int c)) ob ''histogram_buckets_ms'' (ss_histogram_buckets_ms default_slow_sql);
         Some \<lparr>ss_enabled = enabled, ss_threshold_ms = threshold, ss_aggregate_capacity = aggregate, ss_recent_capacity = recent,
           ss_retain_rendered_sql = retain, ss_max_sql_length = sql_len, ss_histogram_buckets_ms = buckets\<rparr>
       })
       (\<lambda>s. if \<not> valid_slow_sql s then Inl ''invalid observability.slow_sql configuration''
            else accept_if (buckets_increase (- 1) (ss_histogram_buckets_ms s))
              ''slow_sql histogram buckets must be positive and increasing'' s))"

definition load_pool_metrics :: "fields \<Rightarrow> bool loaded" where
  "load_pool_metrics fs = section_of fs ''pool_metrics'' ''observability.pool_metrics'' True (\<lambda>ob.
     converted (value_of as_bool ob ''enabled'' True) Inr)"

record stats_report_config =
  sr_enabled :: bool
  sr_interval_ms :: int
  sr_file :: string
  sr_format :: string
  sr_include_pool :: bool
  sr_include_slow_sql :: bool
  sr_slow_sql_limit :: int

definition default_stats_report :: stats_report_config where
  "default_stats_report = \<lparr>sr_enabled = False, sr_interval_ms = 60000, sr_file = [], sr_format = ''text'', sr_include_pool = True,
     sr_include_slow_sql = True, sr_slow_sql_limit = 10\<rparr>"

definition load_stats_report :: "casts \<Rightarrow> fields \<Rightarrow> stats_report_config loaded" where
  "load_stats_report c fs = section_of fs ''stats_report'' ''observability.stats_report'' default_stats_report (\<lambda>ob.
     converted (do {
         enabled \<leftarrow> value_of as_bool ob ''enabled'' (sr_enabled default_stats_report);
         interval \<leftarrow> value_of (as_int c) ob ''interval_ms'' (sr_interval_ms default_stats_report);
         file \<leftarrow> value_of as_string ob ''file'' (sr_file default_stats_report);
         format \<leftarrow> value_of as_string ob ''format'' (sr_format default_stats_report);
         pool \<leftarrow> value_of as_bool ob ''include_pool'' (sr_include_pool default_stats_report);
         slow \<leftarrow> value_of as_bool ob ''include_slow_sql'' (sr_include_slow_sql default_stats_report);
         limit \<leftarrow> value_of (as_int c) ob ''slow_sql_limit'' (sr_slow_sql_limit default_stats_report);
         Some \<lparr>sr_enabled = enabled, sr_interval_ms = (if interval < 1000 then 1000 else interval), sr_file = file, sr_format = format,
           sr_include_pool = pool, sr_include_slow_sql = slow, sr_slow_sql_limit = limit\<rparr>
       })
       (\<lambda>r. if sr_format r \<noteq> ''text'' \<and> sr_format r \<noteq> ''json''
            then Inl (''observability.stats_report.format must be '' @ quoted ''text'' @ '' or '' @ quoted ''json'')
            else accept_if (\<not> sr_slow_sql_limit r < 0) ''invalid observability.stats_report configuration'' r))"

record observability_config =
  ob_sql_log :: sql_log_config
  ob_slow_sql :: slow_sql_config
  ob_pool_metrics :: bool
  ob_stats_report :: stats_report_config

definition default_observability :: observability_config where
  "default_observability = \<lparr>ob_sql_log = default_sql_log, ob_slow_sql = default_slow_sql, ob_pool_metrics = True,
     ob_stats_report = default_stats_report\<rparr>"

definition load_observability :: "casts \<Rightarrow> fields \<Rightarrow> observability_config loaded" where
  "load_observability c fs = section_of fs ''observability'' ''observability'' default_observability (\<lambda>ob.
     chain (load_sql_log c ob) (\<lambda>log.
     chain (load_slow_sql c ob) (\<lambda>slow.
     chain (load_pool_metrics ob) (\<lambda>metrics.
     chain (load_stats_report c ob) (\<lambda>report.
       Inr \<lparr>ob_sql_log = log, ob_slow_sql = slow, ob_pool_metrics = metrics, ob_stats_report = report\<rparr>)))))"

section \<open>Limits, audit, caches, cursors, executor\<close>

definition default_rate_limit :: rate_limit_config where
  "default_rate_limit = \<lparr>rlc_enabled = False, global_qps = 0, per_fingerprint_qps = 0, rlc_burst = 0, fingerprint_mode = ''off''\<rparr>"

definition load_rate_limit :: "casts \<Rightarrow> fields \<Rightarrow> rate_limit_config loaded" where
  "load_rate_limit c fs = section_of fs ''rate_limit'' ''rate_limit'' default_rate_limit (\<lambda>ob.
     converted (do {
         enabled \<leftarrow> value_of as_bool ob ''enabled'' (rlc_enabled default_rate_limit);
         qps \<leftarrow> value_of (as_int c) ob ''global_qps'' (global_qps default_rate_limit);
         fp_qps \<leftarrow> value_of (as_int c) ob ''per_fingerprint_qps'' (per_fingerprint_qps default_rate_limit);
         burst \<leftarrow> value_of (as_int c) ob ''burst'' (rlc_burst default_rate_limit);
         mode \<leftarrow> value_of as_string ob ''fingerprint_mode'' (fingerprint_mode default_rate_limit);
         Some \<lparr>rlc_enabled = enabled, global_qps = qps, per_fingerprint_qps = fp_qps, rlc_burst = burst, fingerprint_mode = mode\<rparr>
       })
       (\<lambda>r. if global_qps r < 0 \<or> per_fingerprint_qps r < 0 \<or> rlc_burst r < 0 then Inl ''invalid rate_limit configuration''
            else accept_if (\<not> (fingerprint_mode r \<noteq> ''off'' \<and> fingerprint_mode r \<noteq> ''template'' \<and> fingerprint_mode r \<noteq> ''full''))
              ''rate_limit.fingerprint_mode must be off/template/full'' r))"

definition default_audit :: audit_config where
  "default_audit = \<lparr>ac_enabled = False, ac_action = ''warn'', ac_block_no_where_dml = False, ac_require_limit_select = False,
     ac_enforce_read_only = False, ac_log_blocked = True, blacklist_fingerprints = [], whitelist_fingerprints = []\<rparr>"

definition load_audit :: "casts \<Rightarrow> fields \<Rightarrow> audit_config loaded" where
  "load_audit c fs = section_of fs ''sql_audit'' ''sql_audit'' default_audit (\<lambda>ob.
     converted (do {
         enabled \<leftarrow> value_of as_bool ob ''enabled'' (ac_enabled default_audit);
         action \<leftarrow> value_of as_string ob ''action'' (ac_action default_audit);
         no_where \<leftarrow> value_of as_bool ob ''block_no_where_dml'' (ac_block_no_where_dml default_audit);
         limit \<leftarrow> value_of as_bool ob ''require_limit_select'' (ac_require_limit_select default_audit);
         read_only \<leftarrow> value_of as_bool ob ''enforce_read_only'' (ac_enforce_read_only default_audit);
         log \<leftarrow> value_of as_bool ob ''log_blocked'' (ac_log_blocked default_audit);
         black \<leftarrow> value_of (as_vector (as_u64 c)) ob ''blacklist_fingerprints'' (blacklist_fingerprints default_audit);
         white \<leftarrow> value_of (as_vector (as_u64 c)) ob ''whitelist_fingerprints'' (whitelist_fingerprints default_audit);
         Some \<lparr>ac_enabled = enabled, ac_action = action, ac_block_no_where_dml = no_where, ac_require_limit_select = limit,
           ac_enforce_read_only = read_only, ac_log_blocked = log, blacklist_fingerprints = black, whitelist_fingerprints = white\<rparr>
       })
       (\<lambda>a. accept_if (\<not> (ac_action a \<noteq> ''block'' \<and> ac_action a \<noteq> ''warn'')) ''sql_audit.action must be block/warn'' a))"

definition default_cache :: cache_config where
  "default_cache = \<lparr>cc_enabled = False, ttl_ms = 60000, max_entries = 1000, max_memory_bytes = 0, cache_on_replica_only = False\<rparr>"

definition load_query_cache :: "casts \<Rightarrow> fields \<Rightarrow> cache_config loaded" where
  "load_query_cache c fs = section_of fs ''query_cache'' ''query_cache'' default_cache (\<lambda>ob.
     converted (do {
         enabled \<leftarrow> value_of as_bool ob ''enabled'' (cc_enabled default_cache);
         ttl \<leftarrow> value_of (as_int c) ob ''ttl_ms'' (ttl_ms default_cache);
         entries \<leftarrow> value_of (as_int c) ob ''max_entries'' (max_entries default_cache);
         bytes \<leftarrow> value_of (as_int c) ob ''max_memory_bytes'' (max_memory_bytes default_cache);
         replica \<leftarrow> value_of as_bool ob ''cache_on_replica_only'' (cache_on_replica_only default_cache);
         Some \<lparr>cc_enabled = enabled, ttl_ms = ttl, max_entries = entries, max_memory_bytes = bytes, cache_on_replica_only = replica\<rparr>
       })
       (\<lambda>q. accept_if (\<not> (ttl_ms q < 0 \<or> max_entries q < 0 \<or> max_memory_bytes q < 0)) ''invalid query_cache configuration'' q))"

record cursor_config =
  cu_enabled :: bool
  cu_default_batch_size :: int
  cu_max_open_cursors :: int
  cu_allow_scrollable :: bool

definition default_cursor :: cursor_config where
  "default_cursor = \<lparr>cu_enabled = True, cu_default_batch_size = 256, cu_max_open_cursors = 0, cu_allow_scrollable = False\<rparr>"

definition load_cursor :: "casts \<Rightarrow> fields \<Rightarrow> cursor_config loaded" where
  "load_cursor c fs = section_of fs ''cursor'' ''cursor'' default_cursor (\<lambda>ob.
     converted (do {
         enabled \<leftarrow> value_of as_bool ob ''enabled'' (cu_enabled default_cursor);
         size \<leftarrow> value_of (as_int c) ob ''default_batch_size'' (cu_default_batch_size default_cursor);
         mx \<leftarrow> value_of (as_int c) ob ''max_open_cursors'' (cu_max_open_cursors default_cursor);
         scroll \<leftarrow> value_of as_bool ob ''allow_scrollable'' (cu_allow_scrollable default_cursor);
         Some \<lparr>cu_enabled = enabled, cu_default_batch_size = size, cu_max_open_cursors = mx, cu_allow_scrollable = scroll\<rparr>
       })
       (\<lambda>u. accept_if (\<not> (cu_default_batch_size u < 0 \<or> cu_max_open_cursors u < 0)) ''invalid cursor configuration'' u))"

record prepared_config =
  pr_enabled :: bool
  pr_max_per_connection :: int

definition default_prepared :: prepared_config where
  "default_prepared = \<lparr>pr_enabled = True, pr_max_per_connection = 0\<rparr>"

definition load_prepared_cache :: "casts \<Rightarrow> fields \<Rightarrow> prepared_config loaded" where
  "load_prepared_cache c fs = section_of fs ''prepared_cache'' ''prepared_cache'' default_prepared (\<lambda>ob.
     converted (do {
         enabled \<leftarrow> value_of as_bool ob ''enabled'' (pr_enabled default_prepared);
         mx \<leftarrow> value_of (as_int c) ob ''max_per_connection'' (pr_max_per_connection default_prepared);
         Some \<lparr>pr_enabled = enabled, pr_max_per_connection = mx\<rparr>
       })
       (\<lambda>p. accept_if (\<not> pr_max_per_connection p < 0)
          ''invalid prepared_cache configuration: max_per_connection must be >= 0'' p))"

text \<open>The only section that refuses names it does not know, besides the Oracle block.\<close>

definition load_interceptors :: "fields \<Rightarrow> bool loaded" where
  "load_interceptors fs = section_of fs ''interceptors'' ''interceptors'' False (\<lambda>ob.
     converted (value_of as_bool ob ''enabled'' False)
       (\<lambda>enabled. case find (\<lambda>f. fst f \<noteq> ''enabled'') ob of
          Some f \<Rightarrow> Inl (''unknown interceptors field: '' @ fst f)
        | None \<Rightarrow> Inr enabled))"

record async_config =
  as_enabled :: bool
  as_threads :: int
  as_queue_size :: int
  as_statement_timeout_ms :: int

definition default_async :: async_config where
  "default_async = \<lparr>as_enabled = True, as_threads = 0, as_queue_size = 4096, as_statement_timeout_ms = 0\<rparr>"

definition load_async :: "casts \<Rightarrow> fields \<Rightarrow> async_config loaded" where
  "load_async c fs = section_of fs ''async'' ''async'' default_async (\<lambda>ob.
     converted (do {
         enabled \<leftarrow> value_of as_bool ob ''enabled'' (as_enabled default_async);
         threads \<leftarrow> value_of (as_int c) ob ''threads'' (as_threads default_async);
         size \<leftarrow> value_of (as_int c) ob ''queue_size'' (as_queue_size default_async);
         timeout \<leftarrow> value_of (as_int c) ob ''statement_timeout_ms'' (as_statement_timeout_ms default_async);
         Some \<lparr>as_enabled = enabled, as_threads = threads, as_queue_size = size, as_statement_timeout_ms = timeout\<rparr>
       })
       (\<lambda>a. accept_if (\<not> (as_threads a < 0 \<or> as_queue_size a < 1 \<or> as_statement_timeout_ms a < 0)) ''invalid async configuration'' a))"

end
