(* ===== verification/ConfigLoader.thy ===== *)
theory ConfigLoader
  imports Config
begin

text \<open>
  The rest of the configuration loader: data sources with their passwords, TLS and Oracle settings,
  groups with replicas, failover and write buffer, the whole document, and the choice between
  YAML and JSON.
\<close>

section \<open>Data sources\<close>

record oracle_config =
  or_service_name :: string
  or_sid :: string
  or_wallet_location :: string
  or_server_cert_dn :: string
  or_charset_id :: int
  or_lob_max_bytes :: int
  or_blob_bind :: string

definition default_oracle :: oracle_config where
  "default_oracle = \<lparr>or_service_name = [], or_sid = [], or_wallet_location = [], or_server_cert_dn = [], or_charset_id = 873,
     or_lob_max_bytes = 4194304, or_blob_bind = ''auto''\<rparr>"

record source_config = ds_config +
  sc_host :: string
  sc_port :: int
  sc_user :: string
  sc_password :: string
  sc_password_env :: string
  sc_database :: string
  sc_dsn :: string
  sc_connection_timeout_ms :: int
  sc_socket_timeout_ms :: int
  sc_query_timeout_ms :: int
  sc_max_result_rows :: int
  sc_tls_enabled :: bool
  sc_tls_verify_peer :: bool
  sc_tls_ca :: string
  sc_tls_cert :: string
  sc_tls_key :: string
  sc_oracle :: oracle_config
  sc_extra :: "(string \<times> string) list"

definition read_source :: "casts \<Rightarrow> fields \<Rightarrow> source_config option" where
  "read_source c d = do {
     name \<leftarrow> value_of as_string d ''name'' [];
     type \<leftarrow> value_of as_string d ''type'' [];
     host \<leftarrow> value_of as_string d ''host'' [];
     port \<leftarrow> value_of (as_int c) d ''port'' 0;
     user \<leftarrow> value_of as_string d ''user'' [];
     password \<leftarrow> value_of as_string d ''password'' [];
     password_env \<leftarrow> value_of as_string d ''password_env'' [];
     database \<leftarrow> value_of as_string d ''database'' [];
     dsn \<leftarrow> value_of as_string d ''dsn'' [];
     connection \<leftarrow> value_of (as_int c) d ''connection_timeout_ms'' 5000;
     socket \<leftarrow> value_of (as_int c) d ''socket_timeout_ms'' 0;
     query \<leftarrow> value_of (as_int c) d ''query_timeout_ms'' 0;
     rows \<leftarrow> value_of (as_int c) d ''max_result_rows'' 0;
     Some \<lparr>dc_name = name, dc_type = type, sc_host = host, sc_port = port, sc_user = user, sc_password = password,
       sc_password_env = password_env, sc_database = database, sc_dsn = dsn, sc_connection_timeout_ms = connection,
       sc_socket_timeout_ms = socket, sc_query_timeout_ms = query, sc_max_result_rows = rows, sc_tls_enabled = False,
       sc_tls_verify_peer = True, sc_tls_ca = [], sc_tls_cert = [], sc_tls_key = [], sc_oracle = default_oracle, sc_extra = []\<rparr>
   }"

definition in_source :: "source_config \<Rightarrow> string \<Rightarrow> string" where
  "in_source sc msg = ''datasource '' @ quoted (dc_name sc) @ msg"

definition check_timeouts :: "source_config \<Rightarrow> source_config loaded" where
  "check_timeouts sc =
     accept_if (\<not> (sc_connection_timeout_ms sc < 0 \<or> sc_socket_timeout_ms sc < 0 \<or> sc_query_timeout_ms sc < 0 \<or> sc_max_result_rows sc < 0))
       (in_source sc '' timeout and max_result_rows values must be >= 0'') sc"

text \<open>A name is handed to \<open>getenv\<close> as a C string, which ends at the first null character.\<close>

definition c_str :: "string \<Rightarrow> string" where
  "c_str s = takeWhile (\<lambda>ch. ch \<noteq> CHR 0x00) s"

definition load_password :: "(string \<Rightarrow> string option) \<Rightarrow> source_config \<Rightarrow> source_config loaded" where
  "load_password getenv sc =
     (if sc_password_env sc = [] then Inr sc
      else case getenv (c_str (sc_password_env sc)) of
        None \<Rightarrow> Inl (in_source sc ('' references missing password_env '' @ quoted (sc_password_env sc)))
      | Some secret \<Rightarrow> Inr (sc\<lparr>sc_password := secret\<rparr>))"

definition load_tls :: "fields \<Rightarrow> source_config \<Rightarrow> source_config loaded" where
  "load_tls d sc = section_of d ''tls'' (in_source sc '' tls'') sc (\<lambda>tls.
     converted (do {
         enabled \<leftarrow> value_of as_bool tls ''enabled'' True;
         verify \<leftarrow> value_of as_bool tls ''verify_peer'' True;
         ca \<leftarrow> value_of as_string tls ''ca'' [];
         cert \<leftarrow> value_of as_string tls ''cert'' [];
         key \<leftarrow> value_of as_string tls ''key'' [];
         Some (sc\<lparr>sc_tls_enabled := enabled, sc_tls_verify_peer := verify, sc_tls_ca := ca, sc_tls_cert := cert, sc_tls_key := key\<rparr>)
       }) Inr)"

definition load_extra :: "fields \<Rightarrow> source_config \<Rightarrow> source_config loaded" where
  "load_extra d sc =
     (case map_of d ''extra'' of
        Some (JObject ob) \<Rightarrow>
          converted (those (map (\<lambda>(k, j). map_option (Pair k) (as_string j)) ob)) (\<lambda>ex. Inr (sc\<lparr>sc_extra := ex\<rparr>))
      | _ \<Rightarrow> Inr sc)"

subsection \<open>Oracle\<close>

definition read_oracle :: "casts \<Rightarrow> fields \<Rightarrow> oracle_config option" where
  "read_oracle c ob = do {
     service \<leftarrow> value_of as_string ob ''service_name'' [];
     sid \<leftarrow> value_of as_string ob ''sid'' [];
     wallet \<leftarrow> value_of as_string ob ''wallet_location'' [];
     dn \<leftarrow> value_of as_string ob ''server_cert_dn'' [];
     charset \<leftarrow> value_of (as_int c) ob ''charset_id'' (or_charset_id default_oracle);
     lob \<leftarrow> value_of (as_i64 c) ob ''lob_max_bytes'' (or_lob_max_bytes default_oracle);
     bind \<leftarrow> value_of as_string ob ''blob_bind'' (or_blob_bind default_oracle);
     Some \<lparr>or_service_name = service, or_sid = sid, or_wallet_location = wallet, or_server_cert_dn = dn, or_charset_id = charset,
       or_lob_max_bytes = lob, or_blob_bind = bind\<rparr>
   }"

definition oracle_fields :: "string list" where
  "oracle_fields = [''service_name'', ''sid'', ''wallet_location'', ''server_cert_dn'', ''charset_id'', ''lob_max_bytes'', ''blob_bind'']"

text \<open>The Oracle block: its settings and the fields it has.\<close>

definition oracle_block :: "casts \<Rightarrow> fields \<Rightarrow> source_config \<Rightarrow> (oracle_config \<times> fields) loaded" where
  "oracle_block c d sc = section_of d ''oracle'' (in_source sc '' oracle'') (default_oracle, []) (\<lambda>ob.
     converted (read_oracle c ob) (\<lambda>orc.
       case find (\<lambda>f. fst f \<notin> set oracle_fields) ob of
         Some f \<Rightarrow> Inl (''unknown oracle field in '' @ in_source sc ('': '' @ fst f))
       | None \<Rightarrow> Inr (orc, ob)))"

text \<open>\<open>strtoll\<close> on the whole text.\<close>

definition parseInt64 :: "string \<Rightarrow> int option" where
  "parseInt64 t =
     (let u = dropWhile is_space t;
          v = (if u \<noteq> [] \<and> (hd u = CHR ''-'' \<or> hd u = CHR ''+'') then tl u else u)
      in if list_all is_digit v then stoll t else None)"

text \<open>What the \<open>extra\<close> table says where the block is silent.\<close>

definition legacy :: "fields \<Rightarrow> source_config \<Rightarrow> string \<Rightarrow> string \<Rightarrow> string" where
  "legacy ob sc k cur = (if has ob k then cur else case map_of (sc_extra sc) k of None \<Rightarrow> cur | Some v \<Rightarrow> v)"

definition legacy_int :: "fields \<Rightarrow> source_config \<Rightarrow> string \<Rightarrow> (int \<Rightarrow> bool) \<Rightarrow> string \<Rightarrow> int \<Rightarrow> int loaded" where
  "legacy_int ob sc k ok msg cur =
     (if has ob k then Inr cur
      else case map_of (sc_extra sc) k of
        None \<Rightarrow> Inr cur
      | Some t \<Rightarrow> (case parseInt64 t of
          None \<Rightarrow> Inl (in_source sc msg)
        | Some n \<Rightarrow> accept_if (ok n) (in_source sc msg) n))"

definition legacy_oracle :: "fields \<Rightarrow> source_config \<Rightarrow> oracle_config \<Rightarrow> oracle_config loaded" where
  "legacy_oracle ob sc orc =
     chain (legacy_int ob sc ''charset_id'' (\<lambda>n. \<not> (n < 1 \<or> 65535 < n)) '' extra.charset_id must be in range 1..65535'' (or_charset_id orc)) (\<lambda>charset.
     chain (legacy_int ob sc ''lob_max_bytes'' (\<lambda>n. \<not> n < 1) '' extra.lob_max_bytes must be > 0'' (or_lob_max_bytes orc)) (\<lambda>lob.
       Inr \<lparr>or_service_name = legacy ob sc ''service_name'' (or_service_name orc), or_sid = legacy ob sc ''sid'' (or_sid orc),
         or_wallet_location = legacy ob sc ''wallet_location'' (or_wallet_location orc),
         or_server_cert_dn = legacy ob sc ''server_cert_dn'' (or_server_cert_dn orc), or_charset_id = charset,
         or_lob_max_bytes = lob, or_blob_bind = legacy ob sc ''blob_bind'' (or_blob_bind orc)\<rparr>))"

text \<open>The rules for an Oracle data source; the certificate authority stands in for a wallet that is not
  given.\<close>

definition check_oracle :: "source_config \<Rightarrow> oracle_config \<Rightarrow> source_config loaded" where
  "check_oracle sc orc =
     (let raw = (map_of (sc_extra sc) ''connection_string'' \<noteq> None) in
      if or_charset_id orc < 1 \<or> 65535 < or_charset_id orc \<or> or_lob_max_bytes orc < 1 \<or>
         or_blob_bind orc \<noteq> ''auto'' \<and> or_blob_bind orc \<noteq> ''raw'' \<and> or_blob_bind orc \<noteq> ''lob''
      then Inl (in_source sc '' has invalid oracle configuration'')
      else if or_service_name orc \<noteq> [] \<and> or_sid orc \<noteq> []
      then Inl (in_source sc '' oracle.service_name and oracle.sid are mutually exclusive'')
      else if or_sid orc \<noteq> [] \<and> sc_database sc \<noteq> []
      then Inl (in_source sc '' cannot combine database (service-name alias) with oracle.sid'')
      else if \<not> raw \<and> sc_dsn sc = [] \<and> or_service_name orc = [] \<and> or_sid orc = [] \<and> sc_database sc = []
      then Inl (in_source sc '' requires oracle.service_name, oracle.sid, database, dsn, or extra.connection_string'')
      else if (raw \<or> sc_dsn sc \<noteq> []) \<and> sc_tls_enabled sc
      then Inl (in_source sc '' uses dsn/extra.connection_string; encode TCPS and certificate verification in that value or Oracle Net configuration instead of using tls'')
      else let orc = (if sc_tls_ca sc \<noteq> [] \<and> or_wallet_location orc = [] then orc\<lparr>or_wallet_location := sc_tls_ca sc\<rparr> else orc) in
      if \<not> sc_tls_enabled sc \<and> (or_wallet_location orc \<noteq> [] \<or> or_server_cert_dn orc \<noteq> [])
      then Inl (in_source sc '' oracle.wallet_location/server_cert_dn require tls.enabled'')
      else if or_server_cert_dn orc \<noteq> [] \<and> \<not> sc_tls_verify_peer sc
      then Inl (in_source sc '' oracle.server_cert_dn requires tls.verify_peer=true'')
      else if sc_tls_enabled sc \<and> (sc_tls_cert sc \<noteq> [] \<or> sc_tls_key sc \<noteq> [])
      then Inl (in_source sc '' Oracle TLS does not consume tls.cert/tls.key directly; configure oracle.wallet_location'')
      else Inr (sc\<lparr>sc_oracle := orc\<rparr>))"

definition load_oracle :: "casts \<Rightarrow> fields \<Rightarrow> source_config \<Rightarrow> source_config loaded" where
  "load_oracle c d sc =
     chain (oracle_block c d sc) (\<lambda>(orc, ob). chain (legacy_oracle ob sc orc) (\<lambda>orc. check_oracle sc orc))"

definition check_identity :: "fields \<Rightarrow> source_config \<Rightarrow> source_config loaded" where
  "check_identity d sc =
     (if dc_name sc = [] then Inl (''datasource missing '' @ quoted ''name'')
      else if dc_type sc = [] then Inl (in_source sc ('' missing '' @ quoted ''type''))
      else if has d ''oracle'' \<and> dc_type sc \<noteq> ''oracle''
      then Inl (in_source sc ('' has an oracle block but type is not '' @ quoted ''oracle''))
      else Inr sc)"

fun load_source :: "casts \<Rightarrow> (string \<Rightarrow> string option) \<Rightarrow> json \<Rightarrow> source_config loaded" where
  "load_source c getenv (JObject d) =
     converted (read_source c d) (\<lambda>sc.
     chain (check_timeouts sc) (\<lambda>sc.
     chain (load_password getenv sc) (\<lambda>sc.
     chain (load_tls d sc) (\<lambda>sc.
     chain (load_extra d sc) (\<lambda>sc.
     chain (check_identity d sc) (\<lambda>sc.
       if dc_type sc = ''oracle'' then load_oracle c d sc
       else accept_if (\<not> (sc_tls_verify_peer sc \<and> sc_tls_enabled sc \<and> sc_tls_ca sc = []))
              (in_source sc '' enables TLS peer verification but tls.ca is empty'') sc))))))"
| "load_source c getenv _ = Inl ''datasource entry must be object''"

section \<open>Groups\<close>

record group_settings = group_config +
  gs_max_queue :: int
  gs_ttl_ms :: int
  gs_flush_interval_ms :: int

definition in_group :: "string \<Rightarrow> string \<Rightarrow> string" where
  "in_group name msg = ''group '' @ quoted name @ msg"

definition load_replica :: "casts \<Rightarrow> string \<Rightarrow> json \<Rightarrow> (string \<times> int) loaded" where
  "load_replica c gn j =
     (let err = ''invalid replica in '' @ in_group gn [];
          check = (\<lambda>(n, w). accept_if (\<not> (n = [] \<or> w < 1 \<or> 100 < w)) err (n, w))
      in case j of
           JString s \<Rightarrow> check (s, 1)
         | JObject r \<Rightarrow>
             converted (do {
                 n \<leftarrow> value_of as_string r ''name'' [];
                 w \<leftarrow> value_of (as_int c) r ''weight'' 1;
                 Some (n, w)
               }) check
         | _ \<Rightarrow> Inl err)"

text \<open>An optional list of entries.\<close>

definition array_of :: "fields \<Rightarrow> string \<Rightarrow> string \<Rightarrow> (json \<Rightarrow> 'a loaded) \<Rightarrow> 'a list loaded" where
  "array_of fs k msg f =
     (case map_of fs k of None \<Rightarrow> Inr [] | Some (JArray js) \<Rightarrow> load_all f js | Some _ \<Rightarrow> Inl msg)"

definition load_candidate :: "string \<Rightarrow> json \<Rightarrow> string loaded" where
  "load_candidate gn j =
     (let err = in_group gn '' failover.primaries must be non-empty strings''
      in case j of JString s \<Rightarrow> accept_if (s \<noteq> []) err s | _ \<Rightarrow> Inl err)"

definition load_write_buffer :: "casts \<Rightarrow> fields \<Rightarrow> group_settings \<Rightarrow> group_settings loaded" where
  "load_write_buffer c fo g = section_of fo ''write_buffer'' (in_group (gc_name g) '' failover.write_buffer'') g (\<lambda>wb.
     converted (do {
         enabled \<leftarrow> value_of as_bool wb ''enabled'' False;
         ack \<leftarrow> value_of as_bool wb ''acknowledge_data_loss_and_duplicates'' False;
         mx \<leftarrow> value_of (as_int c) wb ''max_queue'' 1000;
         ttl \<leftarrow> value_of (as_int c) wb ''ttl_ms'' 30000;
         flush \<leftarrow> value_of (as_int c) wb ''flush_interval_ms'' 1000;
         Some (g\<lparr>gc_buffer := enabled, gc_ack_loss := ack, gs_max_queue := mx, gs_ttl_ms := ttl, gs_flush_interval_ms := flush\<rparr>)
       })
       (\<lambda>g. accept_if (\<not> (gs_max_queue g < 1 \<or> gs_ttl_ms g < 0 \<or> gs_flush_interval_ms g < 1))
          (''invalid '' @ in_group (gc_name g) '' failover.write_buffer'') g))"

definition load_failover :: "casts \<Rightarrow> fields \<Rightarrow> group_settings \<Rightarrow> group_settings loaded" where
  "load_failover c gj g = section_of gj ''failover'' (in_group (gc_name g) '' failover'') g (\<lambda>fo.
     chain (array_of fo ''primaries'' (in_group (gc_name g) '' failover.primaries must be an array'') (load_candidate (gc_name g))) (\<lambda>primaries.
     converted (do {
         healthy \<leftarrow> value_of as_bool fo ''require_healthy'' False;
         fencing \<leftarrow> value_of as_bool fo ''acknowledge_external_fencing'' False;
         Some (g\<lparr>gc_failover := primaries, gc_require_healthy := healthy, gc_ack_fencing := fencing\<rparr>)
       })
       (\<lambda>g. chain (load_write_buffer c fo g) (\<lambda>g.
          if gc_failover g \<noteq> [] \<and> \<not> gc_ack_fencing g
          then Inl (in_group (gc_name g) '' configures automatic write failover without failover.acknowledge_external_fencing=true; sqlconduit does not perform leader election or fencing'')
          else if gc_buffer g \<and> \<not> gc_ack_loss g
          then Inl (in_group (gc_name g) '' enables the volatile write buffer without failover.write_buffer.acknowledge_data_loss_and_duplicates=true'')
          else Inr g))))"

definition load_shadow :: "fields \<Rightarrow> group_settings \<Rightarrow> group_settings loaded" where
  "load_shadow gj g =
     (case map_of gj ''shadow'' of
        None \<Rightarrow> Inr g
      | Some (JString s) \<Rightarrow> Inr (g\<lparr>gc_shadow := s\<rparr>)
      | Some _ \<Rightarrow> Inl (in_group (gc_name g) '' shadow must be a string''))"

definition read_group :: "casts \<Rightarrow> fields \<Rightarrow> group_settings option" where
  "read_group c gj = do {
     name \<leftarrow> value_of as_string gj ''name'' [];
     primary \<leftarrow> value_of as_string gj ''primary'' [];
     raw \<leftarrow> value_of (as_int c) gj ''read_after_write_ms'' 0;
     fallback \<leftarrow> value_of as_bool gj ''fallback_to_primary'' True;
     Some \<lparr>gc_name = name, gc_primary = primary, gc_replicas = [], gc_read_after_write_ms = raw, gc_fallback_to_primary = fallback,
       gc_read_only = False, gc_failover = [], gc_ack_fencing = False, gc_require_healthy = False, gc_buffer = False,
       gc_ack_loss = False, gc_shadow = [], gs_max_queue = 1000, gs_ttl_ms = 30000, gs_flush_interval_ms = 1000\<rparr>
   }"

fun load_group :: "casts \<Rightarrow> json \<Rightarrow> group_settings loaded" where
  "load_group c (JObject gj) =
     converted (read_group c gj) (\<lambda>g.
     if gc_name g = [] \<or> gc_primary g = [] \<or> gc_read_after_write_ms g < 0 then Inl ''invalid datasource group''
     else chain (array_of gj ''replicas'' (in_group (gc_name g) '' replicas must be an array'') (load_replica c (gc_name g))) (\<lambda>replicas.
     converted (value_of as_bool gj ''read_only'' False) (\<lambda>ro.
     chain (load_failover c gj (g\<lparr>gc_replicas := replicas, gc_read_only := ro\<rparr>)) (\<lambda>g.
       load_shadow gj g))))"
| "load_group c _ = Inl ''group entry must be object''"

section \<open>The whole configuration\<close>

record configuration =
  default_datasource :: string
  heartbeat_interval_ms :: int
  c_pool :: pool_config
  c_retry :: retry_cfg
  c_circuit_breaker :: breaker_cfg
  c_observability :: observability_config
  c_rate_limit :: rate_limit_config
  c_sql_audit :: audit_config
  c_query_cache :: cache_config
  c_cursor :: cursor_config
  c_prepared_cache :: prepared_config
  c_interceptors :: bool
  c_async :: async_config
  c_datasources :: "source_config list"
  c_groups :: "group_settings list"

definition load_sources :: "casts \<Rightarrow> (string \<Rightarrow> string option) \<Rightarrow> fields \<Rightarrow> source_config list loaded" where
  "load_sources c getenv fs =
     (case map_of fs ''datasources'' of
        Some (JArray js) \<Rightarrow> load_all (load_source c getenv) js
      | _ \<Rightarrow> Inl (''missing '' @ quoted ''datasources'' @ '' array''))"

definition pick_default :: "string \<Rightarrow> source_config list \<Rightarrow> string" where
  "pick_default name ds = (if name = [] \<and> ds \<noteq> [] then dc_name (hd ds) else name)"

fun load_json :: "casts \<Rightarrow> (string \<Rightarrow> string option) \<Rightarrow> json \<Rightarrow> configuration loaded" where
  "load_json c getenv (JObject fs) =
     converted (value_of as_string fs ''default_datasource'' []) (\<lambda>name.
     converted (value_of (as_int c) fs ''heartbeat_interval_ms'' 5000) (\<lambda>heartbeat.
     chain (load_pool c fs) (\<lambda>pool.
     chain (load_retry c fs) (\<lambda>retry.
     chain (load_breaker c fs) (\<lambda>breaker.
     chain (load_observability c fs) (\<lambda>obs.
     chain (load_rate_limit c fs) (\<lambda>limit.
     chain (load_audit c fs) (\<lambda>audit.
     chain (load_query_cache c fs) (\<lambda>cache.
     chain (load_cursor c fs) (\<lambda>cursor.
     chain (load_prepared_cache c fs) (\<lambda>prepared.
     chain (load_interceptors fs) (\<lambda>icp.
     chain (load_async c fs) (\<lambda>async.
     chain (load_sources c getenv fs) (\<lambda>ds.
     chain (array_of fs ''groups'' ''groups must be an array'' (load_group c)) (\<lambda>gs.
       Inr \<lparr>default_datasource = pick_default name ds, heartbeat_interval_ms = heartbeat, c_pool = pool, c_retry = retry,
         c_circuit_breaker = breaker, c_observability = obs, c_rate_limit = limit, c_sql_audit = audit, c_query_cache = cache,
         c_cursor = cursor, c_prepared_cache = prepared, c_interceptors = icp, c_async = async, c_datasources = ds, c_groups = gs\<rparr>)))))))))))))))"
| "load_json c getenv _ = Inl json_error"

section \<open>Files\<close>

definition hasYamlExtension :: "string \<Rightarrow> bool" where
  "hasYamlExtension path \<longleftrightarrow> suffix ''.yaml'' (lower path) \<or> suffix ''.yml'' (lower path)"

definition hasJsonExtension :: "string \<Rightarrow> bool" where
  "hasJsonExtension path \<longleftrightarrow> suffix ''.json'' (lower path)"

definition looksLikeYaml :: "string \<Rightarrow> bool" where
  "looksLikeYaml content \<longleftrightarrow>
     (case dropWhile is_space content of [] \<Rightarrow> False | ch # _ \<Rightarrow> ch \<noteq> CHR ''{'' \<and> ch \<noteq> CHR ''['')"

definition strip_bom :: "string \<Rightarrow> string" where
  "strip_bom content = (if take 3 content = [CHR 0xEF, CHR 0xBB, CHR 0xBF] then drop 3 content else content)"

definition parse_content :: "(string \<Rightarrow> json option) \<Rightarrow> string \<Rightarrow> string \<Rightarrow> json loaded" where
  "parse_content jparse path content =
     (if hasYamlExtension path \<or> \<not> hasJsonExtension path \<and> looksLikeYaml content then
        (case parseYaml jparse content of
           Done j _ \<Rightarrow> Inr j
         | Fail e \<Rightarrow> Inl (''yaml parse error: '' @ e)
         | NoFuel \<Rightarrow> Inl ''yaml parse error: '')
      else (case jparse content of None \<Rightarrow> Inl ''json parse error: '' | Some j \<Rightarrow> Inr j))"

text \<open>\<open>file\<close> is the content of the file, if it can be opened.\<close>

definition loadFromFile ::
  "(string \<Rightarrow> json option) \<Rightarrow> casts \<Rightarrow> (string \<Rightarrow> string option) \<Rightarrow> string \<Rightarrow> string option \<Rightarrow> configuration loaded" where
  "loadFromFile jparse c getenv path file =
     (case file of
        None \<Rightarrow> Inl (''cannot open config file: '' @ path)
      | Some content \<Rightarrow> chain (parse_content jparse path (strip_bom content)) (load_json c getenv))"

end
