(* ===== verification/ConfigProps.thy ===== *)
theory ConfigProps
  imports ConfigLoader RegistryProps
begin

text \<open>
  What a configuration that was loaded is guaranteed to satisfy, and what the registry then still has to
  check.
\<close>

section \<open>Sequencing\<close>

lemma chain_Inr [simp]: "chain r f = Inr y \<longleftrightarrow> (\<exists>x. r = Inr x \<and> f x = Inr y)"
  by (cases r) auto

lemma converted_Inr [simp]: "converted v f = Inr y \<longleftrightarrow> (\<exists>x. v = Some x \<and> f x = Inr y)"
  by (cases v) (auto simp: converted_def)

lemma accept_if_Inr [simp]: "accept_if ok msg x = Inr y \<longleftrightarrow> ok \<and> y = x"
  by (auto simp: accept_if_def)

lemma refused_Inr: "(if bad then Inl msg else r) = Inr y \<longleftrightarrow> \<not> bad \<and> r = Inr y"
  by simp

lemma section_of_Inr:
  assumes "section_of fs k label d f = Inr x"
  obtains "map_of fs k = None" "x = d" | ob where "map_of fs k = Some (JObject ob)" "f ob = Inr x"
  using assms by (auto simp: section_of_def split: option.splits json.splits)

lemma section_of_cases: "section_of fs k label d f = Inr x \<Longrightarrow> x = d \<or> (\<exists>ob. f ob = Inr x)"
  by (erule section_of_Inr) auto

lemma load_all_Inr: "load_all f xs = Inr ys \<Longrightarrow> y \<in> set ys \<Longrightarrow> \<exists>x. f x = Inr y"
  by (induction xs arbitrary: ys) auto

lemma array_of_Inr: "array_of fs k msg f = Inr ys \<Longrightarrow> y \<in> set ys \<Longrightarrow> \<exists>x. f x = Inr y"
  by (auto simp: array_of_def dest: load_all_Inr split: option.splits json.splits)

section \<open>What is guaranteed\<close>

definition sound_pool :: "pool_config \<Rightarrow> bool" where
  "sound_pool p \<longleftrightarrow> 0 \<le> pc_min p \<and> pc_min p \<le> pc_max p \<and> 1 \<le> pc_max p \<and> 0 \<le> pc_borrow_timeout_ms p \<and> 0 \<le> pc_idle_timeout_ms p \<and>
     0 \<le> pc_max_lifetime_ms p \<and> 0 \<le> pc_leak_detection_threshold_ms p \<and> 0 \<le> pc_validation_interval_ms p"

definition sound_retry :: "retry_cfg \<Rightarrow> bool" where
  "sound_retry r \<longleftrightarrow> 1 \<le> max_attempts r \<and> 0 \<le> initial_backoff_ms r \<and> initial_backoff_ms r \<le> max_backoff_ms r"

definition sound_breaker :: "breaker_cfg \<Rightarrow> bool" where
  "sound_breaker b \<longleftrightarrow> 0 \<le> failure_threshold b \<and> 1 \<le> open_interval_ms b"

definition sound_observability :: "observability_config \<Rightarrow> bool" where
  "sound_observability v \<longleftrightarrow>
     sl_mode (ob_sql_log v) \<in> {''template'', ''full''} \<and> sl_level (ob_sql_log v) \<in> {''debug'', ''info'', ''warn'', ''error''} \<and>
     0 \<le> sl_sample_rate (ob_sql_log v) \<and> sl_sample_rate (ob_sql_log v) \<le> 1 \<and> 64 \<le> sl_max_sql_length (ob_sql_log v) \<and>
     0 \<le> ss_threshold_ms (ob_slow_sql v) \<and> 1 \<le> ss_aggregate_capacity (ob_slow_sql v) \<and>
     ss_histogram_buckets_ms (ob_slow_sql v) \<noteq> [] \<and> sorted_wrt (<) (0 # ss_histogram_buckets_ms (ob_slow_sql v)) \<and>
     1000 \<le> sr_interval_ms (ob_stats_report v) \<and> sr_format (ob_stats_report v) \<in> {''text'', ''json''} \<and>
     0 \<le> sr_slow_sql_limit (ob_stats_report v)"

definition sound_limits :: "configuration \<Rightarrow> bool" where
  "sound_limits g \<longleftrightarrow>
     0 \<le> global_qps (c_rate_limit g) \<and> 0 \<le> per_fingerprint_qps (c_rate_limit g) \<and> 0 \<le> rlc_burst (c_rate_limit g) \<and>
     fingerprint_mode (c_rate_limit g) \<in> {''off'', ''template'', ''full''} \<and> ac_action (c_sql_audit g) \<in> {''block'', ''warn''} \<and>
     0 \<le> ttl_ms (c_query_cache g) \<and> 0 \<le> max_entries (c_query_cache g) \<and> 0 \<le> max_memory_bytes (c_query_cache g) \<and>
     0 \<le> cu_default_batch_size (c_cursor g) \<and> 0 \<le> cu_max_open_cursors (c_cursor g) \<and>
     0 \<le> pr_max_per_connection (c_prepared_cache g) \<and>
     0 \<le> as_threads (c_async g) \<and> 1 \<le> as_queue_size (c_async g) \<and> 0 \<le> as_statement_timeout_ms (c_async g)"

definition sound_oracle :: "source_config \<Rightarrow> bool" where
  "sound_oracle s \<longleftrightarrow>
     (let orc = sc_oracle s; raw = (map_of (sc_extra s) ''connection_string'' \<noteq> None) in
      1 \<le> or_charset_id orc \<and> or_charset_id orc \<le> 65535 \<and> 1 \<le> or_lob_max_bytes orc \<and>
      or_blob_bind orc \<in> {''auto'', ''raw'', ''lob''} \<and>
      (or_service_name orc = [] \<or> or_sid orc = []) \<and> (or_sid orc = [] \<or> sc_database s = []) \<and>
      (raw \<or> sc_dsn s \<noteq> [] \<or> or_service_name orc \<noteq> [] \<or> or_sid orc \<noteq> [] \<or> sc_database s \<noteq> []) \<and>
      (sc_tls_enabled s \<longrightarrow> \<not> raw \<and> sc_dsn s = [] \<and> sc_tls_cert s = [] \<and> sc_tls_key s = []) \<and>
      (or_wallet_location orc \<noteq> [] \<or> or_server_cert_dn orc \<noteq> [] \<longrightarrow> sc_tls_enabled s) \<and>
      (or_server_cert_dn orc \<noteq> [] \<longrightarrow> sc_tls_verify_peer s))"

definition sound_source :: "(string \<Rightarrow> string option) \<Rightarrow> source_config \<Rightarrow> bool" where
  "sound_source getenv s \<longleftrightarrow> dc_name s \<noteq> [] \<and> dc_type s \<noteq> [] \<and>
     0 \<le> sc_connection_timeout_ms s \<and> 0 \<le> sc_socket_timeout_ms s \<and> 0 \<le> sc_query_timeout_ms s \<and> 0 \<le> sc_max_result_rows s \<and>
     (sc_password_env s \<noteq> [] \<longrightarrow> getenv (c_str (sc_password_env s)) = Some (sc_password s)) \<and>
     (if dc_type s = ''oracle'' then sound_oracle s else sc_tls_enabled s \<and> sc_tls_verify_peer s \<longrightarrow> sc_tls_ca s \<noteq> [])"

definition sound_group :: "group_settings \<Rightarrow> bool" where
  "sound_group g \<longleftrightarrow> gc_name g \<noteq> [] \<and> gc_primary g \<noteq> [] \<and> 0 \<le> gc_read_after_write_ms g \<and>
     (\<forall>(n, w) \<in> set (gc_replicas g). n \<noteq> [] \<and> 1 \<le> w \<and> w \<le> 100) \<and> [] \<notin> set (gc_failover g) \<and>
     (gc_failover g \<noteq> [] \<longrightarrow> gc_ack_fencing g) \<and> (gc_buffer g \<longrightarrow> gc_ack_loss g) \<and>
     1 \<le> gs_max_queue g \<and> 0 \<le> gs_ttl_ms g \<and> 1 \<le> gs_flush_interval_ms g"

section \<open>Sections\<close>

lemma load_pool_sound: "load_pool c fs = Inr p \<Longrightarrow> sound_pool p"
  by (auto simp: load_pool_def sound_pool_def clamp_pool_def Let_def)

lemma load_retry_sound: "load_retry c fs = Inr r \<Longrightarrow> sound_retry r"
  unfolding load_retry_def by (drule section_of_cases) (auto simp: sound_retry_def default_retry_def)

lemma load_breaker_sound: "load_breaker c fs = Inr b \<Longrightarrow> sound_breaker b"
  unfolding load_breaker_def by (drule section_of_cases) (auto simp: sound_breaker_def default_breaker_def)

lemma load_rate_limit_sound:
  "load_rate_limit c fs = Inr r \<Longrightarrow> 0 \<le> global_qps r \<and> 0 \<le> per_fingerprint_qps r \<and> 0 \<le> rlc_burst r \<and>
     fingerprint_mode r \<in> {''off'', ''template'', ''full''}"
  unfolding load_rate_limit_def by (drule section_of_cases) (auto simp: default_rate_limit_def split: if_splits)

lemma load_audit_sound: "load_audit c fs = Inr a \<Longrightarrow> ac_action a \<in> {''block'', ''warn''}"
  unfolding load_audit_def by (drule section_of_cases) (auto simp: default_audit_def)

lemma load_query_cache_sound: "load_query_cache c fs = Inr q \<Longrightarrow> 0 \<le> ttl_ms q \<and> 0 \<le> max_entries q \<and> 0 \<le> max_memory_bytes q"
  unfolding load_query_cache_def by (drule section_of_cases) (auto simp: default_cache_def)

lemma load_cursor_sound: "load_cursor c fs = Inr u \<Longrightarrow> 0 \<le> cu_default_batch_size u \<and> 0 \<le> cu_max_open_cursors u"
  unfolding load_cursor_def by (drule section_of_cases) (auto simp: default_cursor_def)

lemma load_prepared_cache_sound: "load_prepared_cache c fs = Inr p \<Longrightarrow> 0 \<le> pr_max_per_connection p"
  unfolding load_prepared_cache_def by (drule section_of_cases) (auto simp: default_prepared_def)

lemma load_async_sound: "load_async c fs = Inr a \<Longrightarrow> 0 \<le> as_threads a \<and> 1 \<le> as_queue_size a \<and> 0 \<le> as_statement_timeout_ms a"
  unfolding load_async_def by (drule section_of_cases) (auto simp: default_async_def)

lemma buckets_sorted: "0 \<le> b \<Longrightarrow> buckets_increase b bs \<Longrightarrow> sorted_wrt (<) (b # bs)"
proof (induction bs arbitrary: b)
  case (Cons a bs)
  then have "b < a" and "buckets_increase a bs" by (auto split: if_splits)
  with Cons.IH [of a] Cons.prems(1) have "sorted_wrt (<) (a # bs)" by simp
  with \<open>b < a\<close> show ?case by force
qed simp

lemma buckets_from: "buckets_increase (- 1) bs \<Longrightarrow> buckets_increase 0 bs"
  by (cases bs) (auto split: if_splits)

lemma load_sql_log_sound: "load_sql_log c fs = Inr s \<Longrightarrow> valid_sql_log s"
  unfolding load_sql_log_def by (drule section_of_cases) (auto simp: default_sql_log_def valid_sql_log_def)

lemma load_slow_sql_sound: "load_slow_sql c fs = Inr s \<Longrightarrow> valid_slow_sql s \<and> buckets_increase (- 1) (ss_histogram_buckets_ms s)"
  unfolding load_slow_sql_def by (drule section_of_cases) (auto simp: default_slow_sql_def valid_slow_sql_def split: if_splits)

lemma load_stats_report_sound:
  "load_stats_report c fs = Inr r \<Longrightarrow> 1000 \<le> sr_interval_ms r \<and> sr_format r \<in> {''text'', ''json''} \<and> 0 \<le> sr_slow_sql_limit r"
  unfolding load_stats_report_def
  by (drule section_of_cases) (auto simp: default_stats_report_def bind_eq_Some_conv split: if_splits)

lemma load_observability_sound:
  assumes "load_observability c fs = Inr v"
  shows "sound_observability v"
proof -
  have "valid_sql_log (ob_sql_log v) \<and> valid_slow_sql (ob_slow_sql v) \<and> buckets_increase (- 1) (ss_histogram_buckets_ms (ob_slow_sql v)) \<and>
      1000 \<le> sr_interval_ms (ob_stats_report v) \<and> sr_format (ob_stats_report v) \<in> {''text'', ''json''} \<and> 0 \<le> sr_slow_sql_limit (ob_stats_report v)"
    using assms unfolding load_observability_def
  proof (rule section_of_Inr)
    fix ob
    assume "chain (load_sql_log c ob) (\<lambda>log. chain (load_slow_sql c ob) (\<lambda>slow. chain (load_pool_metrics ob) (\<lambda>metrics.
      chain (load_stats_report c ob) (\<lambda>report.
       Inr \<lparr>ob_sql_log = log, ob_slow_sql = slow, ob_pool_metrics = metrics, ob_stats_report = report\<rparr>)))) = Inr v"
    then show ?thesis using load_sql_log_sound load_slow_sql_sound load_stats_report_sound by fastforce
  qed (simp add: default_observability_def default_sql_log_def valid_sql_log_def default_slow_sql_def valid_slow_sql_def
      default_stats_report_def)
  then show ?thesis
    using buckets_sorted [OF _ buckets_from]
    by (auto simp: sound_observability_def valid_sql_log_def valid_slow_sql_def not_less simp del: sorted_wrt.simps)
qed

section \<open>Data sources and groups\<close>

definition timeouts_ok :: "source_config \<Rightarrow> bool" where
  "timeouts_ok s \<longleftrightarrow> 0 \<le> sc_connection_timeout_ms s \<and> 0 \<le> sc_socket_timeout_ms s \<and> 0 \<le> sc_query_timeout_ms s \<and> 0 \<le> sc_max_result_rows s"

definition secret_ok :: "(string \<Rightarrow> string option) \<Rightarrow> source_config \<Rightarrow> bool" where
  "secret_ok getenv s \<longleftrightarrow> (sc_password_env s \<noteq> [] \<longrightarrow> getenv (c_str (sc_password_env s)) = Some (sc_password s))"

lemma load_password_keeps:
  "load_password getenv s = Inr s' \<Longrightarrow> secret_ok getenv s' \<and> timeouts_ok s' = timeouts_ok s"
  by (auto simp: load_password_def secret_ok_def timeouts_ok_def split: if_splits option.splits)

lemma load_tls_keeps:
  assumes "load_tls d s = Inr s'"
  shows "timeouts_ok s' = timeouts_ok s \<and> secret_ok getenv s' = secret_ok getenv s"
  using section_of_cases [OF assms [unfolded load_tls_def]]
  by (auto simp: bind_eq_Some_conv timeouts_ok_def secret_ok_def)

lemma load_extra_keeps: "load_extra d s = Inr s' \<Longrightarrow> timeouts_ok s' = timeouts_ok s \<and> secret_ok getenv s' = secret_ok getenv s"
  by (auto simp: load_extra_def timeouts_ok_def secret_ok_def split: option.splits json.splits)

lemma check_oracle_sound:
  assumes "check_oracle s orc = Inr s'"
  shows "sound_oracle s' \<and> timeouts_ok s' = timeouts_ok s \<and> secret_ok getenv s' = secret_ok getenv s \<and>
    dc_name s' = dc_name s \<and> dc_type s' = dc_type s"
proof -
  define orc' where "orc' = (if sc_tls_ca s \<noteq> [] \<and> or_wallet_location orc = [] then orc\<lparr>or_wallet_location := sc_tls_ca s\<rparr> else orc)"
  note conds = assms [unfolded check_oracle_def Let_def refused_Inr, folded orc'_def]
  have s': "s' = s\<lparr>sc_oracle := orc'\<rparr>" using conds by simp
  have same: "or_charset_id orc' = or_charset_id orc" "or_lob_max_bytes orc' = or_lob_max_bytes orc" "or_blob_bind orc' = or_blob_bind orc"
    "or_service_name orc' = or_service_name orc" "or_sid orc' = or_sid orc"
    by (simp_all add: orc'_def)
  have "sound_oracle s'"
    using conds unfolding sound_oracle_def Let_def s' by (simp add: same not_less) blast
  with s' show ?thesis by (simp add: timeouts_ok_def secret_ok_def)
qed

lemma load_source_sound:
  assumes "load_source c getenv j = Inr s"
  shows "sound_source getenv s"
proof -
  obtain d where j: "j = JObject d" using assms by (cases j) auto
  obtain s0 s1 s2 s3 where t: "check_timeouts s0 = Inr s0" and p: "load_password getenv s0 = Inr s1"
    and tls: "load_tls d s1 = Inr s2" and ex: "load_extra d s2 = Inr s3" and id: "check_identity d s3 = Inr s3"
    and last: "if dc_type s3 = ''oracle'' then load_oracle c d s3 = Inr s
      else s = s3 \<and> \<not> (sc_tls_verify_peer s3 \<and> sc_tls_enabled s3 \<and> sc_tls_ca s3 = [])"
    using assms unfolding j by (auto simp: check_timeouts_def check_identity_def split: if_splits)
  have "timeouts_ok s0" using t by (auto simp: check_timeouts_def timeouts_ok_def)
  then have "timeouts_ok s3 \<and> secret_ok getenv s3"
    using load_password_keeps [OF p] load_tls_keeps [OF tls] load_extra_keeps [OF ex] by blast
  moreover have "dc_name s3 \<noteq> [] \<and> dc_type s3 \<noteq> []" using id by (auto simp: check_identity_def split: if_splits)
  moreover have "if dc_type s3 = ''oracle'' then \<exists>orc. check_oracle s3 orc = Inr s else s = s3"
    using last by (auto simp: load_oracle_def)
  ultimately show ?thesis
    using last check_oracle_sound [of s3 _ s getenv]
    by (auto simp: sound_source_def timeouts_ok_def secret_ok_def split: if_splits)
qed

lemma load_replica_sound: "load_replica c g j = Inr (n, w) \<Longrightarrow> n \<noteq> [] \<and> 1 \<le> w \<and> w \<le> 100"
  by (auto simp: load_replica_def Let_def split: json.splits)

lemma load_candidate_sound: "load_candidate g j = Inr n \<Longrightarrow> n \<noteq> []"
  by (auto simp: load_candidate_def Let_def split: json.splits)

definition buffer_ok :: "group_settings \<Rightarrow> bool" where
  "buffer_ok g \<longleftrightarrow> 1 \<le> gs_max_queue g \<and> 0 \<le> gs_ttl_ms g \<and> 1 \<le> gs_flush_interval_ms g"

text \<open>What the sections of a group leave alone.\<close>

definition same_group :: "group_settings \<Rightarrow> group_settings \<Rightarrow> bool" where
  "same_group g g' \<longleftrightarrow> gc_name g' = gc_name g \<and> gc_primary g' = gc_primary g \<and> gc_replicas g' = gc_replicas g \<and>
     gc_read_after_write_ms g' = gc_read_after_write_ms g"

lemma load_write_buffer_sound:
  assumes "load_write_buffer c fo g = Inr g'" and "buffer_ok g"
  shows "buffer_ok g' \<and> same_group g g' \<and> gc_failover g' = gc_failover g"
  using section_of_cases [OF assms(1) [unfolded load_write_buffer_def]] assms(2)
  by (auto simp: bind_eq_Some_conv buffer_ok_def same_group_def)

lemma load_failover_sound:
  assumes "load_failover c gj g = Inr g'" and "buffer_ok g" and "gc_failover g = []" and "\<not> gc_buffer g"
  shows "buffer_ok g' \<and> same_group g g' \<and> [] \<notin> set (gc_failover g') \<and>
    (gc_failover g' \<noteq> [] \<longrightarrow> gc_ack_fencing g') \<and> (gc_buffer g' \<longrightarrow> gc_ack_loss g')"
  using assms(1) unfolding load_failover_def
proof (rule section_of_Inr)
  fix fo
  assume "chain (array_of fo ''primaries'' (in_group (gc_name g) '' failover.primaries must be an array'') (load_candidate (gc_name g))) (\<lambda>primaries.
     converted (do {
         healthy \<leftarrow> value_of as_bool fo ''require_healthy'' False;
         fencing \<leftarrow> value_of as_bool fo ''acknowledge_external_fencing'' False;
         Some (g\<lparr>gc_failover := primaries, gc_require_healthy := healthy, gc_ack_fencing := fencing\<rparr>)
       })
       (\<lambda>g. chain (load_write_buffer c fo g) (\<lambda>g.
          if gc_failover g \<noteq> [] \<and> \<not> gc_ack_fencing g
          then Inl (in_group (gc_name g) '' configures automatic write failover without failover.acknowledge_external_fencing=true; sqlconduit does not perform leader election or fencing'')
          else if gc_buffer g \<and> \<not> gc_ack_loss g
          then Inl (in_group (gc_name g) '' enables the volatile write buffer without failover.write_buffer.acknowledge_data_loss_and_duplicates=true'')
          else Inr g))) = Inr g'"
  then obtain ps h fe where ps: "array_of fo ''primaries'' (in_group (gc_name g) '' failover.primaries must be an array'') (load_candidate (gc_name g)) = Inr ps"
    and wb: "load_write_buffer c fo (g\<lparr>gc_failover := ps, gc_require_healthy := h, gc_ack_fencing := fe\<rparr>) = Inr g'"
    and acks: "(gc_failover g' \<noteq> [] \<longrightarrow> gc_ack_fencing g') \<and> (gc_buffer g' \<longrightarrow> gc_ack_loss g')"
    by (auto simp: bind_eq_Some_conv split: if_splits)
  have "[] \<notin> set ps" using array_of_Inr [OF ps] load_candidate_sound by blast
  with load_write_buffer_sound [OF wb] acks assms(2) show ?thesis by (auto simp: buffer_ok_def same_group_def)
qed (use assms in \<open>simp add: same_group_def\<close>)

lemma load_shadow_sound:
  "load_shadow gj g = Inr g' \<Longrightarrow> same_group g g' \<and> buffer_ok g' = buffer_ok g \<and> gc_failover g' = gc_failover g \<and>
     gc_ack_fencing g' = gc_ack_fencing g \<and> gc_buffer g' = gc_buffer g \<and> gc_ack_loss g' = gc_ack_loss g"
  by (auto simp: load_shadow_def same_group_def buffer_ok_def split: option.splits json.splits)

lemma load_group_sound:
  assumes "load_group c j = Inr g"
  shows "sound_group g"
proof -
  obtain gj where j: "j = JObject gj" using assms by (cases j) auto
  obtain g0 rs ro g1 where r: "read_group c gj = Some g0" and ok: "gc_name g0 \<noteq> []" "gc_primary g0 \<noteq> []" "0 \<le> gc_read_after_write_ms g0"
    and rs: "array_of gj ''replicas'' (in_group (gc_name g0) '' replicas must be an array'') (load_replica c (gc_name g0)) = Inr rs"
    and fo: "load_failover c gj (g0\<lparr>gc_replicas := rs, gc_read_only := ro\<rparr>) = Inr g1" and sh: "load_shadow gj g1 = Inr g"
    using assms unfolding j by (auto split: if_splits)
  have g0: "buffer_ok g0 \<and> gc_failover g0 = [] \<and> \<not> gc_buffer g0"
    using r by (auto simp: read_group_def bind_eq_Some_conv buffer_ok_def)
  have "n \<noteq> [] \<and> 1 \<le> w \<and> w \<le> 100" if "(n, w) \<in> set rs" for n w
    using array_of_Inr [OF rs that] load_replica_sound by blast
  moreover have "buffer_ok g1 \<and> same_group (g0\<lparr>gc_replicas := rs, gc_read_only := ro\<rparr>) g1 \<and> [] \<notin> set (gc_failover g1) \<and>
      (gc_failover g1 \<noteq> [] \<longrightarrow> gc_ack_fencing g1) \<and> (gc_buffer g1 \<longrightarrow> gc_ack_loss g1)"
    by (rule load_failover_sound [OF fo]) (use g0 in \<open>auto simp: buffer_ok_def\<close>)
  ultimately show ?thesis
    using load_shadow_sound [OF sh] ok by (auto simp: sound_group_def same_group_def buffer_ok_def)
qed

section \<open>A loaded configuration\<close>

lemma loaded_object:
  assumes "loadFromFile jparse c getenv path file = Inr g"
  obtains fs where "load_json c getenv (JObject fs) = Inr g"
proof -
  obtain j where "load_json c getenv j = Inr g"
    using assms by (auto simp: loadFromFile_def split: option.splits)
  then show thesis using that by (cases j) auto
qed

lemma loaded_members:
  assumes "load_json c getenv (JObject fs) = Inr g"
  shows "list_all (sound_source getenv) (c_datasources g)" and "list_all sound_group (c_groups g)"
proof -
  have ds: "load_sources c getenv fs = Inr (c_datasources g)"
    and gs: "array_of fs ''groups'' ''groups must be an array'' (load_group c) = Inr (c_groups g)"
    using assms by auto
  have "sound_source getenv s" if "s \<in> set (c_datasources g)" for s
    using ds that load_source_sound load_all_Inr by (fastforce simp: load_sources_def split: option.splits json.splits)
  then show "list_all (sound_source getenv) (c_datasources g)" by (simp add: list_all_iff)
  have "sound_group x" if "x \<in> set (c_groups g)" for x
    using array_of_Inr [OF gs that] load_group_sound by blast
  then show "list_all sound_group (c_groups g)" by (simp add: list_all_iff)
qed


definition no_casts :: casts where
  "no_casts = \<lparr>cast_int = (\<lambda>_. 0), cast_i64 = (\<lambda>_. 0), cast_u64 = (\<lambda>_. 0)\<rparr>"

definition small_file :: string where
  "small_file = concat (map (\<lambda>l. l @ [newline])
     [''pool:'', ''  enabled: false'', ''datasources:'', ''  - name: a'', ''    type: pg'', ''    password_env: SECRET'',
      ''groups:'', ''  - name: g'', ''    primary: a''])"

definition small_env :: "string \<Rightarrow> string option" where
  "small_env v = (if v = ''SECRET'' then Some ''pw'' else None)"

lemma small_file_loads: "\<not> isl (loadFromFile (\<lambda>_. None) no_casts small_env ''db.yml'' (Some small_file))"
  by code_simp


section \<open>From the loader to the registry\<close>

text \<open>What \<open>init\<close> takes from a configuration. \<open>limiter\<close> names the rate limiter it builds if one is
  configured.\<close>

definition registry_config :: "nat \<Rightarrow> 'v \<Rightarrow> configuration \<Rightarrow> 'v global_config" where
  "registry_config limiter v g =
     \<lparr>cfg_default = default_datasource g, cfg_datasources = map ds_config.truncate (c_datasources g),
      cfg_groups = map group_config.truncate (c_groups g),
      cfg_limiter = (if rlc_enabled (c_rate_limit g) \<and> (0 < global_qps (c_rate_limit g) \<or> 0 < per_fingerprint_qps (c_rate_limit g))
        then Some limiter else None),
      cfg_services = v\<rparr>"

lemma build_sources_iff:
  assumes "list_all (\<lambda>d. dc_name d \<noteq> []) ds"
  shows "(\<exists>r. build_sources known l inh rn ds acc = Inr r) \<longleftrightarrow>
      distinct (map dc_name ds) \<and> set (map dc_name ds) \<inter> set (fst acc) = {} \<and> list_all (\<lambda>d. known (dc_type d)) ds"
  using assms
proof (induction ds arbitrary: acc)
  case (Cons d ds)
  show ?case
  proof (cases "dc_name d \<in> set (fst acc) \<or> \<not> known (dc_type d)")
    case True
    with Cons.prems show ?thesis by (auto simp: buildSingleDataSource_def)
  next
    case False
    with Cons.prems Cons.IH show ?thesis by (auto simp: buildSingleDataSource_def)
  qed
qed simp

lemma build_sources_names:
  "build_sources known l inh rn ds acc = Inr (ps, srcs) \<Longrightarrow>
     ps = rev (map dc_name ds) @ fst acc \<and> map fst srcs = rev (map dc_name ds) @ map fst (snd acc)"
  by (induction ds arbitrary: acc) (auto split: if_splits sum.splits)

text \<open>What one group needs beside what the loader has checked.\<close>

definition resolvable :: "string list \<Rightarrow> group_config \<Rightarrow> bool" where
  "resolvable ps gc \<longleftrightarrow> gc_primary gc \<in> set ps \<and> fst ` set (gc_replicas gc) \<subseteq> set ps \<and> set (gc_failover gc) \<subseteq> set ps \<and>
     \<not> (gc_read_only gc \<and> gc_buffer gc)"

lemma find_none: "(find P xs = None) \<longleftrightarrow> (\<forall>x\<in>set xs. \<not> P x)"
  by (auto simp: find_None_iff)

lemma find_some: "find P xs = Some x \<Longrightarrow> x \<in> set xs \<and> P x"
  by (auto simp: find_Some_iff)

lemma validateGroupRefs_iff:
  "status_ok (validateGroupRefs gc ps) \<longleftrightarrow>
     gc_primary gc \<in> set ps \<and> fst ` set (gc_replicas gc) \<subseteq> set ps \<and> set (gc_failover gc) \<subseteq> set ps"
proof -
  have r: "(find (\<lambda>r. fst r \<notin> set ps) (gc_replicas gc) = None) \<longleftrightarrow> fst ` set (gc_replicas gc) \<subseteq> set ps"
    by (auto simp: find_none)
  have f: "(find (\<lambda>c. c \<notin> set ps) (gc_failover gc) = None) \<longleftrightarrow> set (gc_failover gc) \<subseteq> set ps"
    by (auto simp: find_none)
  show ?thesis
    unfolding r [symmetric] f [symmetric] by (simp add: validateGroupRefs_def config_error_def split: option.split)
qed

lemma group_builds_iff:
  assumes "status_ok (validateGroupRefs gc ps)" and "set ps \<subseteq> fst ` set srcs" and "gc_name gc \<noteq> []"
  shows "(\<exists>s. buildSingleDataSourceGroup gc l srcs = Inr s) \<longleftrightarrow> \<not> (gc_read_only gc \<and> gc_buffer gc)"
proof -
  have known: "map_of srcs n \<noteq> None" if "n \<in> set ps" for n
    using that assms(2) by (auto simp: map_of_eq_None_iff)
  have refs: "gc_primary gc \<in> set ps" "fst ` set (gc_replicas gc) \<subseteq> set ps" "set (gc_failover gc) \<subseteq> set ps"
    using assms(1) by (auto simp: validateGroupRefs_iff)
  obtain p where p: "map_of srcs (gc_primary gc) = Some p" using known [OF refs(1)] by auto
  have r: "find (\<lambda>r. map_of srcs (fst r) = None) (gc_replicas gc) = None"
    unfolding find_none using known refs(2) by blast
  have c: "find (\<lambda>c. map_of srcs c = None) (if gc_failover gc = [] then [] else gc_primary gc # unseen [gc_primary gc] (gc_failover gc)) = None"
    unfolding find_none using known refs(1,3) unseen_subset [of "[gc_primary gc]" "gc_failover gc"] by (simp add: subset_iff)
  show ?thesis using assms(3) p r c by (simp add: buildSingleDataSourceGroup_def Let_def)
qed

lemma build_groups_iff:
  assumes "list_all (\<lambda>gc. gc_name gc \<noteq> [] \<and> fencing_error gc (gc_ack_fencing gc) (gc_ack_loss gc) = None) gs"
    and "set ps \<subseteq> fst ` set (fst acc)"
  shows "(\<exists>r. build_groups l inh ps gs acc = Inr r) \<longleftrightarrow>
      distinct (map gc_name gs) \<and> set (map gc_name gs) \<inter> fst ` set (fst acc) = {} \<and> list_all (resolvable ps) gs"
  using assms
proof (induction gs arbitrary: acc)
  case (Cons gc gs)
  have taken: "map_of (fst acc) (gc_name gc) \<noteq> None \<longleftrightarrow> gc_name gc \<in> fst ` set (fst acc)" by (auto simp: map_of_eq_None_iff)
  have step: "(\<exists>r. build_groups l inh ps (gc # gs) acc = Inr r) \<longleftrightarrow>
      gc_name gc \<notin> fst ` set (fst acc) \<and> status_ok (validateGroupRefs gc ps) \<and>
      (\<exists>s. buildSingleDataSourceGroup gc l (fst acc) = Inr s \<and>
        (\<exists>r. build_groups l inh ps gs ((gc_name gc, s\<lparr>src_inherits := inh\<rparr>) # fst acc,
             (if gc_buffer gc then snd acc @ [gc_name gc] else snd acc)) = Inr r))"
    using Cons.prems(1) taken by (auto simp: Let_def split: sum.splits option.splits)
  have rest: "(\<exists>r. build_groups l inh ps gs ((gc_name gc, s) # fst acc, b) = Inr r) \<longleftrightarrow>
      distinct (map gc_name gs) \<and> set (map gc_name gs) \<inter> insert (gc_name gc) (fst ` set (fst acc)) = {} \<and> list_all (resolvable ps) gs" for s b
    using Cons.IH [of "((gc_name gc, s) # fst acc, b)"] Cons.prems by auto
  have own: "resolvable ps gc \<longleftrightarrow> status_ok (validateGroupRefs gc ps) \<and> (\<exists>s. buildSingleDataSourceGroup gc l (fst acc) = Inr s)"
    using group_builds_iff [of gc ps "fst acc" l] Cons.prems by (auto simp: resolvable_def validateGroupRefs_iff)
  have "(\<exists>r. build_groups l inh ps (gc # gs) acc = Inr r) \<longleftrightarrow> gc_name gc \<notin> fst ` set (fst acc) \<and> resolvable ps gc \<and>
      distinct (map gc_name gs) \<and> set (map gc_name gs) \<inter> insert (gc_name gc) (fst ` set (fst acc)) = {} \<and> list_all (resolvable ps) gs"
    unfolding step rest own by blast
  then show ?case by (simp del: build_groups.simps) blast
qed simp

lemma build_groups_names:
  "build_groups l inh ps gs acc = Inr (srcs, bs) \<Longrightarrow> map fst srcs = rev (map gc_name gs) @ map fst (fst acc)"
  by (induction gs arbitrary: acc) (auto simp: Let_def split: if_splits sum.splits option.splits)

text \<open>The groups of a configuration whose data sources have been built.\<close>

lemma groups_after_sources:
  assumes b: "build_sources known l inh rn ds ([], []) = Inr (ps, srcs)"
    and unfenced: "list_all (\<lambda>gc. gc_name gc \<noteq> [] \<and> fencing_error gc (gc_ack_fencing gc) (gc_ack_loss gc) = None) gs"
  shows "(\<exists>ns bs. build_groups l inh ps gs (srcs, []) = Inr (ns, bs) \<and> d \<in> fst ` set ns) \<longleftrightarrow>
    distinct (map gc_name gs) \<and> set (map gc_name gs) \<inter> set (map dc_name ds) = {} \<and> list_all (resolvable (map dc_name ds)) gs \<and>
    d \<in> set (map dc_name ds @ map gc_name gs)"
proof -
  have ps: "set ps = set (map dc_name ds)" and srcs: "fst ` set srcs = set (map dc_name ds)"
    using build_sources_names [OF b] by (auto simp flip: set_map)
  have "resolvable ps = resolvable (map dc_name ds)" by (rule ext) (simp add: resolvable_def ps)
  then have built: "(\<exists>r. build_groups l inh ps gs (srcs, []) = Inr r) \<longleftrightarrow> distinct (map gc_name gs) \<and>
      set (map gc_name gs) \<inter> set (map dc_name ds) = {} \<and> list_all (resolvable (map dc_name ds)) gs"
    using build_groups_iff [OF unfenced, of ps "(srcs, [])" l inh] ps srcs by simp
  have "fst ` set ns = set (map dc_name ds @ map gc_name gs)" if "build_groups l inh ps gs (srcs, []) = Inr (ns, bs)" for ns bs
    using build_groups_names [OF that] srcs by (auto simp flip: set_map)
  then have "(\<exists>ns bs. build_groups l inh ps gs (srcs, []) = Inr (ns, bs) \<and> d \<in> fst ` set ns) \<longleftrightarrow>
      (\<exists>r. build_groups l inh ps gs (srcs, []) = Inr r) \<and> d \<in> set (map dc_name ds @ map gc_name gs)"
    by (metis surj_pair)
  with built show ?thesis by blast
qed

lemma build_all_iff:
  assumes names: "list_all (\<lambda>d. dc_name d \<noteq> []) (cfg_datasources cf)"
    and unfenced: "list_all (\<lambda>gc. gc_name gc \<noteq> [] \<and> fencing_error gc (gc_ack_fencing gc) (gc_ack_loss gc) = None) (cfg_groups cf)"
  shows "(\<exists>r. build_all known cf dl = Inr r) \<longleftrightarrow>
    cfg_datasources cf \<noteq> [] \<and> distinct (map dc_name (cfg_datasources cf) @ map gc_name (cfg_groups cf)) \<and>
    list_all (\<lambda>d. known (dc_type d)) (cfg_datasources cf) \<and> list_all (resolvable (map dc_name (cfg_datasources cf))) (cfg_groups cf) \<and>
    cfg_default cf \<in> set (map dc_name (cfg_datasources cf) @ map gc_name (cfg_groups cf))"
proof -
  let ?lim = "case cfg_limiter cf of Some x \<Rightarrow> Some x | None \<Rightarrow> dl" and ?inh = "cfg_limiter cf = None"
  let ?rn = "concat (map (\<lambda>g. map fst (gc_replicas g)) (cfg_groups cf))"
  let ?bs = "build_sources known ?lim ?inh ?rn (cfg_datasources cf) ([], [])"
  have "(\<exists>r. build_all known cf dl = Inr r) \<longleftrightarrow> cfg_datasources cf \<noteq> [] \<and> (\<exists>ps srcs. ?bs = Inr (ps, srcs) \<and>
      (\<exists>ns bs. build_groups ?lim ?inh ps (cfg_groups cf) (srcs, []) = Inr (ns, bs) \<and> cfg_default cf \<in> fst ` set ns))"
    by (auto simp: build_all_def Let_def map_of_eq_None_iff split: sum.splits prod.splits if_splits)
  also have "\<dots> \<longleftrightarrow> cfg_datasources cf \<noteq> [] \<and> (\<exists>r. ?bs = Inr r) \<and> distinct (map gc_name (cfg_groups cf)) \<and>
      set (map gc_name (cfg_groups cf)) \<inter> set (map dc_name (cfg_datasources cf)) = {} \<and>
      list_all (resolvable (map dc_name (cfg_datasources cf))) (cfg_groups cf) \<and>
      cfg_default cf \<in> set (map dc_name (cfg_datasources cf) @ map gc_name (cfg_groups cf))"
    using groups_after_sources [OF _ unfenced] by (metis surj_pair)
  also have "(\<exists>r. ?bs = Inr r) \<longleftrightarrow> distinct (map dc_name (cfg_datasources cf)) \<and> list_all (\<lambda>d. known (dc_type d)) (cfg_datasources cf)"
    using build_sources_iff [OF names] by simp
  finally show ?thesis by auto
qed

lemma truncate_source [simp]: "dc_name (ds_config.truncate s) = dc_name s" "dc_type (ds_config.truncate s) = dc_type s"
  by (simp_all add: ds_config.truncate_def)

lemma truncate_group [simp]:
  "gc_name (group_config.truncate g) = gc_name g" "gc_failover (group_config.truncate g) = gc_failover g"
  "gc_ack_fencing (group_config.truncate g) = gc_ack_fencing g" "gc_buffer (group_config.truncate g) = gc_buffer g"
  "gc_ack_loss (group_config.truncate g) = gc_ack_loss g"
  by (simp_all add: group_config.truncate_def)

lemma sound_group_unfenced:
  "sound_group g \<Longrightarrow> gc_name (group_config.truncate g) \<noteq> [] \<and>
     fencing_error (group_config.truncate g) (gc_ack_fencing (group_config.truncate g)) (gc_ack_loss (group_config.truncate g)) = None"
  by (auto simp: sound_group_def fencing_error_def)


lemma small_file_members:
  "case loadFromFile (\<lambda>_. None) no_casts small_env ''db.yml'' (Some small_file) of
     Inl e \<Rightarrow> False
   | Inr g \<Rightarrow> map dc_name (c_datasources g) = [''a''] \<and> list_all (\<lambda>s. dc_type s = ''pg'') (c_datasources g) \<and> map gc_name (c_groups g) = [''g''] \<and>
       list_all (\<lambda>x. resolvable [''a''] (group_config.truncate x)) (c_groups g) \<and> default_datasource g = ''a''"
  by code_simp


text \<open>A setting that does not fit 32 bits is not refused: the conversion keeps its low bits, so that a
  maximum of 4294967297 connections is a maximum of one.\<close>

lemma oversized_setting_wraps:
  "load_pool no_casts [(''pool'', JObject [(''max'', JInt 4294967297)])] = Inr (default_pool\<lparr>pc_max := 1\<rparr>)"
  by code_simp

end
