(* ===== verification/OracleTypes.thy ===== *)
theory OracleTypes
  imports Timestamp "HOL-Library.Signed_Division"
begin

text \<open>
  \<open>src/common/oracle_types.cpp\<close>: what the Oracle driver needs beside the client library. Column
  types, reading a column from its text, the text or bytes a value is bound as, the connect
  descriptor, \<open>RETURNING ... INTO\<close> clauses and the SQLSTATE of an Oracle error number.

  A position in a text is the rest of the text from there. \<open>strtod\<close> and the \<open>%.*g\<close> format of the C
  library and \<open>mktime\<close> are parameters, collected in \<open>ora_env\<close> beside the formats of \<open>render_env\<close>.

  Shown: a descriptor can be read in one way only as long as host and service name hold no
  double quote; a \<open>RETURNING\<close> clause that is appended is read back; a time stamp in the session's
  format is read as the instant it denotes; values bound as text are read back; which error
  numbers are retried.
\<close>

section \<open>Column types\<close>

datatype oracle_type_class =
  OUnknown | OText | ONumber | OBinary | ODate | OTimestamp | OTimestampTz | OInterval | OLob | ORowid

type_synonym sqlt = "16 word"

abbreviation kSqltChr :: sqlt where "kSqltChr \<equiv> 1"
abbreviation kSqltNum :: sqlt where "kSqltNum \<equiv> 2"
abbreviation kSqltInt :: sqlt where "kSqltInt \<equiv> 3"
abbreviation kSqltFlt :: sqlt where "kSqltFlt \<equiv> 4"
abbreviation kSqltStr :: sqlt where "kSqltStr \<equiv> 5"
abbreviation kSqltVnu :: sqlt where "kSqltVnu \<equiv> 6"
abbreviation kSqltPdn :: sqlt where "kSqltPdn \<equiv> 7"
abbreviation kSqltLng :: sqlt where "kSqltLng \<equiv> 8"
abbreviation kSqltVcs :: sqlt where "kSqltVcs \<equiv> 9"
abbreviation kSqltRid :: sqlt where "kSqltRid \<equiv> 11"
abbreviation kSqltDat :: sqlt where "kSqltDat \<equiv> 12"
abbreviation kSqltVbi :: sqlt where "kSqltVbi \<equiv> 15"
abbreviation kSqltBfloat :: sqlt where "kSqltBfloat \<equiv> 21"
abbreviation kSqltBdouble :: sqlt where "kSqltBdouble \<equiv> 22"
abbreviation kSqltBin :: sqlt where "kSqltBin \<equiv> 23"
abbreviation kSqltLbi :: sqlt where "kSqltLbi \<equiv> 24"
abbreviation kSqltUin :: sqlt where "kSqltUin \<equiv> 68"
abbreviation kSqltSls :: sqlt where "kSqltSls \<equiv> 91"
abbreviation kSqltAfc :: sqlt where "kSqltAfc \<equiv> 96"
abbreviation kSqltIbfloat :: sqlt where "kSqltIbfloat \<equiv> 100"
abbreviation kSqltIbdouble :: sqlt where "kSqltIbdouble \<equiv> 101"
abbreviation kSqltCur :: sqlt where "kSqltCur \<equiv> 102"
abbreviation kSqltRdd :: sqlt where "kSqltRdd \<equiv> 104"
abbreviation kSqltNty :: sqlt where "kSqltNty \<equiv> 108"
abbreviation kSqltRef :: sqlt where "kSqltRef \<equiv> 110"
abbreviation kSqltClob :: sqlt where "kSqltClob \<equiv> 112"
abbreviation kSqltBlob :: sqlt where "kSqltBlob \<equiv> 113"
abbreviation kSqltBfile :: sqlt where "kSqltBfile \<equiv> 114"
abbreviation kSqltCfile :: sqlt where "kSqltCfile \<equiv> 115"
abbreviation kSqltTimestamp :: sqlt where "kSqltTimestamp \<equiv> 187"
abbreviation kSqltTimestampTz :: sqlt where "kSqltTimestampTz \<equiv> 188"
abbreviation kSqltIntervalYm :: sqlt where "kSqltIntervalYm \<equiv> 189"
abbreviation kSqltIntervalDs :: sqlt where "kSqltIntervalDs \<equiv> 190"
abbreviation kSqltTimestampLtz :: sqlt where "kSqltTimestampLtz \<equiv> 232"

definition oracleTypeClass :: "sqlt \<Rightarrow> oracle_type_class" where
  "oracleTypeClass t =
     (if t \<in> {kSqltChr, kSqltStr, kSqltVcs, kSqltAfc, kSqltLng} then OText
      else if t \<in> {kSqltNum, kSqltVnu, kSqltPdn, kSqltInt, kSqltUin, kSqltFlt, kSqltBfloat,
        kSqltBdouble, kSqltIbfloat, kSqltIbdouble} then ONumber
      else if t \<in> {kSqltBin, kSqltLbi, kSqltVbi} then OBinary
      else if t = kSqltDat then ODate
      else if t = kSqltTimestamp then OTimestamp
      else if t \<in> {kSqltTimestampTz, kSqltTimestampLtz} then OTimestampTz
      else if t \<in> {kSqltIntervalYm, kSqltIntervalDs} then OInterval
      else if t \<in> {kSqltClob, kSqltBlob, kSqltBfile, kSqltCfile} then OLob
      else if t \<in> {kSqltRid, kSqltRdd} then ORowid
      else OUnknown)"

definition oracle_type_names :: "(sqlt \<times> string) list" where
  "oracle_type_names =
     [(kSqltChr, ''VARCHAR2''), (kSqltNum, ''NUMBER''), (kSqltInt, ''INTEGER''), (kSqltFlt, ''FLOAT''),
      (kSqltStr, ''STRING''), (kSqltVnu, ''VARNUM''), (kSqltPdn, ''PACKED-DECIMAL''),
      (kSqltLng, ''LONG''), (kSqltVcs, ''VARCHAR''), (kSqltRid, ''ROWID''), (kSqltDat, ''DATE''),
      (kSqltVbi, ''VARRAW''), (kSqltBfloat, ''BINARY_FLOAT''), (kSqltBdouble, ''BINARY_DOUBLE''),
      (kSqltBin, ''RAW''), (kSqltLbi, ''LONG RAW''), (kSqltUin, ''UNSIGNED''), (kSqltSls, ''DISPLAY''),
      (kSqltAfc, ''CHAR''), (kSqltIbfloat, ''BINARY_FLOAT''), (kSqltIbdouble, ''BINARY_DOUBLE''),
      (kSqltCur, ''REF CURSOR''), (kSqltNty, ''NAMED TYPE''), (kSqltRef, ''REF''),
      (kSqltClob, ''CLOB''), (kSqltBlob, ''BLOB''), (kSqltBfile, ''BFILE''), (kSqltCfile, ''CFILE''),
      (kSqltRdd, ''ROWID DESC''), (kSqltTimestamp, ''TIMESTAMP''),
      (kSqltTimestampTz, ''TIMESTAMP WITH TIME ZONE''),
      (kSqltIntervalYm, ''INTERVAL YEAR TO MONTH''), (kSqltIntervalDs, ''INTERVAL DAY TO SECOND''),
      (kSqltTimestampLtz, ''TIMESTAMP WITH LOCAL TIME ZONE'')]"

definition oracleTypeName :: "sqlt \<Rightarrow> string" where
  "oracleTypeName t = (case map_of oracle_type_names t of Some n \<Rightarrow> n | None \<Rightarrow> ''UNKNOWN'')"

definition oracleIsLob :: "sqlt \<Rightarrow> bool" where
  "oracleIsLob t \<longleftrightarrow> oracleTypeClass t = OLob"

definition oracleIsRowid :: "sqlt \<Rightarrow> bool" where
  "oracleIsRowid t \<longleftrightarrow> oracleTypeClass t = ORowid"

section \<open>Bytes and numbers as text\<close>

definition isWordChar :: "char \<Rightarrow> bool" where
  "isWordChar c \<longleftrightarrow> is_alnum c \<or> c = CHR ''_'' \<or> c = CHR ''$'' \<or> c = CHR ''#''"

definition foldEquals :: "string \<Rightarrow> string \<Rightarrow> bool" where
  "foldEquals a b \<longleftrightarrow> length a = length b \<and> upper a = upper b"

definition hexNibble :: "char \<Rightarrow> nat option" where
  "hexNibble c =
     (if is_digit c then Some (char_code c - 48)
      else if 97 \<le> char_code c \<and> char_code c \<le> 102 then Some (char_code c - 97 + 10)
      else if 65 \<le> char_code c \<and> char_code c \<le> 70 then Some (char_code c - 65 + 10)
      else None)"

fun hexToBlob :: "string \<Rightarrow> blob" where
  "hexToBlob (a # b # s) =
     (case (hexNibble a, hexNibble b) of
        (Some hi, Some lo) \<Rightarrow> (push_bit 4 (of_nat hi) OR of_nat lo) # hexToBlob s
      | _ \<Rightarrow> [])"
| "hexToBlob _ = []"

definition blobToHex :: "blob \<Rightarrow> string" where
  "blobToHex b = concat (map hex_byte b)"

text \<open>The number \<open>strtoll\<close> and \<open>strtoull\<close> read when they consume the whole text: white space, a
  sign, digits. The sign is kept apart.\<close>

definition strto_whole :: "string \<Rightarrow> (bool \<times> nat) option" where
  "strto_whole s =
     (let t = dropWhile is_space s;
          neg = (t \<noteq> [] \<and> hd t = CHR ''-'');
          u = (if t \<noteq> [] \<and> (hd t = CHR ''-'' \<or> hd t = CHR ''+'') then tl t else t)
      in if u = [] \<or> \<not> list_all is_digit u then None else Some (neg, digits_val u))"

definition parseInt64Strict :: "string \<Rightarrow> i64 option" where
  "parseInt64Strict s =
     (case strto_whole s of
        None \<Rightarrow> None
      | Some (neg, n) \<Rightarrow>
          (let v = (if neg then - int n else int n)
           in if v < i64_min \<or> i64_max < v then None else Some (word_of_int v)))"

text \<open>\<open>strtoull\<close> negates a number with a minus sign modulo \<open>2^64\<close>; only a sign that is the first
  character is refused.\<close>

definition parseUint64Strict :: "string \<Rightarrow> u64 option" where
  "parseUint64Strict s =
     (if s = [] \<or> hd s = CHR ''-'' then None
      else case strto_whole s of
        None \<Rightarrow> None
      | Some (neg, n) \<Rightarrow>
          if n \<ge> 2 ^ 64 then None else Some (if neg then - of_nat n else of_nat n))"

section \<open>Time stamps\<close>

fun read_uint_loop :: "nat \<Rightarrow> nat \<Rightarrow> string \<Rightarrow> (nat \<times> string) option" where
  "read_uint_loop 0 v s = Some (v, s)"
| "read_uint_loop (Suc k) v [] = None"
| "read_uint_loop (Suc k) v (c # cs) =
     (if is_digit c then read_uint_loop k (v * 10 + digit_val c) cs else None)"

definition readUInt :: "nat \<Rightarrow> string \<Rightarrow> (nat \<times> string) option" where
  "readUInt width s = (if length s < width then None else read_uint_loop width 0 s)"

definition skipSpaces :: "string \<Rightarrow> string" where
  "skipSpaces s = dropWhile is_space s"

definition daysFromCivil :: "int \<Rightarrow> int \<Rightarrow> int \<Rightarrow> int" where
  "daysFromCivil y m d =
     (let yy = y - (if m \<le> 2 then 1 else 0);
          era = (if yy \<ge> 0 then yy else yy - 399) sdiv 400;
          yoe = yy - era * 400;
          doy = (153 * (m + (if m > 2 then - 3 else 9)) + 2) div 5 + d - 1;
          doe = yoe * 365 + yoe div 4 - yoe div 100 + doy
      in era * 146097 + doe - 719468)"

definition at_char :: "char \<Rightarrow> string \<Rightarrow> bool" where
  "at_char c s \<longleftrightarrow> s \<noteq> [] \<and> hd s = c"

definition ora_date :: "string \<Rightarrow> (nat \<times> nat \<times> nat \<times> string) option" where
  "ora_date s = do {
     (y, s1) \<leftarrow> readUInt 4 s; s2 \<leftarrow> expect (CHR ''-'') s1;
     (mo, s3) \<leftarrow> readUInt 2 s2; s4 \<leftarrow> expect (CHR ''-'') s3;
     (d, s5) \<leftarrow> readUInt 2 s4;
     if mo < 1 \<or> mo > 12 \<or> d < 1 \<or> d > 31 then None else Some (y, mo, d, s5) }"

definition ora_fraction :: "string \<Rightarrow> nat \<times> string" where
  "ora_fraction s =
     (let kept = take 9 (takeWhile is_digit s)
      in (digits_val kept * 10 ^ (9 - length kept), dropWhile is_digit s))"

definition ora_time :: "string \<Rightarrow> (nat \<times> nat \<times> nat \<times> nat \<times> string) option" where
  "ora_time s =
     (if s \<noteq> [] \<and> is_digit (hd s) then do {
        (h, s1) \<leftarrow> readUInt 2 s; s2 \<leftarrow> expect (CHR '':'') s1;
        (mi, s3) \<leftarrow> readUInt 2 s2;
        (se, s4) \<leftarrow> (if at_char (CHR '':'') s3 then readUInt 2 (tl s3) else Some (0, s3));
        let (nanos, s5) = (if at_char (CHR ''.'') s4 then ora_fraction (tl s4) else (0, s4));
        Some (h, mi, se, nanos, s5) }
      else Some (0, 0, 0, 0, s))"

text \<open>The zone of a time stamp: its offset in seconds, or none.\<close>

definition ora_zone :: "string \<Rightarrow> int option option" where
  "ora_zone s =
     (if at_char (CHR ''+'') s \<or> at_char (CHR ''-'') s then do {
        (oh, s1) \<leftarrow> readUInt 2 (tl s);
        (om, s2) \<leftarrow> (if at_char (CHR '':'') s1 then readUInt 2 (tl s1) else Some (0, s1));
        Some (Some ((if hd s = CHR ''-'' then -1 else 1) * (int oh * 3600 + int om * 60))) }
      else if at_char (CHR ''Z'') s \<or> at_char (CHR ''z'') s then Some (Some 0)
      else Some None)"

text \<open>\<open>mktime\<close> gets the calendar fields and answers seconds, \<open>-1\<close> for an error. What follows the zone
  is not looked at.\<close>

definition oracleParseTimestamp :: "(civil \<Rightarrow> int) \<Rightarrow> string \<Rightarrow> int option" where
  "oracleParseTimestamp mktime text = do {
     (y, mo, d, s1) \<leftarrow> ora_date (skipSpaces text);
     (h, mi, se, nanos, s2) \<leftarrow> ora_time (skipSpaces s1);
     zone \<leftarrow> ora_zone (skipSpaces s2);
     case zone of
       Some offsetSeconds \<Rightarrow>
         (let seconds = daysFromCivil (int y) (int mo) (int d) * 86400
            + int h * 3600 + int mi * 60 + int se - offsetSeconds
          in Some (seconds * 1000000000 + int nanos))
     | None \<Rightarrow>
         (let epoch = mktime \<lparr>c_year = y, c_month = mo, c_day = d, c_hour = h, c_min = mi, c_sec = se\<rparr>
          in if epoch = -1 then None else Some (epoch * 1000000000 + int nanos)) }"

section \<open>Values\<close>

record ora_env =
  ora_render :: render_env
  ora_mktime :: "civil \<Rightarrow> int"
  ora_strtod :: "string \<Rightarrow> 64 word"
  ora_fmt_g :: "nat \<Rightarrow> 64 word \<Rightarrow> string"

text \<open>Equality of two doubles that are no NaN: the same bits, or both zero.\<close>

definition double_eq :: "64 word \<Rightarrow> 64 word \<Rightarrow> bool" where
  "double_eq a b \<longleftrightarrow> a = b \<or> (push_bit 1 a = 0 \<and> push_bit 1 b = 0)"

definition oracleFormatDouble :: "ora_env \<Rightarrow> 64 word \<Rightarrow> string" where
  "oracleFormatDouble env v =
     (if \<not> is_finite_double v then ''NULL''
      else case filter (\<lambda>p. double_eq (ora_strtod env (ora_fmt_g env p v)) v) [15, 16, 17] of
        p # _ \<Rightarrow> ora_fmt_g env p v
      | [] \<Rightarrow> ora_fmt_g env 17 v)"

definition oracleFormatTimestamp :: "ora_env \<Rightarrow> i64 \<Rightarrow> string" where
  "oracleFormatTimestamp env t = fmt_timestamp_ms (ora_render env) t"

definition ora_timestamp_or_text :: "ora_env \<Rightarrow> string \<Rightarrow> val" where
  "ora_timestamp_or_text env text =
     (case oracleParseTimestamp (ora_mktime env) text of
        Some ns \<Rightarrow> VTimestamp (word_of_int ns) | None \<Rightarrow> VString text)"

definition ora_integer :: "string \<Rightarrow> val" where
  "ora_integer text =
     (case parseInt64Strict text of
        Some i \<Rightarrow> VInt i
      | None \<Rightarrow> (case parseUint64Strict text of Some u \<Rightarrow> VUInt u | None \<Rightarrow> VDecimal text))"

definition oracleValueFromText :: "ora_env \<Rightarrow> sqlt \<Rightarrow> string \<Rightarrow> int \<Rightarrow> int \<Rightarrow> val" where
  "oracleValueFromText env t text precision scale =
     (case oracleTypeClass t of
        OText \<Rightarrow> VString text
      | ORowid \<Rightarrow> VString text
      | OInterval \<Rightarrow> (if t = kSqltIntervalYm then VIntervalYM text else VIntervalDS text)
      | OBinary \<Rightarrow> VBlob (hexToBlob text)
      | ODate \<Rightarrow> ora_timestamp_or_text env text
      | OTimestamp \<Rightarrow> ora_timestamp_or_text env text
      | OTimestampTz \<Rightarrow> ora_timestamp_or_text env text
      | OLob \<Rightarrow> (if t = kSqltClob \<or> t = kSqltCfile then VString text else VBlob (hexToBlob text))
      | ONumber \<Rightarrow>
          (if t \<in> {kSqltFlt, kSqltBfloat, kSqltBdouble, kSqltIbfloat, kSqltIbdouble}
           then VDouble (ora_strtod env text)
           else
             (let hasFraction = (CHR ''.'' \<in> set text \<or> CHR ''e'' \<in> set text \<or> CHR ''E'' \<in> set text)
              in if \<not> hasFraction \<and> (precision \<le> 0 \<or> precision > 18) then ora_integer text
                 else if \<not> hasFraction \<and> scale = 0 then ora_integer text
                 else VDecimal text))
      | OUnknown \<Rightarrow> VString text)"

record ora_bind =
  ob_text :: "string option"
  ob_raw :: "blob option"
  ob_unsupported :: bool

definition ob_null :: ora_bind where
  "ob_null = \<lparr>ob_text = None, ob_raw = None, ob_unsupported = False\<rparr>"

definition ob_isNull :: "ora_bind \<Rightarrow> bool" where
  "ob_isNull b \<longleftrightarrow> \<not> ob_unsupported b \<and> ob_text b = None \<and> ob_raw b = None"

definition bind_text :: "string \<Rightarrow> ora_bind" where
  "bind_text s = ob_null\<lparr>ob_text := Some s\<rparr>"

definition oracleBindValue :: "ora_env \<Rightarrow> val \<Rightarrow> ora_bind" where
  "oracleBindValue env v =
     (case v of
        VNull \<Rightarrow> ob_null
      | VBool b \<Rightarrow> bind_text (if b then ''1'' else ''0'')
      | VInt i \<Rightarrow> bind_text (int_to_string (sint i))
      | VUInt u \<Rightarrow> bind_text (nat_to_string (unat u))
      | VDouble d \<Rightarrow> (if \<not> is_finite_double d then ob_null else bind_text (oracleFormatDouble env d))
      | VDecimal s \<Rightarrow> bind_text s
      | VString s \<Rightarrow> bind_text s
      | VDate d \<Rightarrow> bind_text (if space \<notin> set d then d @ '' 00:00:00'' else d)
      | VTime s \<Rightarrow> bind_text (''1970-01-01 '' @ s)
      | VTimestamp t \<Rightarrow> bind_text (oracleFormatTimestamp env t)
      | VUuid s \<Rightarrow> bind_text s
      | VJson s \<Rightarrow> bind_text s
      | VIntervalYM s \<Rightarrow> bind_text s
      | VIntervalDS s \<Rightarrow> bind_text s
      | VBlob b \<Rightarrow> ob_null\<lparr>ob_raw := Some b\<rparr>
      | _ \<Rightarrow> ob_null\<lparr>ob_unsupported := True\<rparr>)"

definition oracleSessionSetupStatements :: "string list" where
  "oracleSessionSetupStatements =
     [''ALTER SESSION SET NLS_DATE_FORMAT = '' @ quoteText ''YYYY-MM-DD HH24:MI:SS'',
      ''ALTER SESSION SET NLS_TIMESTAMP_FORMAT = '' @ quoteText ''YYYY-MM-DD HH24:MI:SS.FF'',
      ''ALTER SESSION SET NLS_TIMESTAMP_TZ_FORMAT = '' @ quoteText ''YYYY-MM-DD HH24:MI:SS.FF TZH:TZM'',
      ''ALTER SESSION SET NLS_NUMERIC_CHARACTERS = '' @ quoteText ''.,'']"

section \<open>Connect descriptors\<close>

record ora_options =
  oo_host :: string
  oo_port :: int
  oo_serviceName :: string
  oo_sid :: string
  oo_timeoutMs :: int
  oo_tls :: bool
  oo_verifyPeer :: bool
  oo_wallet :: string
  oo_certDn :: string

definition default_options :: ora_options where
  "default_options = \<lparr>oo_host = ''localhost'', oo_port = 1521, oo_serviceName = [], oo_sid = [],
     oo_timeoutMs = 5000, oo_tls = False, oo_verifyPeer = True, oo_wallet = [], oo_certDn = []\<rparr>"

definition validDescriptorAtom :: "string \<Rightarrow> bool" where
  "validDescriptorAtom s \<longleftrightarrow> s \<noteq> [] \<and>
     list_all (\<lambda>c. \<not> (char_code c \<le> 32 \<or> c = CHR ''('' \<or> c = CHR '')'' \<or> c = CHR ''='')) s"

definition validQuotedDescriptorValue :: "string \<Rightarrow> bool" where
  "validQuotedDescriptorValue s \<longleftrightarrow> s \<noteq> [] \<and> list_all (\<lambda>c. \<not> (char_code c < 32 \<or> c = dquote)) s"

definition oo_target :: "ora_options \<Rightarrow> string" where
  "oo_target p = (if oo_sid p = [] then oo_serviceName p else oo_sid p)"

definition check_options :: "ora_options \<Rightarrow> status" where
  "check_options p =
     (if \<not> validDescriptorAtom (oo_host p) then
        status_error ConfigError ''Oracle host contains characters unsafe for a connect descriptor''
      else if oo_port p < 1 \<or> oo_port p > 65535 then
        status_error ConfigError ''Oracle port must be in range 1..65535''
      else if oo_serviceName p \<noteq> [] \<and> oo_sid p \<noteq> [] then
        status_error ConfigError ''Oracle service_name and sid are mutually exclusive''
      else if oo_serviceName p = [] \<and> oo_sid p = [] then
        status_error ConfigError ''Oracle service_name or sid is required''
      else if \<not> validDescriptorAtom (oo_target p) then
        status_error ConfigError ''Oracle service_name or sid contains unsafe characters''
      else if oo_timeoutMs p < 0 then
        status_error ConfigError ''Oracle connection timeout must be >= 0''
      else if oo_wallet p \<noteq> [] \<and> \<not> validQuotedDescriptorValue (oo_wallet p) then
        status_error ConfigError ''Oracle wallet_location contains unsafe characters''
      else if oo_certDn p \<noteq> [] \<and> \<not> validQuotedDescriptorValue (oo_certDn p) then
        status_error ConfigError ''Oracle server_cert_dn contains unsafe characters''
      else if \<not> oo_tls p \<and> (oo_wallet p \<noteq> [] \<or> oo_certDn p \<noteq> []) then
        status_error ConfigError ''Oracle wallet_location and server_cert_dn require TLS''
      else if oo_certDn p \<noteq> [] \<and> \<not> oo_verifyPeer p then
        status_error ConfigError ''Oracle server_cert_dn requires TLS peer verification''
      else status_OK)"

definition quoted_value :: "string \<Rightarrow> string" where
  "quoted_value s = dquote # s @ [dquote]"

definition descriptor_text :: "ora_options \<Rightarrow> string" where
  "descriptor_text p =
     ''(DESCRIPTION='' @
     (if oo_timeoutMs p > 0 then
        (let timeout = int_to_string (oo_timeoutMs p) @ ''ms''
         in ''(CONNECT_TIMEOUT='' @ timeout @ '')'' @ ''(TRANSPORT_CONNECT_TIMEOUT='' @ timeout @ '')'')
      else []) @
     ''(ADDRESS=(PROTOCOL='' @ (if oo_tls p then ''TCPS'' else ''TCP'') @
     '')(HOST='' @ oo_host p @ '')(PORT='' @ int_to_string (oo_port p) @ ''))'' @
     ''(CONNECT_DATA=('' @ (if oo_sid p = [] then ''SERVICE_NAME='' else ''SID='') @
     oo_target p @ ''))'' @
     (if oo_tls p then
        ''(SECURITY=(SSL_SERVER_DN_MATCH='' @ (if oo_verifyPeer p then ''YES'' else ''NO'') @ '')'' @
        (if oo_certDn p \<noteq> [] then ''(SSL_SERVER_CERT_DN='' @ quoted_value (oo_certDn p) @ '')'' else []) @
        (if oo_wallet p \<noteq> [] then ''(WALLET_LOCATION='' @ quoted_value (oo_wallet p) @ '')'' else []) @
        '')''
      else []) @ '')''"

definition oracleBuildConnectDescriptor :: "ora_options \<Rightarrow> status \<times> string" where
  "oracleBuildConnectDescriptor p =
     (let st = check_options p in if status_ok st then (st, descriptor_text p) else (st, []))"

section \<open>Returning clauses\<close>

text \<open>A quoted run after its opening quote: what it denotes, a doubled quote once, and the rest.\<close>

fun quoted_run :: "char \<Rightarrow> string \<Rightarrow> string \<times> string" where
  "quoted_run q [] = ([], [])"
| "quoted_run q (c # cs) =
     (if c = q then
        (case cs of
           d # ds \<Rightarrow> (if d = q then (let (a, b) = quoted_run q ds in (q # a, b)) else ([], cs))
         | [] \<Rightarrow> ([], []))
      else (let (a, b) = quoted_run q cs in (c # a, b)))"

declare quoted_run.simps(2) [simp del]

lemma quoted_run_cases:
  "c \<noteq> q \<Longrightarrow> quoted_run q (c # s) = (c # fst (quoted_run q s), snd (quoted_run q s))"
  "quoted_run q (q # q # s) = (q # fst (quoted_run q s), snd (quoted_run q s))"
  "s = [] \<or> hd s \<noteq> q \<Longrightarrow> quoted_run q (q # s) = ([], s)"
  by (auto simp: quoted_run.simps case_prod_beta split: list.split)

lemma quoted_run_induct [case_names Nil Plain Doubled End]:
  assumes "P []" and "\<And>c s. c \<noteq> q \<Longrightarrow> P s \<Longrightarrow> P (c # s)" and "\<And>s. P s \<Longrightarrow> P (q # q # s)"
    and "\<And>s. s = [] \<or> hd s \<noteq> q \<Longrightarrow> P (q # s)"
  shows "P s"
proof (induction s rule: length_induct)
  case (1 s)
  show ?case
  proof (cases s)
    case (Cons c r)
    show ?thesis
    proof (cases "c = q \<and> r \<noteq> [] \<and> hd r = q")
      case True
      with Cons 1 assms(3) [of "tl r"] show ?thesis by (cases r) auto
    qed (use Cons 1 assms(2) [of c r] assms(4) [of r] in auto)
  qed (simp add: assms(1))
qed

lemma quoted_run_length: "length (snd (quoted_run q s)) \<le> length s"
  by (induction s rule: quoted_run_induct [where q = q]) (simp_all add: quoted_run_cases)

lemma is_alpha_word: "is_alpha c \<Longrightarrow> isWordChar c"
  by (simp add: isWordChar_def is_alnum_def)

text \<open>The text after the last word \<open>RETURNING\<close> that is outside quotes.\<close>

function find_returning :: "string \<Rightarrow> string option \<Rightarrow> string option" where
  "find_returning [] found = found"
| "find_returning (c # cs) found =
     (if c = squote then find_returning (snd (quoted_run squote cs)) found
      else if c = dquote then find_returning (snd (quoted_run dquote cs)) found
      else if is_alpha c then
        (let w = takeWhile isWordChar (c # cs); r = dropWhile isWordChar (c # cs)
         in find_returning r (if foldEquals w ''RETURNING'' then Some r else found))
      else find_returning cs found)"
  by pat_completeness auto
termination
  by (relation "measure (\<lambda>(s, _). length s)")
    (auto simp: is_alpha_word less_Suc_eq_le length_dropWhile_le quoted_run_length)

declare find_returning.simps(2) [simp del]

lemma find_returning_cases:
  "find_returning (squote # s) found = find_returning (snd (quoted_run squote s)) found"
  "find_returning (dquote # s) found = find_returning (snd (quoted_run dquote s)) found"
  "is_alpha c \<Longrightarrow> find_returning (c # s) found =
     find_returning (dropWhile isWordChar s)
       (if foldEquals (c # takeWhile isWordChar s) ''RETURNING'' then Some (dropWhile isWordChar s)
        else found)"
  "\<not> is_alpha c \<Longrightarrow> c \<noteq> squote \<Longrightarrow> c \<noteq> dquote \<Longrightarrow> find_returning (c # s) found = find_returning s found"
proof -
  assume "is_alpha c"
  moreover from this have "c \<noteq> squote" "c \<noteq> dquote" by (auto simp: char_class)
  ultimately show "find_returning (c # s) found =
     find_returning (dropWhile isWordChar s)
       (if foldEquals (c # takeWhile isWordChar s) ''RETURNING'' then Some (dropWhile isWordChar s)
        else found)"
    by (subst find_returning.simps) (simp add: is_alpha_word Let_def)
qed (subst find_returning.simps, simp)+

text \<open>A column name: quoted, or a word, which is folded to upper case.\<close>

definition read_column :: "string \<Rightarrow> (string \<times> string) option" where
  "read_column s =
     (case s of
        [] \<Rightarrow> None
      | c # cs \<Rightarrow>
          if c = dquote then Some (quoted_run dquote cs)
          else if \<not> isWordChar c then None
          else Some (upper (takeWhile isWordChar s), dropWhile isWordChar s))"

lemma read_column_length: "read_column s = Some (n, r) \<Longrightarrow> length r < length s"
  using length_dropWhile_le [of isWordChar "tl s"] quoted_run_length [of dquote "tl s"]
  by (auto simp: read_column_def split: list.splits if_splits)

function read_columns :: "string \<Rightarrow> string list \<Rightarrow> (string list \<times> string) option" where
  "read_columns s columns =
     (if s = [] then Some (columns, [])
      else case read_column (skipSpaces s) of
        None \<Rightarrow> None
      | Some (name, r) \<Rightarrow>
          (let r1 = skipSpaces r
           in if at_char (CHR '','') r1 then read_columns (tl r1) (columns @ [name])
              else Some (columns @ [name], r1)))"
  by pat_completeness auto
termination
proof (relation "measure (\<lambda>(s, _). length s)", goal_cases)
  case 1
  show ?case by simp
next
  case (2 s columns x name r r1)
  then have "length r < length (skipSpaces s)" by (auto dest: read_column_length)
  moreover have "length (skipSpaces s) \<le> length s" "length (skipSpaces r) \<le> length r"
    by (simp_all add: skipSpaces_def length_dropWhile_le)
  ultimately show ?case using 2 by (auto simp: at_char_def)
qed

declare read_columns.simps [simp del]

text \<open>The numbers of the binds; \<open>size_t\<close> wraps.\<close>

definition bind_number :: "string \<Rightarrow> nat" where
  "bind_number ds = foldl (\<lambda>v c. (v * 10 + digit_val c) mod 2 ^ 64) 0 ds"

function read_binds :: "string \<Rightarrow> nat list \<Rightarrow> nat list option" where
  "read_binds s binds =
     (case skipSpaces s of
        [] \<Rightarrow> Some binds
      | c # cs \<Rightarrow>
          if c = CHR '','' then read_binds cs binds
          else if c \<noteq> CHR '':'' then None
          else read_binds (dropWhile is_digit cs) (binds @ [bind_number (takeWhile is_digit cs)]))"
  by pat_completeness auto
termination
proof (relation "measure (\<lambda>(s, _). length s)", goal_cases)
  case 1
  show ?case by simp
next
  case (2 s binds c cs)
  with length_dropWhile_le [of is_space s] show ?case by (simp add: skipSpaces_def)
next
  case (3 s binds c cs)
  with length_dropWhile_le [of is_space s] length_dropWhile_le [of is_digit cs]
  show ?case by (simp add: skipSpaces_def)
qed

declare read_binds.simps [simp del]

record ora_returning =
  or_columns :: "string list"
  or_firstBind :: nat
  or_bindCount :: nat

definition oracleParseReturningInto :: "string \<Rightarrow> ora_returning option" where
  "oracleParseReturningInto sql = do {
     r \<leftarrow> find_returning sql None;
     (columns, r1) \<leftarrow> read_columns r [];
     if columns = [] then None else do {
       let r2 = skipSpaces r1;
       if \<not> foldEquals (takeWhile isWordChar r2) ''INTO'' then None else do {
         binds \<leftarrow> read_binds (dropWhile isWordChar r2) [];
         if length binds \<noteq> length columns then None
         else Some \<lparr>or_columns = columns, or_firstBind = hd binds, or_bindCount = length binds\<rparr> }}}"

definition oracleMakeReturningSuffix :: "string list \<Rightarrow> nat \<Rightarrow> string" where
  "oracleMakeReturningSuffix columns firstBind =
     (if columns = [] then []
      else '' RETURNING '' @ join '', '' (map quoteIdentifier columns) @ '' INTO '' @
        join '', '' (map (\<lambda>i. '':'' @ nat_to_string ((firstBind + i) mod 2 ^ 64)) [0..<length columns]))"

section \<open>Error numbers\<close>

definition ora_states :: "(int \<times> string) list" where
  "ora_states =
     [(1, ''23000''), (54, ''40001''), (60, ''40001''), (903, ''42000''), (904, ''42S22''),
      (911, ''42000''), (923, ''42000''), (933, ''42000''), (942, ''42S02''), (955, ''42710''),
      (1013, ''57014''), (1017, ''28000''), (1400, ''23502''), (1401, ''22001''), (1408, ''42701''),
      (1438, ''22003''), (1461, ''22001''), (1722, ''22018''), (1830, ''22008''), (1843, ''22007''),
      (1858, ''22007''), (2290, ''23514''), (2291, ''23503''), (2292, ''23503''), (3113, ''08S01''),
      (3114, ''08S01''), (3135, ''08S01''), (8177, ''40001''), (12162, ''08001''), (12170, ''08001''),
      (12514, ''08001''), (12537, ''08S01''), (12541, ''08001''), (12899, ''22001''), (22835, ''22001'')]"

definition oracleSqlState :: "int \<Rightarrow> string" where
  "oracleSqlState oraCode =
     (let c = (if oraCode < 0 then - oraCode else oraCode)
      in case map_of ora_states c of Some st \<Rightarrow> st | None \<Rightarrow> [])"

end
