(* ===== verification/OracleProps.thy ===== *)
theory OracleProps
  imports OracleTypes
begin

text \<open>
  What holds of the Oracle type layer: \<open>RETURNING\<close> clauses are read back, values and time stamps
  are read as they were written, connect descriptors have one reading, error numbers are
  classified.
\<close>

section \<open>Returning clauses are read back\<close>

text \<open>A text whose quotes are all closed.\<close>

fun closes :: "char \<Rightarrow> string \<Rightarrow> bool" where
  "closes q [] = False"
| "closes q (c # cs) =
     (if c = q then (case cs of d # ds \<Rightarrow> (if d = q then closes q ds else True) | [] \<Rightarrow> True)
      else closes q cs)"

declare closes.simps(2) [simp del]

lemma closes_cases:
  "c \<noteq> q \<Longrightarrow> closes q (c # s) = closes q s"
  "closes q (q # q # s) = closes q s"
  "s = [] \<or> hd s \<noteq> q \<Longrightarrow> closes q (q # s)"
  by (auto simp: closes.simps split: list.split)

function text_closed :: "string \<Rightarrow> bool" where
  "text_closed [] = True"
| "text_closed (c # cs) =
     (if c = squote then closes squote cs \<and> text_closed (snd (quoted_run squote cs))
      else if c = dquote then closes dquote cs \<and> text_closed (snd (quoted_run dquote cs))
      else if is_alpha c then text_closed (dropWhile isWordChar (c # cs))
      else text_closed cs)"
  by pat_completeness auto
termination
  by (relation "measure length")
    (auto simp: is_alpha_word less_Suc_eq_le length_dropWhile_le quoted_run_length)

declare text_closed.simps(2) [simp del]

lemma text_closed_cases:
  "text_closed (squote # s) \<longleftrightarrow> closes squote s \<and> text_closed (snd (quoted_run squote s))"
  "text_closed (dquote # s) \<longleftrightarrow> closes dquote s \<and> text_closed (snd (quoted_run dquote s))"
  "is_alpha c \<Longrightarrow> text_closed (c # s) \<longleftrightarrow> text_closed (dropWhile isWordChar s)"
  "\<not> is_alpha c \<Longrightarrow> c \<noteq> squote \<Longrightarrow> c \<noteq> dquote \<Longrightarrow> text_closed (c # s) \<longleftrightarrow> text_closed s"
proof -
  assume "is_alpha c"
  moreover from this have "c \<noteq> squote" "c \<noteq> dquote" by (auto simp: char_class)
  ultimately show "text_closed (c # s) \<longleftrightarrow> text_closed (dropWhile isWordChar s)"
    by (subst text_closed.simps) (simp add: is_alpha_word)
qed (subst text_closed.simps, simp)+

lemma text_closed_induct [case_names Nil Squote Dquote Word Other]:
  assumes "P []"
    and "\<And>s. P (snd (quoted_run squote s)) \<Longrightarrow> P (squote # s)"
    and "\<And>s. P (snd (quoted_run dquote s)) \<Longrightarrow> P (dquote # s)"
    and "\<And>c s. is_alpha c \<Longrightarrow> P (dropWhile isWordChar s) \<Longrightarrow> P (c # s)"
    and "\<And>c s. \<not> is_alpha c \<Longrightarrow> c \<noteq> squote \<Longrightarrow> c \<noteq> dquote \<Longrightarrow> P s \<Longrightarrow> P (c # s)"
  shows "P s"
proof (induction s rule: length_induct)
  case (1 s)
  show ?case
  proof (cases s)
    case (Cons c r)
    then have shorter: "P (snd (quoted_run q r))" "P (dropWhile isWordChar r)" "P r" for q
      using 1 by (simp_all add: quoted_run_length length_dropWhile_le less_Suc_eq_le)
    show ?thesis
      unfolding Cons using assms(2) [OF shorter(1)] assms(3) [OF shorter(1)]
        assms(4) [OF _ shorter(2), of c] assms(5) [OF _ _ _ shorter(3), of c] by blast
  qed (simp add: assms(1))
qed

lemma space_not_word [simp]: "\<not> isWordChar space"
  by (simp add: isWordChar_def char_class)

lemma quoted_run_append:
  assumes "r \<noteq> []" and "hd r \<noteq> q"
  shows "closes q s \<Longrightarrow> quoted_run q (s @ r) = (fst (quoted_run q s), snd (quoted_run q s) @ r)"
proof (induction s rule: quoted_run_induct [where q = q])
  case (End s)
  then have "s @ r = [] \<or> hd (s @ r) \<noteq> q" using assms by (cases s) auto
  with End show ?case by (simp add: quoted_run_cases(3))
qed (simp_all add: quoted_run_cases closes_cases)

lemma quoted_run_double_char:
  "r = [] \<or> hd r \<noteq> q \<Longrightarrow> quoted_run q (double_char q t @ q # r) = (t, r)"
  by (induction t) (simp_all add: quoted_run_cases)

lemma dropWhile_word_space:
  "dropWhile isWordChar (s @ space # r) = dropWhile isWordChar s @ space # r"
  "takeWhile isWordChar (s @ space # r) = takeWhile isWordChar s"
  by (induction s) auto

lemma not_alpha [simp]: "\<not> is_alpha space" "\<not> is_alpha (CHR '','')" "\<not> is_alpha (CHR '':'')"
  by (simp_all add: char_class)

lemma find_returning_closed:
  "text_closed s \<Longrightarrow> \<exists>found'. find_returning (s @ space # r) found = find_returning r found'"
proof (induction s arbitrary: found rule: text_closed_induct)
  case Nil
  then show ?case by (auto simp: find_returning_cases)
qed (simp_all add: find_returning_cases text_closed_cases quoted_run_append dropWhile_word_space)

lemma find_returning_quoted:
  assumes "r = [] \<or> hd r \<noteq> dquote"
  shows "find_returning (quoteIdentifier x @ r) found = find_returning r found"
  using assms by (simp add: quoteIdentifier_def quoted_run_double_char find_returning_cases)

lemma find_returning_names:
  assumes "r \<noteq> []" and "hd r \<noteq> dquote"
  shows "find_returning (join '', '' (map quoteIdentifier xs) @ r) found = find_returning r found"
proof (induction xs)
  case (Cons x xs)
  then show ?case
    using assms by (simp add: join_Cons find_returning_quoted find_returning_cases)
qed simp

text \<open>The binds hold no letter and no quote.\<close>

definition plain_char :: "char \<Rightarrow> bool" where
  "plain_char c \<longleftrightarrow> c \<noteq> squote \<and> c \<noteq> dquote \<and> \<not> is_alpha c"

lemma find_returning_plain: "list_all plain_char s \<Longrightarrow> find_returning s found = found"
  by (induction s) (simp_all add: plain_char_def find_returning_cases)

lemma digit_plain: "is_digit c \<Longrightarrow> plain_char c"
  by (auto simp: plain_char_def char_class)

definition bind_list :: "nat list \<Rightarrow> string" where
  "bind_list ns = join '', '' (map (\<lambda>n. '':'' @ nat_to_string n) ns)"

lemma bind_list_Cons:
  "bind_list (n # ns) = CHR '':'' # nat_to_string n @ (if ns = [] then [] else '', '' @ bind_list ns)"
  by (simp add: bind_list_def join_Cons)

lemma bind_list_plain: "list_all plain_char (bind_list ns)"
proof (induction ns)
  case (Cons n ns)
  have "list_all plain_char (nat_to_string n)"
    using nat_to_string_digits [of n] by (auto simp: list_all_iff digit_plain)
  with Cons show ?case by (simp add: bind_list_Cons) (simp add: plain_char_def char_class)
qed (simp add: bind_list_def)

lemma foldl_digits_mod: "foldl (\<lambda>v c. (v * 10 + digit_val c) mod N) 0 ds = digits_val ds mod N"
proof (induction ds rule: rev_induct)
  case (snoc c ds)
  have "(a mod N * 10 + d) mod N = (a * 10 + d) mod N" for a d
    by (metis mod_add_left_eq mod_mult_left_eq)
  with snoc show ?case by simp
qed (simp add: digits_val_def)

lemma bind_number_mod: "bind_number ds = digits_val ds mod 2 ^ 64"
  unfolding bind_number_def by (rule foldl_digits_mod)

lemma read_binds_colon:
  assumes "r = [] \<or> \<not> is_digit (hd r)" and "n < 2 ^ 64"
  shows "read_binds (space # CHR '':'' # nat_to_string n @ r) acc = read_binds r (acc @ [n])"
proof -
  have take: "takeWhile is_digit (nat_to_string n @ r) = nat_to_string n"
    using assms(1) by (rule takeWhile_digits)
  then have drop: "dropWhile is_digit (nat_to_string n @ r) = r"
    by (metis same_append_eq takeWhile_dropWhile_id)
  have skip: "skipSpaces (space # CHR '':'' # nat_to_string n @ r) = CHR '':'' # nat_to_string n @ r"
    by (simp add: skipSpaces_def is_space_def)
  have "bind_number (nat_to_string n) = n"
    using assms(2) unfolding bind_number_mod by (simp only: digits_val_nat_to_string mod_less)
  then show ?thesis
    by (subst read_binds.simps) (simp only: skip take drop list.case char.inject if_False if_True simp_thms)
qed

lemma read_binds_bind_list:
  assumes "list_all (\<lambda>n. n < 2 ^ 64) ns"
  shows "read_binds (space # bind_list ns) acc = Some (acc @ ns)"
  using assms
proof (induction ns arbitrary: acc)
  case Nil
  then show ?case by (simp add: bind_list_def skipSpaces_def char_class read_binds.simps)
next
  case (Cons n ns)
  let ?r = "if ns = [] then [] else '', '' @ bind_list ns"
  have r: "?r = [] \<or> \<not> is_digit (hd ?r)" by (simp add: char_class)
  have "read_binds (space # bind_list (n # ns)) acc = read_binds ?r (acc @ [n])"
    unfolding bind_list_Cons using Cons.prems by (intro read_binds_colon [OF r]) simp
  also have "\<dots> = Some (acc @ n # ns)"
  proof (cases "ns = []")
    case True
    then show ?thesis by (simp add: read_binds.simps skipSpaces_def)
  next
    case False
    have "read_binds (CHR '','' # space # bind_list ns) (acc @ [n]) = read_binds (space # bind_list ns) (acc @ [n])"
      by (subst read_binds.simps) (simp add: skipSpaces_def char_class)
    with False Cons show ?thesis by simp
  qed
  finally show ?case .
qed

lemma read_column_quoted:
  "r = [] \<or> hd r \<noteq> dquote \<Longrightarrow> read_column (quoteIdentifier x @ r) = Some (x, r)"
  by (simp add: read_column_def quoteIdentifier_def quoted_run_double_char)

lemma skipSpaces_quoted: "skipSpaces (space # quoteIdentifier x @ r) = quoteIdentifier x @ r"
  by (simp add: skipSpaces_def quoteIdentifier_def char_class)

lemma read_columns_names:
  assumes "xs \<noteq> []"
  shows "read_columns (space # join '', '' (map quoteIdentifier xs) @ '' INTO'' @ b) acc =
    Some (acc @ xs, ''INTO'' @ b)"
  using assms
proof (induction xs arbitrary: acc)
  case (Cons x xs)
  show ?case
  proof (cases "xs = []")
    case True
    then show ?thesis
      by (subst read_columns.simps)
        (simp add: skipSpaces_quoted read_column_quoted, simp add: skipSpaces_def at_char_def char_class)
  next
    case False
    let ?r = "CHR '','' # space # join '', '' (map quoteIdentifier xs) @ '' INTO'' @ b"
    have "read_columns (space # quoteIdentifier x @ ?r) acc = read_columns (tl ?r) (acc @ [x])"
      by (subst read_columns.simps)
        (simp add: skipSpaces_quoted read_column_quoted, simp add: skipSpaces_def at_char_def char_class)
    with False Cons.IH [OF False, of "acc @ [x]"] show ?thesis by (simp add: join_Cons)
  qed
qed simp

lemma find_returning_suffix:
  "find_returning (''RETURNING '' @ join '', '' (map quoteIdentifier xs) @ '' INTO '' @ bind_list ns) found =
     Some (space # join '', '' (map quoteIdentifier xs) @ '' INTO '' @ bind_list ns)"
proof -
  let ?t = "join '', '' (map quoteIdentifier xs) @ '' INTO '' @ bind_list ns"
  have "find_returning (''RETURNING'' @ space # ?t) found = find_returning (space # ?t) (Some (space # ?t))"
    by (simp add: find_returning_cases isWordChar_def foldEquals_def char_class)
  also have "\<dots> = find_returning ?t (Some (space # ?t))" by (simp add: find_returning_cases)
  also have "\<dots> = find_returning ('' INTO '' @ bind_list ns) (Some (space # ?t))"
    by (rule find_returning_names) simp_all
  also have "\<dots> = find_returning (space # bind_list ns) (Some (space # ?t))"
    by (simp add: find_returning_cases isWordChar_def foldEquals_def char_class)
  also have "\<dots> = Some (space # ?t)"
    using bind_list_plain by (simp add: find_returning_plain find_returning_cases)
  finally show ?thesis by simp
qed

text \<open>A \<open>RETURNING\<close> clause that \<open>oracleMakeReturningSuffix\<close> appends to a statement whose quotes are
  closed is read back by \<open>oracleParseReturningInto\<close> with exactly its columns, in order and whatever
  characters they hold, and its first bind number, also when the statement has the word
  \<open>RETURNING\<close> elsewhere.\<close>

theorem returning_roundtrip:
  assumes closed: "text_closed sql" and cols: "columns \<noteq> []" and first: "firstBind < 2 ^ 64"
  shows "oracleParseReturningInto (sql @ oracleMakeReturningSuffix columns firstBind) =
    Some \<lparr>or_columns = columns, or_firstBind = firstBind, or_bindCount = length columns\<rparr>"
proof -
  let ?ns = "map (\<lambda>i. (firstBind + i) mod 2 ^ 64) [0..<length columns]"
  let ?names = "join '', '' (map quoteIdentifier columns)"
  have suffix: "oracleMakeReturningSuffix columns firstBind =
      space # ''RETURNING '' @ ?names @ '' INTO '' @ bind_list ?ns"
    using cols by (simp add: oracleMakeReturningSuffix_def bind_list_def comp_def)
  from find_returning_closed [OF closed, of "''RETURNING '' @ ?names @ '' INTO '' @ bind_list ?ns" None]
  have find: "find_returning (sql @ oracleMakeReturningSuffix columns firstBind) None =
      Some (space # ?names @ '' INTO'' @ space # bind_list ?ns)"
    using find_returning_suffix [of columns ?ns] by (auto simp: suffix)
  have binds: "read_binds (space # bind_list ?ns) [] = Some ?ns"
    by (subst read_binds_bind_list) (simp_all add: list_all_iff)
  have "hd ?ns = firstBind" using cols first by (simp add: hd_map upt_rec)
  then show ?thesis
    using cols binds read_columns_names [OF cols, of "space # bind_list ?ns" "[]"]
    by (simp add: oracleParseReturningInto_def find skipSpaces_def isWordChar_def foldEquals_def char_class)
qed

theorem returning_roundtrip_witness:
  "oracleParseReturningInto (''INSERT INTO t(note) VALUES (:1) '' @
      oracleMakeReturningSuffix [''id'', ''a, '' @ [dquote] @ '' INTO :9''] 2) =
    Some \<lparr>or_columns = [''id'', ''a, '' @ [dquote] @ '' INTO :9''], or_firstBind = 2, or_bindCount = 2\<rparr>"
proof -
  have "text_closed ''INSERT INTO t(note) VALUES (:1) ''" by code_simp
  from returning_roundtrip [OF this, of "[''id'', ''a, '' @ [dquote] @ '' INTO :9'']" 2]
  show ?thesis by simp
qed

section \<open>Error numbers\<close>

lemma oracleSqlState_abs: "oracleSqlState n = (case map_of ora_states \<bar>n\<bar> of Some st \<Rightarrow> st | None \<Rightarrow> [])"
  by (simp add: oracleSqlState_def Let_def abs_if)

definition ora_lost :: "int set" where
  "ora_lost = {3113, 3114, 3135, 12162, 12170, 12514, 12537, 12541}"

definition ora_conflict :: "int set" where
  "ora_conflict = {54, 60, 8177}"

lemma ora_states_facts:
  "list_all (\<lambda>(n, st). (sqlClass st = ''08'') = (n \<in> ora_lost) \<and>
      (sqlClass st = ''40'') = (n \<in> ora_conflict) \<and> (st = ''57014'') = (n = 1013) \<and>
      st \<noteq> ''HYT00'' \<and> st \<noteq> ''HYT01'') ora_states"
  unfolding ora_lost_def ora_conflict_def by code_simp

lemma ora_states_listed:
  "map_of ora_states n = None \<Longrightarrow> n \<notin> ora_lost \<and> n \<notin> ora_conflict \<and> n \<noteq> 1013"
  unfolding map_of_eq_None_iff ora_states_def ora_lost_def ora_conflict_def by simp

lemma oracleSqlState_facts:
  "(sqlClass (oracleSqlState n) = ''08'') = (\<bar>n\<bar> \<in> ora_lost)"
  "(sqlClass (oracleSqlState n) = ''40'') = (\<bar>n\<bar> \<in> ora_conflict)"
  "(oracleSqlState n = ''57014'') = (\<bar>n\<bar> = 1013)"
  "oracleSqlState n \<noteq> ''HYT00''" "oracleSqlState n \<noteq> ''HYT01''"
proof -
  have "(sqlClass st = ''08'') = (\<bar>n\<bar> \<in> ora_lost) \<and> (sqlClass st = ''40'') = (\<bar>n\<bar> \<in> ora_conflict) \<and>
      (st = ''57014'') = (\<bar>n\<bar> = 1013) \<and> st \<noteq> ''HYT00'' \<and> st \<noteq> ''HYT01''"
    if st: "st = oracleSqlState n" for st
  proof (cases "map_of ora_states \<bar>n\<bar>")
    case None
    with st ora_states_listed [OF None] show ?thesis by (simp add: oracleSqlState_abs sqlClass_def)
  next
    case (Some st')
    then have "(\<bar>n\<bar>, st') \<in> set ora_states" by (rule map_of_SomeD)
    with ora_states_facts have "case (\<bar>n\<bar>, st') of (n, st) \<Rightarrow>
        (sqlClass st = ''08'') = (n \<in> ora_lost) \<and> (sqlClass st = ''40'') = (n \<in> ora_conflict) \<and>
        (st = ''57014'') = (n = 1013) \<and> st \<noteq> ''HYT00'' \<and> st \<noteq> ''HYT01''"
      unfolding list_all_iff by (rule bspec)
    moreover have "st = st'" using st Some by (simp add: oracleSqlState_abs)
    ultimately show ?thesis by simp
  qed
  then show "(sqlClass (oracleSqlState n) = ''08'') = (\<bar>n\<bar> \<in> ora_lost)"
    "(sqlClass (oracleSqlState n) = ''40'') = (\<bar>n\<bar> \<in> ora_conflict)"
    "(oracleSqlState n = ''57014'') = (\<bar>n\<bar> = 1013)"
    "oracleSqlState n \<noteq> ''HYT00''" "oracleSqlState n \<noteq> ''HYT01''" by blast+
qed

text \<open>Which Oracle errors the layers above act on: an error marks its connection as broken exactly
  when its number is one of the lost-connection or listener errors, and is retried exactly for those
  and for lock, deadlock and serialization errors (a cancelled statement only if its message names
  a timeout). The sign of the number does not matter.\<close>

theorem oracle_error_classification:
  "(connectionBroken (databaseError fb msg (oracleSqlState n) vc) \<longleftrightarrow>
     \<bar>n\<bar> \<in> {3113, 3114, 3135, 12162, 12170, 12514, 12537, 12541}) \<and>
   (retryable (databaseError fb msg (oracleSqlState n) vc) \<longleftrightarrow>
     \<bar>n\<bar> \<in> {54, 60, 8177, 3113, 3114, 3135, 12162, 12170, 12514, 12537, 12541} \<or>
     (\<bar>n\<bar> = 1013 \<and> contains ''timeout'' msg))"
  using databaseError_classification [of fb msg "oracleSqlState n" vc]
  by (auto simp: oracleSqlState_facts ora_lost_def ora_conflict_def)

section \<open>Values are read back\<close>

lemma hexNibble_digits: "list_all (\<lambda>k. hexNibble (''0123456789ABCDEF'' ! k) = Some k) [0..<16]"
  by code_simp

lemma fifteen_mask: "(15 :: 8 word) = mask 4"
  by (simp add: mask_eq_exp_minus_1)

lemma hexNibble_hex_digit: "hexNibble (hex_digit d) = Some (unat (d AND 15))"
proof -
  have "d AND 15 < (16 :: 8 word)"
    using and_mask_less_size [of 4 d] unfolding fifteen_mask by (simp add: word_size)
  then have "unat (d AND 15) < 16" by (simp add: word_less_nat_alt)
  moreover have "\<forall>k\<in>{0..<16}. hexNibble (''0123456789ABCDEF'' ! k) = Some k"
    using hexNibble_digits by (simp only: list_all_iff set_upt)
  ultimately show ?thesis unfolding hex_digit_def by (metis atLeastLessThan_iff zero_le)
qed

lemma nibbles_join: "push_bit 4 (drop_bit 4 b AND 15) OR (b AND 15) = (b :: 8 word)"
  unfolding fifteen_mask by (rule bit_word_eqI) (auto simp: bit_simps)

lemma hexToBlob_byte: "hexToBlob (hex_byte b @ s) = b # hexToBlob s"
proof -
  have "push_bit 4 (of_nat (unat (drop_bit 4 b AND 15))) OR of_nat (unat (b AND 15)) = b"
    by (simp only: of_nat_unat ucast_id nibbles_join)
  then show ?thesis by (simp only: hex_byte_def append.simps hexToBlob.simps hexNibble_hex_digit prod.case option.case)
qed

lemma hexToBlob_blobToHex: "hexToBlob (blobToHex b) = b"
  by (induction b) (simp_all add: blobToHex_def hexToBlob_byte)

lemma strto_whole_nat: "strto_whole (nat_to_string n) = Some (False, n)"
proof -
  obtain c cs where cs: "nat_to_string n = c # cs" by (cases "nat_to_string n") auto
  then have "is_digit c" by (rule nat_to_string_Cons_digit)
  then have "\<not> is_space c" "c \<noteq> CHR ''-''" "c \<noteq> CHR ''+''" by (auto simp: char_class)
  moreover have "list_all is_digit (c # cs)" using nat_to_string_digits [of n] by (simp add: cs list_all_iff)
  moreover have "digits_val (c # cs) = n" using digits_val_nat_to_string [of n] by (simp add: cs)
  ultimately show ?thesis by (simp add: strto_whole_def cs)
qed

lemma strto_whole_minus: "strto_whole (CHR ''-'' # nat_to_string n) = Some (True, n)"
  using nat_to_string_digits [of n]
  by (simp add: strto_whole_def list_all_iff char_class)

lemma parseInt64Strict_print: "parseInt64Strict (int_to_string (sint i)) = Some i"
  using sint_i64_range [of i]
  by (simp add: parseInt64Strict_def int_to_string_def strto_whole_nat strto_whole_minus)

lemma ora_integer_unsigned:
  "ora_integer (nat_to_string (unat u)) = (if uint u \<le> i64_max then VInt u else VUInt u)"
proof -
  have "hd (nat_to_string (unat u)) \<noteq> CHR ''-''"
    by (metis list.exhaust_sel minus_not_digit nat_to_string_Cons_digit nat_to_string_nonempty)
  moreover have "unat u < 2 ^ 64" using unsigned_less [of u] by simp
  moreover have "i64_min \<le> 0" by (simp add: i64_min_def)
  ultimately show ?thesis
    by (auto simp: ora_integer_def parseInt64Strict_def parseUint64Strict_def strto_whole_nat)
qed

lemma int_to_string_chars: "c \<in> set (int_to_string i) \<Longrightarrow> is_digit c \<or> c = CHR ''-''"
  using nat_to_string_digits by (auto simp: int_to_string_def split: if_splits)

lemma nat_to_string_no_fraction:
  "CHR ''.'' \<notin> set (nat_to_string n)" "CHR ''e'' \<notin> set (nat_to_string n)" "CHR ''E'' \<notin> set (nat_to_string n)"
  using nat_to_string_digits [of n] by (auto simp: char_class)

lemma int_to_string_no_fraction:
  "CHR ''.'' \<notin> set (int_to_string i)" "CHR ''e'' \<notin> set (int_to_string i)" "CHR ''E'' \<notin> set (int_to_string i)"
  by (auto simp: char_class dest: int_to_string_chars)

text \<open>The column a value of each kind is stored in, and what the value is read as: an unsigned
  number that fits a signed one becomes signed, a time of day or a date has its own type only in the
  application.\<close>

fun stored_in :: "val \<Rightarrow> sqlt \<Rightarrow> val \<Rightarrow> bool" where
  "stored_in (VInt i) t v \<longleftrightarrow> t \<in> {kSqltNum, kSqltInt} \<and> v = VInt i"
| "stored_in (VUInt u) t v \<longleftrightarrow>
     t \<in> {kSqltNum, kSqltUin} \<and> v = (if uint u \<le> i64_max then VInt u else VUInt u)"
| "stored_in (VBool b) t v \<longleftrightarrow> t = kSqltNum \<and> v = VInt (if b then 1 else 0)"
| "stored_in (VDecimal s) t v \<longleftrightarrow> t = kSqltNum \<and> CHR ''.'' \<in> set s \<and> v = VDecimal s"
| "stored_in (VString s) t v \<longleftrightarrow> t \<in> {kSqltChr, kSqltAfc, kSqltLng, kSqltClob} \<and> v = VString s"
| "stored_in (VUuid s) t v \<longleftrightarrow> t = kSqltChr \<and> v = VString s"
| "stored_in (VJson s) t v \<longleftrightarrow> t = kSqltClob \<and> v = VString s"
| "stored_in (VIntervalYM s) t v \<longleftrightarrow> t = kSqltIntervalYm \<and> v = VIntervalYM s"
| "stored_in (VIntervalDS s) t v \<longleftrightarrow> t = kSqltIntervalDs \<and> v = VIntervalDS s"
| "stored_in (VBlob b) t v \<longleftrightarrow> t \<in> {kSqltBin, kSqltLbi, kSqltBlob} \<and> v = VBlob b"
| "stored_in _ t v \<longleftrightarrow> False"

definition ora_text :: "ora_bind \<Rightarrow> string option" where
  "ora_text b = (case ob_text b of Some s \<Rightarrow> Some s | None \<Rightarrow> map_option blobToHex (ob_raw b))"

lemma oracleTypeClass_columns:
  "oracleTypeClass kSqltNum = ONumber" "oracleTypeClass kSqltInt = ONumber"
  "oracleTypeClass kSqltUin = ONumber" "oracleTypeClass kSqltChr = OText"
  "oracleTypeClass kSqltAfc = OText" "oracleTypeClass kSqltLng = OText"
  "oracleTypeClass kSqltClob = OLob" "oracleTypeClass kSqltBlob = OLob"
  "oracleTypeClass kSqltBin = OBinary" "oracleTypeClass kSqltLbi = OBinary"
  "oracleTypeClass kSqltIntervalYm = OInterval" "oracleTypeClass kSqltIntervalDs = OInterval"
  by (simp_all add: oracleTypeClass_def)

lemma read_integer_text:
  assumes "t \<in> {kSqltNum, kSqltInt, kSqltUin}"
    and "CHR ''.'' \<notin> set s" "CHR ''e'' \<notin> set s" "CHR ''E'' \<notin> set s"
  shows "oracleValueFromText env t s precision 0 = ora_integer s"
  using assms by (auto simp: oracleValueFromText_def oracleTypeClass_columns)

text \<open>What is bound is read back: a value of one of the kinds that Oracle stores, bound and read
  again as text from a column of the matching type and no fractional digits, is the value that was
  bound (an unsigned number below \<open>2^63\<close> as a signed one, a truth value as 1 or 0), for every value
  of the kind, the extreme integers and all byte strings included.\<close>

theorem oracle_bind_read:
  assumes "stored_in v t w"
  shows "\<exists>text. ora_text (oracleBindValue env v) = Some text \<and>
    oracleValueFromText env t text precision 0 = w"
proof -
  note bound = oracleBindValue_def bind_text_def ob_null_def ora_text_def
  note no_fraction = nat_to_string_no_fraction int_to_string_no_fraction
  show ?thesis
  proof (cases v)
    case (VBool b)
    have "ora_integer ''1'' = VInt 1" "ora_integer ''0'' = VInt 0" by code_simp+
    with VBool assms show ?thesis by (cases b) (simp_all add: bound read_integer_text)
  next
    case (VInt i)
    then have "ora_integer (int_to_string (sint i)) = w"
      using assms by (simp add: ora_integer_def parseInt64Strict_print)
    with VInt assms show ?thesis by (auto simp: bound read_integer_text no_fraction)
  next
    case (VUInt u)
    with assms show ?thesis by (auto simp: bound read_integer_text no_fraction ora_integer_unsigned)
  next
    case (VBlob b)
    with assms show ?thesis
      by (auto simp: bound oracleValueFromText_def oracleTypeClass_columns hexToBlob_blobToHex)
  qed (use assms in \<open>auto simp: bound oracleValueFromText_def oracleTypeClass_columns Let_def\<close>)
qed

theorem oracle_bind_read_witness:
  "\<forall>env. \<exists>text. ora_text (oracleBindValue env (VInt (- 9223372036854775808))) = Some text \<and>
    oracleValueFromText env kSqltNum text 38 0 = VInt (- 9223372036854775808)"
  by (intro allI oracle_bind_read) simp

section \<open>Time stamps of the session's format\<close>

lemma daysFromCivil_calendar: "daysFromCivil (int y) (int mo) (int d) = days_from_civil y mo d"
proof -
  have era: "(if yy \<ge> 0 then yy else yy - 399) sdiv 400 = yy div 400" for yy :: int
  proof (cases "yy \<ge> 0")
    case False
    then have "(yy - 399) sdiv 400 = - ((399 - yy) div 400)" by (simp add: signed_divide_int_def sgn_if)
    also have "\<dots> = yy div 400" by (simp add: zdiv_zminus1_eq_if)
    finally show ?thesis using False by simp
  qed (simp add: signed_divide_int_def sgn_if)
  show ?thesis by (simp add: daysFromCivil_def days_from_civil_def era Let_def of_nat_diff)
qed

lemma read_uint_loop_take:
  "length s \<ge> k \<Longrightarrow> list_all is_digit (take k s) \<Longrightarrow>
    read_uint_loop k v s = Some (foldl (\<lambda>v c. v * 10 + digit_val c) v (take k s), drop k s)"
  by (induction k v s rule: read_uint_loop.induct) auto

lemma readUInt_digits:
  "list_all is_digit ds \<Longrightarrow> length ds = k \<Longrightarrow> readUInt k (ds @ r) = Some (digits_val ds, r)"
  by (simp add: readUInt_def read_uint_loop_take digits_val_def)

text \<open>A number with leading zeros, as the server prints the fields of a date.\<close>

definition padded :: "nat \<Rightarrow> nat \<Rightarrow> string" where
  "padded k n = replicate (k - length (nat_to_string n)) (CHR ''0'') @ nat_to_string n"

lemma nat_to_string_length: "n < 10 ^ k \<Longrightarrow> 0 < k \<Longrightarrow> length (nat_to_string n) \<le> k"
proof (induction n arbitrary: k rule: nat_to_string.induct)
  case (1 n)
  show ?case
  proof (cases "n < 10")
    case False
    then have "k \<noteq> 1" using 1 by auto
    then obtain j where k: "k = Suc j" "0 < j" using 1 by (cases k) auto
    with 1 False have "length (nat_to_string (n div 10)) \<le> j" by auto
    with False k show ?thesis by (subst nat_to_string.simps) simp
  qed (use 1 in \<open>subst nat_to_string.simps, simp\<close>)
qed

lemma digits_val_zeros: "digits_val (replicate m (CHR ''0'') @ ds) = digits_val ds"
  by (induction m) (simp_all add: digits_val_def digit_val_def)

lemma padded_digits: "list_all is_digit (padded k n)"
  using nat_to_string_digits [of n] by (auto simp: padded_def list_all_iff char_class)

lemma readUInt_padded: "n < 10 ^ k \<Longrightarrow> 0 < k \<Longrightarrow> readUInt k (padded k n @ r) = Some (n, r)"
  using nat_to_string_length [of n k]
  by (subst readUInt_digits) (simp_all add: padded_digits, simp_all add: padded_def digits_val_zeros)

text \<open>The format \<open>YYYY-MM-DD HH24:MI:SS.FF TZH:TZM\<close> that \<open>oracleSessionSetupStatements\<close> asks the
  server for, with \<open>k\<close> digits of a fraction.\<close>

definition session_text :: "civil \<Rightarrow> nat \<Rightarrow> nat \<Rightarrow> bool \<Rightarrow> nat \<Rightarrow> nat \<Rightarrow> string" where
  "session_text t k frac neg oh om =
     padded 4 (c_year t) @ ''-'' @ padded 2 (c_month t) @ ''-'' @ padded 2 (c_day t) @ '' '' @
     padded 2 (c_hour t) @ '':'' @ padded 2 (c_min t) @ '':'' @ padded 2 (c_sec t) @ ''.'' @
     padded k frac @ '' '' @ (if neg then ''-'' else ''+'') @ padded 2 oh @ '':'' @ padded 2 om"

lemma padded_starts_digit: "\<exists>c cs. padded k n = c # cs \<and> is_digit c"
proof (cases "padded k n")
  case Nil
  then show ?thesis by (simp add: padded_def)
next
  case (Cons c cs)
  with padded_digits [of k n] show ?thesis by simp
qed

lemma skipSpaces_padded: "skipSpaces (padded k n @ r) = padded k n @ r"
  using padded_starts_digit [of k n] by (auto simp: skipSpaces_def char_class)

lemma skipSpaces_space: "skipSpaces (space # s) = skipSpaces s"
  by (simp add: skipSpaces_def char_class)

lemma expect_here [simp]: "expect c (c # s) = Some s"
  by (simp add: expect_def)

lemma ora_fraction_padded:
  assumes "frac < 10 ^ k" and "0 < k" and "k \<le> 9" and "r \<noteq> []" and "\<not> is_digit (hd r)"
  shows "ora_fraction (padded k frac @ r) = (frac * 10 ^ (9 - k), r)"
proof -
  have len: "length (padded k frac) = k" using nat_to_string_length [OF assms(1,2)] by (simp add: padded_def)
  have all: "\<forall>c\<in>set (padded k frac). is_digit c" using padded_digits [of k frac] by (simp add: list_all_iff)
  then have "takeWhile is_digit (padded k frac @ r) = padded k frac"
    "dropWhile is_digit (padded k frac @ r) = r"
    using assms(4,5) by (cases r; simp)+
  moreover have "digits_val (padded k frac) = frac" by (simp add: padded_def digits_val_zeros)
  ultimately show ?thesis using len assms(3) by (simp add: ora_fraction_def)
qed

text \<open>A time stamp in the format the driver asks the server for denotes, when it is read, exactly
  the instant it was printed from: the seconds of the calendar date and time of day in UTC, less
  the zone's offset, with the fraction in nanoseconds whatever its precision. The process's own time
  zone has no influence.\<close>

theorem session_timestamp_read:
  assumes date: "valid_date (c_year t) (c_month t) (c_day t)" "c_year t < 10000"
    and time: "c_hour t < 24" "c_min t < 60" "c_sec t < 60"
    and frac: "frac < 10 ^ k" "0 < k" "k \<le> 9"
    and zone: "oh < 100" "om < 100"
  shows "oracleParseTimestamp mktime (session_text t k frac neg oh om) =
    Some ((days_from_civil (c_year t) (c_month t) (c_day t) * 86400 + int (c_hour t) * 3600
      + int (c_min t) * 60 + int (c_sec t) - (if neg then -1 else 1) * (int oh * 3600 + int om * 60)) * 10 ^ 9
      + int (frac * 10 ^ (9 - k)))"
proof -
  let ?zone = "(if neg then ''-'' else ''+'') @ padded 2 oh @ '':'' @ padded 2 om"
  let ?time = "padded 2 (c_hour t) @ '':'' @ padded 2 (c_min t) @ '':'' @ padded 2 (c_sec t) @ ''.'' @
     padded k frac @ space # ?zone"
  have md: "1 \<le> c_month t" "c_month t \<le> 12" "1 \<le> c_day t" "c_day t \<le> 31"
    using date(1) by (auto simp: valid_date_def days_in_month_def monthDays_def nth_Cons' split: if_splits)
  then have d: "ora_date (session_text t k frac neg oh om) = Some (c_year t, c_month t, c_day t, space # ?time)"
    using date(2) by (simp add: session_text_def ora_date_def readUInt_padded)
  have skip: "skipSpaces (session_text t k frac neg oh om) = session_text t k frac neg oh om"
    unfolding session_text_def by (rule skipSpaces_padded)
  have "ora_fraction (padded k frac @ space # ?zone) = (frac * 10 ^ (9 - k), space # ?zone)"
    using frac by (intro ora_fraction_padded) (simp_all add: char_class)
  moreover have "?time \<noteq> []" "is_digit (hd ?time)" using padded_starts_digit [of 2 "c_hour t"] by auto
  ultimately have tm: "ora_time ?time = Some (c_hour t, c_min t, c_sec t, frac * 10 ^ (9 - k), space # ?zone)"
    using time by (simp add: ora_time_def readUInt_padded at_char_def)
  have "skipSpaces ?zone = ?zone" by (simp add: skipSpaces_def char_class)
  moreover have "ora_zone ?zone = Some (Some ((if neg then -1 else 1) * (int oh * 3600 + int om * 60)))"
    using zone readUInt_padded [of om 2 "[]"] by (simp add: ora_zone_def at_char_def readUInt_padded)
  ultimately show ?thesis
    using tm by (simp add: oracleParseTimestamp_def skip d skipSpaces_space skipSpaces_padded
        daysFromCivil_calendar Let_def)
qed

theorem session_timestamp_read_witness:
  "\<forall>mktime. oracleParseTimestamp mktime ''2024-02-29 01:00:00.500 +01:00'' = Some (1709164800 * 10 ^ 9 + 500000000)"
proof -
  let ?t = "\<lparr>c_year = 2024, c_month = 2, c_day = 29, c_hour = 1, c_min = 0, c_sec = 0\<rparr>"
  have "session_text ?t 3 500 False 1 0 = ''2024-02-29 01:00:00.500 +01:00''" by code_simp
  moreover have "valid_date 2024 2 29" by code_simp
  moreover have "days_from_civil 2024 2 29 = 19782" by code_simp
  ultimately show ?thesis
    using session_timestamp_read [of ?t 500 3 1 0 _ False] by simp
qed

section \<open>Connect descriptors have one reading\<close>

text \<open>A descriptor as the client library reads it: a parenthesis holds a key and a plain value, a
  value in double quotes, or further parentheses.\<close>

datatype dtree = DAtom string string | DQuoted string string | DNode string "dtree list"

fun dtext :: "dtree \<Rightarrow> string" and dtexts :: "dtree list \<Rightarrow> string" where
  "dtext (DAtom k v) = CHR ''('' # k @ CHR ''='' # v @ '')''"
| "dtext (DQuoted k v) = CHR ''('' # k @ CHR ''='' # dquote # v @ dquote # '')''"
| "dtext (DNode k ts) = CHR ''('' # k @ CHR ''='' # dtexts ts @ '')''"
| "dtexts [] = []"
| "dtexts (t # ts) = dtext t @ dtexts ts"

definition dkey :: "string \<Rightarrow> bool" where
  "dkey k \<longleftrightarrow> CHR ''='' \<notin> set k"

fun dwf :: "dtree \<Rightarrow> bool" and dwfs :: "dtree list \<Rightarrow> bool" where
  "dwf (DAtom k v) \<longleftrightarrow> dkey k \<and> validDescriptorAtom v \<and> dquote \<notin> set v"
| "dwf (DQuoted k v) \<longleftrightarrow> dkey k \<and> dquote \<notin> set v"
| "dwf (DNode k ts) \<longleftrightarrow> dkey k \<and> ts \<noteq> [] \<and> dwfs ts"
| "dwfs [] \<longleftrightarrow> True"
| "dwfs (t # ts) \<longleftrightarrow> dwf t \<and> dwfs ts"

lemma split_at_inj:
  "c \<notin> set a \<Longrightarrow> c \<notin> set b \<Longrightarrow> a @ c # x = b @ c # y \<Longrightarrow> a = b \<and> x = y"
proof (induction a arbitrary: b)
  case Nil
  then show ?case by (cases b) auto
next
  case (Cons d a)
  then show ?case by (cases b) auto
qed

lemma atom_first: "validDescriptorAtom v \<Longrightarrow> \<exists>c cs. v = c # cs \<and> c \<noteq> CHR ''('' \<and> CHR '')'' \<notin> set v"
  by (cases v) (auto simp: validDescriptorAtom_def list_all_iff)

lemma dtexts_first: "ts \<noteq> [] \<Longrightarrow> \<exists>cs. dtexts ts = CHR ''('' # cs"
proof (cases ts)
  case (Cons t ts')
  then show ?thesis by (cases t) auto
qed simp

fun dkey_of :: "dtree \<Rightarrow> string" where
  "dkey_of (DAtom k v) = k"
| "dkey_of (DQuoted k v) = k"
| "dkey_of (DNode k ts) = k"

fun dbody :: "dtree \<Rightarrow> string" where
  "dbody (DAtom k v) = v @ '')''"
| "dbody (DQuoted k v) = dquote # v @ dquote # '')''"
| "dbody (DNode k ts) = dtexts ts @ '')''"

lemma dtext_split: "dtext t = CHR ''('' # dkey_of t @ CHR ''='' # dbody t"
  by (cases t) simp_all

lemma dwf_key: "dwf t \<Longrightarrow> CHR ''='' \<notin> set (dkey_of t)"
  by (cases t) (simp_all add: dkey_def)

text \<open>The first character of what follows the equals sign tells the three forms apart.\<close>

fun dform :: "dtree \<Rightarrow> char option" where
  "dform (DAtom k v) = None"
| "dform (DQuoted k v) = Some dquote"
| "dform (DNode k ts) = Some (CHR ''('')"

lemma dform_first:
  assumes "dwf t"
  shows "dform t = (if hd (dbody t @ r) = dquote then Some dquote
    else if hd (dbody t @ r) = CHR ''('' then Some (CHR ''('') else None)"
proof (cases t)
  case (DAtom k v)
  with assms atom_first [of v] show ?thesis by auto
next
  case (DNode k ts)
  with assms dtexts_first [of ts] show ?thesis by auto
qed simp

lemma dform_eq: "dwf t \<Longrightarrow> dwf u \<Longrightarrow> dbody t @ r = dbody u @ r' \<Longrightarrow> dform t = dform u"
  by (metis dform_first)

lemma dtext_inj:
  "dwf t \<Longrightarrow> dwf u \<Longrightarrow> dtext t @ r = dtext u @ r' \<Longrightarrow> t = u \<and> r = r'"
  "dwfs ts \<Longrightarrow> dwfs us \<Longrightarrow> dtexts ts @ CHR '')'' # r = dtexts us @ CHR '')'' # r' \<Longrightarrow> ts = us \<and> r = r'"
proof (induction t and ts arbitrary: u r r' and us r r' rule: dtext_dtexts.induct)
  case (1 k v)
  then have body: "k = dkey_of u" "v @ CHR '')'' # r = dbody u @ r'"
    using split_at_inj [of "CHR ''=''" k "dkey_of u" "v @ CHR '')'' # r" "dbody u @ r'"] dwf_key [of u]
    by (auto simp: dtext_split [of u] dkey_def)
  then have "dform u = None" using dform_eq [OF 1(1,2), of r r'] by simp
  then obtain v' where u: "u = DAtom k v'" using body(1) by (cases u) auto
  with body(2) 1 split_at_inj [of "CHR '')''" v v' r r'] atom_first show ?case by auto
next
  case (2 k v)
  then have body: "k = dkey_of u" "dquote # v @ dquote # CHR '')'' # r = dbody u @ r'"
    using split_at_inj [of "CHR ''=''" k "dkey_of u" "dquote # v @ dquote # CHR '')'' # r" "dbody u @ r'"]
      dwf_key [of u] by (auto simp: dtext_split [of u] dkey_def)
  then have "dform u = Some dquote" using dform_eq [OF 2(1,2), of r r'] by simp
  then obtain v' where u: "u = DQuoted k v'" using body(1) by (cases u) auto
  with body(2) 2 split_at_inj [of dquote v v'] show ?case by auto
next
  case (3 k ts)
  then have body: "k = dkey_of u" "dtexts ts @ CHR '')'' # r = dbody u @ r'"
    using split_at_inj [of "CHR ''=''" k "dkey_of u" "dtexts ts @ CHR '')'' # r" "dbody u @ r'"] dwf_key [of u]
    by (auto simp: dtext_split [of u] dkey_def)
  then have "dform u = Some (CHR ''('')" using dform_eq [OF 3(2,3), of r r'] by simp
  then obtain us where u: "u = DNode k us" using body(1) by (cases u) auto
  with body(2) 3 show ?case by auto
next
  case 4
  then show ?case by (cases us) (auto simp: dtext_split)
next
  case (5 t ts)
  then show ?case
  proof (cases us)
    case Nil
    with 5 show ?thesis by (simp add: dtext_split)
  next
    case (Cons u us')
    with 5 have "t = u \<and> dtexts ts @ CHR '')'' # r = dtexts us' @ CHR '')'' # r'"
      by (intro "5.IH"(1)) simp_all
    moreover from this have "ts = us' \<and> r = r'" using "5.prems"(1,2) Cons by (intro "5.IH"(2)) simp_all
    ultimately show ?thesis using Cons by simp
  qed
qed

definition descriptor_tree :: "ora_options \<Rightarrow> dtree" where
  "descriptor_tree p = DNode ''DESCRIPTION''
     ((if oo_timeoutMs p > 0 then
         [DAtom ''CONNECT_TIMEOUT'' (int_to_string (oo_timeoutMs p) @ ''ms''),
          DAtom ''TRANSPORT_CONNECT_TIMEOUT'' (int_to_string (oo_timeoutMs p) @ ''ms'')] else []) @
      [DNode ''ADDRESS''
         [DAtom ''PROTOCOL'' (if oo_tls p then ''TCPS'' else ''TCP''), DAtom ''HOST'' (oo_host p),
          DAtom ''PORT'' (int_to_string (oo_port p))],
       DNode ''CONNECT_DATA'' [DAtom (if oo_sid p = [] then ''SERVICE_NAME'' else ''SID'') (oo_target p)]] @
      (if oo_tls p then
         [DNode ''SECURITY''
            ([DAtom ''SSL_SERVER_DN_MATCH'' (if oo_verifyPeer p then ''YES'' else ''NO'')] @
             (if oo_certDn p \<noteq> [] then [DQuoted ''SSL_SERVER_CERT_DN'' (oo_certDn p)] else []) @
             (if oo_wallet p \<noteq> [] then [DQuoted ''WALLET_LOCATION'' (oo_wallet p)] else []))] else []))"

lemma dtexts_append [simp]: "dtexts (ts @ us) = dtexts ts @ dtexts us"
  by (induction ts) simp_all

lemma dwfs_append [simp]: "dwfs (ts @ us) \<longleftrightarrow> dwfs ts \<and> dwfs us"
  by (induction ts) simp_all

lemma descriptor_text_tree: "descriptor_text p = dtext (descriptor_tree p)"
  by (simp add: descriptor_text_def descriptor_tree_def quoted_value_def Let_def)

lemma digits_atom: "validDescriptorAtom (int_to_string i) \<and> dquote \<notin> set (int_to_string i)"
proof -
  have "int_to_string i \<noteq> []" by (simp add: int_to_string_def)
  moreover have "is_digit c \<or> c = CHR ''-''" if "c \<in> set (int_to_string i)" for c
    using that by (rule int_to_string_chars)
  ultimately show ?thesis by (fastforce simp: validDescriptorAtom_def list_all_iff char_class)
qed

lemma validDescriptorAtom_append:
  "validDescriptorAtom a \<Longrightarrow> validDescriptorAtom b \<Longrightarrow> validDescriptorAtom (a @ b)"
  by (simp add: validDescriptorAtom_def)

lemma check_options_ok:
  assumes "status_ok (check_options p)"
  shows "validDescriptorAtom (oo_host p)" "validDescriptorAtom (oo_target p)"
    "oo_certDn p \<noteq> [] \<Longrightarrow> dquote \<notin> set (oo_certDn p)" "oo_wallet p \<noteq> [] \<Longrightarrow> dquote \<notin> set (oo_wallet p)"
  using assms
  by (auto simp: check_options_def validQuotedDescriptorValue_def list_all_iff split: if_splits)

text \<open>C15: No value of the options can change the structure of the connect descriptor: an accepted
  descriptor whose host and service name hold no double quote can be read in exactly one way, as the
  tree that has the host, port, service name, certificate and wallet at their places.\<close>

theorem descriptor_one_reading:
  assumes "oracleBuildConnectDescriptor p = (st, text)" and "status_ok st"
    and "dquote \<notin> set (oo_host p)" and "dquote \<notin> set (oo_target p)"
  shows "dwf u \<Longrightarrow> dtext u = text \<longleftrightarrow> u = descriptor_tree p"
proof -
  have ok: "status_ok (check_options p)" and tx: "text = dtext (descriptor_tree p)"
    using assms(1,2) by (auto simp: oracleBuildConnectDescriptor_def Let_def descriptor_text_tree split: if_splits)
  have words: "validDescriptorAtom ''TCPS''" "validDescriptorAtom ''TCP''" "validDescriptorAtom ''YES''"
    "validDescriptorAtom ''NO''" "validDescriptorAtom ''ms''" by (simp_all add: validDescriptorAtom_def)
  have "dwf (descriptor_tree p)"
    using check_options_ok [OF ok] assms(3,4) digits_atom
    by (simp add: descriptor_tree_def dkey_def words validDescriptorAtom_append)
  then show "dwf u \<Longrightarrow> dtext u = text \<longleftrightarrow> u = descriptor_tree p"
    using dtext_inj(1) [of u "descriptor_tree p" "[]" "[]"] by (auto simp: tx)
qed

theorem descriptor_one_reading_witness:
  "dtext (DAtom ''HOST'' ''db'') \<noteq> descriptor_text (default_options\<lparr>oo_serviceName := ''orcl''\<rparr>) \<and>
   dtext (descriptor_tree (default_options\<lparr>oo_serviceName := ''orcl''\<rparr>)) =
     descriptor_text (default_options\<lparr>oo_serviceName := ''orcl''\<rparr>)"
proof -
  let ?p = "default_options\<lparr>oo_serviceName := ''orcl''\<rparr>"
  have "check_options ?p = status_OK" by code_simp
  then have built: "oracleBuildConnectDescriptor ?p = (status_OK, descriptor_text ?p)"
    by (simp add: oracleBuildConnectDescriptor_def)
  have free: "dquote \<notin> set (oo_host ?p)" "dquote \<notin> set (oo_target ?p)"
    by (simp_all add: default_options_def oo_target_def)
  have "dwf (DAtom ''HOST'' ''db'')" by (simp add: dkey_def validDescriptorAtom_def)
  from descriptor_one_reading [OF built status_ok_OK free this]
  show ?thesis by (simp add: descriptor_text_tree) (simp add: descriptor_tree_def)
qed

text \<open>A double quote is not among the characters the check refuses: with one in the host and one in
  the service name the descriptor is accepted and reads as a single quoted host that has swallowed
  the port and the service.\<close>

theorem descriptor_quote_swallows:
  "\<exists>p u. fst (oracleBuildConnectDescriptor p) = status_OK \<and> dwf u \<and>
     dtext u = snd (oracleBuildConnectDescriptor p) \<and>
     u = DNode ''DESCRIPTION'' [DNode ''ADDRESS'' [DAtom ''PROTOCOL'' ''TCP'',
       DQuoted ''HOST'' '')(PORT=1521))(CONNECT_DATA=(SERVICE_NAME='']]"
proof (intro exI conjI)
  let ?p = "default_options\<lparr>oo_host := [dquote], oo_serviceName := [dquote], oo_timeoutMs := 0\<rparr>"
  let ?u = "DNode ''DESCRIPTION'' [DNode ''ADDRESS'' [DAtom ''PROTOCOL'' ''TCP'',
       DQuoted ''HOST'' '')(PORT=1521))(CONNECT_DATA=(SERVICE_NAME='']]"
  show "fst (oracleBuildConnectDescriptor ?p) = status_OK" by code_simp
  show "dwf ?u" by code_simp
  show "dtext ?u = snd (oracleBuildConnectDescriptor ?p)" by code_simp
qed (rule refl)

end
