(* ===== verification/Executor.thy ===== *)
theory Executor
  imports Prelude "HOL-Library.Multiset"
begin

text \<open>
  The thread pool of \<open>src/async/executor.cpp\<close>: a bounded queue of tasks, worker threads, and a timer
  thread with tasks that are due later. Each critical section under the pool's mutex is one
  function on its state; \<open>exec_step\<close> interleaves the sections of the callers, the workers, the timer
  and a shutdown. A task is a value of a type \<open>'k\<close>; an empty \<open>std::function\<close> is \<^const>\<open>None\<close>. Time
  is an integer that the caller or the timer reads from the clock. Counters do not wrap.

  The world around the state keeps what each thread is doing, and a record of the past: the tasks
  accepted, started and finished, in order.
\<close>

section \<open>State\<close>

record 'k exec =
  threadCount :: nat
  queueLimit :: nat
  exq :: "'k list"
  delayed :: "(int \<times> nat \<times> 'k) list"
  workers :: nat
  timerThread :: bool
  seqno :: nat
  exActive :: nat
  exSubmitted :: nat
  exCompleted :: nat
  exRejected :: nat
  threadsStarted :: bool
  stopping :: bool

text \<open>\<open>workers\<close> counts the thread handles in \<open>workers_\<close>, \<open>timerThread\<close> says whether \<open>timerThread_\<close> is
  joinable. The number of threads is the configured one, or the hardware's.\<close>

definition makeThreadPoolExecutor :: "nat \<Rightarrow> int \<Rightarrow> nat \<Rightarrow> 'k exec" where
  "makeThreadPoolExecutor hardware threads queueSize =
     (let n = (if threads > 0 then nat threads else hardware)
      in \<lparr>threadCount = (if n = 0 then 1 else n), queueLimit = (if queueSize > 0 then queueSize else 1),
          exq = [], delayed = [], workers = 0, timerThread = False, seqno = 0, exActive = 0,
          exSubmitted = 0, exCompleted = 0, exRejected = 0, threadsStarted = False, stopping = False\<rparr>)"

section \<open>Critical sections\<close>

definition ensureStartedLocked :: "'k exec \<Rightarrow> 'k exec" where
  "ensureStartedLocked s =
     (if threadsStarted s then s
      else s\<lparr>threadsStarted := True, workers := workers s + threadCount s, timerThread := True\<rparr>)"

definition tryPost :: "'k option \<Rightarrow> 'k exec \<Rightarrow> bool \<times> 'k exec" where
  "tryPost task s0 =
     (case task of
        None \<Rightarrow> (False, s0)
      | Some k \<Rightarrow>
          (let s = ensureStartedLocked s0
           in if stopping s then (False, s)
              else if length (exq s) \<ge> queueLimit s then (False, s\<lparr>exRejected := exRejected s + 1\<rparr>)
              else (True, s\<lparr>exq := exq s @ [k], exSubmitted := exSubmitted s + 1\<rparr>)))"

text \<open>The queue of delayed tasks yields the earliest deadline first, and of equal ones the one
  that was posted first.\<close>

fun insert_delayed :: "(int \<times> nat \<times> 'k) \<Rightarrow> (int \<times> nat \<times> 'k) list \<Rightarrow> (int \<times> nat \<times> 'k) list" where
  "insert_delayed x [] = [x]"
| "insert_delayed (d, q, k) ((d', q', k') # ds) =
     (if d < d' \<or> (d = d' \<and> q < q') then (d, q, k) # (d', q', k') # ds
      else (d', q', k') # insert_delayed (d, q, k) ds)"

definition postAfter :: "'k option \<Rightarrow> int \<Rightarrow> int \<Rightarrow> 'k exec \<Rightarrow> 'k exec" where
  "postAfter task delay now s0 =
     (case task of
        None \<Rightarrow> s0
      | Some k \<Rightarrow>
          (let s = ensureStartedLocked s0
           in if stopping s then s
              else s\<lparr>delayed := insert_delayed (now + max delay 0, seqno s, k) (delayed s),
                     seqno := seqno s + 1\<rparr>))"

text \<open>The section of a shutdown: whether it is the first, and whether it takes threads to join.\<close>

definition exec_shutdown :: "'k exec \<Rightarrow> (bool \<times> bool) \<times> 'k exec" where
  "exec_shutdown s =
     (if stopping s then ((False, False), s)
      else ((True, 0 < workers s \<or> timerThread s),
            s\<lparr>stopping := True, delayed := [], workers := 0, timerThread := False\<rparr>))"

datatype 'k next_task = Wait | Leave | Take 'k

definition worker_take :: "'k exec \<Rightarrow> 'k next_task \<times> 'k exec" where
  "worker_take s =
     (case exq s of
        [] \<Rightarrow> (if stopping s then (Leave, s) else (Wait, s))
      | k # ks \<Rightarrow> (Take k, s\<lparr>exq := ks, exActive := exActive s + 1\<rparr>))"

definition worker_done :: "'k exec \<Rightarrow> 'k exec" where
  "worker_done s = s\<lparr>exActive := exActive s - 1, exCompleted := exCompleted s + 1\<rparr>"

text \<open>The timer looks for a task to sleep for, and when it wakes decides what to do. It wakes when
  the time has come or the situation has changed.\<close>

datatype timer_plan = TimerWait | TimerLeave | SleepUntil int

definition timer_look :: "'k exec \<Rightarrow> timer_plan" where
  "timer_look s =
     (case delayed s of
        [] \<Rightarrow> (if stopping s then TimerLeave else TimerWait)
      | (d, _) # _ \<Rightarrow> SleepUntil d)"

definition timer_wakes :: "int \<Rightarrow> int \<Rightarrow> 'k exec \<Rightarrow> bool" where
  "timer_wakes d now s \<longleftrightarrow> d \<le> now \<or> stopping s \<or> delayed s = [] \<or> fst (hd (delayed s)) \<noteq> d"

definition timer_take :: "int \<Rightarrow> 'k exec \<Rightarrow> 'k next_task \<times> 'k exec" where
  "timer_take now s =
     (if stopping s \<and> delayed s = [] then (Leave, s)
      else case delayed s of
        [] \<Rightarrow> (Wait, s)
      | (d, q, k) # ds \<Rightarrow> (if d > now then (Wait, s) else (Take k, s\<lparr>delayed := ds\<rparr>)))"

record exec_stats =
  st_threads :: nat
  st_queueDepth :: nat
  st_active :: nat
  st_submitted :: nat
  st_completed :: nat
  st_rejected :: nat
  st_delayedPending :: nat

definition exec_stats_of :: "'k exec \<Rightarrow> exec_stats" where
  "exec_stats_of s = \<lparr>st_threads = (if threadsStarted s then threadCount s else 0),
     st_queueDepth = length (exq s), st_active = exActive s, st_submitted = exSubmitted s,
     st_completed = exCompleted s, st_rejected = exRejected s, st_delayedPending = length (delayed s)\<rparr>"

text \<open>The destructor: the shutdown it starts if there was none, or \<^const>\<open>None\<close> where destroying a
  joinable thread ends the process.\<close>

definition exec_destroy :: "'k exec \<Rightarrow> 'k exec option" where
  "exec_destroy s =
     (let s' = (if stopping s then s else snd (exec_shutdown s))
      in if 0 < workers s' \<or> timerThread s' then None else Some s')"

section \<open>Threads\<close>

datatype 'k worker_state = Waiting | Running 'k | Exited

datatype 'k timer_state = NoTimer | TimerIdle | TimerSleeping int | TimerRunning 'k | TimerExited

text \<open>\<open>joining\<close> is a shutdown that waits, with whether it has threads to wait for; a delayed task that
  has been taken is recorded with its deadline and the time it was taken at.\<close>

record 'k exworld =
  ex :: "'k exec"
  wthreads :: "'k worker_state list"
  wtimer :: "'k timer_state"
  joining :: "bool option"
  joined :: bool
  accepted :: "'k list"
  started :: "'k list"
  finished :: "'k list"
  scheduled :: "(int \<times> nat \<times> 'k) list"
  fired :: "((int \<times> nat \<times> 'k) \<times> int) list"
  dropped :: "(int \<times> nat \<times> 'k) list"

definition new_world :: "'k exec \<Rightarrow> 'k exworld" where
  "new_world s = \<lparr>ex = s, wthreads = [], wtimer = NoTimer, joining = None, joined = False, accepted = [],
     started = [], finished = [], scheduled = [], fired = [], dropped = []\<rparr>"

text \<open>Starting the threads, when a section has done so.\<close>

definition spawn :: "'k exec \<Rightarrow> 'k exworld \<Rightarrow> 'k exworld" where
  "spawn s w =
     (if threadsStarted s \<and> \<not> threadsStarted (ex w)
      then w\<lparr>ex := s, wthreads := replicate (threadCount s) Waiting, wtimer := TimerIdle\<rparr>
      else w\<lparr>ex := s\<rparr>)"

definition set_worker :: "nat \<Rightarrow> 'k worker_state \<Rightarrow> 'k exworld \<Rightarrow> 'k exworld" where
  "set_worker i x w = w\<lparr>wthreads := (wthreads w)[i := x]\<rparr>"

definition threads_gone :: "'k exworld \<Rightarrow> bool" where
  "threads_gone w \<longleftrightarrow> list_all (\<lambda>x. x = Exited) (wthreads w) \<and> wtimer w \<in> {NoTimer, TimerExited}"

text \<open>Steps of the pool's own threads and of a shutdown that is under way.\<close>

inductive exec_internal :: "'k exworld \<Rightarrow> 'k exworld \<Rightarrow> bool" where
  take_task: "i < length (wthreads w) \<Longrightarrow> wthreads w ! i = Waiting \<Longrightarrow> worker_take (ex w) = (Take k, s) \<Longrightarrow>
    exec_internal w (set_worker i (Running k) (w\<lparr>ex := s, started := started w @ [k]\<rparr>))"
| leave: "i < length (wthreads w) \<Longrightarrow> wthreads w ! i = Waiting \<Longrightarrow> worker_take (ex w) = (Leave, s) \<Longrightarrow>
    exec_internal w (set_worker i Exited (w\<lparr>ex := s\<rparr>))"
| finish: "i < length (wthreads w) \<Longrightarrow> wthreads w ! i = Running k \<Longrightarrow>
    exec_internal w (set_worker i Waiting (w\<lparr>ex := worker_done (ex w), finished := finished w @ [k]\<rparr>))"
| look: "wtimer w = TimerIdle \<Longrightarrow> timer_look (ex w) = SleepUntil d \<Longrightarrow>
    exec_internal w (w\<lparr>wtimer := TimerSleeping d\<rparr>)"
| timer_leave: "wtimer w = TimerIdle \<Longrightarrow> timer_look (ex w) = TimerLeave \<Longrightarrow>
    exec_internal w (w\<lparr>wtimer := TimerExited\<rparr>)"
| wake_leave: "wtimer w = TimerSleeping d \<Longrightarrow> timer_wakes d now (ex w) \<Longrightarrow> timer_take now (ex w) = (Leave, s) \<Longrightarrow>
    exec_internal w (w\<lparr>ex := s, wtimer := TimerExited\<rparr>)"
| wake_again: "wtimer w = TimerSleeping d \<Longrightarrow> timer_wakes d now (ex w) \<Longrightarrow> timer_take now (ex w) = (Wait, s) \<Longrightarrow>
    exec_internal w (w\<lparr>ex := s, wtimer := TimerIdle\<rparr>)"
| wake_run: "wtimer w = TimerSleeping d \<Longrightarrow> timer_wakes d now (ex w) \<Longrightarrow> timer_take now (ex w) = (Take k, s) \<Longrightarrow>
    exec_internal w (w\<lparr>ex := s, wtimer := TimerRunning k, fired := fired w @ [(hd (delayed (ex w)), now)]\<rparr>)"
| timer_done: "wtimer w = TimerRunning k \<Longrightarrow> exec_internal w (w\<lparr>wtimer := TimerIdle\<rparr>)"
| join: "joining w = Some handles \<Longrightarrow> (handles \<Longrightarrow> threads_gone w) \<Longrightarrow>
    exec_internal w (w\<lparr>joining := None, joined := True\<rparr>)"

text \<open>Steps of the callers.\<close>

inductive exec_call :: "'k exworld \<Rightarrow> 'k exworld \<Rightarrow> bool" where
  post: "tryPost (Some k) (ex w) = (ok, s) \<Longrightarrow>
    exec_call w ((spawn s w)\<lparr>accepted := accepted w @ (if ok then [k] else [])\<rparr>)"
| post_later: "postAfter (Some k) delay now (ex w) = s \<Longrightarrow>
    exec_call w ((spawn s w)\<lparr>scheduled := scheduled w @
      (if stopping s then [] else [(now + max delay 0, seqno (ex w), k)])\<rparr>)"
| stop: "exec_shutdown (ex w) = ((True, handles), s) \<Longrightarrow>
    exec_call w (w\<lparr>ex := s, joining := Some handles, dropped := dropped w @ delayed (ex w)\<rparr>)"

definition exec_step :: "'k exworld \<Rightarrow> 'k exworld \<Rightarrow> bool" where
  "exec_step w w' \<longleftrightarrow> exec_internal w w' \<or> exec_call w w'"

definition exec_init :: "'k exworld \<Rightarrow> bool" where
  "exec_init w \<longleftrightarrow> (\<exists>hw t q. w = new_world (makeThreadPoolExecutor hw t q))"

inductive_cases exec_internalE: "exec_internal w w'"
inductive_cases exec_callE: "exec_call w w'"

section \<open>Tasks are neither lost nor run twice\<close>

fun running_of :: "'k worker_state \<Rightarrow> 'k list" where
  "running_of (Running k) = [k]"
| "running_of _ = []"

definition running_tasks :: "'k worker_state list \<Rightarrow> 'k list" where
  "running_tasks ts = concat (map running_of ts)"

lemma running_tasks_simps [simp]:
  "running_tasks [] = []" "running_tasks (t # ts) = running_of t @ running_tasks ts"
  "running_tasks (replicate n Waiting) = []"
  by (simp_all add: running_tasks_def)

lemma running_tasks_update:
  "i < length ts \<Longrightarrow> mset (running_tasks (ts[i := t])) + mset (running_of (ts ! i)) =
    mset (running_tasks ts) + mset (running_of t)"
proof (induction ts arbitrary: i)
  case (Cons t' ts)
  then show ?case by (cases i) auto
qed simp

lemma running_tasks_length: "length (running_tasks ts) \<le> length ts"
proof (induction ts)
  case (Cons t ts)
  then show ?case by (cases t) auto
qed simp

definition task_inv :: "'k exworld \<Rightarrow> bool" where
  "task_inv w \<longleftrightarrow> started w @ exq (ex w) = accepted w \<and>
     mset (started w) = mset (finished w) + mset (running_tasks (wthreads w)) \<and>
     exSubmitted (ex w) = length (accepted w) \<and> exCompleted (ex w) = length (finished w) \<and>
     exActive (ex w) = length (running_tasks (wthreads w)) \<and> length (exq (ex w)) \<le> queueLimit (ex w) \<and>
     (\<not> threadsStarted (ex w) \<longrightarrow> wthreads w = [] \<and> exq (ex w) = [])"

lemma task_inv_init: "exec_init w \<Longrightarrow> task_inv w"
  by (auto simp: exec_init_def task_inv_def new_world_def makeThreadPoolExecutor_def Let_def)

lemma running_length_update:
  assumes "i < length ts"
  shows "length (running_tasks (ts[i := t])) + length (running_of (ts ! i)) =
    length (running_tasks ts) + length (running_of t)"
  using arg_cong [OF running_tasks_update [OF assms], of size] by simp

lemmas section_defs = tryPost_def postAfter_def ensureStartedLocked_def exec_shutdown_def
  worker_take_def worker_done_def timer_take_def spawn_def set_worker_def

lemma running_not_started: "i < length ts \<Longrightarrow> ts \<noteq> []"
  by auto

lemma task_inv_internal: "task_inv w \<Longrightarrow> exec_internal w w' \<Longrightarrow> task_inv w'"
proof (erule exec_internalE, goal_cases)
  case (1 i k s)
  then show ?case
    using running_tasks_update [of i "wthreads w" "Running k"]
      running_length_update [of i "wthreads w" "Running k"]
    by (auto simp: task_inv_def section_defs split: list.splits if_splits)
next
  case (2 i s)
  then show ?case
    using running_tasks_update [of i "wthreads w" Exited] running_length_update [of i "wthreads w" Exited]
    by (auto simp: task_inv_def section_defs split: list.splits if_splits)
next
  case (3 i k)
  then have "add_mset k (mset (running_tasks ((wthreads w)[i := Waiting]))) = mset (running_tasks (wthreads w))"
    "Suc (length (running_tasks ((wthreads w)[i := Waiting]))) = length (running_tasks (wthreads w))"
    using running_tasks_update [of i "wthreads w" Waiting] running_length_update [of i "wthreads w" Waiting] by simp_all
  with 3 show ?case by (auto simp: task_inv_def section_defs)
qed (auto simp: task_inv_def section_defs split: list.splits if_splits prod.splits)

lemma task_inv_call: "task_inv w \<Longrightarrow> exec_call w w' \<Longrightarrow> task_inv w'"
  by (erule exec_callE) (auto simp: task_inv_def section_defs Let_def split: if_splits)

interpretation tasks: invariant_system exec_init exec_step task_inv
  by unfold_locales (auto simp: exec_step_def task_inv_init intro: task_inv_internal task_inv_call)

section \<open>Threads and shutdown\<close>

definition thread_inv :: "'k exworld \<Rightarrow> bool" where
  "thread_inv w \<longleftrightarrow> 1 \<le> threadCount (ex w) \<and>
     (threadsStarted (ex w) \<longrightarrow> length (wthreads w) = threadCount (ex w) \<and> wtimer w \<noteq> NoTimer) \<and>
     (\<not> threadsStarted (ex w) \<longrightarrow>
        wthreads w = [] \<and> exq (ex w) = [] \<and> delayed (ex w) = [] \<and> wtimer w = NoTimer \<and>
        workers (ex w) = 0 \<and> \<not> timerThread (ex w)) \<and>
     (\<not> stopping (ex w) \<longrightarrow> threadsStarted (ex w) \<longrightarrow> workers (ex w) = threadCount (ex w)) \<and>
     (stopping (ex w) \<longrightarrow> delayed (ex w) = []) \<and>
     (\<not> stopping (ex w) \<longrightarrow> joining w = None \<and> \<not> joined w \<and> wtimer w \<noteq> TimerExited) \<and>
     (stopping (ex w) \<longrightarrow> joined w \<or> joining w \<noteq> None) \<and>
     (Exited \<in> set (wthreads w) \<longrightarrow> stopping (ex w) \<and> exq (ex w) = []) \<and>
     (joining w = Some True \<longrightarrow> threadsStarted (ex w)) \<and>
     (joining w = Some False \<or> joined w \<longrightarrow> exq (ex w) = [] \<and> running_tasks (wthreads w) = [])"

lemma thread_inv_init: "exec_init w \<Longrightarrow> thread_inv w"
  by (auto simp: exec_init_def thread_inv_def new_world_def makeThreadPoolExecutor_def Let_def)

lemma running_tasks_nonempty: "i < length ts \<Longrightarrow> ts ! i = Running k \<Longrightarrow> running_tasks ts \<noteq> []"
  using running_length_update [of i ts Waiting] by auto

lemma running_tasks_idle:
  "i < length ts \<Longrightarrow> running_of t = [] \<Longrightarrow> running_tasks ts = [] \<Longrightarrow> running_tasks (ts[i := t]) = []"
  using running_length_update [of i ts t] by simp

lemma exited_update: "Exited \<in> set (ts[i := t]) \<Longrightarrow> t \<noteq> Exited \<Longrightarrow> Exited \<in> set ts"
  by (metis in_set_conv_nth length_list_update nth_list_update_eq nth_list_update_neq)

lemma threads_gone_idle:
  assumes "threads_gone w"
  shows "running_tasks (wthreads w) = []"
proof -
  have "list_all (\<lambda>x. x = Exited) ts \<Longrightarrow> running_tasks ts = []" for ts :: "'a worker_state list"
    by (induction ts) auto
  with assms show ?thesis by (simp add: threads_gone_def)
qed

lemma thread_inv_internal: "thread_inv w \<Longrightarrow> exec_internal w w' \<Longrightarrow> thread_inv w'"
proof (erule exec_internalE, goal_cases)
  case (1 i k s)
  then obtain ks where q: "exq (ex w) = k # ks" "s = (ex w)\<lparr>exq := ks, exActive := exActive (ex w) + 1\<rparr>"
    by (auto simp: worker_take_def split: list.splits if_splits)
  then have "Exited \<notin> set (wthreads w)" "joining w \<noteq> Some False" "\<not> joined w" "threadsStarted (ex w)"
    using 1(1) by (auto simp: thread_inv_def)
  with 1 q show ?case
    by (cases "stopping (ex w)") (auto simp: thread_inv_def set_worker_def dest!: exited_update)
next
  case (2 i s)
  then show ?case
    by (auto simp: thread_inv_def section_defs running_tasks_idle split: list.splits if_splits)
next
  case (3 i k)
  then have "running_tasks (wthreads w) \<noteq> []" by (intro running_tasks_nonempty)
  with 3 show ?case by (auto simp: thread_inv_def section_defs dest!: exited_update)
next
  case (10 handles)
  have "exq (ex w) = []" if "threads_gone w" "threadsStarted (ex w)"
  proof -
    have "wthreads w \<noteq> []" using that 10 by (auto simp: thread_inv_def)
    then have "Exited \<in> set (wthreads w)" using that by (cases "wthreads w") (auto simp: threads_gone_def)
    with 10 show ?thesis by (simp add: thread_inv_def)
  qed
  with 10 show ?case by (cases handles) (auto simp: thread_inv_def threads_gone_idle)
qed (auto simp: thread_inv_def section_defs timer_look_def split: list.splits if_splits prod.splits)

lemma thread_inv_call: "thread_inv w \<Longrightarrow> exec_call w w' \<Longrightarrow> thread_inv w'"
proof (erule exec_callE, goal_cases)
  case (3 handles s)
  then have "\<not> stopping (ex w)" "handles \<longleftrightarrow> 0 < workers (ex w) \<or> timerThread (ex w)"
    "s = (ex w)\<lparr>stopping := True, delayed := [], workers := 0, timerThread := False\<rparr>"
    by (auto simp: exec_shutdown_def split: if_splits)
  with 3(1,2) show ?case by (cases "threadsStarted (ex w)") (simp_all add: thread_inv_def)
next
  case (1 k ok s)
  then have "s = snd (tryPost (Some k) (ex w))" by simp
  with 1 show ?case
    by (cases "threadsStarted (ex w)"; cases "stopping (ex w)") (simp_all add: thread_inv_def section_defs Let_def)
next
  case (2 k delay now)
  then show ?case
    by (cases "threadsStarted (ex w)"; cases "stopping (ex w)") (simp_all add: thread_inv_def section_defs Let_def)
qed

interpretation threads: invariant_system exec_init exec_step thread_inv
  by unfold_locales (auto simp: exec_step_def thread_inv_init intro: thread_inv_internal thread_inv_call)

text \<open>Two small worlds: a pool of one thread with a queued task, and the same after \<open>shutdown\<close> has begun.\<close>

definition posted_world :: "nat exworld" where
  "posted_world = (let e = makeThreadPoolExecutor 4 1 8
     in (spawn (snd (tryPost (Some 7) e)) (new_world e))\<lparr>accepted := [7]\<rparr>)"

definition stopped_world :: "nat exworld" where
  "stopped_world = posted_world\<lparr>ex := snd (exec_shutdown (ex posted_world)), joining := Some True\<rparr>"

lemmas small_world_defs = posted_world_def new_world_def makeThreadPoolExecutor_def section_defs spawn_def

lemma posted_world_reachable: "reachable exec_init exec_step posted_world"
proof (rule reach_step)
  let ?e = "makeThreadPoolExecutor 4 1 8 :: nat exec"
  show "reachable exec_init exec_step (new_world ?e)" by (rule reach_init) (auto simp: exec_init_def)
  have "exec_call (new_world ?e) posted_world"
    using exec_call.post [of 7 "new_world ?e" True "snd (tryPost (Some 7) ?e)"]
    by (simp add: small_world_defs Let_def)
  then show "exec_step (new_world ?e) posted_world" by (simp add: exec_step_def)
qed

lemma stopped_world_reachable: "reachable exec_init exec_step stopped_world"
proof (rule reach_step [OF posted_world_reachable])
  have "exec_call posted_world stopped_world"
    using exec_call.stop [of posted_world True "snd (exec_shutdown (ex posted_world))"]
    by (simp add: stopped_world_def small_world_defs Let_def)
  then show "exec_step posted_world stopped_world" by (simp add: exec_step_def)
qed

text \<open>C13: No task is lost and none is run twice. In every interleaving the tasks that were accepted are,
  in the order of their acceptance, those that have been started followed by those that are queued;
  the started ones are exactly the finished ones and those the workers are running; the counters of
  \<open>stats\<close> say so; the queue stays within its limit and at most \<open>threadCount\<close> tasks run at once.\<close>

theorem executor_conserves_tasks:
  assumes "reachable exec_init exec_step w"
  shows "started w @ exq (ex w) = accepted w \<and>
    mset (started w) = mset (finished w) + mset (running_tasks (wthreads w)) \<and>
    st_submitted (exec_stats_of (ex w)) = st_completed (exec_stats_of (ex w)) +
      st_active (exec_stats_of (ex w)) + st_queueDepth (exec_stats_of (ex w)) \<and>
    st_queueDepth (exec_stats_of (ex w)) \<le> queueLimit (ex w) \<and>
    st_active (exec_stats_of (ex w)) \<le> threadCount (ex w)"
proof -
  have t: "task_inv w" using assms by (rule tasks.reachable_inv)
  have th: "thread_inv w" using assms by (rule threads.reachable_inv)
  have "length (started w) = length (finished w) + length (running_tasks (wthreads w))"
    using t by (metis size_mset size_union task_inv_def)
  moreover have "length (running_tasks (wthreads w)) \<le> threadCount (ex w)"
    using running_tasks_length [of "wthreads w"] th by (cases "threadsStarted (ex w)") (auto simp: thread_inv_def)
  moreover have "length (accepted w) = length (started w) + length (exq (ex w))"
    using t by (metis length_append task_inv_def)
  ultimately show ?thesis using t by (simp add: task_inv_def exec_stats_of_def)
qed

theorem executor_conserves_tasks_witness:
  "started posted_world @ exq (ex posted_world) = [7] \<and> st_submitted (exec_stats_of (ex posted_world)) = 1 \<and>
   mset (started posted_world) = mset (finished posted_world) + mset (running_tasks (wthreads posted_world))"
  using executor_conserves_tasks [OF posted_world_reachable]
  by (simp add: small_world_defs exec_stats_of_def Let_def)

section \<open>Shutdown\<close>

fun worker_rank :: "'k worker_state \<Rightarrow> nat" where
  "worker_rank Exited = 0"
| "worker_rank Waiting = 1"
| "worker_rank (Running k) = 2"

fun timer_rank :: "'k timer_state \<Rightarrow> nat" where
  "timer_rank NoTimer = 0"
| "timer_rank TimerExited = 0"
| "timer_rank TimerIdle = 1"
| "timer_rank (TimerSleeping d) = 1"
| "timer_rank (TimerRunning k) = 2"

definition shutdown_rank :: "'k exworld \<Rightarrow> nat" where
  "shutdown_rank w = 2 * length (exq (ex w)) + sum_list (map worker_rank (wthreads w)) +
     timer_rank (wtimer w) + (if joining w = None then 0 else 1)"

lemma rank_update:
  "i < length ts \<Longrightarrow> sum_list (map worker_rank (ts[i := t])) + worker_rank (ts ! i) =
    sum_list (map worker_rank ts) + worker_rank t"
proof (induction ts arbitrary: i)
  case (Cons t' ts)
  then show ?case by (cases i) auto
qed simp

lemma shutdown_rank_decreases:
  assumes "thread_inv w" and "stopping (ex w)" and "exec_internal w w'"
  shows "shutdown_rank w' < shutdown_rank w \<and> stopping (ex w')"
  using assms(3)
proof (rule exec_internalE, goal_cases)
  case (1 i k s)
  with assms rank_update [of i "wthreads w" "Running k"] show ?case
    by (auto simp: shutdown_rank_def section_defs split: list.splits if_splits)
next
  case (2 i s)
  with assms rank_update [of i "wthreads w" Exited] show ?case
    by (auto simp: shutdown_rank_def section_defs split: list.splits if_splits)
next
  case (3 i k)
  with assms rank_update [of i "wthreads w" Waiting] show ?case
    by (auto simp: shutdown_rank_def section_defs)
qed (use assms(1,2) in \<open>auto simp: thread_inv_def shutdown_rank_def section_defs timer_look_def
    split: list.splits if_splits prod.splits\<close>)

lemma shutdown_can_step:
  assumes inv: "thread_inv w" and stop: "stopping (ex w)" and waits: "joining w \<noteq> None"
  shows "\<exists>w'. exec_internal w w'"
proof (cases "threads_gone w")
  case True
  with waits show ?thesis by (auto intro: exec_internal.join)
next
  case False
  then consider i where "i < length (wthreads w)" "wthreads w ! i \<noteq> Exited"
    | "wtimer w \<noteq> NoTimer" "wtimer w \<noteq> TimerExited"
    by (auto simp: threads_gone_def list_all_length)
  then show ?thesis
  proof cases
    case 1
    show ?thesis
    proof (cases "wthreads w ! i")
      case Waiting
      show ?thesis
      proof (cases "exq (ex w)")
        case Nil
        with stop have "worker_take (ex w) = (Leave, ex w)" by (simp add: worker_take_def)
        with 1 Waiting show ?thesis by (blast intro: exec_internal.leave)
      next
        case (Cons k ks)
        then have "\<exists>s. worker_take (ex w) = (Take k, s)" by (simp add: worker_take_def)
        with 1 Waiting show ?thesis by (blast intro: exec_internal.take_task)
      qed
    qed (use 1 in \<open>blast intro: exec_internal.finish\<close>)+
  next
    case 2
    have none: "delayed (ex w) = []" using inv stop by (simp add: thread_inv_def)
    then have idle: "timer_look (ex w) = TimerLeave" using stop by (simp add: timer_look_def)
    have wake: "timer_wakes d now (ex w)" "timer_take now (ex w) = (Leave, ex w)" for d now
      using none stop by (simp_all add: timer_wakes_def timer_take_def)
    show ?thesis
      using 2 by (cases "wtimer w")
        (blast intro: exec_internal.timer_leave [OF _ idle] exec_internal.wake_leave [OF _ wake] exec_internal.timer_done)+
  qed
qed

text \<open>C14: A shutdown ends and has run everything: once it has begun, every step of the pool's threads
  brings it closer to its end and, until it has returned, there is such a step; when it returns,
  the queue is empty and the tasks finished are exactly those that were ever accepted. That the
  tasks themselves return is the step that finishes one.\<close>

theorem executor_shutdown_drains:
  assumes "reachable exec_init exec_step w" and "stopping (ex w)"
  shows "(\<forall>w'. exec_internal w w' \<longrightarrow> shutdown_rank w' < shutdown_rank w) \<and>
    (\<not> joined w \<longrightarrow> (\<exists>w'. exec_internal w w')) \<and>
    (joined w \<longrightarrow> exq (ex w) = [] \<and> mset (finished w) = mset (accepted w))"
proof -
  have t: "task_inv w" using assms(1) by (rule tasks.reachable_inv)
  have th: "thread_inv w" using assms(1) by (rule threads.reachable_inv)
  have "\<exists>w'. exec_internal w w'" if "\<not> joined w"
    using that th assms(2) by (intro shutdown_can_step [OF th assms(2)]) (auto simp: thread_inv_def)
  moreover have "exq (ex w) = [] \<and> mset (finished w) = mset (accepted w)" if "joined w"
  proof -
    have idle: "exq (ex w) = []" "running_tasks (wthreads w) = []" using that th by (simp_all add: thread_inv_def)
    with t have "started w = accepted w" "mset (started w) = mset (finished w)"
      unfolding task_inv_def by auto
    with idle show ?thesis by simp
  qed
  ultimately show ?thesis using shutdown_rank_decreases [OF th assms(2)] by blast
qed

theorem executor_shutdown_drains_witness:
  "stopping (ex stopped_world) \<and> \<not> joined stopped_world \<and> exq (ex stopped_world) = [7] \<and>
   (\<exists>w'. exec_internal stopped_world w' \<and> shutdown_rank w' < shutdown_rank stopped_world)"
proof -
  have s: "stopping (ex stopped_world)" "\<not> joined stopped_world" "exq (ex stopped_world) = [7]"
    by (simp_all add: stopped_world_def small_world_defs Let_def)
  then show ?thesis using executor_shutdown_drains [OF stopped_world_reachable s(1)] by blast
qed

section \<open>Delayed tasks\<close>

definition key_less :: "(int \<times> nat \<times> 'k) \<Rightarrow> (int \<times> nat \<times> 'k) \<Rightarrow> bool" where
  "key_less x y \<longleftrightarrow> fst x < fst y \<or> (fst x = fst y \<and> fst (snd x) < fst (snd y))"

lemma mset_insert_delayed: "mset (insert_delayed x xs) = add_mset x (mset xs)"
  by (induction x xs rule: insert_delayed.induct) auto

lemma sorted_insert_delayed:
  "sorted_wrt key_less xs \<Longrightarrow> \<forall>y\<in>set xs. fst (snd y) \<noteq> fst (snd x) \<Longrightarrow> sorted_wrt key_less (insert_delayed x xs)"
proof (induction x xs rule: insert_delayed.induct)
  case (2 d q k d' q' k' ds)
  have "set (insert_delayed (d, q, k) ds) = insert (d, q, k) (set ds)"
    by (metis mset_insert_delayed set_mset_add_mset_insert set_mset_mset)
  with 2 show ?case by (auto simp: key_less_def)
qed simp

definition delayed_inv :: "'k exworld \<Rightarrow> bool" where
  "delayed_inv w \<longleftrightarrow> sorted_wrt key_less (delayed (ex w)) \<and>
     list_all (\<lambda>x. fst (snd x) < seqno (ex w)) (delayed (ex w)) \<and>
     mset (scheduled w) = mset (delayed (ex w)) + mset (map fst (fired w)) + mset (dropped w) \<and>
     (\<forall>(x, t)\<in>set (fired w). fst x \<le> t) \<and> (dropped w \<noteq> [] \<longrightarrow> stopping (ex w))"

lemma delayed_inv_init: "exec_init w \<Longrightarrow> delayed_inv w"
  by (auto simp: exec_init_def delayed_inv_def new_world_def makeThreadPoolExecutor_def Let_def)

lemma delayed_inv_internal: "delayed_inv w \<Longrightarrow> exec_internal w w' \<Longrightarrow> delayed_inv w'"
  by (erule exec_internalE)
    (auto simp: delayed_inv_def section_defs split: list.splits if_splits prod.splits)

lemma delayed_inv_call: "delayed_inv w \<Longrightarrow> exec_call w w' \<Longrightarrow> delayed_inv w'"
proof (erule exec_callE, goal_cases)
  case (2 k delay now)
  let ?x = "(now + max delay 0, seqno (ex w), k)"
  have "set (insert_delayed ?x (delayed (ex w))) = insert ?x (set (delayed (ex w)))"
    by (metis mset_insert_delayed set_mset_add_mset_insert set_mset_mset)
  moreover have "sorted_wrt key_less (insert_delayed ?x (delayed (ex w)))"
    using 2 by (intro sorted_insert_delayed) (auto simp: delayed_inv_def list_all_iff)
  ultimately show ?case
    using 2 by (auto simp: delayed_inv_def section_defs Let_def mset_insert_delayed less_Suc_eq list_all_iff
        split: if_splits)
qed (auto simp: delayed_inv_def section_defs Let_def split: if_splits)

interpretation delays: invariant_system exec_init exec_step delayed_inv
  by unfold_locales (auto simp: exec_step_def delayed_inv_init intro: delayed_inv_internal delayed_inv_call)

text \<open>A delayed task never runs before its time and never twice: each task that was scheduled is
  pending, was taken by the timer not before its deadline, or was dropped by a shutdown, and the
  pending ones are kept in the order of their deadlines, equal ones in the order of posting.\<close>

theorem executor_delayed_tasks:
  assumes "reachable exec_init exec_step w"
  shows "mset (scheduled w) = mset (delayed (ex w)) + mset (map fst (fired w)) + mset (dropped w) \<and>
    (\<forall>(x, t)\<in>set (fired w). fst x \<le> t) \<and> sorted_wrt key_less (delayed (ex w)) \<and>
    (\<not> stopping (ex w) \<longrightarrow> dropped w = [])"
  using delays.reachable_inv [OF assms] by (auto simp: delayed_inv_def)

section \<open>A pool that is stopped before it is used\<close>

text \<open>\<open>tryPost\<close> starts the threads before it looks whether the pool is stopping. A pool that was shut
  down before its first task, and then gets one, refuses it but starts threads that nothing
  joins; the destructor, which does nothing after a shutdown, then destroys joinable threads and
  the process ends.\<close>

theorem executor_late_start:
  "\<exists>w. reachable exec_init exec_step (w :: nat exworld) \<and> joined w \<and> accepted w = [] \<and>
     exec_destroy (ex w) = None"
proof -
  let ?s = "makeThreadPoolExecutor 4 1 8 :: nat exec"
  let ?w1 = "(new_world ?s)\<lparr>ex := ?s\<lparr>stopping := True\<rparr>, joining := Some False\<rparr>"
  let ?w2 = "?w1\<lparr>joining := None, joined := True\<rparr>"
  let ?s3 = "snd (tryPost (Some 0) (ex ?w2))"
  let ?w3 = "spawn ?s3 ?w2"
  note defs = new_world_def makeThreadPoolExecutor_def section_defs
  have "reachable exec_init exec_step (new_world ?s)"
    by (rule reach_init) (auto simp: exec_init_def)
  moreover have "exec_call (new_world ?s) ?w1"
    using exec_call.stop [of "new_world ?s" False "?s\<lparr>stopping := True\<rparr>"] by (simp add: defs)
  moreover have "exec_internal ?w1 ?w2" using exec_internal.join [of ?w1 False] by simp
  moreover have "exec_call ?w2 ?w3"
    using exec_call.post [of 0 ?w2 False ?s3] by (simp add: defs)
  ultimately have "reachable exec_init exec_step ?w3"
    by (meson exec_step_def reach_step)
  moreover have "joined ?w3 \<and> accepted ?w3 = [] \<and> exec_destroy (ex ?w3) = None"
    by (simp add: defs exec_destroy_def)
  ultimately show ?thesis by blast
qed

end
