(* ===== verification/Client.thy ===== *)
theory Client
  imports ConfigProps Executor Context
begin

text \<open>
  The client facade of \<open>src/client.cpp\<close>: its life cycle (empty, running, closed) over the manager's
  registry, the lookup of the data source of a call, the synchronous calls, and the asynchronous
  ones through the executor. A client that was moved from has no implementation: \<^const>\<open>None\<close>.

  The methods of a data source that calls end in are parameters, collected in \<open>ds_methods\<close>: each
  gets the context frames of the thread it runs on and acts on a world \<open>'w\<close>; a result is \<^const>\<open>None\<close>
  where the output parameter is left as it was. Arguments that are only passed on (callbacks,
  options, call parameters) are of a type \<open>'x\<close>. The services of the runtime are the \<open>'v\<close> of the
  manager; the number of hardware threads is a parameter.

  The life cycle functions run under the life cycle mutex and are single steps.
\<close>

section \<open>Data source methods and jobs\<close>

type_synonym ('w, 'r) action = "'w \<Rightarrow> (status \<times> 'r option) \<times> 'w"

record ('w, 'x, 'r) ds_methods =
  dm_query :: "source \<Rightarrow> sql_context list \<Rightarrow> string \<Rightarrow> ('w, 'r) action"
  dm_queryParams :: "source \<Rightarrow> sql_context list \<Rightarrow> string \<Rightarrow> params \<Rightarrow> ('w, 'r) action"
  dm_execute :: "source \<Rightarrow> sql_context list \<Rightarrow> string \<Rightarrow> ('w, 'r) action"
  dm_executeParams :: "source \<Rightarrow> sql_context list \<Rightarrow> string \<Rightarrow> params \<Rightarrow> ('w, 'r) action"
  dm_executeKeys :: "source \<Rightarrow> sql_context list \<Rightarrow> string \<Rightarrow> ('w, 'r) action"
  dm_executeKeysParams :: "source \<Rightarrow> sql_context list \<Rightarrow> string \<Rightarrow> params \<Rightarrow> ('w, 'r) action"
  dm_queryAll :: "source \<Rightarrow> sql_context list \<Rightarrow> string \<Rightarrow> ('w, 'r) action"
  dm_queryAllParams :: "source \<Rightarrow> sql_context list \<Rightarrow> string \<Rightarrow> params \<Rightarrow> ('w, 'r) action"
  dm_queryEach :: "source \<Rightarrow> sql_context list \<Rightarrow> string \<Rightarrow> params \<Rightarrow> 'x \<Rightarrow> ('w, 'r) action"
  dm_executeBatch :: "source \<Rightarrow> sql_context list \<Rightarrow> string \<Rightarrow> params list \<Rightarrow> ('w, 'r) action"
  dm_call :: "source \<Rightarrow> sql_context list \<Rightarrow> string \<Rightarrow> 'x \<Rightarrow> ('w, 'r) action"
  dm_openCursor :: "source \<Rightarrow> sql_context list \<Rightarrow> string \<Rightarrow> params \<Rightarrow> 'x \<Rightarrow> ('w, 'r) action"
  dm_transaction :: "source \<Rightarrow> sql_context list \<Rightarrow> 'x \<Rightarrow> 'x \<Rightarrow> ('w, 'r) action"
  dm_withSession :: "source \<Rightarrow> sql_context list \<Rightarrow> 'x \<Rightarrow> ('w, 'r) action"

text \<open>What the function of an asynchronous operation does: return, or throw with or without a
  message.\<close>

datatype 'r job_end = Returned status "'r option" | Threw string | ThrewUnknown

record ('w, 'r) job =
  jb_promise :: nat
  jb_source :: source
  jb_context :: sql_context
  jb_timeoutMs :: int
  jb_fn :: "source \<Rightarrow> sql_context list \<Rightarrow> 'w \<Rightarrow> 'r job_end \<times> 'w"

definition late_status :: status where
  "late_status = (status_error QueryTimeout
     ''operation exceeded client async statement timeout; driver cancellation is not available in the future API'')
       \<lparr>retryable := True\<rparr>"

text \<open>A job on a worker thread, whose own context frames are given, taking \<open>elapsed\<close> milliseconds.\<close>

definition run_job :: "('w, 'r) job \<Rightarrow> sql_context list \<Rightarrow> int \<Rightarrow> 'w \<Rightarrow> (status \<times> 'r option) \<times> 'w" where
  "run_job j stack elapsed w =
     (case jb_fn j (jb_source j) (snd (enter_scope (jb_context j) stack)) w of
        (e, w') \<Rightarrow>
          (let (st, r) = (case e of
                 Returned st r \<Rightarrow> (st, r)
               | Threw what \<Rightarrow> (status_error Unknown (''client async operation threw: '' @ what), None)
               | ThrewUnknown \<Rightarrow> (status_error Unknown ''client async operation threw an unknown exception'', None))
           in ((if 0 < jb_timeoutMs j \<and> jb_timeoutMs j \<le> elapsed then late_status else st, r), w')))"

section \<open>State\<close>

datatype client_state = StEmpty | StRunning | StClosed

record ('v, 'w, 'r) client =
  cl_state :: client_state
  cl_drivers :: "string list"
  cl_manager :: "'v manager"
  cl_async :: "('w, 'r) job exec option"
  cl_timeoutMs :: int

definition new_client :: "'v \<Rightarrow> ('v, 'w, 'r) client" where
  "new_client v = \<lparr>cl_state = StEmpty, cl_drivers = [], cl_manager = new_manager v, cl_async = None, cl_timeoutMs = 0\<rparr>"

definition notInitialized :: status where
  "notInitialized = status_error NotInitialized ''client is not initialized''"

definition clientClosed :: status where
  "clientClosed = status_error ClientClosed ''client is closed''"

definition dataSourceNotFound :: "string \<Rightarrow> status" where
  "dataSourceNotFound name = status_error ConfigError
     (if name = [] then ''no default datasource'' else ''datasource not found: '' @ name)"

definition validateAsyncConfig :: "async_config \<Rightarrow> status" where
  "validateAsyncConfig c =
     (if as_threads c < 0 \<or> as_queue_size c < 1 \<or> as_statement_timeout_ms c < 0
      then status_error ConfigError ''invalid async configuration'' else status_OK)"

definition requireRunning :: "('v, 'w, 'r) client \<Rightarrow> status" where
  "requireRunning c =
     (case cl_state c of StRunning \<Rightarrow> status_OK | StClosed \<Rightarrow> clientClosed | StEmpty \<Rightarrow> notInitialized)"

text \<open>The data source of a call: the one the request context names, else the one asked for, else
  the default.\<close>

definition client_resolve :: "sql_context list \<Rightarrow> string \<Rightarrow> ('v, 'w, 'r) client \<Rightarrow> status + source" where
  "client_resolve stack requested c =
     (let st = requireRunning c in
      if \<not> status_ok st then Inl st
      else
        (let contextual = targetDataSource (current_context stack);
             name = (if contextual = [] then requested else contextual)
         in case (if name = [] then getDefault (cl_manager c) else getDataSource name (cl_manager c)) of
              Some s \<Rightarrow> Inr s
            | None \<Rightarrow> Inl (dataSourceNotFound name)))"

section \<open>Life cycle\<close>

text \<open>An executor that exists is kept as it is; one that is no longer wanted is shut down, which is
  the executor that is returned.\<close>

definition configureAsync :: "nat \<Rightarrow> async_config \<Rightarrow> ('v, 'w, 'r) client \<Rightarrow> ('v, 'w, 'r) client \<times> ('w, 'r) job exec option" where
  "configureAsync hardware g c =
     (let c1 = c\<lparr>cl_timeoutMs := as_statement_timeout_ms g\<rparr>
      in if \<not> as_enabled g
         then (c1\<lparr>cl_async := None\<rparr>, map_option (\<lambda>e. snd (exec_shutdown e)) (cl_async c1))
         else if cl_async c1 = None
         then (c1\<lparr>cl_async := Some (makeThreadPoolExecutor hardware (as_threads g) (nat (as_queue_size g)))\<rparr>, None)
         else (c1, None))"

definition stopAsync :: "('v, 'w, 'r) client \<Rightarrow> ('v, 'w, 'r) client \<times> ('w, 'r) job exec option" where
  "stopAsync c = (c\<lparr>cl_async := None\<rparr>, map_option (\<lambda>e. snd (exec_shutdown e)) (cl_async c))"

text \<open>A driver registration is a type and whether it has a factory.\<close>

definition client_addDriver :: "string \<times> bool \<Rightarrow> ('v, 'w, 'r) client option \<Rightarrow> status \<times> ('v, 'w, 'r) client option" where
  "client_addDriver registration impl =
     (case impl of
        None \<Rightarrow> (clientClosed, None)
      | Some c \<Rightarrow>
          if fst registration = [] \<or> \<not> snd registration then
            (status_error ConfigError ''driver registration requires a type and factory'', impl)
          else if cl_state c = StClosed then (clientClosed, impl)
          else if cl_state c = StRunning then
            (status_error AlreadyInitialized ''drivers must be registered before Client::init()'', impl)
          else (status_OK, Some (c\<lparr>cl_drivers := fst registration # cl_drivers c\<rparr>)))"

definition known_driver :: "('v, 'w, 'r) client \<Rightarrow> string \<Rightarrow> bool" where
  "known_driver c t \<longleftrightarrow> t \<in> set (cl_drivers c)"

record 'v client_env =
  ce_hardware :: nat
  ce_registry :: "configuration \<Rightarrow> 'v global_config"

definition client_init ::
  "'v client_env \<Rightarrow> configuration \<Rightarrow> ('v, 'w, 'r) client option \<Rightarrow> status \<times> ('v, 'w, 'r) client option" where
  "client_init env g impl =
     (case impl of
        None \<Rightarrow> (clientClosed, None)
      | Some c \<Rightarrow>
          (let v = validateAsyncConfig (c_async g) in
           if \<not> status_ok v then (v, impl)
           else if cl_state c = StClosed then (clientClosed, impl)
           else if cl_state c = StRunning then
             (status_error AlreadyInitialized ''client is already initialized; use reload()'', impl)
           else
             (case init (known_driver c) (ce_registry env g) (cl_manager c) of
                (st, m, _) \<Rightarrow>
                  (let c1 = c\<lparr>cl_manager := m\<rparr> in
                   if status_ok st
                   then (st, Some ((fst (configureAsync (ce_hardware env) (c_async g) c1))\<lparr>cl_state := StRunning\<rparr>))
                   else (st, Some c1)))))"

definition client_reload ::
  "'v client_env \<Rightarrow> configuration \<Rightarrow> ('v, 'w, 'r) client option \<Rightarrow> status \<times> ('v, 'w, 'r) client option" where
  "client_reload env g impl =
     (case impl of
        None \<Rightarrow> (clientClosed, None)
      | Some c \<Rightarrow>
          (let v = validateAsyncConfig (c_async g) in
           if \<not> status_ok v then (v, impl)
           else if \<not> status_ok (requireRunning c) then (requireRunning c, impl)
           else
             (case init (known_driver c) (ce_registry env g) (cl_manager c) of
                (st, m, _) \<Rightarrow>
                  (let c1 = c\<lparr>cl_manager := m\<rparr> in
                   (st, Some (if status_ok st then fst (configureAsync (ce_hardware env) (c_async g) c1) else c1))))))"

definition init_file ::
  "configuration loaded \<Rightarrow> (configuration \<Rightarrow> ('v, 'w, 'r) client option \<Rightarrow> status \<times> ('v, 'w, 'r) client option) \<Rightarrow>
   ('v, 'w, 'r) client option \<Rightarrow> status \<times> ('v, 'w, 'r) client option" where
  "init_file file next_call impl =
     (case file of Inl e \<Rightarrow> (status_error ConfigError e, impl) | Inr g \<Rightarrow> next_call g impl)"

definition isRunning :: "('v, 'w, 'r) client option \<Rightarrow> bool" where
  "isRunning impl = (case impl of None \<Rightarrow> False | Some c \<Rightarrow> cl_state c = StRunning)"

text \<open>An operation on the manager of a running client.\<close>

definition on_manager ::
  "('v manager \<Rightarrow> status \<times> 'v manager) \<Rightarrow> ('v, 'w, 'r) client option \<Rightarrow> status \<times> ('v, 'w, 'r) client option" where
  "on_manager f impl =
     (case impl of
        None \<Rightarrow> (clientClosed, None)
      | Some c \<Rightarrow>
          if \<not> status_ok (requireRunning c) then (requireRunning c, impl)
          else (case f (cl_manager c) of (st, m) \<Rightarrow> (st, Some (c\<lparr>cl_manager := m\<rparr>))))"

definition client_addDataSource ::
  "ds_config \<Rightarrow> nat option \<Rightarrow> bool \<Rightarrow> ('v, 'w, 'r) client option \<Rightarrow> status \<times> ('v, 'w, 'r) client option" where
  "client_addDataSource g limiter readOnly impl =
     on_manager (\<lambda>m. addDataSource (case impl of Some c \<Rightarrow> known_driver c | None \<Rightarrow> (\<lambda>_. False)) g limiter readOnly m) impl"

definition client_removeDataSource :: "string \<Rightarrow> ('v, 'w, 'r) client option \<Rightarrow> status \<times> ('v, 'w, 'r) client option" where
  "client_removeDataSource name impl =
     on_manager (\<lambda>m. case removeDataSource name m of (st, m', _) \<Rightarrow> (st, m')) impl"

definition client_addGroup ::
  "group_config \<Rightarrow> nat option \<Rightarrow> bool \<Rightarrow> bool \<Rightarrow> bool \<Rightarrow> ('v, 'w, 'r) client option \<Rightarrow> status \<times> ('v, 'w, 'r) client option" where
  "client_addGroup g limiter ackFencing ackLoss bufferStarted impl =
     on_manager (addGroup g limiter ackFencing ackLoss bufferStarted) impl"

definition client_removeGroup :: "string \<Rightarrow> ('v, 'w, 'r) client option \<Rightarrow> status \<times> ('v, 'w, 'r) client option" where
  "client_removeGroup name impl =
     on_manager (\<lambda>m. case removeGroup name m of (st, m', _) \<Rightarrow> (st, m')) impl"

definition client_setDefaultRateLimiter :: "nat option \<Rightarrow> ('v, 'w, 'r) client option \<Rightarrow> ('v, 'w, 'r) client option" where
  "client_setDefaultRateLimiter l impl =
     map_option (\<lambda>c. c\<lparr>cl_manager := setDefaultRateLimiter l (cl_manager c)\<rparr>) impl"

definition client_shutdown :: "('v, 'w, 'r) client option \<Rightarrow> ('v, 'w, 'r) client option" where
  "client_shutdown impl =
     (case impl of
        None \<Rightarrow> None
      | Some c \<Rightarrow>
          (let c1 = c\<lparr>cl_state := StClosed\<rparr> in
           Some (if cl_state c = StRunning
                 then (fst (stopAsync c1))\<lparr>cl_manager := fst (mgr_shutdown (cl_manager c1))\<rparr>
                 else c1)))"

section \<open>Synchronous calls\<close>

text \<open>The overloads without a data source, parameters or options are the calls with an empty name, an
  empty list and the default options.\<close>

definition on_source ::
  "sql_context list \<Rightarrow> string \<Rightarrow> (source \<Rightarrow> ('w, 'r) action) \<Rightarrow> ('v, 'w, 'r) client option \<Rightarrow> ('w, 'r) action" where
  "on_source stack requested f impl w =
     (case impl of
        None \<Rightarrow> ((clientClosed, None), w)
      | Some c \<Rightarrow> (case client_resolve stack requested c of Inl st \<Rightarrow> ((st, None), w) | Inr s \<Rightarrow> f s w))"

definition client_query :: "('w, 'x, 'r) ds_methods \<Rightarrow> sql_context list \<Rightarrow> string \<Rightarrow> string \<Rightarrow> params \<Rightarrow>
    ('v, 'w, 'r) client option \<Rightarrow> ('w, 'r) action" where
  "client_query d stack src sql ps =
     on_source stack src (\<lambda>s. if ps = [] then dm_query d s stack sql else dm_queryParams d s stack sql ps)"

definition client_execute :: "('w, 'x, 'r) ds_methods \<Rightarrow> sql_context list \<Rightarrow> string \<Rightarrow> string \<Rightarrow> params \<Rightarrow>
    ('v, 'w, 'r) client option \<Rightarrow> ('w, 'r) action" where
  "client_execute d stack src sql ps =
     on_source stack src (\<lambda>s. if ps = [] then dm_execute d s stack sql else dm_executeParams d s stack sql ps)"

definition client_queryAll :: "('w, 'x, 'r) ds_methods \<Rightarrow> sql_context list \<Rightarrow> string \<Rightarrow> string \<Rightarrow> params \<Rightarrow>
    ('v, 'w, 'r) client option \<Rightarrow> ('w, 'r) action" where
  "client_queryAll d stack src sql ps =
     on_source stack src (\<lambda>s. if ps = [] then dm_queryAll d s stack sql else dm_queryAllParams d s stack sql ps)"

definition client_call :: "('w, 'x, 'r) ds_methods \<Rightarrow> sql_context list \<Rightarrow> string \<Rightarrow> string \<Rightarrow> 'x \<Rightarrow>
    ('v, 'w, 'r) client option \<Rightarrow> ('w, 'r) action" where
  "client_call d stack src sql ps = on_source stack src (\<lambda>s. dm_call d s stack sql ps)"

definition client_queryEach :: "('w, 'x, 'r) ds_methods \<Rightarrow> sql_context list \<Rightarrow> string \<Rightarrow> string \<Rightarrow> params \<Rightarrow> 'x \<Rightarrow>
    ('v, 'w, 'r) client option \<Rightarrow> ('w, 'r) action" where
  "client_queryEach d stack src sql ps cb = on_source stack src (\<lambda>s. dm_queryEach d s stack sql ps cb)"

definition client_executeBatch :: "('w, 'x, 'r) ds_methods \<Rightarrow> sql_context list \<Rightarrow> string \<Rightarrow> string \<Rightarrow> params list \<Rightarrow>
    ('v, 'w, 'r) client option \<Rightarrow> ('w, 'r) action" where
  "client_executeBatch d stack src sql batch = on_source stack src (\<lambda>s. dm_executeBatch d s stack sql batch)"

definition client_openCursor :: "('w, 'x, 'r) ds_methods \<Rightarrow> sql_context list \<Rightarrow> string \<Rightarrow> string \<Rightarrow> params \<Rightarrow> 'x \<Rightarrow>
    ('v, 'w, 'r) client option \<Rightarrow> ('w, 'r) action" where
  "client_openCursor d stack src sql ps options = on_source stack src (\<lambda>s. dm_openCursor d s stack sql ps options)"

definition client_transaction :: "('w, 'x, 'r) ds_methods \<Rightarrow> sql_context list \<Rightarrow> string \<Rightarrow> 'x \<Rightarrow> 'x \<Rightarrow>
    ('v, 'w, 'r) client option \<Rightarrow> ('w, 'r) action" where
  "client_transaction d stack src options fn = on_source stack src (\<lambda>s. dm_transaction d s stack options fn)"

definition client_withSession :: "('w, 'x, 'r) ds_methods \<Rightarrow> sql_context list \<Rightarrow> string \<Rightarrow> 'x \<Rightarrow>
    ('v, 'w, 'r) client option \<Rightarrow> ('w, 'r) action" where
  "client_withSession d stack src fn = on_source stack src (\<lambda>s. dm_withSession d s stack fn)"

definition client_dataSource :: "sql_context list \<Rightarrow> string \<Rightarrow> ('v, 'w, 'r) client option \<Rightarrow> source option" where
  "client_dataSource stack name impl =
     (case impl of
        None \<Rightarrow> None
      | Some c \<Rightarrow> (case client_resolve stack name c of Inl _ \<Rightarrow> None | Inr s \<Rightarrow> Some s))"

section \<open>Asynchronous calls\<close>

definition overloaded_status :: status where
  "overloaded_status =
     (status_error Overloaded ''client async executor queue is full or stopped'')\<lparr>retryable := True\<rparr>"

text \<open>Submitting a job for the promise \<open>p\<close>: a future that is ready at once has a result, one that a
  worker will complete has none yet.\<close>

definition submitAsync ::
  "sql_context list \<Rightarrow> string \<Rightarrow> nat \<Rightarrow> (source \<Rightarrow> sql_context list \<Rightarrow> 'w \<Rightarrow> 'r job_end \<times> 'w) \<Rightarrow>
   ('v, 'w, 'r) client \<Rightarrow> (status \<times> 'r option) option \<times> ('v, 'w, 'r) client" where
  "submitAsync stack requested p fn c =
     (case client_resolve stack requested c of
        Inl st \<Rightarrow> (Some (st, None), c)
      | Inr s \<Rightarrow>
          (case cl_async c of
             None \<Rightarrow> (Some (status_error ConfigError ''async execution is disabled for this client'', None), c)
           | Some e \<Rightarrow>
               (let j = \<lparr>jb_promise = p, jb_source = s, jb_context = current_context stack,
                         jb_timeoutMs = cl_timeoutMs c, jb_fn = fn\<rparr>
                in case tryPost (Some j) e of
                     (ok, e') \<Rightarrow>
                       (if ok then None else Some (overloaded_status, None), c\<lparr>cl_async := Some e'\<rparr>))))"

text \<open>A method of the data source as the function of a job; it may throw instead.\<close>

definition job_of :: "(source \<Rightarrow> sql_context list \<Rightarrow> ('w, 'r) action) \<Rightarrow> (source \<Rightarrow> sql_context list \<Rightarrow> 'w \<Rightarrow> string option option) \<Rightarrow>
    source \<Rightarrow> sql_context list \<Rightarrow> 'w \<Rightarrow> 'r job_end \<times> 'w" where
  "job_of f throws s stack w =
     (case throws s stack w of
        Some (Some what) \<Rightarrow> (Threw what, w)
      | Some None \<Rightarrow> (ThrewUnknown, w)
      | None \<Rightarrow> (case f s stack w of ((st, r), w') \<Rightarrow> (Returned st r, w')))"

definition client_async ::
  "sql_context list \<Rightarrow> string \<Rightarrow> nat \<Rightarrow> (source \<Rightarrow> sql_context list \<Rightarrow> 'w \<Rightarrow> 'r job_end \<times> 'w) \<Rightarrow>
   ('v, 'w, 'r) client option \<Rightarrow> (status \<times> 'r option) option \<times> ('v, 'w, 'r) client option" where
  "client_async stack src p fn impl =
     (case impl of
        None \<Rightarrow> (Some (clientClosed, None), None)
      | Some c \<Rightarrow> (case submitAsync stack src p fn c of (r, c') \<Rightarrow> (r, Some c')))"

definition queryAsync where
  "queryAsync d throws stack src sql ps p =
     client_async stack src p
       (job_of (\<lambda>s st. if ps = [] then dm_query d s st sql else dm_queryParams d s st sql ps) throws)"

definition queryAllAsync where
  "queryAllAsync d throws stack src sql ps p =
     client_async stack src p (job_of (\<lambda>s st. dm_queryAllParams d s st sql ps) throws)"

definition executeAsync where
  "executeAsync d throws stack src sql ps p =
     client_async stack src p
       (job_of (\<lambda>s st. if ps = [] then dm_execute d s st sql else dm_executeParams d s st sql ps) throws)"

definition executeKeysAsync where
  "executeKeysAsync d throws stack src sql ps p =
     client_async stack src p
       (job_of (\<lambda>s st. if ps = [] then dm_executeKeys d s st sql else dm_executeKeysParams d s st sql ps) throws)"

definition queryEachAsync where
  "queryEachAsync d throws stack src sql ps cb p =
     client_async stack src p (job_of (\<lambda>s st. dm_queryEach d s st sql ps cb) throws)"

definition executeBatchAsync where
  "executeBatchAsync d throws stack src sql batch p =
     client_async stack src p (job_of (\<lambda>s st. dm_executeBatch d s st sql batch) throws)"

definition transactionAsync where
  "transactionAsync d throws stack src options fn p =
     client_async stack src p (job_of (\<lambda>s st. dm_transaction d s st options fn) throws)"

definition asyncStats :: "('v, 'w, 'r) client option \<Rightarrow> exec_stats" where
  "asyncStats impl =
     (case impl of
        Some c \<Rightarrow> (case cl_async c of Some e \<Rightarrow> exec_stats_of e | None \<Rightarrow> \<lparr>st_threads = 0, st_queueDepth = 0, st_active = 0,
          st_submitted = 0, st_completed = 0, st_rejected = 0, st_delayedPending = 0\<rparr>)
      | None \<Rightarrow> \<lparr>st_threads = 0, st_queueDepth = 0, st_active = 0, st_submitted = 0, st_completed = 0,
          st_rejected = 0, st_delayedPending = 0\<rparr>)"

end
