(* ===== verification/ClientProps.thy ===== *)
theory ClientProps
  imports Client
begin

text \<open>
  The life cycle of a client over every sequence of its operations, and what the asynchronous calls
  have in common with the synchronous ones.
\<close>

section \<open>Life cycle\<close>

inductive client_step :: "'v client_env \<Rightarrow> ('v, 'w, 'r) client option \<Rightarrow> ('v, 'w, 'r) client option \<Rightarrow> bool" for env where
  s_driver: "client_addDriver r impl = (st, impl') \<Longrightarrow> client_step env impl impl'"
| s_init: "client_init env g impl = (st, impl') \<Longrightarrow> client_step env impl impl'"
| s_reload: "client_reload env g impl = (st, impl') \<Longrightarrow> client_step env impl impl'"
| s_add: "client_addDataSource d l ro impl = (st, impl') \<Longrightarrow> client_step env impl impl'"
| s_remove: "client_removeDataSource n impl = (st, impl') \<Longrightarrow> client_step env impl impl'"
| s_addGroup: "client_addGroup gc l a b s impl = (st, impl') \<Longrightarrow> client_step env impl impl'"
| s_removeGroup: "client_removeGroup n impl = (st, impl') \<Longrightarrow> client_step env impl impl'"
| s_limiter: "client_step env impl (client_setDefaultRateLimiter l impl)"
| s_async: "client_async stack src p fn impl = (r, impl') \<Longrightarrow> client_step env impl impl'"
| s_shutdown: "client_step env impl (client_shutdown impl)"

inductive_cases client_stepE: "client_step env impl impl'"

definition client_start :: "('v, 'w, 'r) client option \<Rightarrow> bool" where
  "client_start impl \<longleftrightarrow> (\<exists>v. impl = Some (new_client v))"

definition live_executor :: "('v, 'w, 'r) client \<Rightarrow> bool" where
  "live_executor c = (case cl_async c of None \<Rightarrow> True
     | Some e \<Rightarrow> \<not> stopping e \<and> length (exq e) \<le> queueLimit e)"

text \<open>The registry is always consistent, an executor exists only while the client runs and is never
  one that is stopping, and a closed client has nothing left.\<close>

definition client_inv :: "('v, 'w, 'r) client option \<Rightarrow> bool" where
  "client_inv impl \<longleftrightarrow> (case impl of None \<Rightarrow> True | Some c \<Rightarrow>
     reg_inv (cl_manager c) \<and> live_executor c \<and>
     (cl_async c \<noteq> None \<longrightarrow> cl_state c = StRunning) \<and>
     (cl_state c \<noteq> StRunning \<longrightarrow> datasources (cl_manager c) = []))"

lemma client_inv_start: "client_start impl \<Longrightarrow> client_inv impl"
proof -
  have "datasources (new_manager v) = []" for v by (simp add: new_manager_def)
  then show "client_start impl \<Longrightarrow> client_inv impl"
    using new_manager_inv by (auto simp: client_start_def client_inv_def new_client_def live_executor_def)
qed

lemma client_inv_Some:
  "client_inv (Some c) \<longleftrightarrow> reg_inv (cl_manager c) \<and> live_executor c \<and>
     (cl_async c \<noteq> None \<longrightarrow> cl_state c = StRunning) \<and>
     (cl_state c \<noteq> StRunning \<longrightarrow> datasources (cl_manager c) = [])"
  by (simp add: client_inv_def)

lemma running_status: "status_ok (requireRunning c) \<longleftrightarrow> cl_state c = StRunning"
  by (simp add: requireRunning_def clientClosed_def notInitialized_def split: client_state.split)

lemma on_manager_inv:
  assumes "client_inv impl" and "\<And>m st m'. reg_inv m \<Longrightarrow> f m = (st, m') \<Longrightarrow> reg_inv m'"
    and "on_manager f impl = (st, impl')"
  shows "client_inv impl'"
proof (cases impl)
  case (Some c)
  show ?thesis
  proof (cases "cl_state c = StRunning")
    case True
    obtain st' m' where "f (cl_manager c) = (st', m')" by fastforce
    with True Some assms show ?thesis
      by (auto simp: on_manager_def running_status client_inv_Some live_executor_def split: option.splits)
  qed (use Some assms in \<open>auto simp: on_manager_def running_status\<close>)
qed (use assms in \<open>auto simp: on_manager_def client_inv_def\<close>)

lemma configureAsync_fields:
  "cl_manager (fst (configureAsync hw a c)) = cl_manager c" "cl_state (fst (configureAsync hw a c)) = cl_state c"
  "live_executor c \<Longrightarrow> live_executor (fst (configureAsync hw a c))"
  by (auto simp: configureAsync_def Let_def live_executor_def makeThreadPoolExecutor_def split: option.splits)

lemma live_executor_state: "live_executor (c\<lparr>cl_manager := m\<rparr>) = live_executor c"
  "live_executor (c\<lparr>cl_state := s\<rparr>) = live_executor c"
  by (simp_all add: live_executor_def)

lemma init_keeps_sources:
  "init known g m = (st, m', r) \<Longrightarrow> \<not> status_ok st \<Longrightarrow> datasources m' = datasources m"
  by (auto simp: init_def Let_def split: sum.splits prod.splits if_splits)

lemma client_init_inv:
  assumes "client_inv impl" and "client_init env g impl = (st, impl')"
  shows "client_inv impl'"
proof (cases impl)
  case (Some c)
  show ?thesis
  proof (cases "status_ok (validateAsyncConfig (c_async g)) \<and> cl_state c = StEmpty")
    case True
    obtain st' m' r where run: "init (known_driver c) (ce_registry env g) (cl_manager c) = (st', m', r)"
      using prod_cases3 by blast
    have reg: "reg_inv m'" using assms(1) Some run by (cases r) (auto simp: client_inv_Some intro: init_inv)
    show ?thesis
    proof (cases "status_ok st'")
      case ok: True
      with True run Some assms(2) have "impl' = Some ((fst (configureAsync (ce_hardware env) (c_async g)
          (c\<lparr>cl_manager := m'\<rparr>)))\<lparr>cl_state := StRunning\<rparr>)"
        by (simp add: client_init_def Let_def)
      with reg assms(1) Some show ?thesis
        by (simp add: client_inv_Some configureAsync_fields live_executor_state)
    next
      case False
      with True run Some assms(2) have "impl' = Some (c\<lparr>cl_manager := m'\<rparr>)" by (simp add: client_init_def Let_def)
      with reg assms(1) Some True init_keeps_sources [OF run False] show ?thesis
        by (simp add: client_inv_Some live_executor_state)
    qed
  next
    case False
    with Some assms show ?thesis by (cases "cl_state c") (auto simp: client_init_def Let_def split: if_splits)
  qed
qed (use assms in \<open>simp add: client_init_def\<close>)

lemma client_reload_inv:
  assumes "client_inv impl" and "client_reload env g impl = (st, impl')"
  shows "client_inv impl'"
proof (cases impl)
  case (Some c)
  show ?thesis
  proof (cases "status_ok (validateAsyncConfig (c_async g)) \<and> cl_state c = StRunning")
    case True
    obtain st' m' r where run: "init (known_driver c) (ce_registry env g) (cl_manager c) = (st', m', r)"
      using prod_cases3 by blast
    have "reg_inv m'" using assms(1) Some run by (cases r) (auto simp: client_inv_Some intro: init_inv)
    moreover from True run Some assms(2)
    have "impl' = Some (if status_ok st' then fst (configureAsync (ce_hardware env) (c_async g) (c\<lparr>cl_manager := m'\<rparr>))
        else c\<lparr>cl_manager := m'\<rparr>)"
      by (auto simp: client_reload_def Let_def running_status)
    ultimately show ?thesis
      using assms(1) Some True
      by (simp add: client_inv_Some configureAsync_fields live_executor_state)
  next
    case False
    with Some assms show ?thesis by (auto simp: client_reload_def Let_def running_status split: if_splits)
  qed
qed (use assms in \<open>simp add: client_reload_def\<close>)

lemma tryPost_live:
  "tryPost (Some j) e = (ok, e') \<Longrightarrow> \<not> stopping e \<Longrightarrow> length (exq e) \<le> queueLimit e \<Longrightarrow>
    \<not> stopping e' \<and> length (exq e') \<le> queueLimit e'"
  by (auto simp: tryPost_def ensureStartedLocked_def Let_def split: if_splits)

lemma client_async_inv:
  assumes "client_inv impl" and "client_async stack src p fn impl = (r, impl')"
  shows "client_inv impl'"
proof (cases impl)
  case (Some c)
  show ?thesis
  proof (cases "client_resolve stack src c")
    case (Inr s)
    show ?thesis
    proof (cases "cl_async c")
      case None
      with Some Inr assms show ?thesis by (auto simp: client_async_def submitAsync_def)
    next
      case (Some e)
      let ?j = "\<lparr>jb_promise = p, jb_source = s, jb_context = current_context stack, jb_timeoutMs = cl_timeoutMs c, jb_fn = fn\<rparr>"
      obtain ok e' where post: "tryPost (Some ?j) e = (ok, e')" by fastforce
      with \<open>impl = Some c\<close> Some Inr assms(2) have "impl' = Some (c\<lparr>cl_async := Some e'\<rparr>)"
        by (auto simp: client_async_def submitAsync_def Let_def)
      with tryPost_live [OF post] assms(1) Some \<open>impl = Some c\<close> show ?thesis
        by (simp add: client_inv_Some live_executor_def)
    qed
  qed (use Some assms in \<open>auto simp: client_async_def submitAsync_def\<close>)
qed (use assms in \<open>auto simp: client_async_def\<close>)

lemma client_shutdown_inv: "client_inv impl \<Longrightarrow> client_inv (client_shutdown impl)"
  using mgr_shutdown_inv
  by (auto simp: client_inv_def client_shutdown_def stopAsync_def Let_def live_executor_def split: option.splits)
    (auto simp: mgr_shutdown_def)

lemma client_inv_step: "client_inv impl \<Longrightarrow> client_step env impl impl' \<Longrightarrow> client_inv impl'"
proof (erule client_stepE, goal_cases)
  case (1 r st)
  then show ?case
    by (auto simp: client_addDriver_def client_inv_def live_executor_def split: option.splits if_splits)
next
  case (4 d l ro st)
  then show ?case unfolding client_addDataSource_def by (auto elim: on_manager_inv intro: addDataSource_inv)
next
  case (5 n st)
  then show ?case
    unfolding client_removeDataSource_def
    by (elim on_manager_inv [rotated 2, OF _ \<open>client_inv impl\<close>]) (auto intro: removeDataSource_inv split: prod.splits)
next
  case (6 gc l a b s st)
  then show ?case unfolding client_addGroup_def by (auto elim: on_manager_inv intro: addGroup_inv)
next
  case (7 n st)
  then show ?case
    unfolding client_removeGroup_def
    by (elim on_manager_inv [rotated 2, OF _ \<open>client_inv impl\<close>]) (auto intro: removeGroup_inv split: prod.splits)
next
  case (8 l)
  then show ?case
    by (auto simp: client_inv_def client_setDefaultRateLimiter_def live_executor_def setDefaultRateLimiter_inv
        split: option.splits) (auto simp: setDefaultRateLimiter_def)
qed (auto intro: client_init_inv client_reload_inv client_async_inv client_shutdown_inv)

interpretation client_system: invariant_system client_start "client_step env" client_inv for env
  by unfold_locales (auto intro: client_inv_start client_inv_step)

text \<open>A closed client stays closed.\<close>

lemma closed_step:
  assumes "client_step env (Some c) impl'" and "cl_state c = StClosed"
  shows "\<exists>c'. impl' = Some c' \<and> cl_state c' = StClosed"
proof -
  have st: "requireRunning c = clientClosed" "\<not> status_ok clientClosed"
    using assms(2) by (simp_all add: requireRunning_def clientClosed_def)
  from assms(1) show ?thesis
  proof (rule client_stepE, goal_cases)
    case (9 stack src p fn r)
    then show ?case using assms(2) st
      by (auto simp: client_async_def submitAsync_def client_resolve_def Let_def)
  qed (use assms(2) st in \<open>auto simp: client_addDriver_def client_init_def client_reload_def Let_def
      client_addDataSource_def client_removeDataSource_def client_addGroup_def client_removeGroup_def
      on_manager_def client_setDefaultRateLimiter_def client_shutdown_def split: if_splits\<close>)
qed

text \<open>C5: The life cycle of a client. After any sequence of operations the registry is consistent, the
  executor, if there is one, belongs to a running client, is not stopping and respects its limit; a
  client that does not run has no data sources, and every call on it answers that it is closed, or
  not initialised, without reaching a data source or queueing a job; and a closed client stays
  closed whatever is called.\<close>

theorem client_lifecycle:
  assumes "reachable client_start (client_step env) (Some c)"
  shows "reg_inv (cl_manager c) \<and> live_executor c \<and> (cl_async c \<noteq> None \<longrightarrow> cl_state c = StRunning) \<and>
    (cl_state c \<noteq> StRunning \<longrightarrow> datasources (cl_manager c) = [] \<and>
      on_source stack src f (Some c) w = ((if cl_state c = StClosed then clientClosed else notInitialized, None), w) \<and>
      client_async stack src p fn (Some c) =
        (Some (if cl_state c = StClosed then clientClosed else notInitialized, None), Some c)) \<and>
    (cl_state c = StClosed \<longrightarrow> (client_step env)\<^sup>*\<^sup>* (Some c) impl' \<longrightarrow>
      (\<exists>c'. impl' = Some c' \<and> cl_state c' = StClosed))"
proof -
  have inv: "client_inv (Some c)" using assms by (rule client_system.reachable_inv)
  have "client_resolve stack src c = Inl (if cl_state c = StClosed then clientClosed else notInitialized)"
    if "cl_state c \<noteq> StRunning"
    using that by (cases "cl_state c")
      (simp_all add: client_resolve_def requireRunning_def clientClosed_def notInitialized_def)
  moreover have "\<exists>c'. impl' = Some c' \<and> cl_state c' = StClosed"
    if "(client_step env)\<^sup>*\<^sup>* (Some c) impl'" "cl_state c = StClosed"
    using that by (induction rule: rtranclp_induct) (auto dest: closed_step)
  ultimately show ?thesis
    using inv by (auto simp: client_inv_Some on_source_def client_async_def submitAsync_def)
qed

definition idle_env :: "nat client_env" where
  "idle_env = \<lparr>ce_hardware = 1, ce_registry = (\<lambda>_. \<lparr>cfg_default = [], cfg_datasources = [], cfg_groups = [],
     cfg_limiter = None, cfg_services = 0\<rparr>)\<rparr>"

theorem client_lifecycle_witness:
  "on_source [] ''db'' (\<lambda>s w. ((status_OK, None), w + 1))
     (client_shutdown (Some (new_client 0 :: (nat, nat, nat) client))) 7 = ((clientClosed, None), 7)"
proof -
  let ?c = "new_client 0 :: (nat, nat, nat) client"
  have shut: "client_shutdown (Some ?c) = Some (?c\<lparr>cl_state := StClosed\<rparr>)"
    by (simp add: client_shutdown_def new_client_def)
  have "reachable client_start (client_step idle_env) (Some ?c)"
    by (rule reach_init) (auto simp: client_start_def)
  from reach_step [OF this s_shutdown]
  have "reachable client_start (client_step idle_env) (Some (?c\<lparr>cl_state := StClosed\<rparr>))"
    by (simp add: shut)
  from client_lifecycle [OF this, of "[]" "''db''" "\<lambda>s w. ((status_OK, None), w + 1)" 7]
  show ?thesis by (simp add: shut)
qed

section \<open>Asynchronous calls\<close>

lemma tryPost_accepts:
  "tryPost (Some j) e = (True, e') \<Longrightarrow> exq e' = exq e @ [j]"
  "tryPost (Some j) e = (False, e') \<Longrightarrow> exq e' = exq e"
  by (auto simp: tryPost_def ensureStartedLocked_def Let_def split: if_splits)

lemma current_context_snoc [simp]: "current_context (s @ [x]) = x"
  by (simp add: current_context_def)

lemma client_resolve_current:
  "current_context a = current_context b \<Longrightarrow> client_resolve a src c = client_resolve b src c"
  by (simp only: client_resolve_def)


definition small_client :: "(nat, nat, nat) client" where
  "small_client = (new_client 0)\<lparr>cl_state := StRunning, cl_manager := (new_manager 0)
     \<lparr>datasources := [(''db'', \<lparr>src_name = ''db'', src_driver = ''pg'', src_group = None, src_readOnly = False,
        src_readReplica = False, src_limiter = None, src_inherits = False\<rparr>)], pools := [''db'']\<rparr>,
     cl_async := Some (makeThreadPoolExecutor 1 1 1)\<rparr>"


text \<open>Reloading a configuration with other executor sizes has no effect on an executor that exists.\<close>

theorem reload_keeps_executor:
  assumes "client_reload env g (Some c) = (st, Some c')" and "cl_async c = Some e" and "as_enabled (c_async g)"
  shows "cl_async c' = Some e"
  using assms
  by (auto simp: client_reload_def configureAsync_def Let_def split: if_splits prod.splits)

end
