(* ===== verification/Observer.thy ===== *)
theory Observer
  imports Config Context Connection
begin

text \<open>
  \<open>src/common/observer.cpp\<close>: the events that are told to observers, the log line of a statement,
  and the statistics of slow statements with their limits.

  The statistics are an association list from fingerprints, whose order stands for the unspecified
  order of the hash table, beside the recency list \<open>obs_lru\<close> (\<open>lruPos\<close> only holds the positions in it).
  Durations are microseconds. Clocks, the sample sequence of the thread and the counter of span
  identifiers are inputs. The sample rate and averages are rational numbers where the code rounds.
\<close>

section \<open>Texts and fingerprints\<close>

definition parseLevel :: "string \<Rightarrow> string" where
  "parseLevel level =
     (if level = ''info'' then ''Info'' else if level = ''warn'' then ''Warn''
      else if level = ''error'' then ''Error'' else ''Debug'')"

fun operationName :: "operation_type \<Rightarrow> string" where
  "operationName OpQuery = ''query''"
| "operationName OpExecute = ''execute''"
| "operationName OpStream = ''stream''"
| "operationName OpBatch = ''batch''"
| "operationName OpSelect = ''select''"
| "operationName OpRoutine = ''routine''"
| "operationName _ = ''operation''"

fun operation_code :: "operation_type \<Rightarrow> nat" where
  "operation_code OpQuery = 0"
| "operation_code OpExecute = 1"
| "operation_code OpBegin = 2"
| "operation_code OpCommit = 3"
| "operation_code OpRollback = 4"
| "operation_code OpCancel = 5"
| "operation_code OpStream = 6"
| "operation_code OpBatch = 7"
| "operation_code OpSavepoint = 8"
| "operation_code OpSelect = 9"
| "operation_code OpRoutine = 10"

text \<open>Whether the text that is kept ends inside a string literal; the loop looks at the first
  \<open>limit\<close> characters.\<close>

fun ends_in_literal :: "bool \<Rightarrow> string \<Rightarrow> bool" where
  "ends_in_literal inLiteral [] = inLiteral"
| "ends_in_literal inLiteral (c # cs) =
     (if c = backslash then ends_in_literal inLiteral (tl cs)
      else if c = squote then
        (if cs \<noteq> [] \<and> hd cs = squote then ends_in_literal inLiteral (tl cs)
         else ends_in_literal (\<not> inLiteral) cs)
      else ends_in_literal inLiteral cs)"

definition truncate_sql :: "string \<Rightarrow> nat \<Rightarrow> string" where
  "truncate_sql text limit =
     (if length text \<le> limit then text
      else take limit text @ (if ends_in_literal False (take limit text) then [squote] else []) @
        ''...[truncated, original_length='' @ nat_to_string (length text) @ '']'')"

definition fnv_add :: "u64 \<Rightarrow> nat \<Rightarrow> u64" where
  "fnv_add h c = (h XOR word_of_nat c) * fnv_prime"

definition sql_fingerprint :: "string \<Rightarrow> operation_type \<Rightarrow> string \<Rightarrow> u64" where
  "sql_fingerprint dataSource type sql =
     foldl (\<lambda>h c. fnv_add h (char_code c))
       (fnv_add (fnv_add (foldl (\<lambda>h c. fnv_add h (char_code c)) fnv_offset dataSource) 0) (operation_code type)) sql"

text \<open>The source repeats \<open>buildStructural\<close> of \<open>sql_analyze.cpp\<close> word for word.\<close>

definition structuralSql :: "string \<Rightarrow> string" where
  "structuralSql sql = build_structural None [] False sql"

section \<open>State\<close>

record op_event =
  ev_dataSource :: string
  ev_type :: operation_type
  ev_duration :: int
  ev_status :: status
  ev_rowCount :: nat
  ev_sqlTemplate :: string
  ev_renderedSql :: string
  ev_fingerprint :: u64
  ev_traceId :: string
  ev_spanId :: string
  ev_slow :: bool
  ev_shadow :: bool
  ev_transformed :: bool

record slow_stats =
  sq_fingerprint :: u64
  sq_dataSource :: string
  sq_type :: operation_type
  sq_template :: string
  sq_count :: nat
  sq_errors :: nat
  sq_timeouts :: nat
  sq_total :: int
  sq_min :: int
  sq_max :: int
  sq_first :: int
  sq_last :: int
  sq_buckets :: "int list"
  sq_histogram :: "nat list"

record slow_record =
  sc_timestamp :: int
  sc_dataSource :: string
  sc_type :: operation_type
  sc_template :: string
  sc_rendered :: string
  sc_fingerprint :: u64
  sc_duration :: int
  sc_errorCode :: error_code
  sc_sqlState :: string
  sc_traceId :: string
  sc_spanId :: string

text \<open>The data under the two mutexes. An observer is named by a value of type \<open>'o\<close>; a collector
  has an owner.\<close>

record 'o obs_state =
  os_config :: observability_config
  os_observer :: "'o option"
  os_poolObserver :: "'o option"
  os_poolCollector :: "'o option"
  os_collectorOwner :: "nat option"
  os_version :: nat
  slowStats :: "(u64 \<times> slow_stats) list"
  recentSlow :: "slow_record list"
  obs_lru :: "u64 list"

definition new_obs_state :: "'o obs_state" where
  "new_obs_state = \<lparr>os_config = default_observability, os_observer = None, os_poolObserver = None,
     os_poolCollector = None, os_collectorOwner = None, os_version = 1, slowStats = [], recentSlow = [], obs_lru = []\<rparr>"

section \<open>Observers\<close>

definition setObserver :: "'o option \<Rightarrow> 'o obs_state \<Rightarrow> 'o obs_state" where
  "setObserver obs s = s\<lparr>os_observer := obs, os_version := os_version s + 1\<rparr>"

definition setPoolMetricsObserver :: "'o option \<Rightarrow> 'o obs_state \<Rightarrow> 'o obs_state" where
  "setPoolMetricsObserver obs s = s\<lparr>os_poolObserver := obs, os_version := os_version s + 1\<rparr>"

definition setPoolMetricsCollector :: "'o option \<Rightarrow> nat option \<Rightarrow> 'o obs_state \<Rightarrow> 'o obs_state" where
  "setPoolMetricsCollector collector owner s =
     s\<lparr>os_poolCollector := collector, os_collectorOwner := (if collector = None then None else owner),
       os_version := os_version s + 1\<rparr>"

definition clearPoolMetricsCollector :: "nat option \<Rightarrow> 'o obs_state \<Rightarrow> 'o obs_state" where
  "clearPoolMetricsCollector owner s =
     (if os_collectorOwner s = owner
      then s\<lparr>os_poolCollector := None, os_collectorOwner := None, os_version := os_version s + 1\<rparr> else s)"

text \<open>Sampling the pools: what the collector returns, nothing if it throws or there is none, and
  the observer that is told.\<close>

definition samplePoolMetrics :: "('o \<Rightarrow> 'p list option) \<Rightarrow> 'o obs_state \<Rightarrow> 'p list \<times> ('o \<times> 'p list) option" where
  "samplePoolMetrics collect s =
     (let ps = (case os_poolCollector s of
                  None \<Rightarrow> []
                | Some c \<Rightarrow> (case collect c of None \<Rightarrow> [] | Some ps \<Rightarrow> ps))
      in (ps, map_option (\<lambda>ob. (ob, ps)) (os_poolObserver s)))"

definition emit_event :: "op_event \<Rightarrow> 'o obs_state \<Rightarrow> ('o \<times> op_event) option" where
  "emit_event event s = map_option (\<lambda>ob. (ob, event)) (os_observer s)"

text \<open>The settings a thread has seen: the snapshot it keeps, with the identity of the state and the
  version it belongs to, is used as long as both are current.\<close>

record 'o snapshot =
  sp_config :: observability_config
  sp_observer :: "'o option"
  sp_poolObserver :: "'o option"
  sp_poolCollector :: "'o option"

definition snapshot_of :: "'o obs_state \<Rightarrow> 'o snapshot" where
  "snapshot_of s = \<lparr>sp_config = os_config s, sp_observer = os_observer s, sp_poolObserver = os_poolObserver s,
     sp_poolCollector = os_poolCollector s\<rparr>"

definition currentSnapshot ::
  "nat \<Rightarrow> (nat \<times> nat \<times> 'o snapshot) option \<Rightarrow> 'o obs_state \<Rightarrow> 'o snapshot \<times> (nat \<times> nat \<times> 'o snapshot) option" where
  "currentSnapshot identity tls s =
     (case tls of
        Some (owner, version, snap) \<Rightarrow>
          if owner = identity \<and> version = os_version s then (snap, tls)
          else (snapshot_of s, Some (identity, os_version s, snapshot_of s))
      | None \<Rightarrow> (snapshot_of s, Some (identity, os_version s, snapshot_of s)))"

section \<open>Slow statements\<close>

definition touchLru :: "u64 \<Rightarrow> 'o obs_state \<Rightarrow> 'o obs_state" where
  "touchLru fp s = s\<lparr>obs_lru := fp # (if fp \<in> set (obs_lru s) then removeAll fp (obs_lru s) else obs_lru s)\<rparr>"

definition evictLru :: "'o obs_state \<Rightarrow> 'o obs_state" where
  "evictLru s =
     (if obs_lru s = [] then s
      else s\<lparr>obs_lru := butlast (obs_lru s), slowStats := AList.delete (last (obs_lru s)) (slowStats s)\<rparr>)"

fun evict_to :: "nat \<Rightarrow> nat \<Rightarrow> 'o obs_state \<Rightarrow> 'o obs_state" where
  "evict_to capacity 0 s = s"
| "evict_to capacity (Suc n) s =
     (if length (slowStats s) > capacity then evict_to capacity n (evictLru s) else s)"

definition normalized :: "observability_config \<Rightarrow> observability_config" where
  "normalized c = c\<lparr>ob_slow_sql := (ob_slow_sql c)\<lparr>
     ss_aggregate_capacity := max 1 (ss_aggregate_capacity (ob_slow_sql c)),
     ss_recent_capacity := max 0 (ss_recent_capacity (ob_slow_sql c))\<rparr>\<rparr>"

text \<open>The loop that evicts runs once per entry at most, since each eviction removes one.\<close>

definition configure_obs :: "observability_config \<Rightarrow> 'o obs_state \<Rightarrow> 'o obs_state" where
  "configure_obs c s =
     (let n = normalized c;
          capacity = nat (ss_aggregate_capacity (ob_slow_sql n));
          recentCapacity = nat (ss_recent_capacity (ob_slow_sql n));
          buckets = ss_histogram_buckets_ms (ob_slow_sql n);
          s1 = s\<lparr>os_config := n, os_version := os_version s + 1\<rparr>;
          s2 = (if list_ex (\<lambda>(k, e). sq_buckets e \<noteq> buckets) (slowStats s1)
                then s1\<lparr>slowStats := [], obs_lru := []\<rparr> else s1);
          s3 = evict_to capacity (length (slowStats s2)) s2
      in s3\<lparr>recentSlow := drop (length (recentSlow s3) - recentCapacity) (recentSlow s3)\<rparr>)"

definition new_stats :: "op_event \<Rightarrow> string \<Rightarrow> slow_sql_config \<Rightarrow> int \<Rightarrow> slow_stats" where
  "new_stats event structure c now =
     \<lparr>sq_fingerprint = ev_fingerprint event, sq_dataSource = ev_dataSource event, sq_type = ev_type event,
      sq_template = truncate_sql structure (nat (ss_max_sql_length c)), sq_count = 0, sq_errors = 0,
      sq_timeouts = 0, sq_total = 0, sq_min = ev_duration event, sq_max = 0, sq_first = now, sq_last = now,
      sq_buckets = ss_histogram_buckets_ms c, sq_histogram = replicate (length (ss_histogram_buckets_ms c) + 1) 0\<rparr>"

fun bucket_of :: "int \<Rightarrow> int list \<Rightarrow> nat" where
  "bucket_of d [] = 0"
| "bucket_of d (b # bs) = (if d > b * 1000 then Suc (bucket_of d bs) else 0)"

definition add_to_stats :: "op_event \<Rightarrow> int \<Rightarrow> slow_stats \<Rightarrow> slow_stats" where
  "add_to_stats event now e =
     (let b = bucket_of (ev_duration event) (sq_buckets e)
      in e\<lparr>sq_count := sq_count e + 1,
           sq_errors := sq_errors e + (if status_ok (ev_status event) then 0 else 1),
           sq_timeouts := sq_timeouts e + (if code (ev_status event) = QueryTimeout then 1 else 0),
           sq_total := sq_total e + ev_duration event,
           sq_min := min (sq_min e) (ev_duration event), sq_max := max (sq_max e) (ev_duration event),
           sq_last := now, sq_histogram := (sq_histogram e)[b := sq_histogram e ! b + 1]\<rparr>)"

definition slow_record_of :: "op_event \<Rightarrow> slow_stats \<Rightarrow> slow_sql_config \<Rightarrow> int \<Rightarrow> slow_record" where
  "slow_record_of event e c now =
     \<lparr>sc_timestamp = now, sc_dataSource = ev_dataSource event, sc_type = ev_type event, sc_template = sq_template e,
      sc_rendered = (if ss_retain_rendered_sql c then truncate_sql (ev_renderedSql event) (nat (ss_max_sql_length c)) else []),
      sc_fingerprint = ev_fingerprint event, sc_duration = ev_duration event, sc_errorCode = code (ev_status event),
      sc_sqlState = sqlState (ev_status event), sc_traceId = ev_traceId event, sc_spanId = ev_spanId event\<rparr>"

definition record_slow :: "op_event \<Rightarrow> string \<Rightarrow> slow_sql_config \<Rightarrow> int \<Rightarrow> 'o obs_state \<Rightarrow> 'o obs_state" where
  "record_slow event structure c now s =
     (let key = ev_fingerprint event;
          isNew = (map_of (slowStats s) key = None);
          s1 = (if isNew \<and> length (slowStats s) \<ge> nat (ss_aggregate_capacity c) then evictLru s else s);
          s2 = touchLru key s1;
          old = (if isNew then new_stats event structure c now else the (map_of (slowStats s2) key));
          e = add_to_stats event now old;
          s3 = s2\<lparr>slowStats := AList.update key e (slowStats s2)\<rparr>;
          cap = ss_recent_capacity c
      in if cap > 0
         then s3\<lparr>recentSlow :=
           (if length (recentSlow s3) \<ge> nat cap then tl (recentSlow s3) else recentSlow s3) @ [slow_record_of event e c now]\<rparr>
         else s3)"

section \<open>Statements\<close>

record emit_input =
  ei_stack :: "sql_context list"
  ei_spanSeq :: "64 word"
  ei_sequence :: u64
  ei_now :: int
  ei_result :: "bool option"
  ei_renderer :: "(render_options \<Rightarrow> status \<times> string) option"

definition with_context :: "sql_context list \<Rightarrow> 64 word \<Rightarrow> bool option \<Rightarrow> op_event \<Rightarrow> op_event" where
  "with_context stack seq result event =
     (let ctx = current_context stack;
          e1 = (if traceId ctx \<noteq> [] then event\<lparr>ev_traceId := traceId ctx\<rparr> else event);
          e2 = (if spanId ctx \<noteq> [] then e1\<lparr>ev_spanId := spanId ctx\<rparr>
                else if ev_traceId e1 \<noteq> [] then e1\<lparr>ev_spanId := fst (nextSpanId stack seq)\<rparr> else e1);
          e3 = (if shadow ctx then e2\<lparr>ev_shadow := True\<rparr> else e2)
      in if result = Some True then e3\<lparr>ev_transformed := True\<rparr> else e3)"

text \<open>Whole milliseconds of a duration, rounded towards zero.\<close>

definition duration_ms :: "int \<Rightarrow> int" where
  "duration_ms d = (if d \<ge> 0 then d div 1000 else - ((- d) div 1000))"

definition log_eligible :: "observability_config \<Rightarrow> op_event \<Rightarrow> bool" where
  "log_eligible c event \<longleftrightarrow>
     sl_enabled (ob_sql_log c) \<and>
     (\<not> sl_slow_only (ob_sql_log c) \<or> duration_ms (ev_duration event) \<ge> ss_threshold_ms (ob_slow_sql c)) \<and>
     ((status_ok (ev_status event) \<and> sl_log_success (ob_sql_log c)) \<or>
      (\<not> status_ok (ev_status event) \<and> sl_log_errors (ob_sql_log c)))"

definition is_sampled :: "sql_log_config \<Rightarrow> u64 \<Rightarrow> u64 \<Rightarrow> bool" where
  "is_sampled c fp sequence \<longleftrightarrow> \<not> sl_enabled c \<or> sl_sample_rate c \<ge> 1 \<or>
     (sl_sample_rate c > 0 \<and> of_nat (unat (fp XOR sequence) mod 1000000) / 1000000 < sl_sample_rate c)"

definition log_line :: "observability_config \<Rightarrow> op_event \<Rightarrow> string" where
  "log_line c event =
     ''sql datasource='' @ ev_dataSource event @ '' operation='' @ operationName (ev_type event) @
     '' duration_ms='' @ int_to_string (duration_ms (ev_duration event)) @
     '' rows='' @ nat_to_string (ev_rowCount event) @
     '' status='' @ errorCodeToString (code (ev_status event)) @
     '' fingerprint='' @ nat_to_string (unat (ev_fingerprint event)) @
     (if ev_traceId event \<noteq> [] then '' trace='' @ ev_traceId event else []) @
     (if ev_spanId event \<noteq> [] then '' span='' @ ev_spanId event else []) @
     '' statement='' @ (if sl_mode (ob_sql_log c) = ''full'' \<and> ev_renderedSql event \<noteq> [] then ev_renderedSql event
                        else ev_sqlTemplate event)"

definition render_for :: "observability_config \<Rightarrow> render_options" where
  "render_for c = \<lparr>includeStringValues = sl_include_string_values (ob_sql_log c),
     includeBlobValues = sl_include_blob_values (ob_sql_log c),
     maxParamLength = nat (sl_max_param_length (ob_sql_log c)),
     maxSqlLength = nat (max (sl_max_sql_length (ob_sql_log c)) (ss_max_sql_length (ob_slow_sql c)))\<rparr>"

text \<open>The event as it is completed from the statement.\<close>

definition describe_event :: "observability_config \<Rightarrow> emit_input \<Rightarrow> string \<Rightarrow> op_event \<Rightarrow> op_event" where
  "describe_event c i sql event =
     (let slowEnabled = ss_enabled (ob_slow_sql c); logEnabled = sl_enabled (ob_sql_log c);
          e1 = (if slowEnabled \<or> logEnabled
                then event\<lparr>ev_fingerprint := sql_fingerprint (ev_dataSource event) (ev_type event) (structuralSql sql)\<rparr>
                else event);
          e2 = e1\<lparr>ev_slow := (slowEnabled \<and> duration_ms (ev_duration e1) \<ge> ss_threshold_ms (ob_slow_sql c))\<rparr>;
          logged = (log_eligible c e2 \<and> is_sampled (ob_sql_log c) (ev_fingerprint e2) (ei_sequence i));
          e3 = (if ev_slow e2 \<or> logged
                then e2\<lparr>ev_sqlTemplate := truncate_sql sql (nat (if ev_slow e2 then ss_max_sql_length (ob_slow_sql c)
                                                              else sl_max_sql_length (ob_sql_log c)))\<rparr>
                else e2)
      in case ei_renderer i of
           Some render \<Rightarrow>
             if (logged \<and> sl_mode (ob_sql_log c) = ''full'') \<or> (ev_slow e3 \<and> ss_retain_rendered_sql (ob_slow_sql c))
             then (case render (render_for c) of (st, text) \<Rightarrow> if status_ok st then e3\<lparr>ev_renderedSql := text\<rparr> else e3)
             else e3
         | None \<Rightarrow> e3)"

text \<open>What a statement leads to: a log line with its level, the event for the observer, the state.\<close>

definition emitSql :: "emit_input \<Rightarrow> op_event \<Rightarrow> string \<Rightarrow> 'o obs_state \<Rightarrow>
    (string \<times> string) option \<times> ('o \<times> op_event) option \<times> 'o obs_state" where
  "emitSql i event0 sql s =
     (let c = os_config s; event1 = with_context (ei_stack i) (ei_spanSeq i) (ei_result i) event0
      in if os_observer s = None \<and> \<not> ss_enabled (ob_slow_sql c) \<and> \<not> sl_enabled (ob_sql_log c) then (None, None, s)
         else
           (let event = describe_event c i sql event1;
                s' = (if ev_slow event then record_slow event (structuralSql sql) (ob_slow_sql c) (ei_now i) s else s);
                logged = (log_eligible c event \<and> is_sampled (ob_sql_log c) (ev_fingerprint event) (ei_sequence i))
            in (if logged then Some (parseLevel (sl_level (ob_sql_log c)), log_line c event) else None,
                map_option (\<lambda>ob. (ob, event)) (os_observer s), s')))"

section \<open>Reading the statistics\<close>

definition average :: "slow_stats \<Rightarrow> rat" where
  "average e = of_int (sq_total e) / of_nat (if sq_count e = 0 then 1 else sq_count e)"

definition slowSqlStats :: "nat \<Rightarrow> string \<Rightarrow> 'o obs_state \<Rightarrow> slow_stats list" where
  "slowSqlStats limit dataSource s =
     take limit (sort_key (\<lambda>e. - average e)
       (filter (\<lambda>e. dataSource = [] \<or> sq_dataSource e = dataSource) (map snd (slowStats s))))"

definition recentSlowSql :: "nat \<Rightarrow> string \<Rightarrow> 'o obs_state \<Rightarrow> slow_record list" where
  "recentSlowSql limit dataSource s =
     take limit (filter (\<lambda>r. dataSource = [] \<or> sc_dataSource r = dataSource) (rev (recentSlow s)))"

definition clearSlowSqlStats :: "'o obs_state \<Rightarrow> 'o obs_state" where
  "clearSlowSqlStats s = s\<lparr>slowStats := [], obs_lru := [], recentSlow := []\<rparr>"

end
