(* ===== verification/ObserverProps.thy ===== *)
theory ObserverProps
  imports Observer
begin

text \<open>
  The statistics of slow statements stay consistent and within their limits, keep the fingerprints
  used last, and the snapshots that threads keep of the settings are never out of date once a
  change has been published.
\<close>

section \<open>Consistent statistics\<close>

definition stats_ok :: "slow_stats \<Rightarrow> bool" where
  "stats_ok e \<longleftrightarrow> 1 \<le> sq_count e \<and> sum_list (sq_histogram e) = sq_count e \<and>
     length (sq_histogram e) = length (sq_buckets e) + 1 \<and> sq_timeouts e \<le> sq_errors e \<and> sq_errors e \<le> sq_count e \<and>
     int (sq_count e) * sq_min e \<le> sq_total e \<and> sq_total e \<le> int (sq_count e) * sq_max e"

definition table_ok :: "'o obs_state \<Rightarrow> bool" where
  "table_ok s \<longleftrightarrow> distinct (map fst (slowStats s)) \<and> distinct (obs_lru s) \<and> set (obs_lru s) = fst ` set (slowStats s) \<and>
     (\<forall>(k, e)\<in>set (slowStats s). sq_fingerprint e = k \<and> stats_ok e)"

definition obs_inv :: "'o obs_state \<Rightarrow> bool" where
  "obs_inv s \<longleftrightarrow> table_ok s \<and> 1 \<le> ss_aggregate_capacity (ob_slow_sql (os_config s)) \<and>
     int (length (slowStats s)) \<le> ss_aggregate_capacity (ob_slow_sql (os_config s)) \<and>
     0 \<le> ss_recent_capacity (ob_slow_sql (os_config s)) \<and>
     int (length (recentSlow s)) \<le> ss_recent_capacity (ob_slow_sql (os_config s))"

lemma table_ok_lengths:
  assumes "table_ok s"
  shows "length (obs_lru s) = length (slowStats s)"
proof -
  have "card (set (obs_lru s)) = length (obs_lru s)" using assms by (intro distinct_card) (simp add: table_ok_def)
  moreover have "card (fst ` set (slowStats s)) = length (slowStats s)"
    using assms distinct_card [of "map fst (slowStats s)"] by (simp add: table_ok_def)
  ultimately show ?thesis using assms by (simp add: table_ok_def)
qed

lemma bucket_of_bound: "bucket_of d bs \<le> length bs"
  by (induction bs) auto

lemma sum_list_increment:
  "i < length xs \<Longrightarrow> sum_list (xs[i := xs ! i + 1]) = sum_list xs + (1 :: nat)"
proof (induction xs arbitrary: i)
  case (Cons x xs)
  then show ?case by (cases i) auto
qed simp

text \<open>What an entry satisfies before its first statement is added.\<close>

definition stats_base :: "slow_stats \<Rightarrow> bool" where
  "stats_base e \<longleftrightarrow> sum_list (sq_histogram e) = sq_count e \<and>
     length (sq_histogram e) = length (sq_buckets e) + 1 \<and> sq_timeouts e \<le> sq_errors e \<and> sq_errors e \<le> sq_count e \<and>
     int (sq_count e) * sq_min e \<le> sq_total e \<and> sq_total e \<le> int (sq_count e) * sq_max e"

lemma add_to_stats_ok:
  assumes "stats_base e"
  shows "stats_ok (add_to_stats event now e) \<and> sq_fingerprint (add_to_stats event now e) = sq_fingerprint e"
proof -
  let ?d = "ev_duration event" and ?n = "int (sq_count e)"
  have "?n * min (sq_min e) ?d + min (sq_min e) ?d \<le> ?n * sq_min e + ?d"
    by (intro add_mono mult_left_mono) auto
  moreover have "?n * sq_max e + ?d \<le> ?n * max (sq_max e) ?d + max (sq_max e) ?d"
    by (intro add_mono mult_left_mono) auto
  moreover have "bucket_of ?d (sq_buckets e) < length (sq_histogram e)"
    using assms bucket_of_bound [of ?d "sq_buckets e"] by (simp add: stats_base_def)
  ultimately show ?thesis
    using assms sum_list_increment [of "bucket_of ?d (sq_buckets e)" "sq_histogram e"]
    by (auto simp: stats_ok_def stats_base_def add_to_stats_def Let_def status_ok_def algebra_simps)
qed

lemma new_stats_base: "stats_base (new_stats event structure c now)"
  by (simp add: stats_base_def new_stats_def)

lemma stats_ok_base: "stats_ok e \<Longrightarrow> stats_base e"
  by (simp add: stats_ok_def stats_base_def)

lemma deleted_keys: "fst ` set (AList.delete k al) = fst ` set al - {k}"
proof -
  have "set (map fst (AList.delete k al)) = set (map fst al) - {k}"
    by (simp only: AList.delete_keys set_removeAll)
  then show ?thesis by simp
qed

lemma delete_length:
  "distinct (map fst al) \<Longrightarrow> k \<in> fst ` set al \<Longrightarrow> length (AList.delete k al) = length al - 1"
proof (induction al)
  case (Cons x al)
  then show ?case
  proof (cases "fst x = k")
    case True
    with Cons.prems have "AList.delete k al = al" by (intro delete_id) (auto simp: image_iff)
    with True show ?thesis by (cases x) simp
  next
    case False
    with Cons have "length (AList.delete k al) = length al - 1" "al \<noteq> []" by auto
    with False show ?thesis by (cases x) (auto simp: Suc_diff_1 length_greater_0_conv)
  qed
qed simp

lemma butlast_set: "distinct xs \<Longrightarrow> xs \<noteq> [] \<Longrightarrow> set (butlast xs) = set xs - {last xs}"
  by (metis Diff_insert_absorb append_butlast_last_id distinct_append insert_is_Un list.set(1,2) not_distinct_conv_prefix
      set_append Un_commute Un_empty_left)

lemma evictLru_table:
  assumes "table_ok s" and "slowStats s \<noteq> []"
  shows "table_ok (evictLru s) \<and> length (slowStats (evictLru s)) = length (slowStats s) - 1 \<and>
    set (slowStats (evictLru s)) \<subseteq> set (slowStats s)"
proof -
  have ne: "obs_lru s \<noteq> []" using table_ok_lengths [OF assms(1)] assms(2) by auto
  then have "last (obs_lru s) \<in> fst ` set (slowStats s)" using assms(1) by (metis last_in_set table_ok_def)
  then have len: "length (slowStats (evictLru s)) = length (slowStats s) - 1"
    using assms(1) ne by (simp add: evictLru_def delete_length table_ok_def)
  have sub: "set (slowStats (evictLru s)) \<subseteq> set (slowStats s)"
    by (auto simp: evictLru_def AList.delete_eq)
  have "distinct (map fst (slowStats (evictLru s)))"
    using assms(1) ne by (simp add: evictLru_def table_ok_def distinct_delete)
  moreover have "distinct (obs_lru (evictLru s))" "set (obs_lru (evictLru s)) = fst ` set (slowStats (evictLru s))"
    using assms(1) ne by (simp_all add: evictLru_def table_ok_def deleted_keys butlast_set distinct_butlast)
  moreover have "\<forall>x\<in>set (slowStats (evictLru s)). case x of (k, e) \<Rightarrow> sq_fingerprint e = k \<and> stats_ok e"
    using assms(1) sub unfolding table_ok_def by blast
  ultimately have "table_ok (evictLru s)" by (simp add: table_ok_def)
  with len sub show ?thesis by simp
qed

lemma evict_to_table:
  "table_ok s \<Longrightarrow> n = length (slowStats s) \<Longrightarrow> table_ok (evict_to capacity n s) \<and>
    length (slowStats (evict_to capacity n s)) \<le> capacity \<and> recentSlow (evict_to capacity n s) = recentSlow s \<and>
    os_config (evict_to capacity n s) = os_config s"
proof (induction capacity n s rule: evict_to.induct)
  case (2 capacity n s)
  have ne: "slowStats s \<noteq> []" using "2.prems" by auto
  have "recentSlow (evictLru s) = recentSlow s" "os_config (evictLru s) = os_config s" by (simp_all add: evictLru_def)
  moreover have "table_ok (evictLru s)" "n = length (slowStats (evictLru s))"
    using "2.prems"(2) evictLru_table [OF "2.prems"(1) ne] by simp_all
  ultimately have "capacity < length (slowStats s) \<Longrightarrow> ?case" using "2.IH" by simp
  moreover have "\<not> capacity < length (slowStats s) \<Longrightarrow> evict_to capacity (Suc n) s = s" by simp
  ultimately show ?case using "2.prems"(1) by (cases "capacity < length (slowStats s)") (simp_all del: evict_to.simps)
qed simp

lemma configure_obs_inv:
  assumes "obs_inv s"
  shows "obs_inv (configure_obs c s)"
proof -
  let ?n = "normalized c"
  define s2 where "s2 = (let s1 = s\<lparr>os_config := ?n, os_version := os_version s + 1\<rparr> in
    if list_ex (\<lambda>(k, e). sq_buckets e \<noteq> ss_histogram_buckets_ms (ob_slow_sql ?n)) (slowStats s1)
    then s1\<lparr>slowStats := [], obs_lru := []\<rparr> else s1)"
  have s2: "table_ok s2" "os_config s2 = ?n"
    using assms by (auto simp: s2_def obs_inv_def table_ok_def Let_def)
  have cap: "1 \<le> ss_aggregate_capacity (ob_slow_sql ?n)" "0 \<le> ss_recent_capacity (ob_slow_sql ?n)"
    by (simp_all add: normalized_def)
  let ?s3 = "evict_to (nat (ss_aggregate_capacity (ob_slow_sql ?n))) (length (slowStats s2)) s2"
  have "configure_obs c s = ?s3\<lparr>recentSlow :=
      drop (length (recentSlow ?s3) - nat (ss_recent_capacity (ob_slow_sql ?n))) (recentSlow ?s3)\<rparr>"
    by (simp add: configure_obs_def s2_def Let_def)
  with evict_to_table [OF s2(1) refl, of "nat (ss_aggregate_capacity (ob_slow_sql ?n))"] s2(2) cap
  show ?thesis by (auto simp: obs_inv_def table_ok_def)
qed

lemma update_member: "x \<in> set (AList.update k e al) \<Longrightarrow> x = (k, e) \<or> x \<in> set al"
  by (induction al) (auto split: if_splits)

lemma update_length:
  "length (AList.update k e al) = (if map_of al k = None then length al + 1 else length al)"
  by (induction al) auto

text \<open>Counting a statement: its fingerprint is moved to the front and its entry replaced.\<close>

lemma touch_update_table:
  assumes "table_ok s" and "stats_ok e" and "sq_fingerprint e = k"
  shows "table_ok ((touchLru k s)\<lparr>slowStats := AList.update k e (slowStats s)\<rparr>)"
proof -
  have entries: "\<forall>x\<in>set (AList.update k e (slowStats s)). case x of (k, e) \<Rightarrow> sq_fingerprint e = k \<and> stats_ok e"
    using assms update_member [of _ k e "slowStats s"] unfolding table_ok_def by blast
  have "distinct (map fst (AList.update k e (slowStats s)))"
    using assms(1) by (simp add: table_ok_def distinct_update)
  moreover have "fst ` set (AList.update k e (slowStats s)) = insert k (fst ` set (slowStats s))"
    by (simp add: dom_update)
  ultimately show ?thesis
    using assms(1) entries by (auto simp: table_ok_def touchLru_def distinct_removeAll)
qed

lemma record_slow_inv:
  assumes inv: "obs_inv s" and conf: "c = ob_slow_sql (os_config s)"
  shows "obs_inv (record_slow event structure c now s)"
proof -
  define key where "key = ev_fingerprint event"
  define isNew where "isNew = (map_of (slowStats s) key = None)"
  define s1 where "s1 = (if isNew \<and> length (slowStats s) \<ge> nat (ss_aggregate_capacity c) then evictLru s else s)"
  define old where "old = (if isNew then new_stats event structure c now else the (map_of (slowStats s1) key))"
  define e where "e = add_to_stats event now old"
  define s3 where "s3 = (touchLru key s1)\<lparr>slowStats := AList.update key e (slowStats s1)\<rparr>"
  have cap: "1 \<le> ss_aggregate_capacity c" "int (length (slowStats s)) \<le> ss_aggregate_capacity c" and t: "table_ok s"
    using inv conf by (auto simp: obs_inv_def)
  have s1: "table_ok s1" "isNew \<Longrightarrow> int (length (slowStats s1)) < ss_aggregate_capacity c"
    "int (length (slowStats s1)) \<le> ss_aggregate_capacity c" "set (slowStats s1) \<subseteq> set (slowStats s)"
    "\<not> isNew \<Longrightarrow> s1 = s"
  proof -
    have "slowStats s \<noteq> []" if "length (slowStats s) \<ge> nat (ss_aggregate_capacity c)" using that cap by auto
    then have evicted: "table_ok (evictLru s) \<and> length (slowStats (evictLru s)) = length (slowStats s) - 1 \<and>
        set (slowStats (evictLru s)) \<subseteq> set (slowStats s)"
      if "length (slowStats s) \<ge> nat (ss_aggregate_capacity c)" using that evictLru_table [OF t] by blast
    show "table_ok s1" using t evicted by (simp add: s1_def)
    show "set (slowStats s1) \<subseteq> set (slowStats s)" using evicted by (simp add: s1_def)
    show "int (length (slowStats s1)) \<le> ss_aggregate_capacity c" using cap evicted by (simp add: s1_def) arith
    show "isNew \<Longrightarrow> int (length (slowStats s1)) < ss_aggregate_capacity c"
      using cap evicted by (cases "length (slowStats s) \<ge> nat (ss_aggregate_capacity c)") (simp_all add: s1_def)
    show "\<not> isNew \<Longrightarrow> s1 = s" by (simp add: s1_def)
  qed
  have old: "stats_base old \<and> sq_fingerprint old = key"
  proof (cases isNew)
    case False
    then obtain e0 where e0: "map_of (slowStats s) key = Some e0" by (auto simp: isNew_def)
    then have "(key, e0) \<in> set (slowStats s)" by (rule map_of_SomeD)
    with t False e0 s1(5) show ?thesis by (auto simp: old_def table_ok_def dest: stats_ok_base)
  qed (simp add: old_def new_stats_base, simp add: new_stats_def key_def)
  then have e: "stats_ok e" "sq_fingerprint e = key" using add_to_stats_ok [of old event now] by (simp_all add: e_def)
  have s3: "table_ok s3" unfolding s3_def using s1(1) e by (rule touch_update_table)
  have len: "int (length (slowStats s3)) \<le> ss_aggregate_capacity c"
    using s1 by (cases isNew) (auto simp: s3_def update_length isNew_def)
  have keep: "os_config s3 = os_config s" "recentSlow s3 = recentSlow s"
    by (simp_all add: s3_def touchLru_def s1_def evictLru_def)
  have "record_slow event structure c now s =
      (if ss_recent_capacity c > 0 then s3\<lparr>recentSlow := (if length (recentSlow s3) \<ge> nat (ss_recent_capacity c)
         then tl (recentSlow s3) else recentSlow s3) @ [slow_record_of event e c now]\<rparr> else s3)"
    by (simp add: record_slow_def Let_def s3_def s1_def e_def old_def isNew_def key_def touchLru_def)
  with s3 len keep inv conf show ?thesis by (auto simp: obs_inv_def table_ok_def)
qed

lemma emitSql_inv: "obs_inv s \<Longrightarrow> emitSql i event sql s = (l, n, s') \<Longrightarrow> obs_inv s'"
  by (auto simp: emitSql_def Let_def record_slow_inv split: if_splits)

section \<open>The statistics as a system\<close>

inductive obs_step :: "'o obs_state \<Rightarrow> 'o obs_state \<Rightarrow> bool" where
  o_emit: "emitSql i event sql s = (l, n, s') \<Longrightarrow> obs_step s s'"
| o_configure: "obs_step s (configure_obs c s)"
| o_clear: "obs_step s (clearSlowSqlStats s)"
| o_observer: "obs_step s (setObserver ob s)"
| o_poolObserver: "obs_step s (setPoolMetricsObserver ob s)"
| o_collector: "obs_step s (setPoolMetricsCollector ob owner s)"
| o_clearCollector: "obs_step s (clearPoolMetricsCollector owner s)"

lemma obs_step_inv: "obs_step s t \<Longrightarrow> obs_inv s \<Longrightarrow> obs_inv t"
proof (induction rule: obs_step.induct)
  case (o_emit i event sql s l n s')
  then show ?case by (blast intro: emitSql_inv)
next
  case (o_configure s c)
  then show ?case by (rule configure_obs_inv)
qed (simp_all add: clearSlowSqlStats_def setObserver_def setPoolMetricsObserver_def
    setPoolMetricsCollector_def clearPoolMetricsCollector_def obs_inv_def table_ok_def)

definition obs_init :: "'o obs_state \<Rightarrow> bool" where
  "obs_init s \<longleftrightarrow> s = new_obs_state"

interpretation slow_sql: invariant_system obs_init obs_step obs_inv
proof unfold_locales
  show "obs_init s \<Longrightarrow> obs_inv s" for s :: "'a obs_state"
    by (simp add: obs_init_def new_obs_state_def obs_inv_def table_ok_def default_observability_def default_slow_sql_def)
qed (rule obs_step_inv)

text \<open>C16: The statistics of slow statements are bounded and consistent. After any sequence of statements,
  changes of the settings and resets there is at most one entry per fingerprint and no more than
  \<open>aggregate_capacity\<close> of them, the recency list holds exactly their fingerprints, no more than
  \<open>recent_capacity\<close> single statements are kept, and in every entry the histogram adds up to the count,
  errors include the timeouts, and the total duration lies between count times minimum and count times
  maximum.\<close>

theorem slow_sql_sound:
  assumes "reachable obs_init obs_step s"
  shows "int (length (slowStats s)) \<le> ss_aggregate_capacity (ob_slow_sql (os_config s)) \<and>
    int (length (recentSlow s)) \<le> ss_recent_capacity (ob_slow_sql (os_config s)) \<and>
    distinct (map fst (slowStats s)) \<and> distinct (obs_lru s) \<and> set (obs_lru s) = fst ` set (slowStats s) \<and>
    (\<forall>(k, e)\<in>set (slowStats s). sq_fingerprint e = k \<and> sum_list (sq_histogram e) = sq_count e \<and>
      length (sq_histogram e) = length (sq_buckets e) + 1 \<and> sq_timeouts e \<le> sq_errors e \<and> sq_errors e \<le> sq_count e \<and>
      int (sq_count e) * sq_min e \<le> sq_total e \<and> sq_total e \<le> int (sq_count e) * sq_max e)"
proof -
  have inv: "obs_inv s" using assms by (rule slow_sql.reachable_inv)
  then have "sq_fingerprint e = k \<and> stats_ok e" if "(k, e) \<in> set (slowStats s)" for k e
    using that by (auto simp: obs_inv_def table_ok_def)
  then have entries: "\<forall>(k, e)\<in>set (slowStats s). sq_fingerprint e = k \<and> sum_list (sq_histogram e) = sq_count e \<and>
      length (sq_histogram e) = length (sq_buckets e) + 1 \<and> sq_timeouts e \<le> sq_errors e \<and> sq_errors e \<le> sq_count e \<and>
      int (sq_count e) * sq_min e \<le> sq_total e \<and> sq_total e \<le> int (sq_count e) * sq_max e"
    unfolding stats_ok_def by blast
  with inv show ?thesis unfolding obs_inv_def table_ok_def by (intro conjI) simp_all
qed

definition slow_env :: observability_config where
  "slow_env = default_observability\<lparr>ob_slow_sql := default_slow_sql\<lparr>ss_enabled := True, ss_threshold_ms := 0\<rparr>\<rparr>"

definition plain_event :: "string \<Rightarrow> op_event" where
  "plain_event ds = \<lparr>ev_dataSource = ds, ev_type = OpQuery, ev_duration = 1500, ev_status = status_OK, ev_rowCount = 1,
     ev_sqlTemplate = [], ev_renderedSql = [], ev_fingerprint = 0, ev_traceId = [], ev_spanId = [], ev_slow = False,
     ev_shadow = False, ev_transformed = False\<rparr>"

definition plain_input :: emit_input where
  "plain_input = \<lparr>ei_stack = [], ei_spanSeq = 0, ei_sequence = 0, ei_now = 5, ei_result = None, ei_renderer = None\<rparr>"

definition one_slow :: "nat obs_state" where
  "one_slow = snd (snd (emitSql plain_input (plain_event ''d'') ''q'' (configure_obs slow_env new_obs_state)))"

theorem slow_sql_sound_witness:
  "int (length (slowStats one_slow)) \<le> ss_aggregate_capacity (ob_slow_sql (os_config one_slow)) \<and>
   map (sq_count \<circ> snd) (slowStats one_slow) = [1]"
proof -
  have "reachable obs_init obs_step (new_obs_state :: nat obs_state)" by (rule reach_init) (simp add: obs_init_def)
  then have "reachable obs_init obs_step (configure_obs slow_env (new_obs_state :: nat obs_state))"
    by (rule reach_step) (rule o_configure)
  then have "reachable obs_init obs_step one_slow"
    by (rule reach_step) (auto intro!: o_emit simp: one_slow_def prod_eq_iff)
  from slow_sql_sound [OF this] show ?thesis by (simp only: conj_assoc) (simp, code_simp)
qed

section \<open>The fingerprints used last are kept\<close>

text \<open>The order of last use of a history of fingerprints, the last one first.\<close>

fun recency :: "u64 list \<Rightarrow> u64 list" where
  "recency [] = []"
| "recency (f # fs) = f # removeAll f (recency fs)"

lemma distinct_recency: "distinct (recency fs)"
  by (induction fs) (auto simp: distinct_removeAll)

lemma take_removeAll:
  assumes "distinct r" and "f \<in> set (take n r)"
  shows "removeAll f (take n r) = take (n - 1) (removeAll f r)"
  using assms
proof (induction r arbitrary: n)
  case (Cons x r)
  then obtain m where n: "n = Suc m" by (cases n) auto
  show ?case
  proof (cases "x = f")
    case True
    with Cons.prems have "f \<notin> set r" by auto
    then have "removeAll f r = r" "removeAll f (take m r) = take m r"
      by (meson in_set_takeD removeAll_id)+
    with True n show ?thesis by simp
  next
    case False
    with Cons.prems n have "f \<in> set (take m r)" "distinct r" by auto
    moreover from this have "0 < m" by (cases m) auto
    ultimately show ?thesis using False n Cons.IH [of m] by (cases m) auto
  qed
qed simp

lemma take_removeAll_later:
  assumes "f \<notin> set (take n r)"
  shows "take (n - 1) (removeAll f r) = take (n - 1) r"
  using assms
proof (induction r arbitrary: n)
  case (Cons x r)
  show ?case
  proof (cases n)
    case (Suc m)
    with Cons.prems have "x \<noteq> f" "f \<notin> set (take m r)" by auto
    with Suc Cons.IH [of m] show ?thesis by (cases m) auto
  qed simp
qed simp

text \<open>The recency list after one more slow statement.\<close>

definition slow_touch :: "nat \<Rightarrow> u64 \<Rightarrow> u64 list \<Rightarrow> u64 list" where
  "slow_touch cap f l = (if f \<in> set l then f # removeAll f l
     else f # (if length l \<ge> cap then butlast l else l))"

lemma slow_touch_recency:
  assumes "0 < cap"
  shows "slow_touch cap f (take cap (recency fs)) = take cap (recency (f # fs))"
proof (cases "f \<in> set (take cap (recency fs))")
  case True
  with take_removeAll [OF distinct_recency True] assms show ?thesis
    by (cases cap) (auto simp: slow_touch_def)
next
  case False
  then have "take (cap - 1) (removeAll f (recency fs)) = take (cap - 1) (recency fs)"
    by (rule take_removeAll_later)
  moreover have "(if length (take cap (recency fs)) \<ge> cap then butlast (take cap (recency fs)) else take cap (recency fs)) =
      take (cap - 1) (recency fs)"
  proof (cases "cap \<le> length (recency fs)")
    case True
    then show ?thesis using assms by (simp add: butlast_take)
  next
    case short: False
    then have "take (cap - 1) (recency fs) = recency fs" by simp
    with short show ?thesis by simp
  qed
  ultimately show ?thesis using False assms by (cases cap) (auto simp: slow_touch_def)
qed

lemma record_slow_lru:
  assumes "table_ok s"
  shows "obs_lru (record_slow event structure c now s) =
    slow_touch (nat (ss_aggregate_capacity c)) (ev_fingerprint event) (obs_lru s)"
proof -
  have mem: "map_of (slowStats s) k = None \<longleftrightarrow> k \<notin> set (obs_lru s)" for k
    using assms by (simp add: table_ok_def map_of_eq_None_iff)
  have notin: "k \<notin> set (butlast (obs_lru s))" if "k \<notin> set (obs_lru s)" for k using that in_set_butlastD by metis
  show ?thesis
    using table_ok_lengths [OF assms]
    by (auto simp: record_slow_def Let_def slow_touch_def touchLru_def evictLru_def mem notin)
qed

fun slow_run :: "slow_sql_config \<Rightarrow> (op_event \<times> string \<times> int) list \<Rightarrow> 'o obs_state \<Rightarrow> 'o obs_state" where
  "slow_run c [] s = s"
| "slow_run c ((event, structure, now) # es) s = record_slow event structure c now (slow_run c es s)"

text \<open>Eviction is by last use: after any series of slow statements (the last one first in the list) the
  entries that are kept are those of the \<open>aggregate_capacity\<close> fingerprints used last, no others.\<close>

theorem slow_sql_keeps_recent:
  assumes "obs_inv (s :: 'o obs_state)" and "slowStats s = []"
  shows "fst ` set (slowStats (slow_run (ob_slow_sql (os_config s)) es s)) =
    set (take (nat (ss_aggregate_capacity (ob_slow_sql (os_config s)))) (recency (map (\<lambda>(e, _). ev_fingerprint e) es)))"
proof -
  let ?c = "ob_slow_sql (os_config s)"
  have keep: "os_config (record_slow ev st c t r) = os_config r" for ev st c t and r :: "'o obs_state"
    by (simp add: record_slow_def Let_def touchLru_def evictLru_def)
  have "obs_inv (slow_run ?c es s) \<and> os_config (slow_run ?c es s) = os_config s \<and>
      obs_lru (slow_run ?c es s) = take (nat (ss_aggregate_capacity ?c)) (recency (map (\<lambda>(e, _). ev_fingerprint e) es))"
  proof (induction es)
    case Nil
    then show ?case using assms table_ok_lengths [of s] by (simp add: obs_inv_def)
  next
    case (Cons x es)
    obtain ev st t where x: "x = (ev, st, t)" using prod_cases3 by blast
    have "0 < nat (ss_aggregate_capacity ?c)" using assms(1) by (simp add: obs_inv_def)
    moreover have "obs_inv (record_slow ev st ?c t (slow_run ?c es s))" using Cons by (intro record_slow_inv) auto
    moreover have "table_ok (slow_run ?c es s)" using Cons by (simp add: obs_inv_def)
    ultimately show ?case
      using Cons x record_slow_lru [of "slow_run ?c es s" ev st ?c t]
      by (simp add: keep slow_touch_recency del: recency.simps)
  qed
  then have inv: "obs_inv (slow_run ?c es s)"
    and lru: "obs_lru (slow_run ?c es s) = take (nat (ss_aggregate_capacity ?c)) (recency (map (\<lambda>(e, _). ev_fingerprint e) es))"
    by blast+
  from inv have "set (obs_lru (slow_run ?c es s)) = fst ` set (slowStats (slow_run ?c es s))"
    by (simp add: obs_inv_def table_ok_def)
  with lru show ?thesis by simp
qed

theorem slow_sql_keeps_recent_witness:
  "fst ` set (slowStats (slow_run (ob_slow_sql default_observability)
      [((plain_event ''db'')\<lparr>ev_fingerprint := 9\<rparr>, ''q'', 1)] (new_obs_state :: nat obs_state))) = {9}"
proof -
  have "obs_inv (new_obs_state :: nat obs_state)"
    by (rule slow_sql.reachable_inv, rule reach_init) (simp add: obs_init_def)
  from slow_sql_keeps_recent [OF this, of "[((plain_event ''db'')\<lparr>ev_fingerprint := 9\<rparr>, ''q'', 1)]"]
  show ?thesis by (simp add: new_obs_state_def default_observability_def default_slow_sql_def plain_event_def)
qed

section \<open>Truncated texts\<close>

lemma ends_in_literal_parity:
  "backslash \<notin> set s \<Longrightarrow> ends_in_literal b s \<longleftrightarrow> (b \<noteq> odd (count_list s squote))"
proof (induction b s rule: ends_in_literal.induct)
  case (2 b c cs)
  then show ?case by (cases cs) auto
qed simp

lemma suffix_no_quote: "count_list (''...[truncated, original_length='' @ nat_to_string n @ '']'') squote = 0"
proof -
  have "squote \<notin> set (nat_to_string n)" using nat_to_string_digits [of n] by (auto simp: char_class)
  then show ?thesis by (simp add: count_list_0_iff)
qed

text \<open>A text that is cut keeps its beginning and, as long as that holds no backslash, does not end
  inside a string literal: the quotes of the result are balanced.\<close>

theorem truncate_sql_balanced:
  assumes "limit < length text" and "backslash \<notin> set (take limit text)"
  shows "take limit (truncate_sql text limit) = take limit text \<and> even (count_list (truncate_sql text limit) squote)"
proof -
  have "ends_in_literal False (take limit text) \<longleftrightarrow> odd (count_list (take limit text) squote)"
    using ends_in_literal_parity [OF assms(2), of False] by simp
  with assms(1) suffix_no_quote [of "length text"] show ?thesis
    by (auto simp: truncate_sql_def count_list_append)
qed

theorem truncate_sql_balanced_witness:
  "even (count_list (truncate_sql (''WHERE name = '' @ quoteText ''Robert'') 16) squote)"
  using truncate_sql_balanced [of 16 "''WHERE name = '' @ quoteText ''Robert''"] by (simp add: quoteText_def)

text \<open>With a backslash as the last character that is kept, the closing quote that is added is escaped by
  it and the literal stays open.\<close>

theorem truncate_sql_open:
  "ends_in_literal False (take 5 (truncate_sql ([squote] @ ''ab'' @ [backslash, squote] @ ''cd'' @ [squote]) 4))"
  by code_simp

section \<open>Snapshots\<close>

text \<open>A thread that asks in sequence never sees old settings: what \<open>currentSnapshot\<close> returns is what the
  state holds, provided that what the thread keeps was true when it was taken.\<close>

definition kept_true :: "nat \<Rightarrow> (nat \<times> nat \<times> 'o snapshot) option \<Rightarrow> 'o obs_state \<Rightarrow> bool" where
  "kept_true identity tls s \<longleftrightarrow> (case tls of None \<Rightarrow> True | Some (owner, v, snap) \<Rightarrow>
     owner = identity \<longrightarrow> v \<le> os_version s \<and> (v = os_version s \<longrightarrow> snap = snapshot_of s))"

lemma kept_true_read:
  "kept_true identity tls s \<Longrightarrow> currentSnapshot identity tls s = (snap, tls') \<Longrightarrow>
    snap = snapshot_of s \<and> kept_true identity tls' s"
  by (auto simp: kept_true_def currentSnapshot_def split: option.splits if_splits)

lemma record_slow_settings:
  "os_version (record_slow ev st c t s) = os_version s" "snapshot_of (record_slow ev st c t s) = snapshot_of s"
  by (simp_all add: record_slow_def Let_def touchLru_def evictLru_def snapshot_of_def)

lemma evict_to_settings:
  "os_version (evict_to cap n s) = os_version s \<and> snapshot_of (evict_to cap n s) = snapshot_of s"
  by (induction cap n s rule: evict_to.induct) (simp_all add: evictLru_def snapshot_of_def)

lemma configure_version: "os_version (configure_obs c s) = os_version s + 1"
  by (simp add: configure_obs_def Let_def evict_to_settings)

lemma kept_true_step: "obs_step s t \<Longrightarrow> kept_true identity tls s \<Longrightarrow> kept_true identity tls t"
proof (induction rule: obs_step.induct)
  case (o_emit i event sql s l n s')
  then have "os_version s' = os_version s" "snapshot_of s' = snapshot_of s"
    by (auto simp: emitSql_def Let_def record_slow_settings split: if_splits)
  with o_emit show ?case by (cases tls) (auto simp: kept_true_def)
next
  case (o_configure s c)
  then show ?case by (auto simp: kept_true_def configure_version split: option.splits)
next
  case (o_clear s)
  then show ?case by (cases tls) (auto simp: kept_true_def clearSlowSqlStats_def snapshot_of_def)
qed (auto simp: kept_true_def setObserver_def setPoolMetricsObserver_def setPoolMetricsCollector_def
    clearPoolMetricsCollector_def snapshot_of_def split: option.splits)

text \<open>Threads that ask while others change the settings. A change has two steps, which are not under one
  lock: the settings are replaced under the mutex, then the version is increased. A thread without a
  current snapshot reads the settings under the mutex and, before it releases it, the version.
  \<open>sw_history\<close> holds every value the settings have had, the newest first, and \<open>sw_pending\<close> counts the
  changes whose second step is still to come.\<close>

record 'd snap_world =
  sw_history :: "'d list"
  sw_version :: nat
  sw_pending :: nat
  sw_reading :: "(nat \<times> 'd) option"
  sw_kept :: "nat \<Rightarrow> (nat \<times> 'd) option"

inductive snap_step :: "'d snap_world \<Rightarrow> 'd snap_world \<Rightarrow> bool" where
  change: "sw_reading w = None \<Longrightarrow>
    snap_step w (w\<lparr>sw_history := d # sw_history w, sw_pending := sw_pending w + 1\<rparr>)"
| publish: "0 < sw_pending w \<Longrightarrow>
    snap_step w (w\<lparr>sw_version := sw_version w + 1, sw_pending := sw_pending w - 1\<rparr>)"
| read_settings: "sw_reading w = None \<Longrightarrow> (\<forall>d. sw_kept w t \<noteq> Some (sw_version w, d)) \<Longrightarrow>
    snap_step w (w\<lparr>sw_reading := Some (t, hd (sw_history w))\<rparr>)"
| keep_snapshot: "sw_reading w = Some (t, d) \<Longrightarrow>
    snap_step w (w\<lparr>sw_reading := None, sw_kept := (sw_kept w)(t := Some (sw_version w, d))\<rparr>)"

definition snap_init :: "'d snap_world \<Rightarrow> bool" where
  "snap_init w \<longleftrightarrow> (\<exists>d. w = \<lparr>sw_history = [d], sw_version = 1, sw_pending = 0, sw_reading = None, sw_kept = (\<lambda>_. None)\<rparr>)"

definition snap_inv :: "'d snap_world \<Rightarrow> bool" where
  "snap_inv w \<longleftrightarrow> sw_history w \<noteq> [] \<and> (\<forall>t d. sw_reading w = Some (t, d) \<longrightarrow> d = hd (sw_history w)) \<and>
     (\<forall>t v d. sw_kept w t = Some (v, d) \<longrightarrow> v \<le> sw_version w \<and>
       (\<exists>i < length (sw_history w). d = sw_history w ! i \<and> i + v \<le> sw_pending w + sw_version w))"

lemma snap_kept:
  assumes "snap_inv w" and "sw_kept w t = Some (v, d)"
  obtains i where "i < length (sw_history w)" and "d = sw_history w ! i"
    and "i + v \<le> sw_pending w + sw_version w" and "v \<le> sw_version w"
  using assms unfolding snap_inv_def by blast

lemma snap_inv_step: "snap_step w w' \<Longrightarrow> snap_inv w \<Longrightarrow> snap_inv w'"
proof (induction rule: snap_step.induct)
  case (change w d)
  show ?case
    unfolding snap_inv_def
  proof (intro conjI allI impI, goal_cases)
    case (3 t v d')
    with change show ?case by (auto simp: snap_inv_def)
  next
    case (4 t v d')
    then have "sw_kept w t = Some (v, d')" by simp
    with \<open>snap_inv w\<close> obtain i where "i < length (sw_history w)" "d' = sw_history w ! i"
      "i + v \<le> sw_pending w + sw_version w" by (rule snap_kept)
    then show ?case by (intro exI [of _ "Suc i"]) simp
  qed (use change in simp_all)
next
  case (publish w)
  show ?case
    unfolding snap_inv_def
  proof (intro conjI allI impI, goal_cases)
    case (3 t v d')
    with publish show ?case by (fastforce simp: snap_inv_def)
  next
    case (4 t v d')
    then have "sw_kept w t = Some (v, d')" by simp
    with \<open>snap_inv w\<close> obtain i where "i < length (sw_history w)" "d' = sw_history w ! i"
      "i + v \<le> sw_pending w + sw_version w" "v \<le> sw_version w" by (rule snap_kept)
    with publish show ?case by (intro exI [of _ i]) simp
  qed (use publish in \<open>auto simp: snap_inv_def\<close>)
next
  case (keep_snapshot w t d)
  then have "d = hd (sw_history w)" "sw_history w \<noteq> []" by (auto simp: snap_inv_def)
  then have "d = sw_history w ! 0" "0 < length (sw_history w)" by (simp_all add: hd_conv_nth)
  with keep_snapshot show ?case by (auto simp: snap_inv_def)
qed (auto simp: snap_inv_def)

interpretation snapshots: invariant_system snap_init snap_step snap_inv
proof unfold_locales
  show "snap_init w \<Longrightarrow> snap_inv w" for w :: "'a snap_world" by (auto simp: snap_init_def snap_inv_def)
qed (blast intro: snap_inv_step)

text \<open>C28: Once every change has been published, no thread uses old settings: in every interleaving of changing,
  publishing and reading, a snapshot that is kept with the current version while no change is pending is
  the newest value of the settings.\<close>

theorem snapshot_fresh:
  assumes "reachable snap_init snap_step w" and "sw_pending w = 0" and "sw_kept w t = Some (sw_version w, d)"
  shows "d = hd (sw_history w)"
proof -
  have "snap_inv w" using assms(1) by (rule snapshots.reachable_inv)
  then obtain i where "i < length (sw_history w)" "d = sw_history w ! i" "i + sw_version w \<le> sw_pending w + sw_version w"
    using assms(3) by (rule snap_kept)
  with assms(2) show ?thesis by (cases "sw_history w") auto
qed

theorem snapshot_fresh_witness:
  "hd (sw_history \<lparr>sw_history = [3 :: nat], sw_version = 1, sw_pending = 0, sw_reading = None, sw_kept = (\<lambda>_. None)(0 := Some (1, 3))\<rparr>) = 3"
proof -
  let ?w = "\<lparr>sw_history = [3 :: nat], sw_version = 1, sw_pending = 0, sw_reading = None, sw_kept = (\<lambda>_. None)\<rparr>"
  have "reachable snap_init snap_step ?w" by (rule reach_init) (auto simp: snap_init_def)
  moreover have "snap_step ?w (?w\<lparr>sw_reading := Some (0, 3)\<rparr>)" using read_settings [of ?w 0] by simp
  moreover have "snap_step (?w\<lparr>sw_reading := Some (0, 3)\<rparr>) (?w\<lparr>sw_kept := (\<lambda>_. None)(0 := Some (1, 3))\<rparr>)"
    using keep_snapshot [of "?w\<lparr>sw_reading := Some (0, 3)\<rparr>" 0 3] by simp
  ultimately have "reachable snap_init snap_step (?w\<lparr>sw_kept := (\<lambda>_. None)(0 := Some (1, 3))\<rparr>)"
    by (meson reach_step)
  from snapshot_fresh [OF this, of 0 3] show ?thesis by simp
qed

end
