(* ===== verification/UtilSql.thy ===== *)
theory UtilSql
  imports Client
begin

text \<open>
  The statement builders of \<open>sqlconduit/util.h\<close>: dialects, quoting of names, calls of stored
  routines with their parameters, dropping routines, creating and dropping indexes. An operation
  that fills an output parameter returns its status and the text or plan; where the source leaves
  the output as it was, the model returns the empty text.
\<close>

section \<open>Data\<close>

datatype routine_kind = Function | Procedure

datatype dialect = Auto | MySQL | Postgres | SqlServer | Oracle

record routine_ref =
  rr_name :: string
  rr_kind :: routine_kind
  rr_dataSource :: string

record exec_options =
  eo_dataSource :: string
  eo_dialect :: dialect
  eo_forcePrimary :: bool
  eo_idempotency :: idempotency

record create_routine_options = exec_options +
  cr_replace :: bool
  cr_ifNotExists :: bool
  cr_stripDelimiter :: bool

record drop_routine_options = exec_options +
  dr_ifExists :: bool
  dr_cascade :: bool

record call_options = exec_options +
  co_returnsRows :: bool

record drop_index_options = exec_options +
  di_ifExists :: bool

record index_spec =
  is_table :: string
  is_name :: string
  is_columns :: "string list"
  is_unique :: bool
  is_ifNotExists :: bool
  is_concurrent :: bool
  is_usingMethod :: string
  is_options :: string

datatype param_direction = In | Out | InOut

datatype value_type =
  TAuto | TBool | TInt64 | TUInt64 | TDouble | TDecimal | TString | TDate | TTime | TTimestamp | TUuid | TJson
| TBlob | TIntervalYearMonth | TIntervalDaySecond | TTypedArray | TTypedComposite | TRefCursor

record call_param =
  cp_value :: val
  cp_direction :: param_direction
  cp_type :: value_type
  cp_typeName :: string
  cp_maxBytes :: nat

record call_plan =
  pl_preSql :: string
  pl_preParams :: params
  pl_callSql :: string
  pl_callParams :: params
  pl_fetchSql :: string
  pl_outColumns :: "string list"
  pl_outFromRowCount :: nat
  pl_needsSameConnection :: bool

definition empty_plan :: call_plan where
  "empty_plan = \<lparr>pl_preSql = [], pl_preParams = [], pl_callSql = [], pl_callParams = [], pl_fetchSql = [],
     pl_outColumns = [], pl_outFromRowCount = 0, pl_needsSameConnection = False\<rparr>"

section \<open>Names\<close>

definition hasOutParams :: "call_param list \<Rightarrow> bool" where
  "hasOutParams ps \<longleftrightarrow> list_ex (\<lambda>p. cp_direction p \<noteq> In) ps"

definition outVarName :: "nat \<Rightarrow> string" where
  "outVarName i = ''sqlconduit_out_'' @ nat_to_string i"

definition unsupported :: "string \<Rightarrow> status" where
  "unsupported msg = status_error NotSupported msg"

definition badSpec :: "string \<Rightarrow> status" where
  "badSpec msg = status_error QueryError msg"

fun dialectName :: "dialect \<Rightarrow> string" where
  "dialectName MySQL = ''mysql''"
| "dialectName Postgres = ''postgres''"
| "dialectName SqlServer = ''sqlserver''"
| "dialectName Oracle = ''oracle''"
| "dialectName Auto = ''auto''"

definition startsWithFold :: "string \<Rightarrow> string \<Rightarrow> bool" where
  "startsWithFold s kw \<longleftrightarrow> lower (take (length kw) s) = lower kw"

definition dialectFromDriverType :: "string \<Rightarrow> dialect" where
  "dialectFromDriverType driverType =
     (let t = lower driverType in
      if contains ''mysql'' t \<or> contains ''maria'' t then MySQL
      else if contains ''postgres'' t \<or> contains ''pgsql'' t \<or> t = ''pg'' then Postgres
      else if contains ''oracle'' t \<or> t = ''ora'' \<or> t = ''oci'' then Oracle
      else if contains ''odbc'' t \<or> contains ''sqlserver'' t \<or> contains ''mssql'' t then SqlServer
      else Auto)"

definition detectDialect :: "sql_context list \<Rightarrow> ('v, 'w, 'r) client option \<Rightarrow> string \<Rightarrow> dialect" where
  "detectDialect stack impl dataSource =
     (case client_dataSource stack dataSource impl of
        Some s \<Rightarrow> dialectFromDriverType (src_driver s)
      | None \<Rightarrow> Auto)"

definition resolveDialect ::
  "sql_context list \<Rightarrow> ('v, 'w, 'r) client option \<Rightarrow> 'z exec_options_scheme \<Rightarrow> dialect" where
  "resolveDialect stack impl opts =
     (if eo_dialect opts \<noteq> Auto then eo_dialect opts else detectDialect stack impl (eo_dataSource opts))"

definition quote_char :: "dialect \<Rightarrow> char" where
  "quote_char d = (if d = MySQL then backtick else dquote)"

text \<open>The lambda \<open>flush\<close> appends the part collected so far, and the loop over the characters.\<close>

definition flush_part :: "char \<Rightarrow> string \<Rightarrow> string \<Rightarrow> string" where
  "flush_part q out part =
     (if part = [] then out
      else out @ (if out = [] then [] else ''.'') @ q # double_char q part @ [q])"

fun quote_parts :: "char \<Rightarrow> string \<Rightarrow> string \<Rightarrow> string \<Rightarrow> string" where
  "quote_parts q out part [] = flush_part q out part"
| "quote_parts q out part (c # cs) =
     (if c = CHR ''.'' then quote_parts q (flush_part q out part) [] cs
      else quote_parts q out (part @ [c]) cs)"

definition quoteIdent :: "string \<Rightarrow> dialect \<Rightarrow> string" where
  "quoteIdent ident d = quote_parts (quote_char d) [] [] ident"

definition quoteStringLiteral :: "string \<Rightarrow> string" where
  "quoteStringLiteral v = squote # double_char squote v @ [squote]"

text \<open>The lines of a text with their line ends.\<close>

function text_lines :: "string \<Rightarrow> string list" where
  "text_lines s =
     (if s = [] then []
      else case dropWhile (\<lambda>c. c \<noteq> newline) s of
        [] \<Rightarrow> [s]
      | nl # rest \<Rightarrow> (takeWhile (\<lambda>c. c \<noteq> newline) s @ [nl]) # text_lines rest)"
  by pat_completeness auto
termination
proof (relation "measure length")
  fix s nl rest
  assume "dropWhile (\<lambda>c. c \<noteq> newline) s = nl # rest"
  then show "(rest, s) \<in> measure length"
    using length_dropWhile_le [of "\<lambda>c. c \<noteq> newline" s] by simp
qed simp

declare text_lines.simps [simp del]

definition is_directive :: "string \<Rightarrow> bool" where
  "is_directive line =
     (let body = dropWhile is_space line; after = drop 9 body
      in startsWithFold body ''DELIMITER'' \<and> (after = [] \<or> is_space (hd after)))"

definition stripDelimiterDirectives :: "string \<Rightarrow> nat \<times> string" where
  "stripDelimiterDirectives sql =
     (let ls = text_lines sql; removed = length (filter is_directive ls)
      in (removed, if removed > 0 then concat (filter (\<lambda>l. \<not> is_directive l) ls) else sql))"

section \<open>Calls\<close>

definition csvArgs :: "nat \<Rightarrow> string" where
  "csvArgs n = join '', '' (replicate n ''?'')"

definition parenArgs :: "nat \<Rightarrow> string" where
  "parenArgs n = ''('' @ csvArgs n @ '')''"

definition no_dialect :: "string \<Rightarrow> status" where
  "no_dialect ds = unsupported (''sqlconduit::util: cannot detect dialect for datasource '' @ quoted ds @
     ''; pass Dialect explicitly'')"

definition qualified_name :: "string \<Rightarrow> string" where
  "qualified_name n = (if CHR ''.'' \<notin> set n then ''dbo.'' @ n else n)"

definition sqlserver_call :: "routine_ref \<Rightarrow> nat \<Rightarrow> bool \<Rightarrow> string" where
  "sqlserver_call ref n returnsRows =
     (if rr_kind ref = Function then ''SELECT '' @ qualified_name (rr_name ref) @ parenArgs n
      else if returnsRows then ''{CALL '' @ qualified_name (rr_name ref) @ parenArgs n @ ''}''
      else ''EXEC '' @ qualified_name (rr_name ref) @ (if n = 0 then [] else '' '' @ csvArgs n))"

definition makeCallSql :: "routine_ref \<Rightarrow> nat \<Rightarrow> dialect \<Rightarrow> bool \<Rightarrow> status \<times> string" where
  "makeCallSql ref n d returnsRows =
     (if rr_name ref = [] then (badSpec ''sqlconduit::util: routine name is empty'', [])
      else
        (let name = quoteIdent (rr_name ref) d in
         case d of
           Auto \<Rightarrow> (no_dialect (rr_dataSource ref), [])
         | MySQL \<Rightarrow> (status_OK, ''CALL '' @ name @ parenArgs n)
         | Postgres \<Rightarrow>
             if rr_kind ref = Function
             then (status_OK, (if returnsRows then ''SELECT * FROM '' else ''SELECT '') @ name @ parenArgs n)
             else if returnsRows
             then (unsupported (''sqlconduit::util: postgres procedures cannot return a result set; '' @
                     ''use a function with makeCallSql''), [])
             else (status_OK, ''CALL '' @ name @ parenArgs n)
         | SqlServer \<Rightarrow> (status_OK, sqlserver_call ref n returnsRows)
         | Oracle \<Rightarrow>
             if rr_kind ref = Function
             then (status_OK, if returnsRows then ''SELECT * FROM TABLE('' @ name @ parenArgs n @ '')''
                              else ''SELECT '' @ name @ parenArgs n @ '' FROM DUAL'')
             else if returnsRows
             then (unsupported (''sqlconduit::util: oracle procedures can only return rows through a REF '' @
                     ''CURSOR OUT parameter, which makeCallSql cannot bind''), [])
             else (status_OK, ''BEGIN '' @ name @ parenArgs n @ ''; END;'')))"

text \<open>The checks of \<open>makeCallPlan\<close>, in order.\<close>

definition plan_error :: "routine_ref \<Rightarrow> call_param list \<Rightarrow> dialect \<Rightarrow> bool \<Rightarrow> status" where
  "plan_error ref ps d returnsRows =
     (let hasOut = hasOutParams ps in
      if rr_name ref = [] then badSpec ''sqlconduit::util: routine name is empty''
      else if d = Auto then no_dialect (rr_dataSource ref)
      else if d = SqlServer \<and> hasOut then
        unsupported (''sqlconduit::util: sqlserver OUT/INOUT parameters need DECLARE @var '' @
          ''<type> before EXEC ... OUTPUT, and Client cannot infer the type; return the '' @
          ''values as a result set instead'')
      else if d = Oracle \<and> hasOut then
        unsupported (''sqlconduit::util: Oracle output binds are executed through '' @
          ''Client::call()/util::call(), not represented by CallPlan'')
      else if d = Oracle \<and> rr_kind ref = Procedure \<and> returnsRows then
        unsupported (''sqlconduit::util: Oracle procedure result sets require a REF CURSOR '' @
          ''CallParam and Client::call()/util::call()'')
      else if d = Postgres \<and> rr_kind ref = Procedure \<and> returnsRows then
        unsupported (''sqlconduit::util: postgres procedures cannot return a result set; '' @
          ''use a function with makeCallSql'')
      else if d = Postgres \<and> rr_kind ref = Procedure \<and> hasOut then
        unsupported (''sqlconduit::util: postgres procedures do not hand OUT/INOUT '' @
          ''parameters back to the client; use a function with OUT parameters'')
      else if d = Postgres \<and> rr_kind ref = Function \<and> hasOut \<and> \<not> returnsRows then
        unsupported (''sqlconduit::util: postgres functions with OUT/INOUT parameters must '' @
          ''be called with returnsRows=true (SELECT * FROM f(...))'')
      else status_OK)"

text \<open>One turn of the loop over the parameters: the argument texts and the assignments of
  \<open>setParts\<close> so far, and the plan.\<close>

definition plan_param ::
  "dialect \<Rightarrow> nat \<times> call_param \<Rightarrow> string list \<times> string list \<times> call_plan \<Rightarrow> string list \<times> string list \<times> call_plan" where
  "plan_param d ip acc =
     (case (ip, acc) of ((i, p), (args, sets, pl)) \<Rightarrow>
        if cp_direction p = In then
          (args @ [''?''], sets, pl\<lparr>pl_callParams := pl_callParams pl @ [cp_value p]\<rparr>)
        else if d = Postgres then
          (if cp_direction p = InOut
           then (args @ [''?''], sets, pl\<lparr>pl_callParams := pl_callParams pl @ [cp_value p],
                   pl_outFromRowCount := Suc (pl_outFromRowCount pl)\<rparr>)
           else (args, sets, pl\<lparr>pl_outFromRowCount := Suc (pl_outFromRowCount pl)\<rparr>))
        else
          (let var = ''@'' @ outVarName i;
               pl1 = pl\<lparr>pl_outColumns := pl_outColumns pl @ [outVarName i]\<rparr>
           in if cp_direction p = InOut
              then (args @ [var], sets @ [var @ '' = ?''], pl1\<lparr>pl_preParams := pl_preParams pl1 @ [cp_value p]\<rparr>)
              else (args @ [var], sets, pl1)))"

definition plan_params :: "dialect \<Rightarrow> call_param list \<Rightarrow> string list \<times> string list \<times> call_plan" where
  "plan_params d ps = fold (plan_param d) (enumerate 0 ps) ([], [], empty_plan)"

definition makeCallPlan :: "routine_ref \<Rightarrow> call_param list \<Rightarrow> dialect \<Rightarrow> bool \<Rightarrow> status \<times> call_plan" where
  "makeCallPlan ref ps d returnsRows =
     (let st = plan_error ref ps d returnsRows; name = quoteIdent (rr_name ref) d in
      if \<not> status_ok st then (st, empty_plan)
      else (case plan_params d ps of (args, sets, pl) \<Rightarrow>
        case d of
          MySQL \<Rightarrow>
            (let pl1 = pl\<lparr>pl_callSql := ''CALL '' @ name @ ''('' @ join '', '' args @ '')'',
                          pl_preSql := (if sets = [] then [] else ''SET '' @ join '', '' sets)\<rparr>
             in (status_OK,
                 if pl_outColumns pl1 = [] then pl1
                 else pl1\<lparr>pl_fetchSql := ''SELECT '' @
                        join '', '' (map (\<lambda>c. ''@'' @ c @ '' AS '' @ c) (pl_outColumns pl1)),
                      pl_needsSameConnection := True\<rparr>))
        | Postgres \<Rightarrow> (status_OK, pl\<lparr>pl_callSql := ''SELECT * FROM '' @ name @ ''('' @ join '', '' args @ '')''\<rparr>)
        | SqlServer \<Rightarrow> (status_OK, pl\<lparr>pl_callSql := sqlserver_call ref (length args) returnsRows\<rparr>)
        | Oracle \<Rightarrow>
            (status_OK, pl\<lparr>pl_callSql :=
               (if rr_kind ref = Function then ''SELECT '' @ name @ parenArgs (length args) @ '' FROM DUAL''
                else ''BEGIN '' @ name @ parenArgs (length args) @ ''; END;'')\<rparr>)
        | Auto \<Rightarrow> (unsupported ''sqlconduit::util: unknown dialect'', pl)))"

text \<open>Values of output parameters, from the row of the variables or from the row of the call.\<close>

fun read_columns_of :: "row \<Rightarrow> nat \<Rightarrow> string list \<Rightarrow> status \<times> val list" where
  "read_columns_of r i [] = (status_OK, [])"
| "read_columns_of r i (n # ns) =
     (if row_has r n then apsnd ((#) (row_at r n)) (read_columns_of r (Suc i) ns)
      else if i < length r then apsnd ((#) (snd (r ! i))) (read_columns_of r (Suc i) ns)
      else (status_error QueryError (''sqlconduit::util: OUT parameter column '' @ quoted n @ '' is missing''), []))"

definition readOutParams :: "result_set \<Rightarrow> string list \<Rightarrow> status \<times> val list" where
  "readOutParams rs names =
     (if names = [] then (status_OK, [])
      else case rs_rows rs of
        [] \<Rightarrow> (status_error QueryError ''sqlconduit::util: OUT parameter fetch returned no row'', [])
      | r # _ \<Rightarrow> read_columns_of r 0 names)"

definition readOutParamsFromRow :: "result_set \<Rightarrow> nat \<Rightarrow> status \<times> val list" where
  "readOutParamsFromRow rs n =
     (if n = 0 then (status_OK, [])
      else case rs_rows rs of
        [] \<Rightarrow> (status_error QueryError (''sqlconduit::util: routine returned no row to read OUT/INOUT '' @
                ''parameters from''), [])
      | r # _ \<Rightarrow>
          if length (rs_fields rs) < n
          then (status_error QueryError (''sqlconduit::util: routine returned '' @ nat_to_string (length (rs_fields rs)) @
                  '' column(s), expected at least '' @ nat_to_string n @ '' for OUT/INOUT parameters''), [])
          else (status_OK, map (row_at r) (take n (rs_fields rs))))"

section \<open>Routines and indexes\<close>

definition makeDropRoutineSql :: "routine_ref \<Rightarrow> 'z drop_routine_options_scheme \<Rightarrow> dialect \<Rightarrow> status \<times> string" where
  "makeDropRoutineSql ref opts d =
     (if rr_name ref = [] then (badSpec ''sqlconduit::util: routine name is empty'', [])
      else if d = Auto then (no_dialect (rr_dataSource ref), [])
      else if dr_cascade opts \<and> d \<noteq> Postgres then
        (unsupported (''sqlconduit::util: DROP ... CASCADE is only supported by postgres (dialect='' @
           dialectName d @ '')''), [])
      else
        (let s = ''DROP '' @ (if rr_kind ref = Function then ''FUNCTION'' else ''PROCEDURE'') @
               (if dr_ifExists opts \<and> d \<noteq> Oracle then '' IF EXISTS'' else []) @ '' '' @ quoteIdent (rr_name ref) d @
               (if dr_cascade opts then '' CASCADE'' else [])
         in (status_OK,
             if dr_ifExists opts \<and> d = Oracle
             then ''BEGIN EXECUTE IMMEDIATE '' @ quoteStringLiteral s @
               ''; EXCEPTION WHEN OTHERS THEN IF SQLCODE != -4043 THEN RAISE; END IF; END;''
             else s)))"

definition makeCreateIndexSql :: "index_spec \<Rightarrow> dialect \<Rightarrow> status \<times> string" where
  "makeCreateIndexSql spec d =
     (if d = Auto then (unsupported (''sqlconduit::util: cannot detect dialect for datasource; '' @
        ''pass Dialect explicitly''), [])
      else if is_table spec = [] \<or> is_name spec = [] then
        (badSpec ''sqlconduit::util: index spec requires both table and name'', [])
      else if is_columns spec = [] then
        (badSpec ''sqlconduit::util: index spec requires at least one column'', [])
      else if is_ifNotExists spec \<and> d \<noteq> Postgres then
        (unsupported (''sqlconduit::util: CREATE INDEX IF NOT EXISTS is only supported by '' @
           ''postgres (dialect='' @ dialectName d @ '')''), [])
      else if is_concurrent spec \<and> d \<noteq> Postgres then
        (unsupported (''sqlconduit::util: CREATE INDEX CONCURRENTLY is only supported by '' @
           ''postgres (dialect='' @ dialectName d @ '')''), [])
      else if is_usingMethod spec \<noteq> [] \<and> (d = SqlServer \<or> d = Oracle) then
        (unsupported (''sqlconduit::util: dialect='' @ dialectName d @ '' has no USING clause for CREATE INDEX''), [])
      else
        (status_OK,
         ''CREATE '' @ (if is_unique spec then ''UNIQUE '' else []) @ ''INDEX '' @
         (if is_concurrent spec then ''CONCURRENTLY '' else []) @
         (if is_ifNotExists spec then ''IF NOT EXISTS '' else []) @
         quoteIdent (is_name spec) d @ '' ON '' @ quoteIdent (is_table spec) d @
         (if d = Postgres \<and> is_usingMethod spec \<noteq> [] then '' USING '' @ is_usingMethod spec else []) @
         '' ('' @ join '', '' (is_columns spec) @ '')'' @
         (if d = MySQL \<and> is_usingMethod spec \<noteq> [] then '' USING '' @ is_usingMethod spec else []) @
         (if is_options spec \<noteq> [] then '' '' @ is_options spec else [])))"

definition makeDropIndexSql :: "string \<Rightarrow> string \<Rightarrow> bool \<Rightarrow> dialect \<Rightarrow> status \<times> string" where
  "makeDropIndexSql table name ifExists d =
     (if d = Auto then (unsupported (''sqlconduit::util: cannot detect dialect for datasource; '' @
        ''pass Dialect explicitly''), [])
      else if table = [] \<or> name = [] then
        (badSpec ''sqlconduit::util: dropIndex requires both table and name'', [])
      else
        (status_OK,
         ''DROP INDEX '' @ (if ifExists then ''IF EXISTS '' else []) @ quoteIdent name d @
         (if d \<noteq> Postgres \<and> d \<noteq> Oracle then '' ON '' @ quoteIdent table d else [])))"

end
