(* ===== verification/UtilScript.thy ===== *)
theory UtilScript
  imports UtilSql Session
begin

text \<open>
  The operations of \<open>sqlconduit/util.h\<close> that talk to a client or a session: data definition under the
  request scope, stored routine calls, and scripts with the splitter that cuts them into statements.
  Files and directories are parameters: a file is read as \<^typ>\<open>string option\<close>, walking a directory
  gives its regular files and the error it ended with, if any.
\<close>

section \<open>Data definition\<close>

definition exec_scope :: "'z exec_options_scheme \<Rightarrow> sql_context list \<Rightarrow> sql_context list" where
  "exec_scope opts stack =
     (let c0 = current_context stack;
          c1 = (if eo_forcePrimary opts then c0\<lparr>shadow := False\<rparr> else c0);
          c2 = (if eo_idempotency opts \<noteq> Unspecified then c1\<lparr>idempotency := eo_idempotency opts\<rparr> else c1)
      in snd (enter_scope c2 stack))"

definition runDdl ::
  "('w, 'x, 'r) ds_methods \<Rightarrow> sql_context list \<Rightarrow> 'z exec_options_scheme \<Rightarrow> ('v, 'w, 'r) client option \<Rightarrow>
   string \<Rightarrow> 'w \<Rightarrow> status \<times> 'w" where
  "runDdl d stack opts impl sql w =
     apfst fst (client_execute d (exec_scope opts stack) (eo_dataSource opts) sql [] impl w)"

definition validateCreateRoutine :: "bool \<Rightarrow> bool \<Rightarrow> dialect \<Rightarrow> status" where
  "validateCreateRoutine replace ifNotExists d =
     (if ifNotExists then
        unsupported (''sqlconduit::util: CREATE ROUTINE IF NOT EXISTS is supported by '' @
          ''no dialect in this matrix; drop first, then create'')
      else if replace \<and> d \<noteq> Postgres \<and> d \<noteq> Oracle then
        unsupported (''sqlconduit::util: CREATE OR REPLACE is only supported by '' @
          ''postgres and oracle (dialect='' @ dialectName d @ '')'')
      else status_OK)"

definition createRoutine ::
  "('w, 'x, 'r) ds_methods \<Rightarrow> sql_context list \<Rightarrow> 'z create_routine_options_scheme \<Rightarrow> ('v, 'w, 'r) client option \<Rightarrow>
   string \<Rightarrow> 'w \<Rightarrow> status \<times> 'w" where
  "createRoutine d stack opts impl sql w =
     (if sql = [] then (badSpec ''sqlconduit::util: createRoutine sql is empty'', w)
      else
        (let st = validateCreateRoutine (cr_replace opts) (cr_ifNotExists opts) (resolveDialect stack impl opts)
         in if \<not> status_ok st then (st, w)
            else runDdl d stack opts impl
                   (if cr_stripDelimiter opts then snd (stripDelimiterDirectives sql) else sql) w))"

text \<open>An option without a data source takes the one of the routine.\<close>

definition with_source :: "routine_ref \<Rightarrow> 'z exec_options_scheme \<Rightarrow> 'z exec_options_scheme" where
  "with_source ref opts =
     (if eo_dataSource opts = [] then opts\<lparr>eo_dataSource := rr_dataSource ref\<rparr> else opts)"

definition dropRoutine ::
  "('w, 'x, 'r) ds_methods \<Rightarrow> sql_context list \<Rightarrow> 'z drop_routine_options_scheme \<Rightarrow> ('v, 'w, 'r) client option \<Rightarrow>
   routine_ref \<Rightarrow> 'w \<Rightarrow> status \<times> 'w" where
  "dropRoutine d stack opts impl ref w =
     (let opts1 = with_source ref opts in
      case makeDropRoutineSql ref opts1 (resolveDialect stack impl opts1) of
        (st, sql) \<Rightarrow> if \<not> status_ok st then (st, w) else runDdl d stack opts1 impl sql w)"

definition createIndex ::
  "('w, 'x, 'r) ds_methods \<Rightarrow> sql_context list \<Rightarrow> int \<Rightarrow> 'z exec_options_scheme \<Rightarrow> ('v, 'w, 'r) client option \<Rightarrow>
   index_spec \<Rightarrow> 'w \<Rightarrow> status \<times> 'w" where
  "createIndex d stack txDepth opts impl spec w =
     (case makeCreateIndexSql spec (resolveDialect stack impl opts) of
        (st, sql) \<Rightarrow>
          if \<not> status_ok st then (st, w)
          else if is_concurrent spec \<and> txDepth > 0 then
            (status_error TxError (''sqlconduit::util: CREATE INDEX CONCURRENTLY cannot run inside a '' @
               ''transaction block''), w)
          else runDdl d stack opts impl sql w)"

definition createIndexSql ::
  "('w, 'x, 'r) ds_methods \<Rightarrow> sql_context list \<Rightarrow> 'z exec_options_scheme \<Rightarrow> ('v, 'w, 'r) client option \<Rightarrow>
   string \<Rightarrow> 'w \<Rightarrow> status \<times> 'w" where
  "createIndexSql d stack opts impl sql w =
     (if sql = [] then (badSpec ''sqlconduit::util: createIndexSql sql is empty'', w)
      else runDdl d stack opts impl sql w)"

definition dropIndex ::
  "('w, 'x, 'r) ds_methods \<Rightarrow> sql_context list \<Rightarrow> 'z drop_index_options_scheme \<Rightarrow> ('v, 'w, 'r) client option \<Rightarrow>
   string \<Rightarrow> string \<Rightarrow> 'w \<Rightarrow> status \<times> 'w" where
  "dropIndex d stack opts impl table name w =
     (case makeDropIndexSql table name (di_ifExists opts) (resolveDialect stack impl opts) of
        (st, sql) \<Rightarrow> if \<not> status_ok st then (st, w) else runDdl d stack opts impl sql w)"

section \<open>The script splitter\<close>

text \<open>First pass: literals and comments. One step tells whether the character is protected, whether
  the next one goes with it, and the mode after them.\<close>

datatype scan_mode = PlainText | InString | InName | InLine | InBlock

definition next_char :: "string \<Rightarrow> char option" where
  "next_char s = (case s of [] \<Rightarrow> None | c # _ \<Rightarrow> Some c)"

definition quote_step :: "char \<Rightarrow> scan_mode \<Rightarrow> char \<Rightarrow> char option \<Rightarrow> bool \<times> bool \<times> scan_mode" where
  "quote_step q m c nx =
     (if c = q then (if nx = Some q then (True, True, m) else (True, False, PlainText)) else (True, False, m))"

fun protect_step :: "scan_mode \<Rightarrow> char \<Rightarrow> char option \<Rightarrow> bool \<times> bool \<times> scan_mode" where
  "protect_step InLine c nx = (True, False, if c = newline then PlainText else InLine)"
| "protect_step InBlock c nx =
     (if c = CHR ''*'' \<and> nx = Some (CHR ''/'') then (True, True, PlainText) else (True, False, InBlock))"
| "protect_step InString c nx = quote_step squote InString c nx"
| "protect_step InName c nx = quote_step dquote InName c nx"
| "protect_step PlainText c nx =
     (if c = CHR ''-'' \<and> nx = Some (CHR ''-'') then (True, True, InLine)
      else if c = CHR ''#'' then (True, False, InLine)
      else if c = CHR ''/'' \<and> nx = Some (CHR ''*'') then (True, True, InBlock)
      else if c = squote then (True, False, InString)
      else if c = dquote then (True, False, InName)
      else (False, False, PlainText))"

fun protect_scan :: "scan_mode \<Rightarrow> string \<Rightarrow> bool list \<times> scan_mode" where
  "protect_scan m [] = ([], m)"
| "protect_scan m (c # cs) =
     (case protect_step m c (next_char cs) of
        (p, two, m') \<Rightarrow>
          apfst ((@) (if two then [p, p] else [p])) (protect_scan m' (if two then tl cs else cs)))"

text \<open>Second pass: the blocks of compound statements. The stack holds the kind of an open block and
  the position after its keyword.\<close>

datatype blk = B_BEGIN | B_CASE | B_IF | B_LOOP | B_WHILE | B_REPEAT

definition block_opener :: "string \<Rightarrow> blk option" where
  "block_opener w =
     (if w = ''begin'' then Some B_BEGIN else if w = ''case'' then Some B_CASE
      else if w = ''if'' then Some B_IF else if w = ''loop'' then Some B_LOOP
      else if w = ''while'' then Some B_WHILE else if w = ''repeat'' then Some B_REPEAT else None)"

definition protect_range :: "nat \<Rightarrow> nat \<Rightarrow> bool list \<Rightarrow> bool list" where
  "protect_range a b prot = map (\<lambda>(k, p). p \<or> (a \<le> k \<and> k \<le> b)) (enumerate 0 prot)"

definition block_word ::
  "string \<Rightarrow> nat \<Rightarrow> bool list \<Rightarrow> (blk \<times> nat) list \<Rightarrow> bool list \<times> (blk \<times> nat) list" where
  "block_word w j prot stk =
     (case block_opener (lower w) of
        Some b \<Rightarrow> (prot, (b, j) # stk)
      | None \<Rightarrow>
          if lower w = ''end'' then
            (case stk of [] \<Rightarrow> (prot, []) | (b, a) # r \<Rightarrow> (protect_range a j prot, r))
          else (prot, stk))"

function block_scan ::
  "nat \<Rightarrow> string \<Rightarrow> bool list \<Rightarrow> (blk \<times> nat) list \<Rightarrow> bool list \<times> (blk \<times> nat) list" where
  "block_scan i s prot stk =
     (case s of
        [] \<Rightarrow> (prot, stk)
      | c # cs \<Rightarrow>
          if prot ! i \<or> \<not> is_ident c then block_scan (Suc i) cs prot stk
          else
            (let w = takeWhile is_ident s; j = i + length w
             in case block_word w j prot stk of
                  (prot', stk') \<Rightarrow> block_scan j (dropWhile is_ident s) prot' stk'))"
  by pat_completeness auto
termination
proof (relation "measure (\<lambda>(i, s, prot, stk). length s)", goal_cases)
  case (3 i s prot stk c cs)
  then show ?case using length_dropWhile_le [of is_ident cs] by (simp add: le_imp_less_Suc)
qed simp_all

declare block_scan.simps [simp del]

text \<open>Third pass: cut at the semicolons that are not protected and drop blank pieces.\<close>

definition statement_of :: "string \<Rightarrow> string list" where
  "statement_of s = (let t = trim s in if t = [] then [] else [t])"

fun cut_statements :: "string \<Rightarrow> string \<Rightarrow> bool list \<Rightarrow> string list" where
  "cut_statements cur [] prot = statement_of cur"
| "cut_statements cur (c # cs) prot =
     (if c = CHR '';'' \<and> \<not> hd prot then statement_of cur @ cut_statements [] cs (tl prot)
      else cut_statements (cur @ [c]) cs (tl prot))"

definition splitSqlScript :: "string \<Rightarrow> string list" where
  "splitSqlScript sql =
     cut_statements [] sql (fst (block_scan 0 sql (fst (protect_scan PlainText sql)) []))"

section \<open>Scripts\<close>

record script_options = exec_options +
  so_recursive :: bool
  so_extension :: string
  so_stopOnError :: bool

record script_result =
  sr_path :: string
  sr_status :: status
  sr_statements :: nat
  sr_executed :: nat

fun run_statements ::
  "(string \<Rightarrow> 'w \<Rightarrow> status \<times> 'w) \<Rightarrow> bool \<Rightarrow> nat \<Rightarrow> status \<Rightarrow> string list \<Rightarrow> 'w \<Rightarrow> (status \<times> nat) \<times> 'w" where
  "run_statements run stop executed lastErr [] w = ((lastErr, executed), w)"
| "run_statements run stop executed lastErr (s # ss) w =
     (case run s w of
        (st, w') \<Rightarrow>
          if \<not> status_ok st then
            (if stop then ((st, executed), w') else run_statements run stop executed st ss w')
          else run_statements run stop (Suc executed) lastErr ss w')"

definition runScriptText ::
  "('w, 'x, 'r) ds_methods \<Rightarrow> sql_context list \<Rightarrow> 'z script_options_scheme \<Rightarrow> ('v, 'w, 'r) client option \<Rightarrow>
   string \<Rightarrow> 'w \<Rightarrow> (status \<times> nat) \<times> 'w" where
  "runScriptText d stack opts impl sql w =
     run_statements (runDdl d stack opts impl) (so_stopOnError opts) 0 status_OK (splitSqlScript sql) w"

definition unreadable :: "string \<Rightarrow> status" where
  "unreadable f = status_error IoError (''sqlconduit::util: cannot read file: '' @ f)"

text \<open>The loop over the files: the results so far and the last error, \<open>anyFail\<close> being whether there
  was one.\<close>

fun run_files ::
  "(string \<Rightarrow> string option) \<Rightarrow> (string \<Rightarrow> 'w \<Rightarrow> (status \<times> nat) \<times> 'w) \<Rightarrow> bool \<Rightarrow> status option \<Rightarrow> string list \<Rightarrow>
   'w \<Rightarrow> (status \<times> script_result list) \<times> 'w" where
  "run_files readSqlFile run stop lastErr [] w = ((case lastErr of Some e \<Rightarrow> e | None \<Rightarrow> status_OK, []), w)"
| "run_files readSqlFile run stop lastErr (f # fs) w =
     (case readSqlFile f of
        None \<Rightarrow>
          (let r = \<lparr>sr_path = f, sr_status = unreadable f, sr_statements = 0, sr_executed = 0\<rparr>
           in if stop then ((unreadable f, [r]), w)
              else apfst (apsnd ((#) r)) (run_files readSqlFile run stop (Some (unreadable f)) fs w))
      | Some content \<Rightarrow>
          (case run content w of
             ((st, executed), w') \<Rightarrow>
               (let r = \<lparr>sr_path = f, sr_status = st, sr_statements = length (splitSqlScript content),
                         sr_executed = executed\<rparr>
                in if \<not> status_ok st
                   then (if stop then ((st, [r]), w')
                         else apfst (apsnd ((#) r)) (run_files readSqlFile run stop (Some st) fs w'))
                   else apfst (apsnd ((#) r)) (run_files readSqlFile run stop lastErr fs w'))))"

definition runScripts ::
  "(string \<Rightarrow> string option) \<Rightarrow> ('w, 'x, 'r) ds_methods \<Rightarrow> sql_context list \<Rightarrow> 'z script_options_scheme \<Rightarrow>
   ('v, 'w, 'r) client option \<Rightarrow> string list \<Rightarrow> 'w \<Rightarrow> (status \<times> script_result list) \<times> 'w" where
  "runScripts readSqlFile d stack opts impl files w =
     run_files readSqlFile (runScriptText d stack opts impl) (so_stopOnError opts) None files w"

definition endsWith :: "string \<Rightarrow> string \<Rightarrow> bool" where
  "endsWith s e \<longleftrightarrow> length e \<le> length s \<and> drop (length s - length e) s = e"

record directories =
  fs_exists :: "string \<Rightarrow> bool"
  fs_walk :: "bool \<Rightarrow> string \<Rightarrow> string list \<times> string option"
  fs_read :: "string \<Rightarrow> string option"

definition collect :: "'z script_options_scheme \<Rightarrow> string list \<Rightarrow> string list" where
  "collect opts paths =
     filter (\<lambda>p. endsWith p (if so_extension opts = [] then ''.sql'' else so_extension opts)) paths"

definition runScriptsInDir ::
  "directories \<Rightarrow> ('w, 'x, 'r) ds_methods \<Rightarrow> sql_context list \<Rightarrow> 'z script_options_scheme \<Rightarrow>
   ('v, 'w, 'r) client option \<Rightarrow> string \<Rightarrow> 'w \<Rightarrow> (status \<times> script_result list) \<times> 'w" where
  "runScriptsInDir fs d stack opts impl dir w =
     (if \<not> fs_exists fs dir then
        ((status_error IoError (''sqlconduit::util: directory not found: '' @ dir), []), w)
      else case fs_walk fs (so_recursive opts) dir of
        (paths, Some e) \<Rightarrow>
          ((status_error IoError (''sqlconduit::util: failed to walk directory '' @ dir @ '': '' @ e), []), w)
      | (paths, None) \<Rightarrow> runScripts (fs_read fs) d stack opts impl (sort (collect opts paths)) w)"

section \<open>Routine calls\<close>

record call_output =
  ou_sets :: "result_set list"
  ou_outParams :: "val list"
  ou_affected :: int

definition empty_output :: call_output where
  "empty_output = \<lparr>ou_sets = [], ou_outParams = [], ou_affected = 0\<rparr>"

text \<open>What the calls of a client return and take here.\<close>

datatype util_out = OutRows result_set | OutSets "result_set list" | OutAffected int | OutNative call_output

datatype util_arg = CallArgs "call_param list" | OnRow nat

definition sets_of :: "util_out option \<Rightarrow> result_set list" where
  "sets_of r = (case r of Some (OutSets s) \<Rightarrow> s | _ \<Rightarrow> [])"

definition affected_of :: "util_out option \<Rightarrow> int" where
  "affected_of r = (case r of Some (OutAffected n) \<Rightarrow> n | _ \<Rightarrow> 0)"

definition native_of :: "util_out option \<Rightarrow> call_output" where
  "native_of r = (case r of Some (OutNative c) \<Rightarrow> c | _ \<Rightarrow> empty_output)"

record call_result =
  ca_status :: status
  ca_sets :: "result_set list"
  ca_affected :: int
  ca_outParams :: "val list"

definition failed_call :: "status \<Rightarrow> call_result" where
  "failed_call st = \<lparr>ca_status = st, ca_sets = [], ca_affected = 0, ca_outParams = []\<rparr>"

definition native_result :: "status \<Rightarrow> call_output \<Rightarrow> call_result" where
  "native_result st c =
     \<lparr>ca_status = st, ca_sets = ou_sets c, ca_affected = ou_affected c, ca_outParams = ou_outParams c\<rparr>"

definition firstSet :: "call_result \<Rightarrow> result_set option" where
  "firstSet r = (case ca_sets r of [] \<Rightarrow> None | s # _ \<Rightarrow> Some s)"

definition call_rowCount :: "call_result \<Rightarrow> nat" where
  "call_rowCount r = sum_list (map (\<lambda>s. length (rs_rows s)) (ca_sets r))"

definition no_ref_cursor :: "call_param list \<Rightarrow> bool \<Rightarrow> bool" where
  "no_ref_cursor ps returnsRows \<longleftrightarrow> returnsRows \<and> \<not> list_ex (\<lambda>p. cp_type p = TRefCursor) ps"

definition ref_cursor_error :: status where
  "ref_cursor_error = unsupported (''sqlconduit::util: returnsRows=true for an Oracle procedure '' @
     ''requires CallParam::refCursor()'')"

definition oracle_call_block :: "routine_ref \<Rightarrow> dialect \<Rightarrow> call_param list \<Rightarrow> string" where
  "oracle_call_block ref d ps = ''BEGIN '' @ quoteIdent (rr_name ref) d @ parenArgs (length ps) @ ''; END;''"

text \<open>The values that a row of the result carries.\<close>

definition out_of_row :: "call_plan \<Rightarrow> call_result \<Rightarrow> call_result" where
  "out_of_row plan r =
     (if 0 < pl_outFromRowCount plan \<and> ca_sets r \<noteq> []
      then (case readOutParamsFromRow (hd (ca_sets r)) (pl_outFromRowCount plan) of
              (st, vs) \<Rightarrow> r\<lparr>ca_status := st, ca_outParams := vs\<rparr>)
      else r)"

definition util_call ::
  "('w, util_arg, util_out) ds_methods \<Rightarrow> sql_context list \<Rightarrow> 'z call_options_scheme \<Rightarrow>
   ('v, 'w, util_out) client option \<Rightarrow> routine_ref \<Rightarrow> call_param list \<Rightarrow> 'w \<Rightarrow> call_result \<times> 'w" where
  "util_call d stack opts impl ref ps w =
     (let opts1 = with_source ref opts;
          dl = resolveDialect stack impl opts1;
          frames = exec_scope opts1 stack;
          src = eo_dataSource opts1
      in if dl = Oracle \<and> rr_kind ref = Procedure then
           (if no_ref_cursor ps (co_returnsRows opts1) then (failed_call ref_cursor_error, w)
            else case client_call d frames src (oracle_call_block ref dl ps) (CallArgs ps) impl w of
              ((st, r), w') \<Rightarrow> (native_result st (native_of r), w'))
         else case makeCallPlan ref ps dl (co_returnsRows opts1) of
           (st, plan) \<Rightarrow>
             if \<not> status_ok st then (failed_call st, w)
             else if pl_needsSameConnection plan then
               (failed_call (unsupported (''sqlconduit::util: OUT/INOUT parameters on dialect='' @ dialectName dl @
                  '' must run on one connection; use the core::Session overload'')), w)
             else if co_returnsRows opts1 then
               (case client_queryAll d frames src (pl_callSql plan) (pl_callParams plan) impl w of
                  ((st, r), w') \<Rightarrow>
                    (let res = (failed_call st)\<lparr>ca_sets := sets_of r\<rparr>
                     in (if status_ok st then out_of_row plan res else res, w')))
             else
               (case client_execute d frames src (pl_callSql plan) (pl_callParams plan) impl w of
                  ((st, r), w') \<Rightarrow>
                    (let res = (failed_call st)\<lparr>ca_affected := affected_of r\<rparr>
                     in (if status_ok st then out_of_row plan res else res, w'))))"

text \<open>The overloads for statement texts only open the scope.\<close>

definition util_call_sql where
  "util_call_sql d stack opts impl sql ps w =
     client_execute d (exec_scope opts stack) (eo_dataSource opts) sql ps impl w"

definition callQuery where
  "callQuery d stack opts impl sql ps w =
     client_query d (exec_scope opts stack) (eo_dataSource opts) sql ps impl w"

definition callEach where
  "callEach d stack opts impl sql ps cb w =
     client_queryEach d (exec_scope opts stack) (eo_dataSource opts) sql ps cb impl w"

section \<open>Routine calls on a session\<close>

record 'c call_ops = "'c sess_ops" +
  op_queryAll :: "string \<Rightarrow> params \<Rightarrow> 'c \<Rightarrow> status \<times> result_set list \<times> 'c"
  op_call :: "string \<Rightarrow> call_param list \<Rightarrow> 'c \<Rightarrow> status \<times> call_output \<times> 'c"

definition session_queryAll ::
  "('c, 'z) call_ops_scheme \<Rightarrow> string \<Rightarrow> params \<Rightarrow> 'c session \<Rightarrow> status \<times> result_set list \<times> 'c session" where
  "session_queryAll d sql ps s = run_statement OpQuery False sql (op_queryAll d sql ps) [] s"

definition session_call ::
  "('c, 'z) call_ops_scheme \<Rightarrow> string \<Rightarrow> call_param list \<Rightarrow> 'c session \<Rightarrow> status \<times> call_output \<times> 'c session" where
  "session_call d sql ps s = run_statement OpExecute True sql (op_call d sql ps) empty_output s"

text \<open>The call itself, after the variables of input and output parameters are set.\<close>

definition run_call ::
  "bool \<Rightarrow> ('c, 'z) call_ops_scheme \<Rightarrow> bool \<Rightarrow> call_plan \<Rightarrow> 'c session \<Rightarrow> call_result \<times> 'c session" where
  "run_call cacheOn d returnsRows plan s =
     (if returnsRows
      then (case session_queryAll d (pl_callSql plan) (pl_callParams plan) s of
              (st, sets, s') \<Rightarrow> ((failed_call st)\<lparr>ca_sets := sets\<rparr>, s'))
      else (case session_execute_params cacheOn d (pl_callSql plan) (pl_callParams plan) 0 s of
              (st, n, s') \<Rightarrow> ((failed_call st)\<lparr>ca_affected := n\<rparr>, s')))"

definition fetch_out ::
  "('c, 'z) call_ops_scheme \<Rightarrow> call_plan \<Rightarrow> call_result \<Rightarrow> 'c session \<Rightarrow> call_result \<times> 'c session" where
  "fetch_out d plan r s =
     (if pl_fetchSql plan = [] then (r, s)
      else case session_query d (pl_fetchSql plan) s of
        (st, rs, s') \<Rightarrow>
          if \<not> status_ok st then (r\<lparr>ca_status := st\<rparr>, s')
          else (case readOutParams rs (pl_outColumns plan) of
                  (st', vs) \<Rightarrow> (r\<lparr>ca_status := st', ca_outParams := vs\<rparr>, s')))"

definition session_util_call ::
  "bool \<Rightarrow> ('c, 'z) call_ops_scheme \<Rightarrow> sql_context list \<Rightarrow> 'y call_options_scheme \<Rightarrow> ('v, 'w, 'r) client option \<Rightarrow>
   routine_ref \<Rightarrow> call_param list \<Rightarrow> 'c session \<Rightarrow> call_result \<times> 'c session" where
  "session_util_call cacheOn d stack opts impl ref ps s =
     (let dl = (if eo_dialect opts \<noteq> Auto then eo_dialect opts
                else detectDialect stack impl (if eo_dataSource opts = [] then rr_dataSource ref else eo_dataSource opts))
      in if dl = Oracle \<and> rr_kind ref = Procedure then
           (if no_ref_cursor ps (co_returnsRows opts) then (failed_call ref_cursor_error, s)
            else case session_call d (oracle_call_block ref dl ps) ps s of
              (st, c, s') \<Rightarrow> (native_result st c, s'))
         else case makeCallPlan ref ps dl (co_returnsRows opts) of
           (st, plan) \<Rightarrow>
             if \<not> status_ok st then (failed_call st, s)
             else
               (case (if pl_preSql plan = [] then (status_OK, 0, s)
                      else session_execute_params cacheOn d (pl_preSql plan) (pl_preParams plan) 0 s) of
                  (st0, _, s0) \<Rightarrow>
                    if \<not> status_ok st0 then (failed_call st0, s0)
                    else case run_call cacheOn d (co_returnsRows opts) plan s0 of
                      (r, s1) \<Rightarrow>
                        if \<not> status_ok (ca_status r) then (r, s1)
                        else (let r' = out_of_row plan r
                              in if \<not> status_ok (ca_status r') then (r', s1) else fetch_out d plan r' s1)))"

end
