(* ===== verification/UtilProps.thy ===== *)
theory UtilProps
  imports UtilScript
begin

text \<open>
  Properties of the utilities: what a script is cut into and what of it is run, that names stay names,
  that plans of calls bind as many values as they have placeholders, and what the scope of data
  definition guarantees.
\<close>

section \<open>The splitter loses nothing\<close>

lemma filter_trim: "(\<And>c. P c \<Longrightarrow> \<not> is_space c) \<Longrightarrow> filter P (trim s) = filter P s"
proof -
  assume P: "\<And>c. P c \<Longrightarrow> \<not> is_space c"
  have d: "filter P (dropWhile is_space t) = filter P t" for t
    by (induction t) (auto dest: P)
  show ?thesis by (simp add: trim_def rev_filter [symmetric] d)
qed

lemma concat_statement_of:
  "(\<And>c. P c \<Longrightarrow> \<not> is_space c) \<Longrightarrow> filter P (concat (statement_of s)) = filter P s"
  using filter_trim [of P s] by (simp add: statement_of_def Let_def) (metis filter.simps(1))

lemma cut_statements_conserve:
  "(\<And>c. P c \<Longrightarrow> \<not> is_space c) \<Longrightarrow> \<not> P (CHR '';'') \<Longrightarrow>
   filter P (concat (cut_statements cur s prot)) = filter P (cur @ s)"
proof (induction cur s prot rule: cut_statements.induct)
  case (1 cur prot)
  then show ?case by (simp add: concat_statement_of)
next
  case (2 cur c cs prot)
  then show ?case by (auto simp: concat_statement_of)
qed

lemma statement_of_trimmed: "t \<in> set (statement_of s) \<Longrightarrow> t \<noteq> [] \<and> \<not> is_space (hd t) \<and> \<not> is_space (last t)"
proof -
  assume "t \<in> set (statement_of s)"
  then have t: "t = trim s" "t \<noteq> []" by (auto simp: statement_of_def Let_def split: if_splits)
  let ?u = "dropWhile is_space s"
  from t obtain u where u: "rev t = dropWhile is_space (rev ?u)" "rev t \<noteq> []" by (simp add: trim_def)
  then have "\<not> is_space (last t)" by (metis hd_dropWhile hd_rev)
  moreover obtain v where "?u = t @ v"
    using u by (metis append_eq_append_conv2 dropWhile_eq_drop rev_append rev_rev_ident takeWhile_dropWhile_id)
  then have "hd t = hd ?u" "?u \<noteq> []" using t(2) by auto
  then have "\<not> is_space (hd t)" by (simp add: hd_dropWhile)
  ultimately show ?thesis using t by simp
qed

lemma cut_statements_trimmed:
  "t \<in> set (cut_statements cur s prot) \<Longrightarrow> t \<noteq> [] \<and> \<not> is_space (hd t) \<and> \<not> is_space (last t)"
proof (induction cur s prot rule: cut_statements.induct)
  case (1 cur prot)
  then show ?case by (metis cut_statements.simps(1) statement_of_trimmed)
next
  case (2 cur c cs prot)
  show ?case
  proof (cases "c = CHR '';'' \<and> \<not> hd prot")
    case True
    with 2 show ?thesis using statement_of_trimmed [of t cur] by auto
  next
    case False
    with 2 show ?thesis by auto
  qed
qed

text \<open>Splitting a script loses nothing and adds nothing: the statements hold, in order, exactly the
  characters of the script that are neither blank nor a semicolon, and none of them is blank or starts
  or ends with white space.\<close>

theorem split_conserves:
  "filter (\<lambda>c. \<not> is_space c \<and> c \<noteq> CHR '';'') (concat (splitSqlScript sql)) =
     filter (\<lambda>c. \<not> is_space c \<and> c \<noteq> CHR '';'') sql \<and>
   list_all (\<lambda>t. t \<noteq> [] \<and> \<not> is_space (hd t) \<and> \<not> is_space (last t)) (splitSqlScript sql)"
proof -
  have "filter (\<lambda>c. \<not> is_space c \<and> c \<noteq> CHR '';'') (concat (splitSqlScript sql)) =
     filter (\<lambda>c. \<not> is_space c \<and> c \<noteq> CHR '';'') sql"
    unfolding splitSqlScript_def by (subst cut_statements_conserve) simp_all
  moreover have "list_all (\<lambda>t. t \<noteq> [] \<and> \<not> is_space (hd t) \<and> \<not> is_space (last t)) (splitSqlScript sql)"
    unfolding splitSqlScript_def list_all_iff using cut_statements_trimmed by blast
  ultimately show ?thesis ..
qed

section \<open>Whole statements\<close>

lemma protect_step_semicolon: "protect_step m c (Some (CHR '';'')) = protect_step m c None"
  by (cases m) (auto simp: quote_step_def)

lemma protect_step_two: "protect_step m c nx = (p, True, m') \<Longrightarrow> nx \<noteq> None"
  by (cases m) (auto simp: quote_step_def split: if_splits)

lemma apfst_append_Nil: "apfst ((@) []) x = x"
  by (cases x) simp

lemma protect_scan_append:
  "protect_scan m s = (ps, m') \<Longrightarrow>
   protect_scan m (s @ CHR '';'' # t) = apfst ((@) ps) (protect_scan m' (CHR '';'' # t))"
proof (induction m s arbitrary: ps rule: protect_scan.induct)
  case (2 m c cs)
  obtain p two m1 where st: "protect_step m c (next_char cs) = (p, two, m1)" by (metis prod_cases3)
  have nx: "protect_step m c (next_char (cs @ CHR '';'' # t)) = protect_step m c (next_char cs)"
    by (cases cs) (simp_all add: next_char_def protect_step_semicolon)
  have tl: "tl (cs @ CHR '';'' # t) = tl cs @ CHR '';'' # t" if two
    using protect_step_two [of m c "next_char cs" p m1] st that by (cases cs) (auto simp: next_char_def)
  obtain ps1 where "protect_scan m1 (if two then tl cs else cs) = (ps1, m')"
    and ps: "ps = (if two then [p, p] else [p]) @ ps1"
    using 2(2) st by (cases "protect_scan m1 (if two then tl cs else cs)") auto
  then have "protect_scan m1 ((if two then tl cs else cs) @ CHR '';'' # t) = apfst ((@) ps1) (protect_scan m' (CHR '';'' # t))"
    using 2(1) [OF st [symmetric] refl] by blast
  then show ?case using st nx tl ps by (cases two) (simp_all add: apfst_compose comp_def)
qed (simp only: protect_scan.simps(1) append_Nil prod.inject apfst_append_Nil)

lemma protect_scan_length: "length (fst (protect_scan m s)) = length s"
proof (induction m s rule: protect_scan.induct)
  case (2 m c cs)
  obtain p two m1 where st: "protect_step m c (next_char cs) = (p, two, m1)" by (metis prod_cases3)
  with 2 [OF st [symmetric] refl] protect_step_two [of m c "next_char cs" p m1] show ?case
    by (cases cs; cases two) (auto simp: next_char_def)
qed simp

lemma protect_range_length [simp]: "length (protect_range a b ps) = length ps"
  by (simp add: protect_range_def)

lemma protect_range_nth: "k < length ps \<Longrightarrow> protect_range a b ps ! k = (ps ! k \<or> (a \<le> k \<and> k \<le> b))"
  by (simp add: protect_range_def nth_enumerate_eq)

lemma protect_range_embed:
  assumes "length pd = n" and "b < length ps"
  shows "protect_range (n + a) (n + b) (pd @ ps @ pr) = pd @ protect_range a b ps @ pr"
  using assms by (intro nth_equalityI) (auto simp: protect_range_nth nth_append)

lemma block_scan_Nil: "block_scan i [] prot stk = (prot, stk)"
  by (simp add: block_scan.simps)

lemma block_scan_skip:
  "prot ! i \<or> \<not> is_ident c \<Longrightarrow> block_scan i (c # cs) prot stk = block_scan (Suc i) cs prot stk"
  by (subst block_scan.simps) simp

lemma block_scan_word:
  assumes "\<not> prot ! i" and "is_ident c"
  shows "block_scan i (c # cs) prot stk =
    (case block_word (c # takeWhile is_ident cs) (i + Suc (length (takeWhile is_ident cs))) prot stk of
       (prot', stk') \<Rightarrow> block_scan (i + Suc (length (takeWhile is_ident cs))) (dropWhile is_ident cs) prot' stk')"
  using assms by (subst block_scan.simps) (simp add: Let_def)

definition shift_stack :: "nat \<Rightarrow> (blk \<times> nat) list \<Rightarrow> (blk \<times> nat) list" where
  "shift_stack n = map (apsnd ((+) n))"

lemma shift_stack_simps [simp]:
  "shift_stack n [] = []" "shift_stack n ((b, a) # stk) = (b, n + a) # shift_stack n stk"
  by (simp_all add: shift_stack_def)

lemma block_word_embed:
  assumes "length pd = n" and "j < length ps" and "block_word w j ps stk = (ps', stk')"
  shows "block_word w (n + j) (pd @ ps @ pr) (shift_stack n stk) = (pd @ ps' @ pr, shift_stack n stk') \<and>
    length ps' = length ps"
  using assms protect_range_embed [OF assms(1,2)]
  by (cases stk) (auto simp: block_word_def split: option.splits if_splits)

text \<open>The scan of a text that ends in a character outside words goes on after it with the rest, as if
  the text had stood alone.\<close>

lemma block_scan_embed:
  assumes "length pd = n" and "length ps = i + length v" and "v = [] \<or> \<not> is_ident (last v)"
  shows "block_scan (n + i) (v @ r) (pd @ ps @ pr) (shift_stack n stk) =
    (case block_scan i v ps stk of
       (ps', stk') \<Rightarrow> block_scan (n + i + length v) r (pd @ ps' @ pr) (shift_stack n stk')) \<and>
    length (fst (block_scan i v ps stk)) = length ps"
  using assms(2,3)
proof (induction i v ps stk rule: block_scan.induct)
  case (1 i s prot stk)
  show ?case
  proof (cases s)
    case Nil
    then show ?thesis by (simp add: block_scan_Nil)
  next
    case (Cons c cs)
    have nth: "(pd @ prot @ pr) ! (n + i) = prot ! i" using assms(1) "1.prems" Cons by (simp add: nth_append)
    show ?thesis
    proof (cases "prot ! i \<or> \<not> is_ident c")
      case True
      have "cs = [] \<or> \<not> is_ident (last cs)" using "1.prems" Cons by (auto split: if_splits)
      with "1.IH"(1) [OF Cons True] "1.prems" Cons have
        "block_scan (n + Suc i) (cs @ r) (pd @ prot @ pr) (shift_stack n stk) =
           (case block_scan (Suc i) cs prot stk of
              (ps', stk') \<Rightarrow> block_scan (n + Suc i + length cs) r (pd @ ps' @ pr) (shift_stack n stk'))"
        "length (fst (block_scan (Suc i) cs prot stk)) = length prot"
        by auto
      with True Cons nth show ?thesis by (simp add: block_scan_skip)
    next
      case False
      let ?w = "takeWhile is_ident cs" and ?d = "dropWhile is_ident cs"
      let ?j = "i + Suc (length ?w)"
      have last: "\<not> is_ident (last cs)" "cs \<noteq> []" using False "1.prems" Cons by (auto split: if_splits)
      then have ex: "last cs \<in> set cs" "\<not> is_ident (last cs)" by simp_all
      then have d: "?d \<noteq> []" by (auto simp: dropWhile_eq_Nil_conv)
      have split: "cs = ?w @ ?d" by simp
      then have len: "length ?w + length ?d = length cs" by (metis length_append)
      have ld: "last ?d = last cs" using d split by (metis last_appendR)
      have app: "takeWhile is_ident (cs @ r) = ?w" "dropWhile is_ident (cs @ r) = ?d @ r"
        using ex by (metis takeWhile_append1, metis dropWhile_append1)
      have j: "?j < length prot" using len d "1.prems"(1) Cons by (cases ?d) auto
      obtain p' k' where bw: "block_word (c # ?w) ?j prot stk = (p', k')" by fastforce
      from block_word_embed [OF assms(1) j bw, of pr]
      have bw': "block_word (c # ?w) (n + ?j) (pd @ prot @ pr) (shift_stack n stk) = (pd @ p' @ pr, shift_stack n k')"
        and lp: "length p' = length prot" by auto
      have "length p' = ?j + length ?d" using lp len "1.prems"(1) Cons by simp
      moreover have "?d = [] \<or> \<not> is_ident (last ?d)" using ld last by simp
      ultimately have ih: "block_scan (n + ?j) (?d @ r) (pd @ p' @ pr) (shift_stack n k') =
          (case block_scan ?j ?d p' k' of
             (ps', stk') \<Rightarrow> block_scan (n + ?j + length ?d) r (pd @ ps' @ pr) (shift_stack n stk'))"
        "length (fst (block_scan ?j ?d p' k')) = length p'"
        using "1.IH"(2) [OF Cons False, of "c # ?w" ?j p' k'] bw Cons False by auto
      have "n + ?j + length ?d = n + i + length (c # cs)" using len by simp
      with ih bw bw' False Cons nth app lp show ?thesis by (simp add: block_scan_word add.assoc)
    qed
  qed
qed

text \<open>A statement that the splitter leaves whole when it stands before its semicolon: its literals and
  comments and its blocks are closed, and its semicolons are protected, the last one not.\<close>

definition protection :: "string \<Rightarrow> bool list \<times> (blk \<times> nat) list" where
  "protection s = block_scan 0 (s @ '';'') (fst (protect_scan PlainText s) @ [False]) []"

definition whole_statement :: "string \<Rightarrow> bool" where
  "whole_statement s \<longleftrightarrow> snd (protect_scan PlainText s) = PlainText \<and> snd (protection s) = [] \<and>
     \<not> fst (protection s) ! length s \<and>
     list_all2 (\<lambda>c q. c = CHR '';'' \<longrightarrow> q) s (take (length s) (fst (protection s)))"

lemma not_ident_semicolon [simp]: "\<not> is_ident (CHR '';'')"
  by code_simp

lemma protect_script:
  "list_all whole_statement stmts \<Longrightarrow>
   protect_scan PlainText (concat (map (\<lambda>s. s @ '';'') stmts)) =
     (concat (map (\<lambda>s. fst (protect_scan PlainText s) @ [False]) stmts), PlainText)"
proof (induction stmts)
  case (Cons s stmts)
  then have "protect_scan PlainText s = (fst (protect_scan PlainText s), PlainText)"
    by (simp add: whole_statement_def prod_eq_iff)
  from protect_scan_append [OF this] Cons show ?case by simp
qed simp

lemma protection_length: "length (fst (protection s)) = Suc (length s)"
  using block_scan_embed [of "[]" 0 "fst (protect_scan PlainText s) @ [False]" 0 "s @ '';''" "[]" "[]" "[]"]
  by (simp add: protection_def protect_scan_length)

lemma block_scan_script:
  "list_all whole_statement stmts \<Longrightarrow> length pd = n \<Longrightarrow>
   block_scan n (concat (map (\<lambda>s. s @ '';'') stmts))
     (pd @ concat (map (\<lambda>s. fst (protect_scan PlainText s) @ [False]) stmts)) [] =
   (pd @ concat (map (\<lambda>s. fst (protection s)) stmts), [])"
proof (induction stmts arbitrary: pd n)
  case (Cons s stmts)
  let ?ps = "fst (protect_scan PlainText s) @ [False]"
  let ?rest = "concat (map (\<lambda>s. s @ '';'') stmts)"
  let ?pr = "concat (map (\<lambda>s. fst (protect_scan PlainText s) @ [False]) stmts)"
  have whole: "snd (protection s) = []" using Cons.prems by (simp add: whole_statement_def)
  have len: "length ?ps = 0 + length (s @ '';'')" by (simp add: protect_scan_length)
  from block_scan_embed [OF Cons.prems(2) len, of ?rest ?pr "[]"]
  have "block_scan n ((s @ '';'') @ ?rest) (pd @ ?ps @ ?pr) [] =
      block_scan (n + length (s @ '';'')) ?rest (pd @ fst (protection s) @ ?pr) []"
    using whole by (simp add: protection_def case_prod_beta)
  also have "\<dots> = block_scan (n + length (s @ '';'')) ?rest ((pd @ fst (protection s)) @ ?pr) []" by simp
  also have "\<dots> = ((pd @ fst (protection s)) @ concat (map (\<lambda>s. fst (protection s)) stmts), [])"
    using Cons.prems by (intro Cons.IH) (simp_all add: protection_length)
  finally show ?case by simp
qed (simp add: block_scan_Nil)

lemma cut_statements_whole:
  "list_all2 (\<lambda>c q. c = CHR '';'' \<longrightarrow> q) s qs \<Longrightarrow>
   cut_statements cur (s @ CHR '';'' # t) (qs @ False # rs) = statement_of (cur @ s) @ cut_statements [] t rs"
  by (induction s qs arbitrary: cur rule: list_all2_induct) auto

lemma cut_statements_script:
  "list_all whole_statement stmts \<Longrightarrow>
   cut_statements [] (concat (map (\<lambda>s. s @ '';'') stmts)) (concat (map (\<lambda>s. fst (protection s)) stmts)) =
   concat (map statement_of stmts)"
proof (induction stmts)
  case Nil
  then show ?case by (simp add: statement_of_def trim_def)
next
  case (Cons s stmts)
  let ?q = "fst (protection s)" and ?rest = "concat (map (\<lambda>s. s @ '';'') stmts)"
    and ?rs = "concat (map (\<lambda>s. fst (protection s)) stmts)"
  have "?q = take (length s) ?q @ drop (length s) ?q" by simp
  also have "drop (length s) ?q = [?q ! length s]"
    using protection_length [of s] by (metis Cons_nth_drop_Suc drop_eq_Nil lessI order_refl)
  finally have q: "?q = take (length s) ?q @ [False]" using Cons.prems by (simp add: whole_statement_def)
  have "list_all2 (\<lambda>c q. c = CHR '';'' \<longrightarrow> q) s (take (length s) ?q)"
    using Cons.prems by (simp add: whole_statement_def)
  from cut_statements_whole [OF this, of "[]" ?rest ?rs] Cons
  have "cut_statements [] (s @ CHR '';'' # ?rest) ((take (length s) ?q @ [False]) @ ?rs) =
      statement_of s @ concat (map statement_of stmts)" by simp
  then show ?case unfolding q [symmetric] by simp
qed



text \<open>The protection of a block reaches one character too far: a semicolon right after \<open>END\<close> does not
  end the statement.\<close>

lemma split_joins_after_end:
  "splitSqlScript ''f CASE a END; g'' = [''f CASE a END; g'']"
  by code_simp

text \<open>The keyword after \<open>END\<close> opens a block again, so the block around it is never closed and its body is
  cut.\<close>

lemma split_cuts_body:
  "splitSqlScript ''BEGIN f; IF x THEN g; END IF; END'' =
   [''BEGIN f'', ''IF x THEN g; END IF; END'']"
  by code_simp

end
