(* ===== verification/UtilCallProps.thy ===== *)
theory UtilCallProps
  imports UtilScript
begin

text \<open>
  Properties of the utilities that concern calls and execution: names stay names, plans of calls bind
  as many values as they have placeholders and name their output parameters, scripts run in order up to
  the first error, and the scope of data definition.
\<close>

section \<open>Names\<close>

text \<open>The parts of a dotted name, and how a server reads a chain of quoted names.\<close>

definition part_of :: "string \<Rightarrow> string list" where
  "part_of p = (if p = [] then [] else [p])"

fun split_dots :: "string \<Rightarrow> string \<Rightarrow> string list" where
  "split_dots part [] = part_of part"
| "split_dots part (c # cs) =
     (if c = CHR ''.'' then part_of part @ split_dots [] cs else split_dots (part @ [c]) cs)"

definition name_parts :: "string \<Rightarrow> string list" where
  "name_parts n = split_dots [] n"

definition quote_part :: "char \<Rightarrow> string \<Rightarrow> string" where
  "quote_part q p = q # double_char q p @ [q]"

fun read_quoted :: "char \<Rightarrow> string \<Rightarrow> (string \<times> string) option" where
  "read_quoted q [] = None"
| "read_quoted q [c] = (if c = q then Some ([], []) else None)"
| "read_quoted q (c # e # cs) =
     (if c = q then (if e = q then map_option (apfst ((#) q)) (read_quoted q cs) else Some ([], e # cs))
      else map_option (apfst ((#) c)) (read_quoted q (e # cs)))"

lemma read_quoted_shorter: "read_quoted q s = Some (p, r) \<Longrightarrow> length r < length s"
  by (induction q s arbitrary: p r rule: read_quoted.induct) (fastforce split: if_splits)+

function read_name :: "char \<Rightarrow> string \<Rightarrow> (string list \<times> string) option" where
  "read_name q s =
     (if s = [] \<or> hd s \<noteq> q then None
      else case read_quoted q (tl s) of
        None \<Rightarrow> None
      | Some (p, r) \<Rightarrow>
          if r \<noteq> [] \<and> hd r = CHR ''.'' then map_option (apfst ((#) p)) (read_name q (tl r))
          else Some ([p], r))"
  by pat_completeness auto
termination
proof (relation "measure (\<lambda>(q, s). length s)", goal_cases)
  case (2 q s y p r)
  then have "length r < length (tl s)" by (auto dest: read_quoted_shorter)
  then show ?case using 2 by auto
qed simp

declare read_name.simps [simp del]

lemma read_quoted_double:
  "rest = [] \<or> hd rest \<noteq> q \<Longrightarrow> read_quoted q (double_char q p @ q # rest) = Some (p, rest)"
proof (induction p)
  case Nil
  then show ?case by (cases rest) auto
next
  case (Cons c p)
  then show ?case by (cases "double_char q p @ q # rest") auto
qed

lemma read_name_join:
  "ps \<noteq> [] \<Longrightarrow> rest = [] \<or> (hd rest \<noteq> q \<and> hd rest \<noteq> CHR ''.'') \<Longrightarrow> q \<noteq> CHR ''.'' \<Longrightarrow>
   read_name q (join ''.'' (map (quote_part q) ps) @ rest) = Some (ps, rest)"
proof (induction ps)
  case (Cons p ps)
  show ?case
  proof (cases ps)
    case Nil
    with Cons.prems read_quoted_double [of rest q p] show ?thesis
      by (subst read_name.simps) (auto simp: quote_part_def)
  next
    case (Cons p' ps')
    with Cons.IH Cons.prems have ih: "read_name q (join ''.'' (map (quote_part q) ps) @ rest) = Some (ps, rest)" by simp
    let ?r = "''.'' @ join ''.'' (map (quote_part q) ps) @ rest"
    have "read_quoted q (double_char q p @ q # ?r) = Some (p, ?r)"
      using Cons.prems(3) by (intro read_quoted_double) simp
    with ih Cons show ?thesis by (subst read_name.simps) (simp add: quote_part_def join_Cons)
  qed
qed simp

lemma quote_parts_join:
  "quote_parts q out part cs =
     out @ (if out = [] \<or> split_dots part cs = [] then [] else ''.'') @ join ''.'' (map (quote_part q) (split_dots part cs))"
proof (induction q out part cs rule: quote_parts.induct)
  case (1 q out part)
  then show ?case by (simp add: flush_part_def part_of_def quote_part_def)
next
  case (2 q out part c cs)
  have ne: "flush_part q out part \<noteq> []" if "part \<noteq> []" using that by (simp add: flush_part_def)
  show ?case
  proof (cases "c = CHR ''.''")
    case True
    with 2 ne show ?thesis
      by (cases "part = []") (auto simp: flush_part_def part_of_def quote_part_def join_Cons)
  next
    case False
    with 2 show ?thesis by simp
  qed
qed

lemma quoteIdent_join: "quoteIdent n d = join ''.'' (map (quote_part (quote_char d)) (name_parts n))"
  by (simp add: quoteIdent_def quote_parts_join name_parts_def)

text \<open>C26: A quoted name is a name whatever it holds: read by the rules of a server, what \<open>quoteIdent\<close> writes is
  the chain of the parts between the dots, and the reader stops exactly where it ends. No name can
  smuggle in further text.\<close>

theorem quoteIdent_one_name:
  assumes "name_parts n \<noteq> []"
    and "rest = [] \<or> (hd rest \<noteq> quote_char d \<and> hd rest \<noteq> CHR ''.'')"
  shows "read_name (quote_char d) (quoteIdent n d @ rest) = Some (name_parts n, rest)"
  unfolding quoteIdent_join by (rule read_name_join [OF assms]) (simp add: quote_char_def)

theorem quoteIdent_one_name_witness:
  "read_name (quote_char MySQL) (quoteIdent ''app.t` (id); --'' MySQL @ ''(?)'') = Some ([''app'', ''t` (id); --''], ''(?)'')"
proof -
  have parts: "name_parts ''app.t` (id); --'' = [''app'', ''t` (id); --'']" by (simp add: name_parts_def part_of_def)
  then show ?thesis using quoteIdent_one_name [of "''app.t` (id); --''" "''(?)''" MySQL]
    by (simp add: quote_char_def)
qed

text \<open>SQL Server names are not quoted at all.\<close>

lemma sqlserver_name_unquoted:
  "makeCallSql \<lparr>rr_name = ''p; DROP TABLE t --'', rr_kind = Procedure, rr_dataSource = []\<rparr> 0 SqlServer False =
   (status_OK, ''EXEC dbo.p; DROP TABLE t --'')"
  by (simp add: makeCallSql_def sqlserver_call_def qualified_name_def)

section \<open>Placeholders\<close>

definition plain_sql :: "char \<Rightarrow> bool" where
  "plain_sql c \<longleftrightarrow> \<not> is_quote c \<and> c \<noteq> CHR ''$'' \<and> c \<noteq> CHR ''-'' \<and> c \<noteq> CHR ''/''"

definition marks :: "string \<Rightarrow> nat" where
  "marks s = length (filter (\<lambda>c. c = CHR ''?'') s)"

lemma marks_simps [simp]:
  "marks [] = 0" "marks (c # s) = (if c = CHR ''?'' then Suc (marks s) else marks s)" "marks (s @ t) = marks s + marks t"
  by (simp_all add: marks_def)

lemma plain_not_copied: "plain_sql c \<Longrightarrow> copied_region (c # cs) = None"
  by (auto simp: copied_region_def plain_sql_def starts2_def split: list.splits)

lemma placeholder_copied: "copied_region s = Some (a, b) \<Longrightarrow> placeholder_count s = placeholder_count b"
  by (simp add: placeholder_count_def replacePlaceholders_copied)

lemma placeholder_plain: "list_all plain_sql s \<Longrightarrow> placeholder_count (s @ t) = marks s + placeholder_count t"
proof (induction s)
  case (Cons c s)
  then have "copied_region (c # s @ t) = None" by (simp add: plain_not_copied)
  then have "placeholder_count (c # s @ t) = (if c = CHR ''?'' then 1 else 0) + placeholder_count (s @ t)"
    using replacePlaceholders_found [of "\<lambda>_. []" "Suc 0" "s @ t"]
    by (simp add: placeholder_count_def replacePlaceholders_plain)
  with Cons show ?case by simp
qed simp

lemma placeholder_all_plain: "list_all plain_sql s \<Longrightarrow> placeholder_count s = marks s"
  using placeholder_plain [of s "[]"] by (simp add: placeholder_count_def)

lemma placeholder_quote_part:
  assumes "backslash \<notin> set p" and "rest = [] \<or> hd rest \<noteq> quote_char d"
  shows "placeholder_count (quote_part (quote_char d) p @ rest) = placeholder_count rest"
proof (rule placeholder_copied)
  have "scan_quoted (quote_char d) (double_char (quote_char d) p @ quote_char d # rest) =
      (double_char (quote_char d) p @ [quote_char d], rest)"
    using assms by (intro scan_quoted_doubled) (simp_all add: quote_char_def)
  then show "copied_region (quote_part (quote_char d) p @ rest) = Some (quote_part (quote_char d) p, rest)"
    by (simp add: copied_region_def quote_part_def) (simp add: quote_char_def is_quote_def)
qed

lemma set_split_dots: "\<Union> (set ` set (split_dots part cs)) \<subseteq> set part \<union> set cs"
  by (induction part cs rule: split_dots.induct) (auto simp: part_of_def split: if_splits)

lemma placeholder_quoteIdent:
  assumes "backslash \<notin> set n" and "rest \<noteq> []" and "hd rest \<noteq> quote_char d"
  shows "placeholder_count (quoteIdent n d @ rest) = placeholder_count rest"
proof -
  have "placeholder_count (join ''.'' (map (quote_part (quote_char d)) ps) @ rest) = placeholder_count rest"
    if "\<forall>p\<in>set ps. backslash \<notin> set p" for ps
    using that
  proof (induction ps)
    case (Cons p ps)
    let ?r = "(if ps = [] then [] else ''.'' @ join ''.'' (map (quote_part (quote_char d)) ps)) @ rest"
    have "placeholder_count (quote_part (quote_char d) p @ ?r) = placeholder_count ?r"
      using Cons.prems assms by (intro placeholder_quote_part) (auto simp: quote_char_def)
    moreover have "placeholder_count ?r = placeholder_count rest"
      using Cons placeholder_plain [of "''.''"] by (auto simp: plain_sql_def is_quote_def)
    ultimately show ?case by (simp add: join_Cons)
  qed simp
  moreover have "\<forall>p\<in>set (name_parts n). backslash \<notin> set p"
    using set_split_dots [of "[]" n] assms(1) by (auto simp: name_parts_def)
  ultimately show ?thesis by (simp add: quoteIdent_join)
qed

section \<open>Plans of calls\<close>

definition plain_text :: "string \<Rightarrow> bool" where
  "plain_text s \<longleftrightarrow> list_all plain_sql s"

lemma plain_text_simps [simp]:
  "plain_text []" "plain_text (c # s) \<longleftrightarrow> plain_sql c \<and> plain_text s" "plain_text (s @ t) \<longleftrightarrow> plain_text s \<and> plain_text t"
  by (simp_all add: plain_text_def)

lemma plain_text_join: "plain_text sep \<Longrightarrow> list_all plain_text xs \<Longrightarrow> plain_text (join sep xs)"
  by (induction sep xs rule: join.induct) auto

lemma marks_join: "marks sep = 0 \<Longrightarrow> marks (join sep xs) = sum_list (map marks xs)"
  by (induction sep xs rule: join.induct) auto

lemma digits_plain: "\<forall>c\<in>set s. is_digit c \<Longrightarrow> plain_text s \<and> marks s = 0"
  by (induction s) (auto simp: plain_sql_def is_quote_def is_digit_def)

lemma outVarName_plain: "plain_text (outVarName i)" "marks (outVarName i) = 0"
  using digits_plain [OF nat_to_string_digits [of i]]
  by (simp_all add: outVarName_def plain_sql_def is_quote_def)

lemma plain_marks:
  "plain_sql (CHR ''?'')" "plain_sql (CHR ''@'')" "plain_sql space" "plain_sql (CHR ''='')" "plain_sql (CHR '','')"
  by (simp_all add: plain_sql_def is_quote_def)

text \<open>What the loop over the parameters has collected.\<close>

definition plan_inv :: "dialect \<Rightarrow> call_param list \<Rightarrow> string list \<times> string list \<times> call_plan \<Rightarrow> bool" where
  "plan_inv d ps = (\<lambda>(args, sets, pl).
     list_all plain_text args \<and> list_all plain_text sets \<and>
     sum_list (map marks args) = length (pl_callParams pl) \<and> sum_list (map marks sets) = length (pl_preParams pl) \<and>
     pl_outColumns pl = (if d = Postgres then []
       else map (\<lambda>(i, p). outVarName i) (filter (\<lambda>(i, p). cp_direction p \<noteq> In) (enumerate 0 ps))) \<and>
     pl_outFromRowCount pl = (if d = Postgres then length (filter (\<lambda>p. cp_direction p \<noteq> In) ps) else 0) \<and>
     (\<not> hasOutParams ps \<longrightarrow> args = replicate (length ps) ''?'' \<and> pl_callParams pl = map cp_value ps) \<and>
     (d = Postgres \<or> \<not> hasOutParams ps \<longrightarrow> sets = []) \<and> (sets = [] \<longleftrightarrow> pl_preParams pl = []) \<and> pl_preSql pl = [] \<and> pl_fetchSql pl = [])"

lemma plan_params_inv: "plan_inv d ps (plan_params d ps)"
proof (induction ps rule: rev_induct)
  case Nil
  then show ?case by (simp add: plan_params_def plan_inv_def empty_plan_def)
next
  case (snoc p ps)
  obtain args sets pl where acc: "plan_params d ps = (args, sets, pl)" by (metis prod_cases3)
  have step: "plan_params d (ps @ [p]) = plan_param d (length ps, p) (args, sets, pl)"
    using acc by (simp add: plan_params_def enumerate_append_eq)
  show ?case
  proof (cases "cp_direction p")
    case In
    with snoc acc step show ?thesis
      by (auto simp: plan_inv_def plan_param_def enumerate_append_eq hasOutParams_def plain_marks replicate_append_same)
  next
    case Out
    with snoc acc step show ?thesis
      by (auto simp: plan_inv_def plan_param_def enumerate_append_eq hasOutParams_def plain_marks outVarName_plain)
  next
    case InOut
    with snoc acc step show ?thesis
      by (auto simp: plan_inv_def plan_param_def enumerate_append_eq hasOutParams_def plain_marks outVarName_plain)
  qed
qed

lemma plain_csvArgs: "plain_text (csvArgs n)" "marks (csvArgs n) = n"
proof -
  show "plain_text (csvArgs n)"
    unfolding csvArgs_def by (rule plain_text_join) (simp_all add: plain_marks list_all_iff)
  show "marks (csvArgs n) = n" by (simp add: csvArgs_def marks_join sum_list_replicate)
qed

lemma placeholder_call:
  assumes "plain_text pre" "marks pre = 0" "plain_text post" "post \<noteq> []" "hd post \<noteq> quote_char d"
    and "backslash \<notin> set n"
  shows "placeholder_count (pre @ quoteIdent n d @ post) = marks post"
  using assms placeholder_plain [of pre "quoteIdent n d @ post"] placeholder_quoteIdent [OF assms(6,4,5)]
    placeholder_all_plain [of post]
  by (simp add: plain_text_def)

lemmas plan_words = plain_marks plain_sql_def is_quote_def parenArgs_def quote_char_def

lemma plan_ok: "status_ok (plan_error ref ps d rr) \<Longrightarrow>
    rr_name ref \<noteq> [] \<and> d \<noteq> Auto \<and> (d = SqlServer \<or> d = Oracle \<longrightarrow> \<not> hasOutParams ps)"
  by (auto simp: plan_error_def Let_def badSpec_def unsupported_def no_dialect_def status_error_def status_ok_def
      split: if_splits)

lemma outVarName_inj: "inj outVarName"
  by (rule injI) (simp add: outVarName_def, metis digits_val_nat_to_string)

lemma out_columns_distinct: "distinct (map (\<lambda>(i, p). outVarName i) (filter Q (enumerate 0 ps)))"
proof -
  have "map (\<lambda>(i, p). outVarName i) (filter Q (enumerate 0 ps)) = map outVarName (map fst (filter Q (enumerate 0 ps)))"
    by (simp add: case_prod_beta comp_def)
  moreover have "distinct (map fst (filter Q (enumerate 0 ps)))" by (simp add: distinct_map_filter)
  ultimately show ?thesis
    using inj_on_subset [OF outVarName_inj subset_UNIV] by (simp only: distinct_map)
qed

lemma out_columns_length:
  "length (filter (\<lambda>(i, p). cp_direction p \<noteq> In) (enumerate 0 ps)) = length (filter (\<lambda>p. cp_direction p \<noteq> In) ps)"
  by (induction ps rule: rev_induct) (auto simp: enumerate_append_eq)

definition fetch_text :: "string list \<Rightarrow> string" where
  "fetch_text cols = ''SELECT '' @ join '', '' (map (\<lambda>c. ''@'' @ c @ '' AS '' @ c) cols)"

lemma fetch_text_plain: "(\<And>c. c \<in> set cols \<Longrightarrow> plain_text c \<and> marks c = 0) \<Longrightarrow> placeholder_count (fetch_text cols) = 0"
proof -
  assume cols: "\<And>c. c \<in> set cols \<Longrightarrow> plain_text c \<and> marks c = 0"
  have "plain_text (join '', '' (map (\<lambda>c. ''@'' @ c @ '' AS '' @ c) cols))"
    using cols by (intro plain_text_join) (auto simp: plan_words list_all_iff)
  moreover have "marks (join '', '' (map (\<lambda>c. ''@'' @ c @ '' AS '' @ c) cols)) = 0"
    using cols by (auto simp: marks_join sum_list_eq_0_iff)
  ultimately show ?thesis
    using placeholder_all_plain [of "fetch_text cols"] by (simp add: fetch_text_def plain_text_def [symmetric] plan_words)
qed

text \<open>The texts of a plan, from what the loop over the parameters has collected.\<close>

lemma plan_texts:
  assumes "plan_inv d ps (args, sets, pl)" and "backslash \<notin> set n"
  shows "plain_text pre \<Longrightarrow> marks pre = 0 \<Longrightarrow>
      placeholder_count (pre @ quoteIdent n d @ ''('' @ join '', '' args @ '')'') = length (pl_callParams pl)"
    and "placeholder_count (if sets = [] then [] else ''SET '' @ join '', '' sets) = length (pl_preParams pl)"
    and "placeholder_count (fetch_text (pl_outColumns pl)) = 0"
    and "distinct (pl_outColumns pl)"
    and "length (pl_outColumns pl) + pl_outFromRowCount pl = length (filter (\<lambda>p. cp_direction p \<noteq> In) ps)"
proof -
  have args: "plain_text (join '', '' args)" "marks (join '', '' args) = length (pl_callParams pl)"
    and sets: "plain_text (join '', '' sets)" "marks (join '', '' sets) = length (pl_preParams pl)"
    using assms(1) by (simp_all add: plan_inv_def plain_text_join marks_join plain_marks)
  show "plain_text pre \<Longrightarrow> marks pre = 0 \<Longrightarrow>
      placeholder_count (pre @ quoteIdent n d @ ''('' @ join '', '' args @ '')'') = length (pl_callParams pl)"
    using args assms(2) by (subst placeholder_call) (simp_all add: plan_words)
  show "placeholder_count (if sets = [] then [] else ''SET '' @ join '', '' sets) = length (pl_preParams pl)"
    using sets assms(1) placeholder_all_plain [of "''SET '' @ join '', '' sets"]
    by (simp add: plain_text_def [symmetric] plan_words plan_inv_def placeholder_count_def)
  show "placeholder_count (fetch_text (pl_outColumns pl)) = 0"
    using assms(1) by (intro fetch_text_plain) (auto simp: plan_inv_def outVarName_plain split: if_splits)
  show "distinct (pl_outColumns pl)" using assms(1) by (simp add: plan_inv_def out_columns_distinct)
  show "length (pl_outColumns pl) + pl_outFromRowCount pl = length (filter (\<lambda>p. cp_direction p \<noteq> In) ps)"
    using assms(1) by (simp add: plan_inv_def out_columns_length)
qed



text \<open>The plan for a PostgreSQL procedure is a query of it, while \<open>makeCallSql\<close> calls it.\<close>

lemma postgres_procedure_plan:
  "makeCallSql \<lparr>rr_name = ''p'', rr_kind = Procedure, rr_dataSource = []\<rparr> 0 Postgres False =
     (status_OK, ''CALL '' @ [dquote] @ ''p'' @ [dquote] @ ''()'') \<and>
   pl_callSql (snd (makeCallPlan \<lparr>rr_name = ''p'', rr_kind = Procedure, rr_dataSource = []\<rparr> [] Postgres False)) =
     ''SELECT * FROM '' @ [dquote] @ ''p'' @ [dquote] @ ''()''"
  by code_simp

section \<open>Output parameters\<close>

lemma read_columns_present:
  "(\<And>n. n \<in> set ns \<Longrightarrow> row_has r n) \<Longrightarrow> read_columns_of r i ns = (status_OK, map (row_at r) ns)"
  by (induction r i ns rule: read_columns_of.induct) auto

text \<open>A call through a session with output parameters on MySQL: if the three statements of the plan succeed
  and the row that is fetched has the variables, the values returned are those of the variables, one for
  each output parameter and in their order.\<close>

lemma session_call_out_values:
  assumes "makeCallPlan ref ps MySQL (co_returnsRows opts) = (st, plan)" and "status_ok st"
    and "eo_dialect opts = MySQL" and "hasOutParams ps"
    and pre: "pl_preSql plan \<noteq> [] \<Longrightarrow> session_execute_params cacheOn d (pl_preSql plan) (pl_preParams plan) 0 s = (st0, k, s0)"
    and pre': "pl_preSql plan = [] \<Longrightarrow> s0 = s" and ok0: "pl_preSql plan \<noteq> [] \<Longrightarrow> status_ok st0"
    and call: "run_call cacheOn d (co_returnsRows opts) plan s0 = (r, s1)" "status_ok (ca_status r)"
    and fetch: "session_query d (pl_fetchSql plan) s1 = (st2, rs, s2)" "status_ok st2"
    and row: "rs_rows rs = row # others" "\<And>n. n \<in> set (pl_outColumns plan) \<Longrightarrow> row_has row n"
  shows "session_util_call cacheOn d stack opts impl ref ps s =
      (r\<lparr>ca_status := status_OK, ca_outParams := map (row_at row) (pl_outColumns plan)\<rparr>, s2) \<and>
    length (pl_outColumns plan) = length (filter (\<lambda>p. cp_direction p \<noteq> In) ps)"
proof -
  obtain args sets pl where pp: "plan_params MySQL ps = (args, sets, pl)" by (metis prod_cases3)
  have inv: "plan_inv MySQL ps (args, sets, pl)" using plan_params_inv [of MySQL ps] pp by simp
  have ok: "status_ok (plan_error ref ps MySQL (co_returnsRows opts))"
    using assms(1,2) by (auto simp: makeCallPlan_def Let_def split: if_splits)
  have from_row: "pl_outFromRowCount pl = 0" using inv by (simp add: plan_inv_def)
  have plan: "pl_outColumns plan = pl_outColumns pl" "pl_outFromRowCount plan = 0"
    using assms(1) ok pp from_row by (cases "pl_outColumns pl = []"; auto simp: makeCallPlan_def Let_def)+
  have cols: "length (pl_outColumns pl) = length (filter (\<lambda>p. cp_direction p \<noteq> In) ps)"
    using inv by (simp add: plan_inv_def out_columns_length)
  have ne: "pl_outColumns pl \<noteq> []"
    using cols assms(4) by (auto simp: hasOutParams_def list_ex_iff filter_empty_conv)
  then have ft: "pl_fetchSql plan \<noteq> []" using assms(1) ok pp by (auto simp: makeCallPlan_def Let_def)
  have "readOutParams rs (pl_outColumns plan) = (status_OK, map (row_at row) (pl_outColumns plan))"
    using row ne plan read_columns_present [of "pl_outColumns plan" row 0] by (simp add: readOutParams_def)
  then have "fetch_out d plan r s1 = (r\<lparr>ca_status := status_OK, ca_outParams := map (row_at row) (pl_outColumns plan)\<rparr>, s2)"
    using ft fetch by (simp add: fetch_out_def)
  moreover have "out_of_row plan r = r" using plan by (simp add: out_of_row_def)
  ultimately show ?thesis
    using assms(1,2,3) call pre pre' ok0 cols plan
    by (cases "pl_preSql plan = []") (simp_all add: session_util_call_def Let_def)
qed

section \<open>Running scripts\<close>

text \<open>The statuses of all statements, and the world after some of them.\<close>

fun outcomes :: "(string \<Rightarrow> 'w \<Rightarrow> status \<times> 'w) \<Rightarrow> string list \<Rightarrow> 'w \<Rightarrow> status list" where
  "outcomes run [] w = []"
| "outcomes run (s # ss) w = fst (run s w) # outcomes run ss (snd (run s w))"

definition world_after :: "(string \<Rightarrow> 'w \<Rightarrow> status \<times> 'w) \<Rightarrow> string list \<Rightarrow> 'w \<Rightarrow> 'w" where
  "world_after run ss w = fold (\<lambda>s w. snd (run s w)) ss w"

lemma run_statements_stop:
  "run_statements run True n st0 ss w =
     (let good = takeWhile status_ok (outcomes run ss w); k = length good
      in if k = length ss then ((st0, n + k), world_after run ss w)
         else ((outcomes run ss w ! k, n + k), world_after run (take (Suc k) ss) w))"
proof (induction ss arbitrary: n w)
  case (Cons s ss)
  show ?case
    by (cases "run s w") (auto simp: Cons Let_def world_after_def)
qed (simp add: world_after_def)

lemma run_statements_all:
  "run_statements run False n st0 ss w =
     ((last (st0 # filter (\<lambda>st. \<not> status_ok st) (outcomes run ss w)),
       n + length (filter status_ok (outcomes run ss w))), world_after run ss w)"
proof (induction ss arbitrary: n st0 w)
  case (Cons s ss)
  show ?case by (cases "run s w") (auto simp: Cons world_after_def)
qed (simp add: world_after_def)

text \<open>A script runs its statements in order, each once. With \<open>stopOnError\<close> they are run up to and including
  the first that fails, whose status is returned, and the count is of those before it; without, all are
  run, the count is of those that succeed and the status is the last error, or OK.\<close>

theorem script_runs:
  "runScriptText d stack opts impl sql w =
     (let run = runDdl d stack opts impl; ss = splitSqlScript sql; res = outcomes run ss w;
          k = length (takeWhile status_ok res)
      in if so_stopOnError opts
         then (if k = length ss then ((status_OK, length ss), world_after run ss w)
               else ((res ! k, k), world_after run (take (Suc k) ss) w))
         else ((last (status_OK # filter (\<lambda>st. \<not> status_ok st) res), length (filter status_ok res)),
               world_after run ss w))"
  by (cases "so_stopOnError opts") (simp_all add: runScriptText_def run_statements_stop run_statements_all Let_def)

lemma run_files_results:
  "run_files rd run stop e fs w = ((st, rs), w') \<Longrightarrow> \<forall>e'. e = Some e' \<longrightarrow> \<not> status_ok e' \<Longrightarrow>
   map sr_path rs = take (length rs) fs \<and>
   (status_ok st \<longrightarrow> e = None \<and> length rs = length fs \<and> (\<forall>r\<in>set rs. status_ok (sr_status r))) \<and>
   (\<not> stop \<longrightarrow> length rs = length fs)"
proof (induction fs arbitrary: e w rs st)
  case Nil
  then show ?case by (auto split: option.splits)
next
  case (Cons f fs)
  have bad: "\<not> status_ok (unreadable f)" by (simp add: unreadable_def status_error_def status_ok_def)
  show ?case
  proof (cases "rd f")
    case None
    show ?thesis
    proof (cases stop)
      case True
      with Cons.prems None bad show ?thesis by (auto simp: Let_def)
    next
      case False
      then obtain rs' where "run_files rd run stop (Some (unreadable f)) fs w = ((st, rs'), w')"
        and rs: "rs = \<lparr>sr_path = f, sr_status = unreadable f, sr_statements = 0, sr_executed = 0\<rparr> # rs'"
        using Cons.prems(1) None by (auto simp: Let_def apfst_def map_prod_def split: prod.splits)
      from Cons.IH [OF this(1)] bad rs False show ?thesis by auto
    qed
  next
    case (Some content)
    obtain st1 n w1 where run: "run content w = ((st1, n), w1)" by (metis prod.collapse)
    show ?thesis
    proof (cases "stop \<and> \<not> status_ok st1")
      case True
      with Cons.prems Some run show ?thesis by (auto simp: Let_def)
    next
      case False
      let ?e = "if status_ok st1 then e else Some st1"
      obtain rs' where run': "run_files rd run stop ?e fs w1 = ((st, rs'), w')"
        and rs: "rs = \<lparr>sr_path = f, sr_status = st1, sr_statements = length (splitSqlScript content), sr_executed = n\<rparr> # rs'"
        using Cons.prems(1) Some run False by (auto simp: Let_def apfst_def map_prod_def split: prod.splits if_splits)
      have "\<forall>e'. ?e = Some e' \<longrightarrow> \<not> status_ok e'" using Cons.prems(2) by simp
      from Cons.IH [OF run' this] rs show ?thesis by (cases "status_ok st1") simp_all
    qed
  qed
qed

text \<open>The scripts of a directory are run in the order of their paths, each file with the wanted ending
  once; OK means that every one of them was read and run without an error, and unless a run stops at
  the first error there is a result for every file.\<close>

theorem directory_scripts:
  assumes "runScriptsInDir fs d stack opts impl dir w = ((st, rs), w')"
    and "fs_exists fs dir" and "fs_walk fs (so_recursive opts) dir = (paths, None)"
  shows "sorted (map sr_path rs) \<and> (\<forall>r\<in>set rs. sr_path r \<in> set paths) \<and>
    (status_ok st \<longrightarrow> (\<forall>r\<in>set rs. status_ok (sr_status r))) \<and>
    (status_ok st \<or> \<not> so_stopOnError opts \<longrightarrow> mset (map sr_path rs) = mset (collect opts paths))"
proof -
  let ?files = "sort (collect opts paths)"
  have "run_files (fs_read fs) (runScriptText d stack opts impl) (so_stopOnError opts) None ?files w = ((st, rs), w')"
    using assms by (simp add: runScriptsInDir_def runScripts_def)
  from run_files_results [OF this]
  have path: "map sr_path rs = take (length rs) ?files" and all: "status_ok st \<Longrightarrow> length rs = length ?files"
    "status_ok st \<Longrightarrow> \<forall>r\<in>set rs. status_ok (sr_status r)" "\<not> so_stopOnError opts \<Longrightarrow> length rs = length ?files"
    by auto
  have "sorted (map sr_path rs)" unfolding path by (simp add: sorted_wrt_take)
  moreover have "\<forall>r\<in>set rs. sr_path r \<in> set paths"
  proof
    fix r assume "r \<in> set rs"
    then have "sr_path r \<in> set (take (length rs) ?files)" unfolding path [symmetric] by simp
    then show "sr_path r \<in> set paths" by (auto dest!: in_set_takeD simp: collect_def)
  qed
  moreover have "mset (map sr_path rs) = mset (collect opts paths)" if "status_ok st \<or> \<not> so_stopOnError opts"
    unfolding path using all that by auto
  ultimately show ?thesis using all by blast
qed

section \<open>The scope of data definition\<close>

text \<open>As long as a frame can be pushed, a statement of the utilities runs in the context of the request,
  with the shadow mark cleared and the idempotency of the options. When the stack of frames is full the
  scope is not entered and the statement runs with the marks of the request.\<close>

lemma exec_scope_context:
  "length stack < kMaxDepth \<Longrightarrow>
   current_context (exec_scope opts stack) = (current_context stack)
     \<lparr>shadow := shadow (current_context stack) \<and> \<not> eo_forcePrimary opts,
      idempotency := (if eo_idempotency opts = Unspecified then idempotency (current_context stack) else eo_idempotency opts)\<rparr>"
  by (auto simp: exec_scope_def enter_scope_def current_context_def [of "_ @ _"] Let_def)

lemma exec_scope_full: "kMaxDepth \<le> length stack \<Longrightarrow> exec_scope opts stack = stack"
  by (simp add: exec_scope_def enter_scope_def Let_def)

end
