(* ===== verification/PgGeometry.thy ===== *)
theory PgGeometry
  imports PgTypes Types
begin

text \<open>
  The geometric types of PostgreSQL in \<open>common/pg_types.cpp\<close>: the scanner for their text form, parsers,
  formats and JSON text. A coordinate is the 64 bits of a double. What the floating point unit and
  \<open>snprintf\<close> compute is a parameter: the double that the scanner's arithmetic gives for a sign, digits
  before and after the point and an exponent, the text of a double with a precision, and the tests for
  infinities, for not-a-number and for equality. A parser that fails gives \<^const>\<open>None\<close>; what it leaves in
  its output is not modelled.
\<close>

type_synonym dbl = "64 word"

record float_env =
  fe_decimal :: "bool \<Rightarrow> string \<Rightarrow> string \<Rightarrow> int \<Rightarrow> dbl"
  fe_print :: "nat \<Rightarrow> dbl \<Rightarrow> string"
  fe_isnan :: "dbl \<Rightarrow> bool"
  fe_isinf :: "dbl \<Rightarrow> bool"
  fe_positive :: "dbl \<Rightarrow> bool"
  fe_equal :: "dbl \<Rightarrow> dbl \<Rightarrow> bool"

section \<open>Scanner\<close>

definition is_ws :: "char \<Rightarrow> bool" where
  "is_ws c \<longleftrightarrow> c = space \<or> char_code c = 9 \<or> c = newline \<or> char_code c = 13"

definition scan_ws :: "string \<Rightarrow> string" where
  "scan_ws s = dropWhile is_ws s"

definition lit :: "char \<Rightarrow> string \<Rightarrow> string option" where
  "lit c s = (case scan_ws s of [] \<Rightarrow> None | x # r \<Rightarrow> if x = c then Some r else None)"

definition at_end :: "string \<Rightarrow> bool" where
  "at_end s \<longleftrightarrow> scan_ws s = []"

text \<open>An optional sign, whether it is a minus, and the rest.\<close>

definition scan_sign :: "string \<Rightarrow> bool \<times> string" where
  "scan_sign s =
     (case s of
        [] \<Rightarrow> (False, [])
      | c # r \<Rightarrow> if c = CHR ''+'' \<or> c = CHR ''-'' then (c = CHR ''-'', r) else (False, s))"

definition scan_fraction :: "string \<Rightarrow> string \<times> string" where
  "scan_fraction s =
     (case s of
        [] \<Rightarrow> ([], [])
      | c # r \<Rightarrow> if c = CHR ''.'' then (takeWhile is_digit r, dropWhile is_digit r) else ([], s))"

text \<open>The exponent stops growing at six digits.\<close>

definition exponent_value :: "string \<Rightarrow> int" where
  "exponent_value ds = foldl (\<lambda>e c. if e < 100000 then e * 10 + int (digit_val c) else e) 0 ds"

definition scan_exponent :: "string \<Rightarrow> (int \<times> string) option" where
  "scan_exponent s =
     (case s of
        [] \<Rightarrow> Some (0, [])
      | c # r \<Rightarrow>
          if c = CHR ''e'' \<or> c = CHR ''E'' then
            (case scan_sign r of
               (neg, t) \<Rightarrow>
                 (let ds = takeWhile is_digit t
                  in if ds = [] then None
                     else Some (if neg then - exponent_value ds else exponent_value ds, dropWhile is_digit t)))
          else Some (0, s))"

definition number :: "'e float_env_scheme \<Rightarrow> string \<Rightarrow> (dbl \<times> string) option" where
  "number env s =
     (case scan_sign (scan_ws s) of
        (neg, t) \<Rightarrow>
          (let whole = takeWhile is_digit t
           in case scan_fraction (dropWhile is_digit t) of
                (frac, u) \<Rightarrow>
                  if whole = [] \<and> frac = [] then None
                  else map_option (apfst (fe_decimal env neg whole frac)) (scan_exponent u)))"

type_synonym point = "dbl \<times> dbl"

definition point :: "'e float_env_scheme \<Rightarrow> string \<Rightarrow> (point \<times> string) option" where
  "point env s =
     (case lit (CHR ''('') s of None \<Rightarrow> None | Some s1 \<Rightarrow>
      case number env s1 of None \<Rightarrow> None | Some (x, s2) \<Rightarrow>
      case lit (CHR '','') s2 of None \<Rightarrow> None | Some s3 \<Rightarrow>
      case number env s3 of None \<Rightarrow> None | Some (y, s4) \<Rightarrow>
      map_option (Pair (x, y)) (lit (CHR '')'') s4))"

lemma scan_ws_length: "length (scan_ws s) \<le> length s"
  by (simp add: scan_ws_def length_dropWhile_le)

lemma lit_length: "lit c s = Some r \<Longrightarrow> length r < length s"
  using scan_ws_length [of s] by (auto simp: lit_def split: list.splits if_splits)

lemma scan_sign_length: "length (snd (scan_sign s)) \<le> length s"
  by (auto simp: scan_sign_def split: list.splits)

lemma scan_fraction_length: "length (snd (scan_fraction s)) \<le> length s"
  by (auto simp: scan_fraction_def le_SucI length_dropWhile_le split: list.splits)

lemma scan_exponent_length: "scan_exponent s = Some (e, r) \<Longrightarrow> length r \<le> length s"
proof -
  assume a: "scan_exponent s = Some (e, r)"
  show ?thesis
  proof (cases s)
    case (Cons c t)
    have "length (dropWhile is_digit (snd (scan_sign t))) \<le> length t"
      using scan_sign_length [of t] length_dropWhile_le [of is_digit "snd (scan_sign t)"] by linarith
    with a Cons show ?thesis
      by (auto simp: scan_exponent_def Let_def case_prod_beta le_SucI split: if_splits)
  qed (use a in \<open>simp add: scan_exponent_def\<close>)
qed

lemma number_length: "number env s = Some (v, r) \<Longrightarrow> length r \<le> length s"
proof -
  let ?t = "snd (scan_sign (scan_ws s))"
  let ?u = "snd (scan_fraction (dropWhile is_digit ?t))"
  assume "number env s = Some (v, r)"
  then obtain e where "scan_exponent ?u = Some (e, r)"
    by (auto simp: number_def Let_def case_prod_beta split: if_splits)
  then have "length r \<le> length ?u" by (rule scan_exponent_length)
  also have "\<dots> \<le> length (dropWhile is_digit ?t)" by (rule scan_fraction_length)
  also have "\<dots> \<le> length ?t" by (rule length_dropWhile_le)
  also have "\<dots> \<le> length (scan_ws s)" by (rule scan_sign_length)
  also have "\<dots> \<le> length s" by (rule scan_ws_length)
  finally show ?thesis .
qed

lemma point_length: "point env s = Some (p, r) \<Longrightarrow> length r < length s"
  by (auto simp: point_def split: option.splits prod.splits dest!: lit_length number_length)

function point_list :: "'e float_env_scheme \<Rightarrow> char \<Rightarrow> string \<Rightarrow> (point list \<times> string) option" where
  "point_list env close s =
     (case point env s of
        None \<Rightarrow> None
      | Some (p, r) \<Rightarrow>
          (case lit (CHR '','') r of
             Some r' \<Rightarrow> map_option (apfst ((#) p)) (point_list env close r')
           | None \<Rightarrow> map_option (Pair [p]) (lit close r)))"
  by pat_completeness auto
termination
  by (relation "measure (\<lambda>(env, c, s). length s)") (auto dest!: point_length lit_length)

declare point_list.simps [simp del]

definition points :: "'e float_env_scheme \<Rightarrow> char \<Rightarrow> char \<Rightarrow> string \<Rightarrow> (point list \<times> string) option" where
  "points env opn close s =
     (case lit opn s of
        None \<Rightarrow> None
      | Some s1 \<Rightarrow> (case lit close s1 of Some s2 \<Rightarrow> Some ([], s2) | None \<Rightarrow> point_list env close s1))"

definition complete :: "('a \<times> string) option \<Rightarrow> 'a option" where
  "complete r = (case r of Some (x, rest) \<Rightarrow> if at_end rest then Some x else None | None \<Rightarrow> None)"

section \<open>Numbers\<close>

definition pgParseDouble :: "'e float_env_scheme \<Rightarrow> string \<Rightarrow> dbl option" where
  "pgParseDouble env s = complete (number env s)"

definition printed_back :: "'e float_env_scheme \<Rightarrow> dbl \<Rightarrow> nat \<Rightarrow> bool" where
  "printed_back env v precision =
     (case pgParseDouble env (fe_print env precision v) of None \<Rightarrow> False | Some back \<Rightarrow> fe_equal env back v)"

definition pgFormatDouble :: "'e float_env_scheme \<Rightarrow> dbl \<Rightarrow> string" where
  "pgFormatDouble env v =
     (if fe_isnan env v then ''NaN''
      else if fe_isinf env v then (if fe_positive env v then ''Infinity'' else ''-Infinity'')
      else
        (let precision = (case find (printed_back env v) [15, 16, 17] of Some p \<Rightarrow> p | None \<Rightarrow> 17)
         in map (\<lambda>c. if c = CHR '','' then CHR ''.'' else c) (fe_print env precision v)))"

section \<open>Shapes\<close>

datatype geometry =
  PgPoint point | PgLine dbl dbl dbl | PgLseg point point | PgBox point point
| PgPath bool "point list" | PgPolygon "point list" | PgCircle point dbl

definition pgParsePoint :: "'e float_env_scheme \<Rightarrow> string \<Rightarrow> geometry option" where
  "pgParsePoint env s = map_option PgPoint (complete (point env s))"

definition pgParseLine :: "'e float_env_scheme \<Rightarrow> string \<Rightarrow> geometry option" where
  "pgParseLine env s =
     (case lit (CHR ''{'') s of None \<Rightarrow> None | Some s1 \<Rightarrow>
      case number env s1 of None \<Rightarrow> None | Some (a, s2) \<Rightarrow>
      case lit (CHR '','') s2 of None \<Rightarrow> None | Some s3 \<Rightarrow>
      case number env s3 of None \<Rightarrow> None | Some (b, s4) \<Rightarrow>
      case lit (CHR '','') s4 of None \<Rightarrow> None | Some s5 \<Rightarrow>
      case number env s5 of None \<Rightarrow> None | Some (c, s6) \<Rightarrow>
      complete (map_option (Pair (PgLine a b c)) (lit (CHR ''}'') s6)))"

definition pgParseLseg :: "'e float_env_scheme \<Rightarrow> string \<Rightarrow> geometry option" where
  "pgParseLseg env s =
     (case lit (CHR ''['') s of None \<Rightarrow> None | Some s1 \<Rightarrow>
      case point env s1 of None \<Rightarrow> None | Some (p, s2) \<Rightarrow>
      case lit (CHR '','') s2 of None \<Rightarrow> None | Some s3 \<Rightarrow>
      case point env s3 of None \<Rightarrow> None | Some (q, s4) \<Rightarrow>
      complete (map_option (Pair (PgLseg p q)) (lit (CHR '']'') s4)))"

definition pgParseBox :: "'e float_env_scheme \<Rightarrow> string \<Rightarrow> geometry option" where
  "pgParseBox env s =
     (case point env s of None \<Rightarrow> None | Some (p, s1) \<Rightarrow>
      case lit (CHR '','') s1 of None \<Rightarrow> None | Some s2 \<Rightarrow>
      map_option (PgBox p) (complete (point env s2)))"

definition pgParsePath :: "'e float_env_scheme \<Rightarrow> string \<Rightarrow> geometry option" where
  "pgParsePath env s =
     (let t = scan_ws s; closed = (t \<noteq> [] \<and> hd t = CHR ''('')
      in map_option (PgPath closed)
           (complete (if closed then points env (CHR ''('') (CHR '')'') t else points env (CHR ''['') (CHR '']'') t)))"

definition pgParsePolygon :: "'e float_env_scheme \<Rightarrow> string \<Rightarrow> geometry option" where
  "pgParsePolygon env s = map_option PgPolygon (complete (points env (CHR ''('') (CHR '')'') s))"

definition pgParseCircle :: "'e float_env_scheme \<Rightarrow> string \<Rightarrow> geometry option" where
  "pgParseCircle env s =
     (case lit (CHR ''<'') s of None \<Rightarrow> None | Some s1 \<Rightarrow>
      case point env s1 of None \<Rightarrow> None | Some (p, s2) \<Rightarrow>
      case lit (CHR '','') s2 of None \<Rightarrow> None | Some s3 \<Rightarrow>
      case number env s3 of None \<Rightarrow> None | Some (r, s4) \<Rightarrow>
      complete (map_option (Pair (PgCircle p r)) (lit (CHR ''>'') s4)))"

definition pgFormatPoint :: "'e float_env_scheme \<Rightarrow> point \<Rightarrow> string" where
  "pgFormatPoint env p = ''('' @ pgFormatDouble env (fst p) @ '','' @ pgFormatDouble env (snd p) @ '')''"

fun pgFormatGeometry :: "'e float_env_scheme \<Rightarrow> geometry \<Rightarrow> string" where
  "pgFormatGeometry env (PgPoint p) = pgFormatPoint env p"
| "pgFormatGeometry env (PgLine a b c) =
     ''{'' @ pgFormatDouble env a @ '','' @ pgFormatDouble env b @ '','' @ pgFormatDouble env c @ ''}''"
| "pgFormatGeometry env (PgLseg p q) = ''['' @ pgFormatPoint env p @ '','' @ pgFormatPoint env q @ '']''"
| "pgFormatGeometry env (PgBox p q) = pgFormatPoint env p @ '','' @ pgFormatPoint env q"
| "pgFormatGeometry env (PgPath closed ps) =
     (if closed then ''('' else ''['') @ join '','' (map (pgFormatPoint env) ps) @ (if closed then '')'' else '']'')"
| "pgFormatGeometry env (PgPolygon ps) = ''('' @ join '','' (map (pgFormatPoint env) ps) @ '')''"
| "pgFormatGeometry env (PgCircle p r) = ''<'' @ pgFormatPoint env p @ '','' @ pgFormatDouble env r @ ''>''"

definition key_text :: "string \<Rightarrow> string" where
  "key_text k = [dquote] @ k @ [dquote] @ '':''"

definition jsonPoint :: "'e float_env_scheme \<Rightarrow> point \<Rightarrow> string" where
  "jsonPoint env p =
     ''{'' @ key_text ''x'' @ pgFormatDouble env (fst p) @ '','' @ key_text ''y'' @ pgFormatDouble env (snd p) @ ''}''"

definition jsonPoints :: "'e float_env_scheme \<Rightarrow> point list \<Rightarrow> string" where
  "jsonPoints env ps = ''['' @ join '','' (map (jsonPoint env) ps) @ '']''"

fun pgGeometryToJson :: "'e float_env_scheme \<Rightarrow> geometry \<Rightarrow> string" where
  "pgGeometryToJson env (PgPoint p) = jsonPoint env p"
| "pgGeometryToJson env (PgLine a b c) =
     ''{'' @ key_text ''a'' @ pgFormatDouble env a @ '','' @ key_text ''b'' @ pgFormatDouble env b @ '','' @
     key_text ''c'' @ pgFormatDouble env c @ ''}''"
| "pgGeometryToJson env (PgLseg p q) =
     ''{'' @ key_text ''p1'' @ jsonPoint env p @ '','' @ key_text ''p2'' @ jsonPoint env q @ ''}''"
| "pgGeometryToJson env (PgBox p q) =
     ''{'' @ key_text ''high'' @ jsonPoint env p @ '','' @ key_text ''low'' @ jsonPoint env q @ ''}''"
| "pgGeometryToJson env (PgPath closed ps) =
     ''{'' @ key_text ''closed'' @ (if closed then ''true'' else ''false'') @ '','' @ key_text ''points'' @
     jsonPoints env ps @ ''}''"
| "pgGeometryToJson env (PgPolygon ps) = ''{'' @ key_text ''points'' @ jsonPoints env ps @ ''}''"
| "pgGeometryToJson env (PgCircle p r) =
     ''{'' @ key_text ''center'' @ jsonPoint env p @ '','' @ key_text ''radius'' @ pgFormatDouble env r @ ''}''"

section \<open>Round trip\<close>

definition reads_back :: "'e float_env_scheme \<Rightarrow> dbl \<Rightarrow> bool" where
  "reads_back env v \<longleftrightarrow> number env (pgFormatDouble env v) = Some (v, [])"

fun coordinates :: "geometry \<Rightarrow> dbl list" where
  "coordinates (PgPoint (x, y)) = [x, y]"
| "coordinates (PgLine a b c) = [a, b, c]"
| "coordinates (PgLseg (x, y) (u, v)) = [x, y, u, v]"
| "coordinates (PgBox (x, y) (u, v)) = [x, y, u, v]"
| "coordinates (PgPath closed ps) = concat (map (\<lambda>(x, y). [x, y]) ps)"
| "coordinates (PgPolygon ps) = concat (map (\<lambda>(x, y). [x, y]) ps)"
| "coordinates (PgCircle (x, y) r) = [x, y, r]"

text \<open>Characters that end a number wherever they follow one.\<close>

definition ends_number :: "string \<Rightarrow> bool" where
  "ends_number s \<longleftrightarrow> s \<noteq> [] \<and> hd s \<in> {CHR '','', CHR '')'', CHR ''}'', CHR '']'', CHR ''>''}"

lemma ends_number_head:
  assumes "ends_number r"
  shows "r \<noteq> []" "\<not> is_digit (hd r)" "\<not> is_ws (hd r)" "hd r \<noteq> CHR ''.''" "hd r \<noteq> CHR ''e''" "hd r \<noteq> CHR ''E''"
    "hd r \<noteq> CHR ''+''" "hd r \<noteq> CHR ''-''"
  using assms by (auto simp: ends_number_def is_digit_def is_ws_def)

lemma digits_append:
  "r = [] \<or> \<not> is_digit (hd r) \<Longrightarrow> takeWhile is_digit (s @ r) = takeWhile is_digit s \<and>
    dropWhile is_digit (s @ r) = dropWhile is_digit s @ r"
  by (induction s; cases r) auto

lemma scan_sign_append:
  assumes "ends_number r"
  shows "scan_sign (s @ r) = (fst (scan_sign s), snd (scan_sign s) @ r)"
  using ends_number_head [OF assms] by (cases s; cases r) (auto simp: scan_sign_def)

lemma scan_fraction_append:
  assumes "ends_number r"
  shows "scan_fraction (s @ r) = (fst (scan_fraction s), snd (scan_fraction s) @ r)"
  using ends_number_head [OF assms] digits_append [of r "tl s"]
  by (cases s; cases r) (auto simp: scan_fraction_def)

lemma scan_exponent_append:
  assumes "ends_number r" and "scan_exponent s = Some (e, t)"
  shows "scan_exponent (s @ r) = Some (e, t @ r)"
proof (cases s)
  case Nil
  with assms ends_number_head [OF assms(1)] show ?thesis by (cases r) (auto simp: scan_exponent_def)
next
  case (Cons c u)
  with assms digits_append [of r "snd (scan_sign u)"] ends_number_head [OF assms(1)] show ?thesis
    by (auto simp: scan_exponent_def Let_def case_prod_beta scan_sign_append split: if_splits)
qed

lemma scan_ws_append: "scan_ws s \<noteq> [] \<Longrightarrow> scan_ws (s @ r) = scan_ws s @ r"
  by (induction s) (auto simp: scan_ws_def)

lemma number_append:
  assumes "ends_number r" and "number env s = Some (v, t)"
  shows "number env (s @ r) = Some (v, t @ r)"
proof -
  have "scan_ws s \<noteq> []"
    using assms(2) by (auto simp: number_def scan_sign_def scan_fraction_def Let_def)
  then have ws: "scan_ws (s @ r) = scan_ws s @ r" by (rule scan_ws_append)
  obtain e where e: "scan_exponent (snd (scan_fraction (dropWhile is_digit (snd (scan_sign (scan_ws s)))))) = Some (e, t)"
    using assms(2) by (auto simp: number_def Let_def case_prod_beta split: if_splits)
  from scan_exponent_append [OF assms(1) e] show ?thesis
    using assms(2) e digits_append [of r "snd (scan_sign (scan_ws s))"] ends_number_head [OF assms(1)]
    by (auto simp: number_def Let_def case_prod_beta ws scan_sign_append [OF assms(1)]
        scan_fraction_append [OF assms(1)] split: if_splits)
qed

lemma number_formatted:
  "reads_back env v \<Longrightarrow> ends_number r \<Longrightarrow> number env (pgFormatDouble env v @ r) = Some (v, r)"
  using number_append [of r env "pgFormatDouble env v" v "[]"] by (simp add: reads_back_def)

lemma lit_Cons [simp]: "\<not> is_ws x \<Longrightarrow> lit c (x # s) = (if x = c then Some s else None)"
  by (simp add: lit_def scan_ws_def)

lemma not_ws [simp]:
  "\<not> is_ws (CHR ''('')" "\<not> is_ws (CHR '')'')" "\<not> is_ws (CHR '','')" "\<not> is_ws (CHR ''{'')" "\<not> is_ws (CHR ''}'')"
  "\<not> is_ws (CHR ''['')" "\<not> is_ws (CHR '']'')" "\<not> is_ws (CHR ''<'')" "\<not> is_ws (CHR ''>'')"
  by (simp_all add: is_ws_def)

lemma ends_number_Cons [simp]:
  "ends_number (c # s) \<longleftrightarrow> c \<in> {CHR '','', CHR '')'', CHR ''}'', CHR '']'', CHR ''>''}"
  by (simp add: ends_number_def)

lemma point_formatted:
  "reads_back env x \<Longrightarrow> reads_back env y \<Longrightarrow> point env (pgFormatPoint env (x, y) @ r) = Some ((x, y), r)"
  by (simp add: point_def pgFormatPoint_def number_formatted)

lemma point_list_formatted:
  "ps \<noteq> [] \<Longrightarrow> \<forall>(x, y)\<in>set ps. reads_back env x \<and> reads_back env y \<Longrightarrow> close \<noteq> CHR '','' \<Longrightarrow> \<not> is_ws close \<Longrightarrow>
   point_list env close (join '','' (map (pgFormatPoint env) ps) @ close # r) = Some (ps, r)"
proof (induction ps)
  case (Cons p ps)
  obtain x y where p: "p = (x, y)" by fastforce
  with Cons.prems have xy: "reads_back env x" "reads_back env y" by auto
  show ?case
  proof (cases ps)
    case Nil
    with xy p Cons.prems show ?thesis by (subst point_list.simps) (simp add: point_formatted)
  next
    case (Cons q qs)
    with Cons.IH Cons.prems have "point_list env close (join '','' (map (pgFormatPoint env) ps) @ close # r) = Some (ps, r)"
      by simp
    with xy p Cons show ?thesis by (subst point_list.simps) (simp add: point_formatted join_Cons)
  qed
qed simp

lemma points_formatted:
  assumes "\<forall>(x, y)\<in>set ps. reads_back env x \<and> reads_back env y" and "close \<noteq> CHR '',''" "close \<noteq> CHR ''(''"
    and "\<not> is_ws close" "\<not> is_ws opn"
  shows "points env opn close (opn # join '','' (map (pgFormatPoint env) ps) @ close # r) = Some (ps, r)"
proof (cases ps)
  case Nil
  with assms show ?thesis by (simp add: points_def)
next
  case (Cons p qs)
  have "lit close (join '','' (map (pgFormatPoint env) ps) @ close # r) = None"
    using Cons assms by (simp add: join_Cons pgFormatPoint_def)
  with assms Cons point_list_formatted [of ps env close r] show ?thesis by (simp add: points_def)
qed

text \<open>Which parser reads a shape.\<close>

fun parse_like :: "'e float_env_scheme \<Rightarrow> geometry \<Rightarrow> string \<Rightarrow> geometry option" where
  "parse_like env (PgPoint _) s = pgParsePoint env s"
| "parse_like env (PgLine _ _ _) s = pgParseLine env s"
| "parse_like env (PgLseg _ _) s = pgParseLseg env s"
| "parse_like env (PgBox _ _) s = pgParseBox env s"
| "parse_like env (PgPath _ _) s = pgParsePath env s"
| "parse_like env (PgPolygon _) s = pgParsePolygon env s"
| "parse_like env (PgCircle _ _) s = pgParseCircle env s"

lemma complete_end [simp]: "complete (Some (x, [])) = Some x"
  by (simp add: complete_def at_end_def scan_ws_def)

lemma point_formatted_end:
  "reads_back env x \<Longrightarrow> reads_back env y \<Longrightarrow> point env (pgFormatPoint env (x, y)) = Some ((x, y), [])"
  using point_formatted [of env x y "[]"] by simp

text \<open>The text written for a shape is read back as that shape, as long as each of its numbers alone is.\<close>

theorem geometry_roundtrip:
  assumes "\<forall>v\<in>set (coordinates g). reads_back env v"
  shows "parse_like env g (pgFormatGeometry env g) = Some g"
proof (cases g)
  case (PgPoint p)
  with assms show ?thesis by (cases p) (simp add: pgParsePoint_def point_formatted_end)
next
  case (PgLine a b c)
  with assms show ?thesis by (simp add: pgParseLine_def number_formatted)
next
  case (PgLseg p q)
  with assms show ?thesis by (cases p; cases q) (simp add: pgParseLseg_def point_formatted)
next
  case (PgBox p q)
  with assms show ?thesis by (cases p; cases q) (simp add: pgParseBox_def point_formatted point_formatted_end)
next
  case (PgPath closed ps)
  then have "\<forall>(x, y)\<in>set ps. reads_back env x \<and> reads_back env y" using assms by fastforce
  then have "points env (CHR ''('') (CHR '')'') (CHR ''('' # join '','' (map (pgFormatPoint env) ps) @ [CHR '')'']) = Some (ps, [])"
    "points env (CHR ''['') (CHR '']'') (CHR ''['' # join '','' (map (pgFormatPoint env) ps) @ [CHR '']'']) = Some (ps, [])"
    by (rule points_formatted; simp)+
  with PgPath show ?thesis by (cases closed) (simp_all add: pgParsePath_def Let_def scan_ws_def)
next
  case (PgPolygon ps)
  then have "\<forall>(x, y)\<in>set ps. reads_back env x \<and> reads_back env y" using assms by fastforce
  then have "points env (CHR ''('') (CHR '')'') (CHR ''('' # join '','' (map (pgFormatPoint env) ps) @ [CHR '')'']) = Some (ps, [])"
    by (rule points_formatted; simp)
  with PgPolygon show ?thesis by (simp add: pgParsePolygon_def)
next
  case (PgCircle p r)
  with assms show ?thesis by (cases p) (simp add: pgParseCircle_def point_formatted number_formatted)
qed

text \<open>Doubles whose bits are small numbers, for which the arithmetic is easy to give.\<close>

definition digit_env :: float_env where
  "digit_env = \<lparr>fe_decimal = (\<lambda>neg whole frac e. of_nat (digits_val whole)), fe_print = (\<lambda>p v. nat_to_string (unat v)),
     fe_isnan = (\<lambda>_. False), fe_isinf = (\<lambda>v. v = - 1), fe_positive = (\<lambda>_. True), fe_equal = (=)\<rparr>"

theorem geometry_roundtrip_witness:
  "pgParsePath digit_env (pgFormatGeometry digit_env (PgPath True [(3, 4), (12, 0)])) = Some (PgPath True [(3, 4), (12, 0)])"
proof -
  have "\<forall>v\<in>set (coordinates (PgPath True [(3, 4), (12, 0)])). reads_back digit_env v" by code_simp
  from geometry_roundtrip [OF this] show ?thesis by simp
qed

text \<open>The scanner does not know the words that are written for infinities and not-a-number: a shape with
  one is written but cannot be read.\<close>

lemma infinity_not_read:
  assumes "fe_isinf env v" and "\<not> fe_isnan env v"
  shows "pgParsePoint env (pgFormatPoint env (v, y)) = None"
proof -
  have "number env (''Infinity'' @ r) = None" "number env (''-Infinity'' @ r) = None" for r
    by (simp_all add: number_def scan_ws_def is_ws_def scan_sign_def scan_fraction_def is_digit_def)
  with assms show ?thesis by (simp add: pgParsePoint_def complete_def point_def pgFormatPoint_def pgFormatDouble_def)
qed

end
