(* ===== verification/EntityMapping.thy ===== *)
theory EntityMapping
  imports UtilScript PgGeometry OracleTypes
begin

text \<open>
  The entity layer of \<open>sqlconduit/mapping.h\<close>: conversions between database values and the members of a
  struct, the declaration of a mapping, rows into entities and entities into parameters, the statements
  it writes, and the calls that run them. The templates are over the member type, which is the data
  type \<open>ftype\<close> here; an entity maps its members, numbered, to values. Conversions take and return the
  member, so that what a failing conversion leaves there is modelled too (but for shapes, whose failing
  parsers leave the member as it was here). Arithmetic on doubles, \<open>std::stod\<close> and the texts of doubles
  are parameters. Interval and typed members have no converter in the source.
\<close>

unbundle bit_operations_syntax

section \<open>Flags and types\<close>

type_synonym field_flags = "32 word"

definition PrimaryKey :: field_flags where "PrimaryKey = 1"
definition Generated :: field_flags where "Generated = 2"
definition ReadOnly :: field_flags where "ReadOnly = 4"
definition Lossy :: field_flags where "Lossy = 8"
definition Textual :: field_flags where "Textual = 16"

definition hasFlag :: "field_flags \<Rightarrow> field_flags \<Rightarrow> bool" where
  "hasFlag v b \<longleftrightarrow> v AND b \<noteq> 0"

datatype extra_columns = ExtraIgnore | ExtraError
datatype missing_columns = MissingIgnore | MissingError
datatype write_cols = Writable | All | KeyOnly

datatype strong = SDecimal | SDate | STime | SUuid | SJson

datatype shape = ShPoint | ShLine | ShLseg | ShBox | ShPath | ShPolygon | ShCircle

datatype ftype =
  FBool | FInt bool nat | FFloat | FDouble | FString | FStrong strong | FBlob | FArray | FComposite
| FVector ftype | FGeometry shape | FTimestamp | FOptional ftype | FEnum bool nat

datatype fval =
  XBool bool | XInt int | XReal dbl | XString string | XBlob blob | XArray "val list" | XComposite "(string \<times> val) list"
| XList "fval list" | XGeometry geometry | XTimestamp i64 | XNone | XSome fval

fun strong_name :: "strong \<Rightarrow> string" where
  "strong_name SDecimal = ''Decimal''"
| "strong_name SDate = ''Date''"
| "strong_name STime = ''Time''"
| "strong_name SUuid = ''Uuid''"
| "strong_name SJson = ''Json''"

fun shape_name :: "shape \<Rightarrow> string" where
  "shape_name ShPoint = ''PgPoint''"
| "shape_name ShLine = ''PgLine''"
| "shape_name ShLseg = ''PgLseg''"
| "shape_name ShBox = ''PgBox''"
| "shape_name ShPath = ''PgPath''"
| "shape_name ShPolygon = ''PgPolygon''"
| "shape_name ShCircle = ''PgCircle''"

fun type_name :: "ftype \<Rightarrow> string" where
  "type_name FBool = ''bool''"
| "type_name (FInt s b) = (if s then ''int'' else ''uint'') @ nat_to_string b @ ''_t''"
| "type_name FFloat = ''float''"
| "type_name FDouble = ''double''"
| "type_name FString = ''std::string''"
| "type_name (FStrong k) = strong_name k"
| "type_name FBlob = ''Blob''"
| "type_name FArray = ''Array''"
| "type_name FComposite = ''Composite''"
| "type_name (FVector _) = ''custom-type''"
| "type_name (FGeometry g) = shape_name g"
| "type_name FTimestamp = ''Timestamp''"
| "type_name (FOptional t) = ''std::optional<'' @ type_name t @ ''>''"
| "type_name (FEnum _ _) = ''enum''"

text \<open>The position of the alternative in the variant of a value.\<close>

fun value_index :: "val \<Rightarrow> nat" where
  "value_index VNull = 0"
| "value_index (VBool _) = 1"
| "value_index (VInt _) = 2"
| "value_index (VUInt _) = 3"
| "value_index (VDouble _) = 4"
| "value_index (VDecimal _) = 5"
| "value_index (VString _) = 6"
| "value_index (VDate _) = 7"
| "value_index (VTime _) = 8"
| "value_index (VTimestamp _) = 9"
| "value_index (VUuid _) = 10"
| "value_index (VJson _) = 11"
| "value_index (VBlob _) = 12"
| "value_index (VIntervalYM _) = 13"
| "value_index (VIntervalDS _) = 14"
| "value_index (VArray _) = 15"
| "value_index (VComposite _) = 16"
| "value_index (VTypedArray _ _) = 17"
| "value_index (VTypedComposite _ _) = 18"

definition valueTypeName :: "val \<Rightarrow> string" where
  "valueTypeName v =
     (let names = [''NULL'', ''bool'', ''int64'', ''uint64'', ''double'', ''Decimal'', ''string'', ''Date'', ''Time'',
            ''Timestamp'', ''Uuid'', ''Json'', ''Blob'', ''Array'', ''Composite'']
      in if value_index v < length names then names ! value_index v else ''unknown'')"

definition mapError :: "string \<Rightarrow> status" where
  "mapError msg = status_error MappingError msg"

definition typeError :: "string \<Rightarrow> val \<Rightarrow> status" where
  "typeError target v = mapError (''cannot convert '' @ valueTypeName v @ '' to '' @ target)"

section \<open>Conversions\<close>

record conv_env =
  cv_render :: render_env
  cv_mktime :: "civil \<Rightarrow> int option"
  cv_floats :: float_env
  cv_trunc :: "dbl \<Rightarrow> int"
  cv_overflow :: i64
  cv_to_string :: "dbl \<Rightarrow> string"
  cv_of_int :: "int \<Rightarrow> dbl"
  cv_float_of_int :: "int \<Rightarrow> dbl"
  cv_stod :: "string \<Rightarrow> dbl option"
  cv_float_range :: "dbl \<Rightarrow> bool"
  cv_narrow :: "dbl \<Rightarrow> dbl"

text \<open>\<open>cv_trunc\<close> is a finite double rounded towards zero; \<open>cv_overflow\<close> is what the conversion of a double
  outside the range of the integer type, undefined in C++, happens to give; \<open>cv_narrow\<close> is the
  conversion to \<open>float\<close>, whose values are a subset of the doubles.\<close>

definition tryParseIntegral :: "string \<Rightarrow> int option" where
  "tryParseIntegral s =
     (let t = dropWhile is_space s;
          u = (if t \<noteq> [] \<and> (hd t = CHR ''-'' \<or> hd t = CHR ''+'') then tl t else t)
      in if s = [] \<or> dropWhile is_digit u \<noteq> [] then None else stoll s)"

definition tryParseReal :: "conv_env \<Rightarrow> string \<Rightarrow> dbl option" where
  "tryParseReal env s = (if s = [] then None else cv_stod env s)"

definition fitsIn :: "bool \<Rightarrow> nat \<Rightarrow> int \<Rightarrow> bool" where
  "fitsIn sg b n \<longleftrightarrow> (if sg then - (2 ^ (b - 1)) \<le> n \<and> n < 2 ^ (b - 1) else 0 \<le> n \<and> n < 2 ^ b)"

definition ranged :: "ftype \<Rightarrow> bool \<Rightarrow> nat \<Rightarrow> int \<Rightarrow> fval \<Rightarrow> status \<times> fval" where
  "ranged t sg b n out =
     (if \<not> fitsIn sg b n then (mapError (''value '' @ int_to_string n @ '' out of range for '' @ type_name t), out)
      else (status_OK, XInt n))"

definition cast_i64 :: "conv_env \<Rightarrow> int \<Rightarrow> int" where
  "cast_i64 env n = (if i64_min \<le> n \<and> n \<le> i64_max then n else sint (cv_overflow env))"

definition int_from :: "conv_env \<Rightarrow> bool \<Rightarrow> nat \<Rightarrow> field_flags \<Rightarrow> val \<Rightarrow> fval \<Rightarrow> status \<times> fval" where
  "int_from env sg b flags v out =
     (let t = FInt sg b; lossy = hasFlag flags Lossy;
          text = (\<lambda>s. case tryParseIntegral s of
                    Some n \<Rightarrow> ranged t sg b n out | None \<Rightarrow> (typeError (type_name t) v, out))
      in case v of
           VInt i \<Rightarrow> ranged t sg b (sint i) out
         | VUInt u \<Rightarrow> ranged t sg b (uint u) out
         | VDouble w \<Rightarrow>
             if \<not> lossy then (typeError (type_name t) v, out)
             else if \<not> is_finite_double w then (mapError (''non-finite double for '' @ type_name t), out)
             else if cv_trunc env w < - (2 ^ 63) \<or> cv_trunc env w > 2 ^ 63 then
               (mapError (''double '' @ cv_to_string env w @ '' out of range for '' @ type_name t), out)
             else ranged t sg b (cast_i64 env (cv_trunc env w)) out
         | VDecimal s \<Rightarrow> if lossy then text s else (typeError (type_name t) v, out)
         | VString s \<Rightarrow> if lossy then text s else (typeError (type_name t) v, out)
         | _ \<Rightarrow> (typeError (type_name t) v, out))"

definition real_from :: "conv_env \<Rightarrow> ftype \<Rightarrow> field_flags \<Rightarrow> val \<Rightarrow> fval \<Rightarrow> status \<times> fval" where
  "real_from env t flags v out =
     (let lossy = hasFlag flags Lossy;
          narrow = (\<lambda>w. if t = FDouble then w else cv_narrow env w);
          whole = (\<lambda>n. if t = FDouble then cv_of_int env n else cv_float_of_int env n);
          bad = (typeError (type_name t) v, out);
          text = (\<lambda>s. case tryParseReal env s of Some w \<Rightarrow> (status_OK, XReal (narrow w)) | None \<Rightarrow> bad)
      in case v of
           VDouble w \<Rightarrow>
             if t \<noteq> FDouble \<and> \<not> cv_float_range env w
             then (mapError (''double '' @ cv_to_string env w @ '' out of range for '' @ type_name t), out)
             else (status_OK, XReal (narrow w))
         | VInt i \<Rightarrow> if lossy then (status_OK, XReal (whole (sint i))) else bad
         | VUInt u \<Rightarrow> if lossy then (status_OK, XReal (whole (uint u))) else bad
         | VDecimal s \<Rightarrow> if lossy then text s else bad
         | VString s \<Rightarrow> if lossy then text s else bad
         | _ \<Rightarrow> bad)"

definition string_from :: "conv_env \<Rightarrow> field_flags \<Rightarrow> val \<Rightarrow> fval \<Rightarrow> status \<times> fval" where
  "string_from env flags v out =
     (case v of
        VString s \<Rightarrow> (status_OK, XString s)
      | VDecimal s \<Rightarrow> (status_OK, XString s)
      | VDate s \<Rightarrow> (status_OK, XString s)
      | VTime s \<Rightarrow> (status_OK, XString s)
      | VUuid s \<Rightarrow> (status_OK, XString s)
      | VJson s \<Rightarrow> (status_OK, XString s)
      | VNull \<Rightarrow> (typeError ''std::string'' v, out)
      | VBlob _ \<Rightarrow> (typeError ''std::string'' v, out)
      | _ \<Rightarrow> if hasFlag flags Lossy then (status_OK, XString (valueToString (cv_render env) v))
             else (typeError ''std::string'' v, out))"

fun strong_text :: "strong \<Rightarrow> val \<Rightarrow> string option" where
  "strong_text SDecimal (VDecimal s) = Some s"
| "strong_text SDate (VDate s) = Some s"
| "strong_text STime (VTime s) = Some s"
| "strong_text SUuid (VUuid s) = Some s"
| "strong_text SJson (VJson s) = Some s"
| "strong_text _ _ = None"

fun strong_value :: "strong \<Rightarrow> string \<Rightarrow> val" where
  "strong_value SDecimal s = VDecimal s"
| "strong_value SDate s = VDate s"
| "strong_value STime s = VTime s"
| "strong_value SUuid s = VUuid s"
| "strong_value SJson s = VJson s"

definition strong_from :: "strong \<Rightarrow> field_flags \<Rightarrow> val \<Rightarrow> fval \<Rightarrow> status \<times> fval" where
  "strong_from k flags v out =
     (case strong_text k v of
        Some s \<Rightarrow> (status_OK, XString s)
      | None \<Rightarrow>
          (case v of
             VString s \<Rightarrow> if hasFlag flags Textual then (status_OK, XString s) else (typeError (strong_name k) v, out)
           | _ \<Rightarrow> (typeError (strong_name k) v, out)))"

fun parse_shape :: "float_env \<Rightarrow> shape \<Rightarrow> string \<Rightarrow> geometry option" where
  "parse_shape env ShPoint s = pgParsePoint env s"
| "parse_shape env ShLine s = pgParseLine env s"
| "parse_shape env ShLseg s = pgParseLseg env s"
| "parse_shape env ShBox s = pgParseBox env s"
| "parse_shape env ShPath s = pgParsePath env s"
| "parse_shape env ShPolygon s = pgParsePolygon env s"
| "parse_shape env ShCircle s = pgParseCircle env s"

definition geometry_from :: "conv_env \<Rightarrow> shape \<Rightarrow> field_flags \<Rightarrow> val \<Rightarrow> fval \<Rightarrow> status \<times> fval" where
  "geometry_from env g flags v out =
     (let bad = (typeError (shape_name g) v, out);
          read = (\<lambda>s. case parse_shape (cv_floats env) g s of Some x \<Rightarrow> (status_OK, XGeometry x) | None \<Rightarrow> bad)
      in case v of
           VJson s \<Rightarrow> read s
         | VString s \<Rightarrow> if hasFlag flags Textual then read s else bad
         | _ \<Rightarrow> bad)"

definition timestamp_from :: "conv_env \<Rightarrow> field_flags \<Rightarrow> val \<Rightarrow> fval \<Rightarrow> status \<times> fval" where
  "timestamp_from env flags v out =
     (let bad = (typeError ''Timestamp'' v, out);
          read = (\<lambda>s. if \<not> hasFlag flags Textual \<or> s = [] then bad
                      else case tryParseTimestamp (cv_mktime env) s of
                        Some ns \<Rightarrow> (status_OK, XTimestamp (word_of_int ns)) | None \<Rightarrow> bad)
      in case v of
           VTimestamp t \<Rightarrow> (status_OK, XTimestamp t)
         | VString s \<Rightarrow> read s
         | VDate s \<Rightarrow> read s
         | VTime s \<Rightarrow> read s
         | _ \<Rightarrow> bad)"

text \<open>The value of a member that was default constructed.\<close>

fun default_of :: "ftype \<Rightarrow> fval" where
  "default_of FBool = XBool False"
| "default_of (FInt _ _) = XInt 0"
| "default_of FFloat = XReal 0"
| "default_of FDouble = XReal 0"
| "default_of FString = XString []"
| "default_of (FStrong _) = XString []"
| "default_of FBlob = XBlob []"
| "default_of FArray = XArray []"
| "default_of FComposite = XComposite []"
| "default_of (FVector _) = XList []"
| "default_of (FGeometry ShPoint) = XGeometry (PgPoint (0, 0))"
| "default_of (FGeometry ShLine) = XGeometry (PgLine 0 0 0)"
| "default_of (FGeometry ShLseg) = XGeometry (PgLseg (0, 0) (0, 0))"
| "default_of (FGeometry ShBox) = XGeometry (PgBox (0, 0) (0, 0))"
| "default_of (FGeometry ShPath) = XGeometry (PgPath False [])"
| "default_of (FGeometry ShPolygon) = XGeometry (PgPolygon [])"
| "default_of (FGeometry ShCircle) = XGeometry (PgCircle (0, 0) 0)"
| "default_of FTimestamp = XTimestamp 0"
| "default_of (FOptional _) = XNone"
| "default_of (FEnum _ _) = XInt 0"

fun convert_items :: "(val \<Rightarrow> status \<times> fval) \<Rightarrow> val list \<Rightarrow> fval list \<Rightarrow> status \<times> fval list" where
  "convert_items f [] acc = (status_OK, acc)"
| "convert_items f (v # vs) acc =
     (case f v of (st, x) \<Rightarrow> if \<not> status_ok st then (st, acc) else convert_items f vs (acc @ [x]))"

primrec fromValue :: "ftype \<Rightarrow> conv_env \<Rightarrow> field_flags \<Rightarrow> val \<Rightarrow> fval \<Rightarrow> status \<times> fval" where
  "fromValue FBool env flags v out =
     (case v of VBool b \<Rightarrow> (status_OK, XBool b) | _ \<Rightarrow> (typeError ''bool'' v, out))"
| "fromValue (FInt sg b) env flags v out = int_from env sg b flags v out"
| "fromValue FFloat env flags v out = real_from env FFloat flags v out"
| "fromValue FDouble env flags v out = real_from env FDouble flags v out"
| "fromValue FString env flags v out = string_from env flags v out"
| "fromValue (FStrong k) env flags v out = strong_from k flags v out"
| "fromValue FBlob env flags v out =
     (case v of VBlob b \<Rightarrow> (status_OK, XBlob b) | _ \<Rightarrow> (typeError ''Blob'' v, out))"
| "fromValue FArray env flags v out =
     (case v of VArray vs \<Rightarrow> (status_OK, XArray vs) | _ \<Rightarrow> (typeError ''Array'' v, out))"
| "fromValue FComposite env flags v out =
     (case v of VComposite fs \<Rightarrow> (status_OK, XComposite fs) | _ \<Rightarrow> (typeError ''Composite'' v, out))"
| "fromValue (FVector t) env flags v out =
     (case v of
        VArray vs \<Rightarrow> apsnd XList (convert_items (\<lambda>x. fromValue t env flags x (default_of t)) vs [])
      | _ \<Rightarrow> (typeError ''std::vector'' v, out))"
| "fromValue (FGeometry g) env flags v out = geometry_from env g flags v out"
| "fromValue FTimestamp env flags v out = timestamp_from env flags v out"
| "fromValue (FOptional t) env flags v out =
     (if v = VNull then (status_OK, XNone)
      else case fromValue t env flags v (default_of t) of
        (st, x) \<Rightarrow> if \<not> status_ok st then (st, out) else (status_OK, XSome x))"
| "fromValue (FEnum sg b) env flags v out =
     (case int_from env sg b 0 v (XInt 0) of
        (st, x) \<Rightarrow> if \<not> status_ok st then (st, out) else (status_OK, x))"

text \<open>A member always holds a value of its type: the other cases cannot occur.\<close>

primrec toValue :: "ftype \<Rightarrow> conv_env \<Rightarrow> fval \<Rightarrow> val" where
  "toValue FBool env x = (case x of XBool b \<Rightarrow> VBool b | _ \<Rightarrow> VNull)"
| "toValue (FInt sg b) env x =
     (case x of XInt n \<Rightarrow> if sg then VInt (word_of_int n) else VUInt (word_of_int n) | _ \<Rightarrow> VNull)"
| "toValue FFloat env x = (case x of XReal w \<Rightarrow> VDouble w | _ \<Rightarrow> VNull)"
| "toValue FDouble env x = (case x of XReal w \<Rightarrow> VDouble w | _ \<Rightarrow> VNull)"
| "toValue FString env x = (case x of XString s \<Rightarrow> VString s | _ \<Rightarrow> VNull)"
| "toValue (FStrong k) env x = (case x of XString s \<Rightarrow> strong_value k s | _ \<Rightarrow> VNull)"
| "toValue FBlob env x = (case x of XBlob b \<Rightarrow> VBlob b | _ \<Rightarrow> VNull)"
| "toValue FArray env x = (case x of XArray vs \<Rightarrow> VArray vs | _ \<Rightarrow> VNull)"
| "toValue FComposite env x = (case x of XComposite fs \<Rightarrow> VComposite fs | _ \<Rightarrow> VNull)"
| "toValue (FVector t) env x = (case x of XList xs \<Rightarrow> VArray (map (toValue t env) xs) | _ \<Rightarrow> VNull)"
| "toValue (FGeometry g) env x = (case x of XGeometry y \<Rightarrow> VJson (pgFormatGeometry (cv_floats env) y) | _ \<Rightarrow> VNull)"
| "toValue FTimestamp env x = (case x of XTimestamp t \<Rightarrow> VTimestamp t | _ \<Rightarrow> VNull)"
| "toValue (FOptional t) env x = (case x of XSome y \<Rightarrow> toValue t env y | _ \<Rightarrow> VNull)"
| "toValue (FEnum sg b) env x =
     (case x of XInt n \<Rightarrow> if sg then VInt (word_of_int n) else VUInt (word_of_int n) | _ \<Rightarrow> VNull)"

section \<open>Mappings\<close>

type_synonym entity = "nat \<Rightarrow> fval"

record column =
  col_name :: string
  col_type :: ftype
  col_flags :: field_flags
  col_member :: nat

record mapping =
  mp_columns :: "column list"
  mp_extra :: extra_columns
  mp_missing :: missing_columns

definition empty_mapping :: mapping where
  "empty_mapping = \<lparr>mp_columns = [], mp_extra = ExtraIgnore, mp_missing = MissingIgnore\<rparr>"

definition map_field :: "nat \<Rightarrow> ftype \<Rightarrow> string \<Rightarrow> field_flags \<Rightarrow> mapping \<Rightarrow> mapping" where
  "map_field member t name flags m =
     m\<lparr>mp_columns := mp_columns m @ [\<lparr>col_name = name, col_type = t, col_flags = flags, col_member = member\<rparr>]\<rparr>"

definition col_assign :: "conv_env \<Rightarrow> column \<Rightarrow> val \<Rightarrow> entity \<Rightarrow> status \<times> entity" where
  "col_assign env c v e =
     (case fromValue (col_type c) env (col_flags c) v (e (col_member c)) of
        (st, x) \<Rightarrow>
          (if \<not> status_ok st \<and> code st \<noteq> MappingError
           then mapError (''target '' @ type_name (col_type c) @ '': '' @ message st) else st,
           e(col_member c := x)))"

definition col_write :: "conv_env \<Rightarrow> column \<Rightarrow> entity \<Rightarrow> val" where
  "col_write env c e = toValue (col_type c) env (e (col_member c))"

definition writable :: "column \<Rightarrow> bool" where
  "writable c \<longleftrightarrow> \<not> hasFlag (col_flags c) Generated \<and> \<not> hasFlag (col_flags c) ReadOnly"

definition isDeclaredByName :: "mapping \<Rightarrow> string \<Rightarrow> bool" where
  "isDeclaredByName m n \<longleftrightarrow> n \<in> set (map col_name (mp_columns m))"

definition selected :: "write_cols \<Rightarrow> column \<Rightarrow> bool" where
  "selected which c \<longleftrightarrow> \<not> (which = KeyOnly \<and> \<not> hasFlag (col_flags c) PrimaryKey) \<and> \<not> (which = Writable \<and> \<not> writable c)"

definition columnNames :: "write_cols \<Rightarrow> mapping \<Rightarrow> string list" where
  "columnNames which m = map col_name (filter (selected which) (mp_columns m))"

fun assign_columns :: "conv_env \<Rightarrow> missing_columns \<Rightarrow> row \<Rightarrow> column list \<Rightarrow> entity \<Rightarrow> status \<times> entity" where
  "assign_columns env missing r [] e = (status_OK, e)"
| "assign_columns env missing r (c # cs) e =
     (case map_of r (col_name c) of
        None \<Rightarrow>
          if missing = MissingError
          then (mapError (''column '' @ quoted (col_name c) @ '' not found in result set (target '' @
                  type_name (col_type c) @ '')''), e)
          else assign_columns env missing r cs e
      | Some v \<Rightarrow>
          (case col_assign env c v e of
             (st, e') \<Rightarrow>
               if \<not> status_ok st then (mapError (''column '' @ quoted (col_name c) @ '': '' @ message st), e')
               else assign_columns env missing r cs e'))"

definition fromRow :: "conv_env \<Rightarrow> mapping \<Rightarrow> row \<Rightarrow> entity \<Rightarrow> status \<times> entity" where
  "fromRow env m r e =
     (case assign_columns env (mp_missing m) r (mp_columns m) e of
        (st, e') \<Rightarrow>
          if \<not> status_ok st then (st, e')
          else if mp_extra m = ExtraError then
            (case find (\<lambda>kv. \<not> isDeclaredByName m (fst kv)) r of
               Some kv \<Rightarrow> (mapError (''undeclared column '' @ quoted (fst kv) @ '' in result set''), e')
             | None \<Rightarrow> (status_OK, e'))
          else (status_OK, e'))"

fun rows_loop :: "conv_env \<Rightarrow> mapping \<Rightarrow> entity \<Rightarrow> row list \<Rightarrow> entity list \<Rightarrow> status \<times> entity list" where
  "rows_loop env m dflt [] acc = (status_OK, acc)"
| "rows_loop env m dflt (r # rs) acc =
     (case fromRow env m r dflt of
        (st, e) \<Rightarrow> if \<not> status_ok st then (st, []) else rows_loop env m dflt rs (acc @ [e]))"

definition fromRows :: "conv_env \<Rightarrow> mapping \<Rightarrow> entity \<Rightarrow> result_set \<Rightarrow> status \<times> entity list" where
  "fromRows env m dflt rs = rows_loop env m dflt (rs_rows rs) []"

definition paramsOf :: "conv_env \<Rightarrow> mapping \<Rightarrow> write_cols \<Rightarrow> entity \<Rightarrow> params" where
  "paramsOf env m which e = map (\<lambda>c. col_write env c e) (filter (selected which) (mp_columns m))"

definition key_columns :: "mapping \<Rightarrow> column list" where
  "key_columns m = filter (\<lambda>c. hasFlag (col_flags c) PrimaryKey) (mp_columns m)"

definition set_columns :: "mapping \<Rightarrow> column list" where
  "set_columns m = filter (\<lambda>c. \<not> hasFlag (col_flags c) PrimaryKey \<and> writable c) (mp_columns m)"

definition updateParamsOf :: "conv_env \<Rightarrow> mapping \<Rightarrow> entity \<Rightarrow> params" where
  "updateParamsOf env m e = map (\<lambda>c. col_write env c e) (set_columns m) @ map (\<lambda>c. col_write env c e) (key_columns m)"

definition batchOf :: "conv_env \<Rightarrow> mapping \<Rightarrow> write_cols \<Rightarrow> entity list \<Rightarrow> params list" where
  "batchOf env m which es = map (paramsOf env m which) es"

section \<open>Statements\<close>

definition joinIdentifiers :: "string list \<Rightarrow> dialect \<Rightarrow> string" where
  "joinIdentifiers cols d = join '', '' (map (\<lambda>c. quoteIdent c d) cols)"

definition placeholders :: "nat \<Rightarrow> string" where
  "placeholders n = join '', '' (replicate n ''?'')"

definition buildAssignList :: "string list \<Rightarrow> dialect \<Rightarrow> string" where
  "buildAssignList cols d = join '', '' (map (\<lambda>c. quoteIdent c d @ '' = ?'') cols)"

definition insertSql :: "mapping \<Rightarrow> string \<Rightarrow> dialect \<Rightarrow> string" where
  "insertSql m table d =
     (let cols = columnNames Writable m
      in ''INSERT INTO '' @ quoteIdent table d @ '' ('' @ joinIdentifiers cols d @ '') VALUES ('' @
         placeholders (length cols) @ '')'')"

definition updateSql :: "mapping \<Rightarrow> string \<Rightarrow> dialect \<Rightarrow> string" where
  "updateSql m table d =
     (let setCols = map col_name (set_columns m); keyCols = map col_name (key_columns m)
      in if keyCols = [] \<or> setCols = [] then []
         else ''UPDATE '' @ quoteIdent table d @ '' SET '' @ buildAssignList setCols d @ '' WHERE '' @
           buildAssignList keyCols d)"

definition updateSqlCols :: "mapping \<Rightarrow> string \<Rightarrow> string list \<Rightarrow> string list \<Rightarrow> dialect \<Rightarrow> string" where
  "updateSqlCols m table setCols whereCols d =
     (if setCols = [] \<or> whereCols = [] then []
      else if \<not> list_all (isDeclaredByName m) setCols then []
      else if \<not> list_all (isDeclaredByName m) whereCols then []
      else ''UPDATE '' @ quoteIdent table d @ '' SET '' @ buildAssignList setCols d @ '' WHERE '' @
        buildAssignList whereCols d)"

definition generated_names :: "mapping \<Rightarrow> string list" where
  "generated_names m = map col_name (filter (\<lambda>c. hasFlag (col_flags c) Generated) (mp_columns m))"

definition insertSqlReturning :: "mapping \<Rightarrow> string \<Rightarrow> dialect \<Rightarrow> string" where
  "insertSqlReturning m table d =
     (let base = insertSql m table d; gen = generated_names m
      in if gen = [] then base
         else if d = Postgres then base @ '' RETURNING '' @ joinIdentifiers gen d
         else if d = Oracle then base @ oracleMakeReturningSuffix gen (length (columnNames Writable m) + 1)
         else if d = SqlServer then
           (case break_on '' VALUES'' base of
              Some (a, b) \<Rightarrow> a @ '' OUTPUT '' @ join '','' (map (\<lambda>g. ''INSERTED.'' @ g) gen) @ '' VALUES'' @ b
            | None \<Rightarrow> base)
         else base)"

section \<open>Generated keys\<close>

text \<open>The loop over the columns: the status, how many were filled, and the entity.\<close>

fun fill_generated :: "conv_env \<Rightarrow> row \<Rightarrow> column list \<Rightarrow> nat \<Rightarrow> entity \<Rightarrow> status \<times> nat \<times> entity" where
  "fill_generated env r [] n e = (status_OK, n, e)"
| "fill_generated env r (c # cs) n e =
     (if \<not> hasFlag (col_flags c) Generated then fill_generated env r cs n e
      else case map_of r (col_name c) of
        None \<Rightarrow> fill_generated env r cs n e
      | Some v \<Rightarrow>
          (case col_assign env c v e of
             (st, e') \<Rightarrow>
               if \<not> status_ok st then (mapError (''generated key column '' @ quoted (col_name c) @ '': '' @ message st), n, e')
               else fill_generated env r cs (Suc n) e'))"

fun fill_first :: "conv_env \<Rightarrow> val \<Rightarrow> column list \<Rightarrow> entity \<Rightarrow> entity" where
  "fill_first env v [] e = e"
| "fill_first env v (c # cs) e =
     (if \<not> hasFlag (col_flags c) Generated then fill_first env v cs e
      else case col_assign env c v e of
        (st, e') \<Rightarrow> if status_ok st then e' else fill_first env v cs e')"

definition applyGeneratedKeys :: "conv_env \<Rightarrow> mapping \<Rightarrow> result_set \<Rightarrow> entity \<Rightarrow> status \<times> entity" where
  "applyGeneratedKeys env m keys e =
     (case rs_rows keys of
        [] \<Rightarrow> (status_OK, e)
      | r # _ \<Rightarrow>
          (case fill_generated env r (mp_columns m) 0 e of
             (st, filled, e') \<Rightarrow>
               if \<not> status_ok st then (st, e')
               else if filled = 0 \<and> lastInsertId keys \<noteq> 0
               then (status_OK, fill_first env (VInt (word_of_int (lastInsertId keys))) (mp_columns m) e')
               else (status_OK, e')))"

fun applyBatchKeys :: "conv_env \<Rightarrow> mapping \<Rightarrow> result_set list \<Rightarrow> entity list \<Rightarrow> status \<times> entity list" where
  "applyBatchKeys env m (k # ks) (e # es) =
     (case applyGeneratedKeys env m k e of
        (st, e') \<Rightarrow>
          if \<not> status_ok st then (st, e' # es)
          else apsnd ((#) e') (applyBatchKeys env m ks es))"
| "applyBatchKeys env m ks es = (status_OK, es)"

section \<open>Calls\<close>

datatype map_out = MapRows result_set | MapAffected int | MapKeys int result_set | MapBatch batch_result

definition map_rows :: "map_out option \<Rightarrow> result_set" where
  "map_rows r = (case r of Some (MapRows rs) \<Rightarrow> rs | _ \<Rightarrow> empty_rs)"

definition map_affected :: "map_out option \<Rightarrow> int" where
  "map_affected r = (case r of Some (MapAffected n) \<Rightarrow> n | Some (MapKeys n _) \<Rightarrow> n | _ \<Rightarrow> 0)"

definition map_keys :: "map_out option \<Rightarrow> result_set" where
  "map_keys r = (case r of Some (MapKeys _ ks) \<Rightarrow> ks | _ \<Rightarrow> empty_rs)"

definition map_batch :: "map_out option \<Rightarrow> batch_result" where
  "map_batch r = (case r of Some (MapBatch b) \<Rightarrow> b | _ \<Rightarrow> empty_batch)"

text \<open>What a session callback of the client is here: a statement that depends on the driver, and its
  parameters.\<close>

datatype map_arg = InsertWith "string \<Rightarrow> string" params

definition entities_of :: "conv_env \<Rightarrow> mapping \<Rightarrow> entity \<Rightarrow> status \<Rightarrow> result_set \<Rightarrow> status \<times> entity list" where
  "entities_of env m dflt st rs = (if status_ok st then fromRows env m dflt rs else (st, []))"

definition queryAs ::
  "conv_env \<Rightarrow> mapping \<Rightarrow> entity \<Rightarrow> ('w, map_arg, map_out) ds_methods \<Rightarrow> sql_context list \<Rightarrow> string \<Rightarrow> string \<Rightarrow> params \<Rightarrow>
   ('v, 'w, map_out) client option \<Rightarrow> 'w \<Rightarrow> (status \<times> entity list) \<times> 'w" where
  "queryAs env m dflt d stack src sql ps impl w =
     (case client_query d stack src sql ps impl w of
        ((st, r), w') \<Rightarrow> (entities_of env m dflt st (map_rows r), w'))"

definition session_queryAs ::
  "conv_env \<Rightarrow> mapping \<Rightarrow> entity \<Rightarrow> bool \<Rightarrow> ('c, 'z) sess_ops_scheme \<Rightarrow> string \<Rightarrow> params \<Rightarrow> 'c session \<Rightarrow>
   (status \<times> entity list) \<times> 'c session" where
  "session_queryAs env m dflt cacheOn d sql ps s =
     (case session_query_params cacheOn d sql ps s of
        (st, rs, s') \<Rightarrow> (entities_of env m dflt st rs, s'))"

definition queryOneAsImpl :: "status \<times> entity list \<Rightarrow> status \<times> entity option" where
  "queryOneAsImpl r =
     (if \<not> status_ok (fst r) then (fst r, None)
      else if length (snd r) > 1
      then (mapError (''queryOneAs: expected at most 1 row, got '' @ nat_to_string (length (snd r))), None)
      else (fst r, case snd r of [] \<Rightarrow> None | e # _ \<Rightarrow> Some e))"

definition queryOneAs where
  "queryOneAs env m dflt d stack src sql ps impl w =
     apfst queryOneAsImpl (queryAs env m dflt d stack src sql ps impl w)"

definition session_queryOneAs where
  "session_queryOneAs env m dflt cacheOn d sql ps s =
     apfst queryOneAsImpl (session_queryAs env m dflt cacheOn d sql ps s)"

text \<open>Row by row: the source feeds rows to the callback until it returns false; the state of the callback
  is the count, the mapping error and the state of the user's callback. \<open>feed\<close> is the \<open>queryEach\<close> of the
  client or the session for the statement; it counts the rows it fed and has a state of its own.\<close>

definition each_raw ::
  "conv_env \<Rightarrow> mapping \<Rightarrow> entity \<Rightarrow> (entity \<Rightarrow> 's \<Rightarrow> bool \<times> 's) \<Rightarrow> row \<Rightarrow> nat \<times> status \<times> 's \<Rightarrow> bool \<times> nat \<times> status \<times> 's" where
  "each_raw env m dflt cb r x =
     (case x of (n, mapErr, u) \<Rightarrow>
        case fromRow env m r dflt of
          (st, e) \<Rightarrow>
            if \<not> status_ok st then (False, n, st, u)
            else (case cb e u of (go, u') \<Rightarrow> (go, Suc n, mapErr, u')))"

definition queryEachAs ::
  "conv_env \<Rightarrow> mapping \<Rightarrow> entity \<Rightarrow> (entity \<Rightarrow> 's \<Rightarrow> bool \<times> 's) \<Rightarrow>
   ((row \<Rightarrow> nat \<times> status \<times> 's \<Rightarrow> bool \<times> nat \<times> status \<times> 's) \<Rightarrow> nat \<times> status \<times> 's \<Rightarrow> 'c \<Rightarrow>
    status \<times> nat \<times> (nat \<times> status \<times> 's) \<times> 'c) \<Rightarrow>
   's \<Rightarrow> 'c \<Rightarrow> (status \<times> nat) \<times> 's \<times> 'c" where
  "queryEachAs env m dflt cb feed u c =
     (case feed (each_raw env m dflt cb) (0, status_OK, u) c of
        (st, driverRows, (n, mapErr, u'), c') \<Rightarrow>
          ((if status_ok st \<and> \<not> status_ok mapErr then mapErr else st, n), u', c'))"

definition fetchAs where
  "fetchAs env m dflt fetch n c = (case fetch n c of (st, rs, c') \<Rightarrow> (entities_of env m dflt st rs, c'))"

definition keysAs :: "conv_env \<Rightarrow> mapping \<Rightarrow> entity \<Rightarrow> result_set \<Rightarrow> status \<times> entity list" where
  "keysAs env m dflt keys = fromRows env m dflt keys"

definition finish_insert :: "conv_env \<Rightarrow> mapping \<Rightarrow> status \<Rightarrow> result_set \<Rightarrow> entity \<Rightarrow> status \<times> entity" where
  "finish_insert env m st keys e = (if status_ok st then applyGeneratedKeys env m keys e else (st, e))"

definition insertAs ::
  "conv_env \<Rightarrow> mapping \<Rightarrow> ('w, map_arg, map_out) ds_methods \<Rightarrow> sql_context list \<Rightarrow> string \<Rightarrow> entity \<Rightarrow>
   ('v, 'w, map_out) client option \<Rightarrow> 'w \<Rightarrow> (status \<times> int \<times> entity) \<times> 'w" where
  "insertAs env m d stack table e impl w =
     (case client_withSession d stack []
             (InsertWith (\<lambda>driver. insertSqlReturning m table (dialectFromDriverType driver)) (paramsOf env m Writable e)) impl w of
        ((st, r), w') \<Rightarrow>
          (case finish_insert env m st (map_keys r) e of (st', e') \<Rightarrow> ((st', map_affected r, e'), w')))"

definition session_insertAs ::
  "conv_env \<Rightarrow> mapping \<Rightarrow> string \<Rightarrow> ('c, 'z) sess_ops_scheme \<Rightarrow> string \<Rightarrow> entity \<Rightarrow> 'c session \<Rightarrow>
   (status \<times> int \<times> entity) \<times> 'c session" where
  "session_insertAs env m driverType d table e s =
     (case session_execute_keys d (insertSqlReturning m table (dialectFromDriverType driverType)) (paramsOf env m Writable e)
             (0, empty_rs) s of
        (st, (affected, keys), s') \<Rightarrow>
          (case finish_insert env m st keys e of (st', e') \<Rightarrow> ((st', affected, e'), s')))"

definition no_update :: status where
  "no_update = mapError (''updateAs: entity has no PrimaryKey field or no updatable fields; '' @
     ''refusing to generate UPDATE'')"

definition updateAs ::
  "conv_env \<Rightarrow> mapping \<Rightarrow> ('w, map_arg, map_out) ds_methods \<Rightarrow> sql_context list \<Rightarrow> string \<Rightarrow> entity \<Rightarrow>
   ('v, 'w, map_out) client option \<Rightarrow> 'w \<Rightarrow> (status \<times> int) \<times> 'w" where
  "updateAs env m d stack table e impl w =
     (let sql = updateSql m table (detectDialect stack impl [])
      in if sql = [] then ((no_update, 0), w)
         else case client_execute d stack [] sql (updateParamsOf env m e) impl w of
           ((st, r), w') \<Rightarrow> ((st, map_affected r), w'))"

definition session_updateAs ::
  "conv_env \<Rightarrow> mapping \<Rightarrow> string \<Rightarrow> bool \<Rightarrow> ('c, 'z) sess_ops_scheme \<Rightarrow> string \<Rightarrow> entity \<Rightarrow> 'c session \<Rightarrow>
   (status \<times> int) \<times> 'c session" where
  "session_updateAs env m driverType cacheOn d table e s =
     (let sql = updateSql m table (dialectFromDriverType driverType)
      in if sql = [] then ((no_update, 0), s)
         else case session_execute_params cacheOn d sql (updateParamsOf env m e) 0 s of
           (st, n, s') \<Rightarrow> ((st, n), s'))"

text \<open>Batches: with constant entities, and with entities that take their keys back.\<close>

definition insertBatchAs ::
  "conv_env \<Rightarrow> mapping \<Rightarrow> ('w, map_arg, map_out) ds_methods \<Rightarrow> sql_context list \<Rightarrow> string \<Rightarrow> entity list \<Rightarrow>
   ('v, 'w, map_out) client option \<Rightarrow> 'w \<Rightarrow> (status \<times> batch_result) \<times> 'w" where
  "insertBatchAs env m d stack table es impl w =
     (case client_executeBatch d stack [] (insertSql m table (detectDialect stack impl [])) (batchOf env m Writable es) impl w of
        ((st, r), w') \<Rightarrow> ((st, map_batch r), w'))"

definition finish_batch :: "conv_env \<Rightarrow> mapping \<Rightarrow> status \<Rightarrow> batch_result \<Rightarrow> entity list \<Rightarrow> status \<times> entity list" where
  "finish_batch env m st b es =
     (if \<not> status_ok st then (st, es) else applyBatchKeys env m (batch_keys b) es)"

definition insertBatchKeysAs ::
  "conv_env \<Rightarrow> mapping \<Rightarrow> ('w, map_arg, map_out) ds_methods \<Rightarrow> sql_context list \<Rightarrow> string \<Rightarrow> entity list \<Rightarrow>
   ('v, 'w, map_out) client option \<Rightarrow> 'w \<Rightarrow> (status \<times> batch_result \<times> entity list) \<times> 'w" where
  "insertBatchKeysAs env m d stack table es impl w =
     (case client_executeBatch d stack [] (insertSqlReturning m table (detectDialect stack impl []))
             (batchOf env m Writable es) impl w of
        ((st, r), w') \<Rightarrow>
          (case finish_batch env m st (map_batch r) es of (st', es') \<Rightarrow> ((st', map_batch r, es'), w')))"

definition session_insertBatchAs ::
  "conv_env \<Rightarrow> mapping \<Rightarrow> string \<Rightarrow> ('c, 'z) sess_ops_scheme \<Rightarrow> string \<Rightarrow> entity list \<Rightarrow> 'c session \<Rightarrow>
   (status \<times> batch_result) \<times> 'c session" where
  "session_insertBatchAs env m driverType d table es s =
     (case session_executeBatch d (insertSql m table (dialectFromDriverType driverType)) (batchOf env m Writable es) empty_batch s of
        (st, b, s') \<Rightarrow> ((st, b), s'))"

definition session_insertBatchKeysAs ::
  "conv_env \<Rightarrow> mapping \<Rightarrow> string \<Rightarrow> ('c, 'z) sess_ops_scheme \<Rightarrow> string \<Rightarrow> entity list \<Rightarrow> 'c session \<Rightarrow>
   (status \<times> batch_result \<times> entity list) \<times> 'c session" where
  "session_insertBatchKeysAs env m driverType d table es s =
     (case session_executeBatch d (insertSqlReturning m table (dialectFromDriverType driverType))
             (batchOf env m Writable es) empty_batch s of
        (st, b, s') \<Rightarrow>
          (case finish_batch env m st b es of (st', es') \<Rightarrow> ((st', b, es'), s')))"

end
