(* ===== verification/EntityMappingProps.thy ===== *)
theory EntityMappingProps
  imports EntityMapping UtilCallProps
begin

text \<open>
  What the entity layer guarantees: members keep their types whatever the rows hold, an entity written
  to a row is read back, the statements name the columns of their parameters in their order, and keys
  returned by the server reach generated members only.
\<close>

section \<open>Types of members\<close>

fun shape_of :: "geometry \<Rightarrow> shape" where
  "shape_of (PgPoint _) = ShPoint"
| "shape_of (PgLine _ _ _) = ShLine"
| "shape_of (PgLseg _ _) = ShLseg"
| "shape_of (PgBox _ _) = ShBox"
| "shape_of (PgPath _ _) = ShPath"
| "shape_of (PgPolygon _) = ShPolygon"
| "shape_of (PgCircle _ _) = ShCircle"

primrec has_type :: "ftype \<Rightarrow> fval \<Rightarrow> bool" where
  "has_type FBool x = (case x of XBool _ \<Rightarrow> True | _ \<Rightarrow> False)"
| "has_type (FInt sg b) x = (case x of XInt n \<Rightarrow> fitsIn sg b n | _ \<Rightarrow> False)"
| "has_type FFloat x = (case x of XReal _ \<Rightarrow> True | _ \<Rightarrow> False)"
| "has_type FDouble x = (case x of XReal _ \<Rightarrow> True | _ \<Rightarrow> False)"
| "has_type FString x = (case x of XString _ \<Rightarrow> True | _ \<Rightarrow> False)"
| "has_type (FStrong k) x = (case x of XString _ \<Rightarrow> True | _ \<Rightarrow> False)"
| "has_type FBlob x = (case x of XBlob _ \<Rightarrow> True | _ \<Rightarrow> False)"
| "has_type FArray x = (case x of XArray _ \<Rightarrow> True | _ \<Rightarrow> False)"
| "has_type FComposite x = (case x of XComposite _ \<Rightarrow> True | _ \<Rightarrow> False)"
| "has_type (FVector t) x = (case x of XList xs \<Rightarrow> list_all (has_type t) xs | _ \<Rightarrow> False)"
| "has_type (FGeometry g) x = (case x of XGeometry y \<Rightarrow> shape_of y = g | _ \<Rightarrow> False)"
| "has_type FTimestamp x = (case x of XTimestamp _ \<Rightarrow> True | _ \<Rightarrow> False)"
| "has_type (FOptional t) x = (case x of XNone \<Rightarrow> True | XSome y \<Rightarrow> has_type t y | _ \<Rightarrow> False)"
| "has_type (FEnum sg b) x = (case x of XInt n \<Rightarrow> fitsIn sg b n | _ \<Rightarrow> False)"

definition well_typed :: "column list \<Rightarrow> entity \<Rightarrow> bool" where
  "well_typed cs e \<longleftrightarrow> (\<forall>c\<in>set cs. has_type (col_type c) (e (col_member c)))"

text \<open>Two columns of one member have the type of this member.\<close>

definition consistent :: "column list \<Rightarrow> bool" where
  "consistent cs \<longleftrightarrow> (\<forall>c\<in>set cs. \<forall>c'\<in>set cs. col_member c = col_member c' \<longrightarrow> col_type c = col_type c')"

lemma has_default: "has_type t (default_of t)"
  by (cases t rule: default_of.cases) (auto simp: fitsIn_def)

lemma int_from_typed:
  assumes "int_from env sg b flags v out = (st, x)"
  shows "x = out \<or> (\<exists>n. x = XInt n \<and> fitsIn sg b n)"
  using assms by (cases v) (auto simp: int_from_def Let_def ranged_def split: if_splits option.splits)

lemma parse_shape_typed: "parse_shape env g s = Some y \<Longrightarrow> shape_of y = g"
  by (cases g)
    (auto simp: pgParsePoint_def pgParseLine_def pgParseLseg_def pgParseBox_def pgParsePath_def pgParsePolygon_def
      pgParseCircle_def complete_def Let_def split: option.splits prod.splits if_splits)

lemma convert_items_typed:
  assumes "convert_items f vs acc = (st, xs)" and "\<And>v st x. f v = (st, x) \<Longrightarrow> status_ok st \<Longrightarrow> P x"
  shows "list_all P acc \<Longrightarrow> list_all P xs"
  using assms by (induction f vs acc rule: convert_items.induct) (auto split: prod.splits if_splits)

lemma real_from_typed:
  "real_from env t flags v out = (st, x) \<Longrightarrow> x = out \<or> (\<exists>w. x = XReal w)"
  by (cases v) (auto simp: real_from_def Let_def split: if_splits option.splits)

lemma string_from_typed: "string_from env flags v out = (st, x) \<Longrightarrow> x = out \<or> (\<exists>s. x = XString s)"
  by (cases v) (auto simp: string_from_def split: if_splits)

lemma strong_from_typed: "strong_from k flags v out = (st, x) \<Longrightarrow> x = out \<or> (\<exists>s. x = XString s)"
  by (cases "strong_text k v"; cases v) (auto simp: strong_from_def split: if_splits)

lemma timestamp_from_typed: "timestamp_from env flags v out = (st, x) \<Longrightarrow> x = out \<or> (\<exists>t. x = XTimestamp t)"
  by (cases v) (auto simp: timestamp_from_def Let_def split: if_splits option.splits)

lemma geometry_from_typed:
  "geometry_from env g flags v out = (st, x) \<Longrightarrow> x = out \<or> (\<exists>y. x = XGeometry y \<and> shape_of y = g)"
  by (cases v) (auto simp: geometry_from_def Let_def dest!: parse_shape_typed split: if_splits option.splits)

lemmas from_typed =
  int_from_typed real_from_typed string_from_typed strong_from_typed timestamp_from_typed geometry_from_typed

lemma fromValue_typed:
  "fromValue t env flags v out = (st, x) \<Longrightarrow> has_type t out \<Longrightarrow> has_type t x"
proof (induction t arbitrary: v out st x)
  case (FVector t)
  have item: "has_type t y" if "fromValue t env flags u (default_of t) = (s, y)" for u s y
    using FVector.IH [OF that has_default] .
  show ?case
  proof (cases v)
    case (VArray vs)
    obtain s xs where c: "convert_items (\<lambda>x. fromValue t env flags x (default_of t)) vs [] = (s, xs)" by fastforce
    have "list_all (has_type t) xs" by (rule convert_items_typed [OF c]) (auto intro: item)
    with FVector.prems VArray c show ?thesis by auto
  qed (use FVector.prems in auto)
next
  case (FOptional t)
  obtain s y where inner: "fromValue t env flags v (default_of t) = (s, y)" by fastforce
  with FOptional.IH [OF inner has_default] FOptional.prems show ?case by (auto split: if_splits)
next
  case (FEnum sg b)
  then show ?case by (auto simp: fitsIn_def dest!: int_from_typed split: prod.splits if_splits)
next
  case FBool
  then show ?case by (cases v) auto
next
  case FBlob
  then show ?case by (cases v) auto
next
  case FArray
  then show ?case by (cases v) auto
next
  case FComposite
  then show ?case by (cases v) auto
qed (use from_typed in \<open>fastforce+\<close>)

lemma col_assign_typed:
  assumes "col_assign env c v e = (st, e')" and "consistent cs" and "c \<in> set cs" and "well_typed cs e"
  shows "well_typed cs e'"
proof -
  obtain s x where x: "fromValue (col_type c) env (col_flags c) v (e (col_member c)) = (s, x)" by fastforce
  then have "has_type (col_type c) x" using assms(3,4) by (auto intro: fromValue_typed simp: well_typed_def)
  moreover have e': "e' = e(col_member c := x)" using assms(1) x by (simp add: col_assign_def)
  moreover have "col_type d = col_type c" if "d \<in> set cs" "col_member d = col_member c" for d
    using assms(2,3) that unfolding consistent_def by blast
  ultimately show ?thesis using assms(4) unfolding well_typed_def e' by (metis fun_upd_apply)
qed

lemma assign_columns_typed:
  "consistent cs \<Longrightarrow> set ds \<subseteq> set cs \<Longrightarrow> well_typed cs e \<Longrightarrow> well_typed cs (snd (assign_columns env missing r ds e))"
proof (induction ds arbitrary: e)
  case (Cons c ds)
  show ?case
  proof (cases "map_of r (col_name c)")
    case (Some v)
    obtain st e' where a: "col_assign env c v e = (st, e')" by fastforce
    then have "well_typed cs e'" using Cons.prems by (auto intro: col_assign_typed)
    with Cons Some a show ?thesis by simp
  qed (use Cons in simp)
qed simp

lemma fromRow_typed:
  assumes "consistent (mp_columns m)" and "well_typed (mp_columns m) e"
  shows "well_typed (mp_columns m) (snd (fromRow env m r e))"
  using assign_columns_typed [OF assms(1) subset_refl assms(2), of env "mp_missing m" r]
  by (auto simp: fromRow_def split: prod.splits option.splits)

lemma fill_generated_typed:
  "consistent cs \<Longrightarrow> set ds \<subseteq> set cs \<Longrightarrow> well_typed cs e \<Longrightarrow> well_typed cs (snd (snd (fill_generated env r ds n e)))"
proof (induction ds arbitrary: n e)
  case (Cons c ds)
  show ?case
  proof (cases "map_of r (col_name c)")
    case (Some v)
    obtain st e' where a: "col_assign env c v e = (st, e')" by fastforce
    then have "well_typed cs e'" using Cons.prems by (auto intro: col_assign_typed)
    with Cons Some a show ?thesis by simp
  qed (use Cons in simp)
qed simp

lemma fill_first_typed:
  "consistent cs \<Longrightarrow> set ds \<subseteq> set cs \<Longrightarrow> well_typed cs e \<Longrightarrow> well_typed cs (fill_first env v ds e)"
proof (induction ds arbitrary: e)
  case (Cons c ds)
  obtain st e' where a: "col_assign env c v e = (st, e')" by fastforce
  then have "well_typed cs e'" using Cons.prems by (auto intro: col_assign_typed)
  with Cons a show ?case by simp
qed simp

lemma applyGeneratedKeys_typed:
  assumes "consistent (mp_columns m)" and "well_typed (mp_columns m) e"
  shows "well_typed (mp_columns m) (snd (applyGeneratedKeys env m keys e))"
proof (cases "rs_rows keys")
  case (Cons r rs)
  have "well_typed (mp_columns m) (snd (snd (fill_generated env r (mp_columns m) 0 e)))"
    by (rule fill_generated_typed [OF assms(1) subset_refl assms(2)])
  with Cons show ?thesis
    by (auto simp: applyGeneratedKeys_def intro: fill_first_typed [OF assms(1) subset_refl] split: prod.splits)
qed (simp add: applyGeneratedKeys_def assms)

lemma rows_loop_typed:
  assumes "consistent (mp_columns m)" and "well_typed (mp_columns m) dflt"
  shows "list_all (well_typed (mp_columns m)) acc \<Longrightarrow> list_all (well_typed (mp_columns m)) (snd (rows_loop env m dflt rs acc))"
proof (induction rs arbitrary: acc)
  case (Cons r rs)
  with fromRow_typed [OF assms, of env r] show ?case by (auto split: prod.splits)
qed simp

section \<open>Round trip\<close>

text \<open>The types of C++ that occur: integers have one of four widths and options are not nested.\<close>

definition is_optional :: "ftype \<Rightarrow> bool" where
  "is_optional t = (case t of FOptional _ \<Rightarrow> True | _ \<Rightarrow> False)"

primrec wf_type :: "ftype \<Rightarrow> bool" where
  "wf_type FBool = True"
| "wf_type (FInt sg b) = (b \<in> {8, 16, 32, 64})"
| "wf_type FFloat = True"
| "wf_type FDouble = True"
| "wf_type FString = True"
| "wf_type (FStrong k) = True"
| "wf_type FBlob = True"
| "wf_type FArray = True"
| "wf_type FComposite = True"
| "wf_type (FVector t) = wf_type t"
| "wf_type (FGeometry g) = True"
| "wf_type FTimestamp = True"
| "wf_type (FOptional t) = (wf_type t \<and> \<not> is_optional t)"
| "wf_type (FEnum sg b) = (b \<in> {8, 16, 32, 64})"

text \<open>Values that survive: a float is not infinite and has the precision of a float, the coordinates of a
  shape are read back from their texts.\<close>

primrec storable :: "ftype \<Rightarrow> conv_env \<Rightarrow> fval \<Rightarrow> bool" where
  "storable FBool env x = True"
| "storable (FInt sg b) env x = True"
| "storable FFloat env x = (case x of XReal w \<Rightarrow> cv_float_range env w \<and> cv_narrow env w = w | _ \<Rightarrow> True)"
| "storable FDouble env x = True"
| "storable FString env x = True"
| "storable (FStrong k) env x = True"
| "storable FBlob env x = True"
| "storable FArray env x = True"
| "storable FComposite env x = True"
| "storable (FVector t) env x = (case x of XList xs \<Rightarrow> list_all (storable t env) xs | _ \<Rightarrow> True)"
| "storable (FGeometry g) env x =
     (case x of XGeometry y \<Rightarrow> list_all (reads_back (cv_floats env)) (coordinates y) | _ \<Rightarrow> True)"
| "storable FTimestamp env x = True"
| "storable (FOptional t) env x = (case x of XSome y \<Rightarrow> storable t env y | _ \<Rightarrow> True)"
| "storable (FEnum sg b) env x = True"

lemma sint_fits: "- (2 ^ 63) \<le> n \<Longrightarrow> n < 2 ^ 63 \<Longrightarrow> sint (word_of_int n :: 64 word) = n"
  by (simp add: sint_sbintrunc' signed_take_bit_int_eq_self)

lemma fits_64:
  assumes "fitsIn sg b n" and "b \<in> {8, 16, 32, 64}"
  shows "sg \<Longrightarrow> sint (word_of_int n :: 64 word) = n" "\<not> sg \<Longrightarrow> uint (word_of_int n :: 64 word) = n"
proof -
  show "sint (word_of_int n :: 64 word) = n" if sg
    using assms that by (intro sint_fits) (auto simp: fitsIn_def)
  show "uint (word_of_int n :: 64 word) = n" if "\<not> sg"
    using assms that by (auto simp: fitsIn_def uint_word_of_int take_bit_int_eq_self)
qed

lemma int_roundtrip:
  assumes "fitsIn sg b n" and "b \<in> {8, 16, 32, 64}"
  shows "int_from env sg b flags (if sg then VInt (word_of_int n) else VUInt (word_of_int n)) out = (status_OK, XInt n)"
  using assms fits_64 [OF assms] by (cases sg) (simp_all add: int_from_def Let_def ranged_def)

lemma parse_shape_like: "parse_shape env (shape_of y) s = parse_like env y s"
  by (cases y) simp_all

lemma convert_items_map:
  assumes "\<And>x. x \<in> set xs \<Longrightarrow> f (g x) = (status_OK, x)"
  shows "convert_items f (map g xs) acc = (status_OK, acc @ xs)"
  using assms by (induction xs arbitrary: acc) auto

lemma strong_value_not_null: "strong_value k s \<noteq> VNull"
  by (cases k) simp_all

lemma toValue_not_null: "has_type t x \<Longrightarrow> \<not> is_optional t \<Longrightarrow> toValue t env x \<noteq> VNull"
  by (cases t) (auto split: fval.splits strong.splits simp: strong_value_not_null is_optional_def)

lemma fromValue_roundtrip:
  "wf_type t \<Longrightarrow> has_type t x \<Longrightarrow> storable t env x \<Longrightarrow> fromValue t env flags (toValue t env x) out = (status_OK, x)"
proof (induction t arbitrary: x out)
  case (FInt sg b)
  then obtain n where "x = XInt n" "fitsIn sg b n" "b \<in> {8, 16, 32, 64}" by (auto split: fval.splits)
  then show ?case using int_roundtrip [of sg b n env flags out] by (simp split: if_splits)
next
  case (FEnum sg b)
  then obtain n where "x = XInt n" "fitsIn sg b n" "b \<in> {8, 16, 32, 64}" by (auto split: fval.splits)
  then show ?case using int_roundtrip [of sg b n env 0 "XInt 0"] by (simp split: if_splits)
next
  case (FVector t)
  then obtain xs where x: "x = XList xs" "list_all (has_type t) xs" "list_all (storable t env) xs"
    by (auto split: fval.splits)
  have "convert_items (\<lambda>v. fromValue t env flags v (default_of t)) (map (toValue t env) xs) [] = (status_OK, xs)"
    using FVector x by (subst convert_items_map) (auto simp: list_all_iff)
  with x show ?case by simp
next
  case (FOptional t)
  show ?case
  proof (cases x)
    case (XSome y)
    with FOptional show ?thesis using toValue_not_null [of t y env] by simp
  qed (use FOptional.prems in auto)
next
  case (FGeometry g)
  then obtain y where y: "x = XGeometry y" "shape_of y = g" "\<forall>v\<in>set (coordinates y). reads_back (cv_floats env) v"
    by (auto simp: list_all_iff split: fval.splits)
  then show ?case
    using geometry_roundtrip [of y "cv_floats env"] parse_shape_like [of "cv_floats env" y]
    by (simp add: geometry_from_def Let_def)
next
  case (FStrong k)
  then show ?case by (cases k) (auto simp: strong_from_def split: fval.splits)
qed (auto simp: real_from_def string_from_def timestamp_from_def Let_def split: fval.splits)

definition row_of :: "conv_env \<Rightarrow> mapping \<Rightarrow> entity \<Rightarrow> row" where
  "row_of env m e = map (\<lambda>c. (col_name c, col_write env c e)) (mp_columns m)"

definition entity_fits :: "conv_env \<Rightarrow> mapping \<Rightarrow> entity \<Rightarrow> bool" where
  "entity_fits env m e \<longleftrightarrow>
     list_all (\<lambda>c. wf_type (col_type c) \<and> has_type (col_type c) (e (col_member c)) \<and>
       storable (col_type c) env (e (col_member c))) (mp_columns m)"

lemma assign_columns_reads:
  assumes "\<forall>c\<in>set cs. map_of r (col_name c) = Some (col_write env c e) \<and> wf_type (col_type c) \<and>
      has_type (col_type c) (e (col_member c)) \<and> storable (col_type c) env (e (col_member c))"
  shows "assign_columns env missing r cs e0 = (status_OK, \<lambda>k. if k \<in> col_member ` set cs then e k else e0 k)"
  using assms
proof (induction cs arbitrary: e0)
  case (Cons c cs)
  let ?k = "col_member c"
  have "col_assign env c (col_write env c e) e0 = (status_OK, e0(?k := e ?k))"
    using Cons.prems by (simp add: col_assign_def col_write_def fromValue_roundtrip)
  moreover have "(\<lambda>k. if k \<in> col_member ` set cs then e k else (e0(?k := e ?k)) k) =
      (\<lambda>k. if k \<in> col_member ` set (c # cs) then e k else e0 k)"
    by (rule ext) simp
  ultimately show ?case using Cons by simp
qed simp


definition plain_conv :: conv_env where
  "plain_conv = \<lparr>cv_render = \<lparr>fmt_double = (\<lambda>_. []), fmt_timestamp_ms = (\<lambda>_. [])\<rparr>, cv_mktime = (\<lambda>_. None),
     cv_floats = digit_env, cv_trunc = uint, cv_overflow = 0, cv_to_string = (\<lambda>w. nat_to_string (unat w)),
     cv_of_int = of_int, cv_float_of_int = of_int, cv_stod = (\<lambda>_. None), cv_float_range = (\<lambda>_. True), cv_narrow = id\<rparr>"

definition user_mapping :: mapping where
  "user_mapping =
     map_field 3 (FVector (FGeometry ShPoint)) ''track'' Textual
       (map_field 2 (FOptional (FInt False 8)) ''age'' Lossy
         (map_field 1 FString ''name'' 0 (map_field 0 (FInt True 64) ''id'' (PrimaryKey OR Generated) empty_mapping)))"

definition user :: entity where
  "user k = (if k = 0 then XInt (-5) else if k = 1 then XString ''ann'' else if k = 2 then XSome (XInt 30)
     else if k = 3 then XList [XGeometry (PgPoint (3, 12))] else XNone)"

lemma user_fits: "entity_fits plain_conv user_mapping user"
  by code_simp




section \<open>Generated keys\<close>

lemma col_assign_other: "col_assign env c v e = (st, e') \<Longrightarrow> k \<noteq> col_member c \<Longrightarrow> e' k = e k"
  by (auto simp: col_assign_def split: prod.splits)

lemma fill_generated_other:
  "k \<notin> col_member ` set (filter (\<lambda>c. hasFlag (col_flags c) Generated) cs) \<Longrightarrow>
   snd (snd (fill_generated env r cs n e)) k = e k"
proof (induction cs arbitrary: n e)
  case (Cons c cs)
  then show ?case
    by (cases "map_of r (col_name c)") (auto split: prod.splits dest: col_assign_other [of _ _ _ _ _ _ k])
qed simp

lemma fill_first_other:
  "k \<notin> col_member ` set (filter (\<lambda>c. hasFlag (col_flags c) Generated) cs) \<Longrightarrow> fill_first env v cs e k = e k"
  by (induction cs arbitrary: e) (auto split: prod.splits dest: col_assign_other [of _ _ _ _ _ _ k])

lemma fill_generated_reads:
  assumes "distinct (map col_member cs)" and "status_ok (fst (fill_generated env r cs n e))"
    and "c \<in> set cs" and "hasFlag (col_flags c) Generated" and "map_of r (col_name c) = Some v"
  shows "\<exists>st. status_ok st \<and>
    fromValue (col_type c) env (col_flags c) v (e (col_member c)) = (st, snd (snd (fill_generated env r cs n e)) (col_member c))"
  using assms
proof (induction cs arbitrary: n e)
  case (Cons d cs)
  show ?case
  proof (cases "hasFlag (col_flags d) Generated \<and> map_of r (col_name d) \<noteq> None")
    case True
    then obtain u where u: "map_of r (col_name d) = Some u" by auto
    obtain st x where x: "fromValue (col_type d) env (col_flags d) u (e (col_member d)) = (st, x)" by fastforce
    let ?e = "e(col_member d := x)"
    have ok: "status_ok st" and st: "col_assign env d u e = (st, ?e)"
      using Cons.prems(2) True u x by (auto simp: col_assign_def status_ok_def mapError_def status_error_def split: if_splits)
    then have step: "fill_generated env r (d # cs) n e = fill_generated env r cs (Suc n) ?e" using True u by simp
    show ?thesis
    proof (cases "c = d")
      case True
      have "snd (snd (fill_generated env r cs (Suc n) ?e)) (col_member d) = ?e (col_member d)"
        using Cons.prems(1) by (intro fill_generated_other) auto
      with True x ok u step Cons.prems(5) show ?thesis by auto
    next
      case False
      then have "c \<in> set cs" using Cons.prems(3) by simp
      then have "col_member c \<noteq> col_member d" using Cons.prems(1) by (metis distinct.simps(2) image_eqI image_set list.simps(9))
      then have keep: "?e (col_member c) = e (col_member c)" by simp
      have "distinct (map col_member cs)" using Cons.prems(1) by simp
      moreover have "status_ok (fst (fill_generated env r cs (Suc n) ?e))" using Cons.prems(2) unfolding step .
      ultimately show ?thesis
        using Cons.IH [of "Suc n" ?e] \<open>c \<in> set cs\<close> Cons.prems(4,5) unfolding step keep by blast
    qed
  next
    case False
    then have step: "fill_generated env r (d # cs) n e = fill_generated env r cs n e" by auto
    moreover have "c \<in> set cs" using False Cons.prems(3-5) by auto
    ultimately show ?thesis using Cons.IH [of n e] Cons.prems by simp
  qed
qed simp

lemma fill_generated_count: "n \<le> fst (snd (fill_generated env r cs n e))"
proof (induction cs arbitrary: n e)
  case (Cons c cs)
  show ?case
    using Cons [of n e] Cons [of "Suc n"]
    by (cases "map_of r (col_name c)") (auto split: prod.splits intro: Suc_leD)
qed simp

lemma fill_generated_some:
  assumes "status_ok (fst (fill_generated env r cs n e))"
    and "c \<in> set cs" and "hasFlag (col_flags c) Generated" and "map_of r (col_name c) = Some v"
  shows "n < fst (snd (fill_generated env r cs n e))"
  using assms
proof (induction cs arbitrary: n e)
  case (Cons d cs)
  show ?case
  proof (cases "hasFlag (col_flags d) Generated \<and> map_of r (col_name d) \<noteq> None")
    case True
    then obtain u where "map_of r (col_name d) = Some u" by auto
    moreover obtain st x where "col_assign env d u e = (st, x)" by fastforce
    ultimately show ?thesis
      using True Cons.prems(1) fill_generated_count [of "Suc n" env r cs x]
      by (auto simp: mapError_def status_ok_def status_error_def split: if_splits)
  next
    case False
    then show ?thesis using Cons by auto
  qed
qed simp

text \<open>The keys a server returns reach generated members only; nothing changes when no keys came back; and
  after success every generated member whose column was returned holds the conversion of its own
  column.\<close>

theorem generated_keys_only:
  assumes "distinct (map col_member (mp_columns m))" and "applyGeneratedKeys env m keys e = (st, e')"
  shows "(\<forall>k. k \<notin> col_member ` set (filter (\<lambda>c. hasFlag (col_flags c) Generated) (mp_columns m)) \<longrightarrow> e' k = e k) \<and>
    (rs_rows keys = [] \<longrightarrow> e' = e) \<and>
    (\<forall>r rs c v. status_ok st \<and> rs_rows keys = r # rs \<and> c \<in> set (mp_columns m) \<and> hasFlag (col_flags c) Generated \<and>
       map_of r (col_name c) = Some v \<longrightarrow>
       (\<exists>s. status_ok s \<and> fromValue (col_type c) env (col_flags c) v (e (col_member c)) = (s, e' (col_member c))))"
proof (cases "rs_rows keys")
  case Nil
  with assms(2) show ?thesis by (simp add: applyGeneratedKeys_def)
next
  case (Cons r rs)
  obtain s n x where f: "fill_generated env r (mp_columns m) 0 e = (s, n, x)" by (metis prod_cases3)
  have "e' k = e k" if "k \<notin> col_member ` set (filter (\<lambda>c. hasFlag (col_flags c) Generated) (mp_columns m))" for k
    using assms(2) Cons f fill_first_other [OF that, of env _ x] fill_generated_other [OF that, of env r 0 e]
    by (auto simp: applyGeneratedKeys_def split: if_splits)
  moreover have "\<exists>s. status_ok s \<and> fromValue (col_type c) env (col_flags c) v (e (col_member c)) = (s, e' (col_member c))"
    if c: "status_ok st" "c \<in> set (mp_columns m)" "hasFlag (col_flags c) Generated" "map_of r (col_name c) = Some v" for c v
  proof -
    have s: "status_ok s" using assms(2) Cons f c(1) by (auto simp: applyGeneratedKeys_def split: if_splits)
    then have "0 < n" using fill_generated_some [of env r "mp_columns m" 0 e c v] f c by simp
    then have "e' = x" using assms(2) Cons f s by (simp add: applyGeneratedKeys_def)
    with fill_generated_reads [OF assms(1), of env r 0 e c v] f s c show ?thesis by simp
  qed
  ultimately show ?thesis using Cons by auto
qed

theorem generated_keys_only_witness:
  "let keys = \<lparr>rs_fields = [''id''], rs_rows = [[(''id'', VInt 41), (''name'', VString ''x'')]], transformed = False\<rparr>;
       r = applyGeneratedKeys plain_conv user_mapping keys user
   in status_ok (fst r) \<and> snd r 0 = XInt 41 \<and> snd r 1 = XString ''ann''"
proof -
  let ?keys = "\<lparr>rs_fields = [''id''], rs_rows = [[(''id'', VInt 41), (''name'', VString ''x'')]], transformed = False\<rparr>"
  let ?r = "applyGeneratedKeys plain_conv user_mapping ?keys user"
  have "distinct (map col_member (mp_columns user_mapping))" by code_simp
  note only = generated_keys_only [OF this prod.collapse [symmetric], THEN conjunct1, rule_format]
  have "status_ok (fst ?r)" "snd ?r 0 = XInt 41" by (code_simp, code_simp)
  moreover have "1 \<notin> col_member ` set (filter (\<lambda>c. hasFlag (col_flags c) Generated) (mp_columns user_mapping))"
    by code_simp
  then have "snd ?r 1 = user 1" by (rule only)
  moreover have "user 1 = XString ''ann''" by (simp add: user_def)
  ultimately show ?thesis by (simp add: Let_def)
qed

section \<open>Statements\<close>

text \<open>How a server reads the head of an \<open>INSERT\<close>: the table, the columns, and what follows \<open>VALUES (\<close>.\<close>

lemma read_name_shorter: "read_name q s = Some (n, r) \<Longrightarrow> length r < length s"
proof (induction q s arbitrary: n r rule: read_name.induct)
  case (1 q s)
  then obtain p t where p: "read_quoted q (tl s) = Some (p, t)" "s \<noteq> []" "hd s = q"
    by (auto simp: read_name.simps [of q s] split: if_splits option.splits prod.splits)
  then have t: "length t < length s" using read_quoted_shorter [of q "tl s" p t] by auto
  show ?case
  proof (cases "t \<noteq> [] \<and> hd t = CHR ''.''")
    case True
    then obtain n' where "read_name q (tl t) = Some (n', r)"
      using 1(2) p by (auto simp: read_name.simps [of q s])
    with 1(1) [of "(p, t)" p t] True p have "length r < length (tl t)" by auto
    with t show ?thesis by simp
  next
    case False
    with 1(2) p t show ?thesis by (auto simp: read_name.simps [of q s])
  qed
qed

function read_names :: "char \<Rightarrow> string \<Rightarrow> (string list list \<times> string) option" where
  "read_names q s =
     (case read_name q s of
        None \<Rightarrow> None
      | Some (n, r) \<Rightarrow> if take 2 r = '', '' then map_option (apfst ((#) n)) (read_names q (drop 2 r)) else Some ([n], r))"
  by pat_completeness auto
termination
proof (relation "measure (\<lambda>(q, s). length s)", goal_cases)
  case (2 q s y n r)
  then have "length r < length s" by (auto dest: read_name_shorter)
  then show ?case by simp
qed simp

declare read_names.simps [simp del]

definition read_insert :: "char \<Rightarrow> string \<Rightarrow> (string list \<times> string list list \<times> string) option" where
  "read_insert q s =
     (if take 12 s \<noteq> ''INSERT INTO '' then None
      else case read_name q (drop 12 s) of
        None \<Rightarrow> None
      | Some (table, r) \<Rightarrow>
          if take 2 r \<noteq> '' ('' then None
          else case read_names q (drop 2 r) of
            None \<Rightarrow> None
          | Some (cols, r') \<Rightarrow> if take 10 r' = '') VALUES ('' then Some (table, cols, drop 10 r') else None)"

lemma quoteIdent_read:
  assumes "name_parts n \<noteq> []" and "rest \<noteq> []" and "hd rest \<noteq> quote_char d" and "hd rest \<noteq> CHR ''.''"
  shows "read_name (quote_char d) (quoteIdent n d @ rest) = Some (name_parts n, rest)"
  unfolding quoteIdent_join using assms by (intro read_name_join) (auto simp: quote_char_def)

lemma joinIdentifiers_read:
  assumes "cols \<noteq> []" and "\<forall>c\<in>set cols. name_parts c \<noteq> []"
  shows "read_names (quote_char d) (joinIdentifiers cols d @ '')'' @ rest) = Some (map name_parts cols, '')'' @ rest)"
  using assms
proof (induction cols)
  case (Cons c cs)
  show ?case
  proof (cases "cs = []")
    case True
    with Cons.prems quoteIdent_read [of c "'')'' @ rest" d] show ?thesis
      by (subst read_names.simps) (simp add: joinIdentifiers_def quote_char_def)
  next
    case False
    let ?r = "'', '' @ joinIdentifiers cs d @ '')'' @ rest"
    have "read_name (quote_char d) (quoteIdent c d @ ?r) = Some (name_parts c, ?r)"
      using Cons.prems by (intro quoteIdent_read) (auto simp: quote_char_def)
    moreover have "joinIdentifiers (c # cs) d @ '')'' @ rest = quoteIdent c d @ ?r"
      using False by (simp add: joinIdentifiers_def join_Cons)
    ultimately show ?thesis using Cons False by (subst read_names.simps) (simp)
  qed
qed simp

lemma placeholder_joinIdentifiers:
  assumes "\<forall>c\<in>set cols. backslash \<notin> set c" and "rest \<noteq> []" and "hd rest \<noteq> quote_char d"
  shows "placeholder_count (joinIdentifiers cols d @ rest) = placeholder_count rest"
  using assms
proof (induction cols)
  case (Cons c cs)
  show ?case
  proof (cases "cs = []")
    case True
    with Cons.prems show ?thesis by (simp add: joinIdentifiers_def placeholder_quoteIdent)
  next
    case False
    have "placeholder_count (quoteIdent c d @ '', '' @ joinIdentifiers cs d @ rest) =
        placeholder_count ('', '' @ joinIdentifiers cs d @ rest)"
      using Cons.prems by (intro placeholder_quoteIdent) (auto simp: quote_char_def)
    moreover have "\<dots> = placeholder_count (joinIdentifiers cs d @ rest)"
      using placeholder_plain [of "'', ''" "joinIdentifiers cs d @ rest"] by (simp add: plain_marks)
    ultimately show ?thesis using Cons False by (simp add: joinIdentifiers_def join_Cons)
  qed
qed (simp add: joinIdentifiers_def)

lemma placeholders_plain: "plain_text (placeholders n)" "marks (placeholders n) = n"
proof -
  show "plain_text (placeholders n)"
    unfolding placeholders_def by (rule plain_text_join) (simp_all add: plain_marks list_all_iff)
  show "marks (placeholders n) = n" by (simp add: placeholders_def marks_join sum_list_replicate)
qed

lemma plain_words:
  "plain_text ''INSERT INTO ''" "plain_text ''UPDATE ''" "plain_text '' SET ''" "plain_text '' WHERE ''" "plain_text '' (''"
  "plain_text '') VALUES (''" "plain_text '')''" "plain_text '' = ?''"
  by (simp_all add: plain_sql_def is_quote_def)

lemma columnNames_selected: "columnNames which m = map col_name (filter (selected which) (mp_columns m))"
  by (simp add: columnNames_def)

text \<open>C24: The \<open>INSERT\<close> of an entity says what its parameters mean: read by the rules of a server it names the
  table and the columns of exactly the members whose values are bound, in their order, and it has one
  placeholder for each of them, whatever characters the names hold (but for backslashes).\<close>

theorem insert_binds_columns:
  assumes "name_parts table \<noteq> []" and "\<forall>c\<in>set (mp_columns m). name_parts (col_name c) \<noteq> []"
    and "backslash \<notin> set table" and "\<forall>c\<in>set (mp_columns m). backslash \<notin> set (col_name c)"
    and "filter writable (mp_columns m) \<noteq> []"
  shows "\<exists>cs rest. cs = filter writable (mp_columns m) \<and>
    read_insert (quote_char d) (insertSql m table d) = Some (name_parts table, map (name_parts \<circ> col_name) cs, rest) \<and>
    placeholder_count rest = length cs \<and> placeholder_count (insertSql m table d) = length cs \<and>
    paramsOf env m Writable e = map (\<lambda>c. col_write env c e) cs"
proof -
  let ?cs = "filter writable (mp_columns m)" and ?q = "quote_char d"
  let ?cols = "map col_name ?cs"
  let ?rest = "placeholders (length ?cs) @ '')''"
  have sel: "selected Writable = writable" by (rule ext) (simp add: selected_def)
  have sql: "insertSql m table d =
      ''INSERT INTO '' @ quoteIdent table d @ '' ('' @ joinIdentifiers ?cols d @ '') VALUES ('' @ ?rest"
    by (simp add: insertSql_def columnNames_selected sel)
  have q: "CHR '' '' \<noteq> ?q" "CHR '')'' \<noteq> ?q" by (simp_all add: quote_char_def)
  have "read_name ?q (quoteIdent table d @ '' ('' @ joinIdentifiers ?cols d @ '') VALUES ('' @ ?rest) =
      Some (name_parts table, '' ('' @ joinIdentifiers ?cols d @ '') VALUES ('' @ ?rest)"
    using assms(1) q by (intro quoteIdent_read) auto
  moreover have "read_names ?q (joinIdentifiers ?cols d @ '')'' @ '' VALUES ('' @ ?rest) =
      Some (map name_parts ?cols, '')'' @ '' VALUES ('' @ ?rest)"
    using assms(2,5) by (intro joinIdentifiers_read) auto
  ultimately have "read_insert ?q (insertSql m table d) = Some (name_parts table, map (name_parts \<circ> col_name) ?cs, ?rest)"
    unfolding sql by (simp add: read_insert_def)
  moreover have marks: "placeholder_count ?rest = length ?cs"
    using placeholders_plain [of "length ?cs"] plain_words by (subst placeholder_all_plain) (auto simp: plain_text_def)
  moreover have "placeholder_count (insertSql m table d) = length ?cs"
  proof -
    have "placeholder_count (quoteIdent table d @ '' ('' @ joinIdentifiers ?cols d @ '') VALUES ('' @ ?rest) =
        placeholder_count ('' ('' @ joinIdentifiers ?cols d @ '') VALUES ('' @ ?rest)"
      using assms(3) q by (intro placeholder_quoteIdent) auto
    moreover have "placeholder_count (joinIdentifiers ?cols d @ '') VALUES ('' @ ?rest) = placeholder_count ('') VALUES ('' @ ?rest)"
      using assms(4) q by (intro placeholder_joinIdentifiers) auto
    ultimately show ?thesis
      unfolding sql using plain_words marks by (simp only: placeholder_plain plain_text_def marks_simps) simp
  qed
  ultimately show ?thesis by (simp add: paramsOf_def sel)
qed

theorem insert_binds_columns_witness:
  "read_insert (quote_char MySQL) (insertSql user_mapping ''app.u?'' MySQL) =
     Some ([''app'', ''u?''], [[''name''], [''age''], [''track'']], ''?, ?, ?)'') \<and>
   placeholder_count (insertSql user_mapping ''app.u?'' MySQL) = 3"
proof -
  let ?cs = "mp_columns user_mapping"
  have "name_parts ''app.u?'' \<noteq> []" "\<forall>c\<in>set ?cs. name_parts (col_name c) \<noteq> []" "backslash \<notin> set ''app.u?''"
    "\<forall>c\<in>set ?cs. backslash \<notin> set (col_name c)" "filter writable ?cs \<noteq> []"
    by code_simp+
  from insert_binds_columns [OF this, of MySQL plain_conv user]
  have "placeholder_count (insertSql user_mapping ''app.u?'' MySQL) = length (filter writable ?cs)" by blast
  moreover have "length (filter writable ?cs) = 3" by code_simp
  moreover have "read_insert (quote_char MySQL) (insertSql user_mapping ''app.u?'' MySQL) =
     Some ([''app'', ''u?''], [[''name''], [''age''], [''track'']], ''?, ?, ?)'')" by code_simp
  ultimately show ?thesis by simp
qed

lemma buildAssignList_marks:
  assumes "\<forall>c\<in>set cols. backslash \<notin> set c" and "rest = [] \<or> hd rest \<noteq> quote_char d"
  shows "placeholder_count (buildAssignList cols d @ rest) = length cols + placeholder_count rest"
  using assms
proof (induction cols)
  case (Cons c cs)
  let ?r = "(if cs = [] then [] else '', '' @ buildAssignList cs d) @ rest"
  have "placeholder_count (quoteIdent c d @ '' = ?'' @ ?r) = placeholder_count ('' = ?'' @ ?r)"
    using Cons.prems by (intro placeholder_quoteIdent) (auto simp: quote_char_def)
  moreover have "\<dots> = 1 + placeholder_count ?r"
    using placeholder_plain [of "'' = ?''" ?r] by (simp add: plain_marks)
  moreover have "placeholder_count ?r = length cs + placeholder_count rest"
    using Cons placeholder_plain [of "'', ''"] by (auto simp: plain_marks)
  moreover have "buildAssignList (c # cs) d @ rest = quoteIdent c d @ '' = ?'' @ ?r"
    by (simp add: buildAssignList_def join_Cons)
  ultimately show ?case by simp
qed (simp add: buildAssignList_def)

text \<open>An \<open>UPDATE\<close> is written only with keys and with something to set; its placeholders are the parameters,
  first those to set and then those of the keys.\<close>

lemma update_binds:
  assumes "updateSql m table d \<noteq> []" and "backslash \<notin> set table" and "\<forall>c\<in>set (mp_columns m). backslash \<notin> set (col_name c)"
  shows "placeholder_count (updateSql m table d) = length (updateParamsOf env m e)"
    "key_columns m \<noteq> []" "set_columns m \<noteq> []"
proof -
  show "key_columns m \<noteq> []" "set_columns m \<noteq> []" using assms(1) by (auto simp: updateSql_def Let_def)
  then have sql: "updateSql m table d = ''UPDATE '' @ quoteIdent table d @ '' SET '' @
      buildAssignList (map col_name (set_columns m)) d @ '' WHERE '' @ buildAssignList (map col_name (key_columns m)) d @ []"
    by (simp add: updateSql_def)
  have q: "CHR '' '' \<noteq> quote_char d" by (simp add: quote_char_def)
  let ?w = "'' WHERE '' @ buildAssignList (map col_name (key_columns m)) d @ []"
  have keys: "placeholder_count (buildAssignList (map col_name (key_columns m)) d @ []) = length (key_columns m)"
    using assms(3) by (subst buildAssignList_marks) (auto simp: key_columns_def placeholder_count_def)
  have sets: "placeholder_count (buildAssignList (map col_name (set_columns m)) d @ ?w) = length (set_columns m) + placeholder_count ?w"
    using assms(3) q by (subst buildAssignList_marks) (auto simp: set_columns_def)
  have "placeholder_count (quoteIdent table d @ '' SET '' @ buildAssignList (map col_name (set_columns m)) d @ ?w) =
      placeholder_count ('' SET '' @ buildAssignList (map col_name (set_columns m)) d @ ?w)"
    using assms(2) q by (intro placeholder_quoteIdent) auto
  then show "placeholder_count (updateSql m table d) = length (updateParamsOf env m e)"
    unfolding sql using plain_words keys sets
    by (simp only: placeholder_plain plain_text_def marks_simps) (simp add: updateParamsOf_def)
qed

section \<open>Streams\<close>

definition converted :: "conv_env \<Rightarrow> mapping \<Rightarrow> entity \<Rightarrow> row list \<Rightarrow> (status \<times> entity) list" where
  "converted env m dflt rs = map (\<lambda>r. fromRow env m r dflt) rs"

definition leading :: "(status \<times> entity) list \<Rightarrow> (status \<times> entity) list" where
  "leading xs = takeWhile (\<lambda>x. status_ok (fst x)) xs"

lemma rows_loop_leading:
  "rows_loop env m dflt rs acc =
     (let xs = converted env m dflt rs; good = leading xs
      in if length good = length rs then (status_OK, acc @ map snd good) else (fst (xs ! length good), []))"
proof (induction rs arbitrary: acc)
  case (Cons r rs)
  then show ?case by (auto simp: converted_def leading_def Let_def split: prod.splits)
qed (simp add: converted_def leading_def)

lemma each_row_leading:
  "each_row (each_raw env m dflt (\<lambda>e u. (True, u @ [e]))) rs n (k, status_OK, u) =
     (let xs = converted env m dflt rs; good = leading xs; whole = (length good = length rs)
      in (n + length good + (if whole then 0 else 1), k + length good,
          if whole then status_OK else fst (xs ! length good), u @ map snd good))"
proof (induction rs arbitrary: n k u)
  case (Cons r rs)
  then show ?case by (auto simp: converted_def leading_def each_raw_def Let_def split: prod.splits)
qed (simp add: converted_def leading_def)

text \<open>Reading entities one by one is reading them all: over the default row loop of a connection the callback
  receives, in order, the entities before the first row that cannot be converted; when every row can, they
  are exactly what the collecting call returns, and otherwise the status is the error of that call.\<close>

theorem stream_like_collect:
  "case queryEachAs env m dflt (\<lambda>e u. (True, u @ [e])) (queryEach d sql ps) [] c of
     ((st, n), es, c') \<Rightarrow>
       (case query_any d sql ps c of
          (st0, rs, c0) \<Rightarrow>
            c' = c0 \<and> n = length es \<and>
            (if \<not> status_ok st0 then st = st0 \<and> es = []
             else st = fst (fromRows env m dflt rs) \<and> es = map snd (leading (converted env m dflt (rs_rows rs))) \<and>
               (if status_ok st then snd (fromRows env m dflt rs) = es else snd (fromRows env m dflt rs) = [])))"
proof -
  obtain st0 rs c0 where q: "query_any d sql ps c = (st0, rs, c0)" by (metis prod_cases3)
  let ?xs = "converted env m dflt (rs_rows rs)"
  have bad: "\<not> status_ok (fst (?xs ! length (leading ?xs)))" if "length (leading ?xs) \<noteq> length (rs_rows rs)"
    using that nth_length_takeWhile [of "\<lambda>x. status_ok (fst x)" ?xs] length_takeWhile_le [of "\<lambda>x. status_ok (fst x)" ?xs]
    by (simp add: leading_def converted_def)
  show ?thesis
    using q bad
    by (auto simp: queryEachAs_def queryEach_def each_row_leading fromRows_def rows_loop_leading Let_def)
qed

section \<open>Where the code departs from its intent\<close>

text \<open>Two key columns are joined by a comma, which is no condition.\<close>

lemma composite_key_where:
  "updateSql (map_field 2 FString ''v'' 0 (map_field 1 (FInt True 64) ''b'' PrimaryKey
      (map_field 0 (FInt True 64) ''a'' PrimaryKey empty_mapping))) ''t'' MySQL =
   ''UPDATE `t` SET `v` = ? WHERE `a` = ?, `b` = ?''"
  by code_simp

text \<open>The names of the alternatives of a value have fallen behind the variant.\<close>

lemma valueTypeName_shifted:
  "valueTypeName (VIntervalYM i) = ''Array''" "valueTypeName (VIntervalDS j) = ''Composite''"
  "valueTypeName (VArray vs) = ''unknown''" "valueTypeName (VComposite fs) = ''unknown''"
  by (simp_all add: valueTypeName_def)

text \<open>The largest 64-bit integer rounds up to \<open>2\<^sup>6\<^sup>3\<close> as a double, so this number passes the test and its
  conversion, which C++ leaves undefined, is taken as the value.\<close>

lemma lossy_double_unchecked:
  assumes "hasFlag flags Lossy" and "is_finite_double w" and "cv_trunc env w = 2 ^ 63"
  shows "int_from env True 64 flags (VDouble w) out = (status_OK, XInt (sint (cv_overflow env)))"
  using assms sint_i64_range [of "cv_overflow env"]
  by (simp add: int_from_def ranged_def cast_i64_def fitsIn_def i64_min_def i64_max_def)

text \<open>A blob is not converted to text even when the column allows losses.\<close>

lemma blob_never_text: "\<not> status_ok (fst (string_from env flags (VBlob b) out))"
  by (simp add: string_from_def typeError_def mapError_def status_ok_def status_error_def)

text \<open>For SQL Server the clause is appended, with bare names.\<close>

lemma output_inserted_appended:
  "insertSqlReturning (map_field 1 FString ''v'' 0 (map_field 0 (FInt True 64) ''my id'' Generated empty_mapping)) ''t'' SqlServer =
   ''INSERT INTO '' @ [dquote] @ ''t'' @ [dquote] @ '' ('' @ [dquote] @ ''v'' @ [dquote] @ '') OUTPUT INSERTED.my id VALUES (?)''"
  by code_simp

text \<open>An infinite float is written but refused when it is read.\<close>

lemma infinite_float_refused:
  assumes "\<not> cv_float_range env w"
  shows "\<not> status_ok (fst (fromValue FFloat env flags (toValue FFloat env (XReal w)) out))"
  using assms by (simp add: real_from_def mapError_def status_ok_def status_error_def)

end
