(* ===== verification/SourceInfo.thy ===== *)
theory SourceInfo
  imports ConfigLoader "HOL-Library.Sublist" "HOL-Library.AList"
begin

text \<open>
  What a data source says of itself: \<open>config/datasource_config.cpp\<close>, the line that describes it in the log and
  the removal of its secrets from messages of drivers, and the table of drivers of
  \<open>driver/driver_registry.cpp\<close>. A secret without a star does not survive its removal.
\<close>

section \<open>Descriptions\<close>

definition source_describe :: "source_config \<Rightarrow> string" where
  "source_describe c =
     dc_name c @ ''['' @ dc_type c @ '']'' @
     (if sc_dsn c \<noteq> [] then '' dsn='' @ sc_dsn c
      else '' '' @ sc_host c @ '':'' @ int_to_string (sc_port c) @ ''/'' @ sc_database c) @
     '' user='' @ sc_user c"

text \<open>The search continues behind the stars.\<close>

function replaceAll :: "string \<Rightarrow> string \<Rightarrow> string" where
  "replaceAll secret msg =
     (if secret = [] then msg
      else case break_on secret msg of
        None \<Rightarrow> msg
      | Some (a, b) \<Rightarrow> a @ ''***'' @ replaceAll secret b)"
  by pat_completeness auto
termination
proof (relation "measure (\<lambda>(secret, msg). length msg)", goal_cases)
  case (2 secret msg x a b)
  then show ?case using break_on_length [of secret msg a b] by (cases secret) auto
qed simp

declare replaceAll.simps [simp del]

definition redact :: "source_config \<Rightarrow> string \<Rightarrow> string" where
  "redact c msg =
     (let t = replaceAll (sc_password c) msg
      in case map_of (sc_extra c) ''connection_string'' of None \<Rightarrow> t | Some s \<Rightarrow> replaceAll s t)"

section \<open>Drivers\<close>

type_synonym 'd driver_table = "(string \<times> (unit \<Rightarrow> 'd)) list"

definition registerDriver :: "string \<Rightarrow> (unit \<Rightarrow> 'd) \<Rightarrow> 'd driver_table \<Rightarrow> 'd driver_table" where
  "registerDriver type f t = AList.update type f t"

definition hasDriver :: "string \<Rightarrow> 'd driver_table \<Rightarrow> bool" where
  "hasDriver type t \<longleftrightarrow> type \<in> set (map fst t)"

definition createDriver :: "string \<Rightarrow> 'd driver_table \<Rightarrow> 'd option" where
  "createDriver type t = map_option (\<lambda>f. f ()) (map_of t type)"

lemma registered_driver:
  "createDriver type' (registerDriver type f t) = (if type' = type then Some (f ()) else createDriver type' t)"
  by (simp add: createDriver_def registerDriver_def update_conv')

lemma hasDriver_iff: "hasDriver type t \<longleftrightarrow> createDriver type t \<noteq> None"
  by (simp add: hasDriver_def createDriver_def map_of_eq_None_iff)

section \<open>Secrets\<close>

lemma break_on_None: "break_on pat s = None \<Longrightarrow> \<not> sublist pat s"
proof (induction pat s rule: break_on.induct)
  case (2 pat c cs)
  then show ?case by (auto simp: sublist_Cons_right split: if_splits)
qed (auto split: if_splits)

text \<open>What is found is the first occurrence: the secret does not begin in what stands before it.\<close>

lemma break_on_first: "break_on pat s = Some (a, b) \<Longrightarrow> pat \<noteq> [] \<Longrightarrow> \<not> sublist pat a"
proof (induction pat s arbitrary: a rule: break_on.induct)
  case (2 pat c cs)
  show ?case
  proof (cases "prefix pat (c # cs)")
    case True
    with 2 show ?thesis by auto
  next
    case False
    then obtain a' where a: "a = c # a'" "break_on pat cs = Some (a', b)" using 2 by (auto split: if_splits)
    have "cs = a' @ pat @ b" using break_on_Some [OF a(2)] by simp
    then have "\<not> prefix pat a" using False a(1) by (metis append_Cons prefix_append)
    with 2(1) [of a'] 2(3) False a show ?thesis by (simp add: sublist_Cons_right)
  qed
qed simp

lemma sublist_stars:
  assumes "p \<noteq> []" and "CHR ''*'' \<notin> set p"
  shows "sublist p (a @ ''***'' @ r) \<longleftrightarrow> sublist p a \<or> sublist p r"
proof -
  have tail: "sublist p (''***'' @ r) \<longleftrightarrow> sublist p r"
    using assms by (cases p) (auto simp: sublist_Cons_right)
  have "xs2 = []" if "p = xs1 @ xs2" "prefix xs2 (''***'' @ r)" for xs1 xs2
    using that assms(2) by (cases xs2) auto
  then show ?thesis
    using tail unfolding sublist_append by (metis append.right_neutral suffix_imp_sublist)
qed

lemma replaceAll_hides:
  "secret \<noteq> [] \<Longrightarrow> CHR ''*'' \<notin> set secret \<Longrightarrow> \<not> sublist secret (replaceAll secret msg)"
proof (induction secret msg rule: replaceAll.induct)
  case (1 secret msg)
  show ?case
  proof (cases "break_on secret msg")
    case None
    with 1 show ?thesis by (simp add: replaceAll.simps [of secret msg] break_on_None)
  next
    case (Some x)
    then obtain a b where ab: "break_on secret msg = Some (a, b)" by (cases x) auto
    with 1 have "\<not> sublist secret (replaceAll secret b)" by auto
    with 1 ab break_on_first [OF ab] show ?thesis
      by (simp add: replaceAll.simps [of secret msg] sublist_stars del: append.simps)
  qed
qed

lemma replaceAll_keeps_hidden:
  "p \<noteq> [] \<Longrightarrow> CHR ''*'' \<notin> set p \<Longrightarrow> \<not> sublist p msg \<Longrightarrow> \<not> sublist p (replaceAll secret msg)"
proof (induction secret msg rule: replaceAll.induct)
  case (1 secret msg)
  show ?case
  proof (cases "secret = [] \<or> break_on secret msg = None")
    case True
    with 1 show ?thesis by (auto simp: replaceAll.simps [of secret msg])
  next
    case False
    then obtain a b where ab: "secret \<noteq> []" "break_on secret msg = Some (a, b)" by auto
    then have "msg = a @ secret @ b" by (simp add: break_on_Some)
    then have "\<not> sublist p a" "\<not> sublist p b" using 1(4) by (auto simp: sublist_append)
    with 1 ab show ?thesis
      by (simp add: replaceAll.simps [of secret msg] sublist_stars del: append.simps)
  qed
qed

text \<open>C30: A message that has been redacted contains neither the password nor the connection string of the data
  source, however often and wherever the driver put them, unless they hold a star.\<close>

theorem redact_hides_secrets:
  assumes "CHR ''*'' \<notin> set (sc_password c)"
  shows "(sc_password c \<noteq> [] \<longrightarrow> \<not> sublist (sc_password c) (redact c msg)) \<and>
    (\<forall>s. map_of (sc_extra c) ''connection_string'' = Some s \<and> s \<noteq> [] \<and> CHR ''*'' \<notin> set s \<longrightarrow>
       \<not> sublist s (redact c msg))"
  using assms replaceAll_hides [of "sc_password c" msg] replaceAll_hides
    replaceAll_keeps_hidden [of "sc_password c" "replaceAll (sc_password c) msg"]
  by (auto simp: redact_def Let_def split: option.splits)

definition secret_source :: source_config where
  "secret_source = \<lparr>dc_name = ''a'', dc_type = ''odbc'', sc_host = [], sc_port = 0, sc_user = ''u'', sc_password = ''pw'',
     sc_password_env = [], sc_database = [], sc_dsn = [], sc_connection_timeout_ms = 0, sc_socket_timeout_ms = 0,
     sc_query_timeout_ms = 0, sc_max_result_rows = 0, sc_tls_enabled = False, sc_tls_verify_peer = True, sc_tls_ca = [],
     sc_tls_cert = [], sc_tls_key = [], sc_oracle = default_oracle, sc_extra = [(''connection_string'', ''Host=db;Pwd=pw'')]\<rparr>"

theorem redact_hides_secrets_witness:
  "\<not> sublist ''pw'' (redact secret_source ''bad: pwpw'') \<and> redact secret_source ''bad: pwpw'' = ''bad: ******''"
proof -
  have "CHR ''*'' \<notin> set (sc_password secret_source)" "sc_password secret_source = ''pw''"
    by (simp_all add: secret_source_def)
  from redact_hides_secrets [OF this(1), of "''bad: pwpw''"] this(2)
  have "\<not> sublist ''pw'' (redact secret_source ''bad: pwpw'')" by simp
  moreover have "redact secret_source ''bad: pwpw'' = ''bad: ******''" by code_simp
  ultimately show ?thesis ..
qed

text \<open>The password goes first, so a connection string that holds it is no longer found, and the rest of it stays
  in the message.\<close>

lemma connection_string_shown: "redact secret_source ''in Host=db;Pwd=pw'' = ''in Host=db;Pwd=***''"
  by code_simp

end
