(* ===== verification/Reports.thy ===== *)
theory Reports
  imports Observer Pool Config
begin

text \<open>
  What is reported of pools and slow statements: \<open>ConnectionPool::stats\<close>, the Prometheus text of
  \<open>exporters/prometheus.cpp\<close> and the reports of \<open>core/stats_reporter.cpp\<close>. The Prometheus text is built as a
  list of lines, which \<open>line_text\<close> prints. The texts of quotients of integers as doubles, as streams print them,
  are parameters, as is the local time.
\<close>

section \<open>Statistics of a pool\<close>

record pool_stats =
  ps_minConnections :: nat
  ps_maxConnections :: nat
  ps_idle :: nat
  ps_total :: nat
  ps_borrowed :: nat
  ps_waiting :: nat
  ps_connectionsCreated :: nat
  ps_connectionsClosed :: nat
  ps_borrowTimeouts :: nat
  ps_validationFailures :: nat
  ps_leakWarnings :: nat
  ps_maxBorrowed :: nat
  ps_maxWaiting :: nat
  ps_borrowRequests :: nat
  ps_borrowSuccesses :: nat
  ps_connectionCreateFailures :: nat
  ps_invalidatedConnections :: nat
  ps_idleEvictions :: nat
  ps_lifetimeEvictions :: nat
  ps_totalBorrowWait :: int
  ps_maxBorrowWait :: int
  ps_asyncWaiting :: nat

text \<open>With the metrics off, all counters but the sizes are zero.\<close>

definition pool_stats_of :: "pool_cfg \<Rightarrow> pool \<Rightarrow> pool_stats" where
  "pool_stats_of c s =
     (let count = (\<lambda>n. if metricsEnabled s then n else 0); peak = (\<lambda>i. if metricsEnabled s then nat i else 0);
          time = (\<lambda>t. if metricsEnabled s then t else 0)
      in \<lparr>ps_minConnections = nat (minConn c), ps_maxConnections = nat (maxConn c), ps_idle = length (idle s),
          ps_total = nat (total s), ps_borrowed = nat (borrowed s), ps_waiting = nat (waiting s),
          ps_connectionsCreated = count (connectionsCreated s), ps_connectionsClosed = count (connectionsClosed s),
          ps_borrowTimeouts = count (borrowTimeouts s), ps_validationFailures = count (validationFailures s),
          ps_leakWarnings = count (leakWarnings s), ps_maxBorrowed = peak (maxBorrowed s),
          ps_maxWaiting = peak (maxWaiting s), ps_borrowRequests = count (borrowRequests s),
          ps_borrowSuccesses = count (borrowSuccesses s),
          ps_connectionCreateFailures = count (connectionCreateFailures s),
          ps_invalidatedConnections = count (invalidatedConnections s), ps_idleEvictions = count (idleEvictions s),
          ps_lifetimeEvictions = count (lifetimeEvictions s), ps_totalBorrowWait = time (totalBorrowWait s),
          ps_maxBorrowWait = time (maxBorrowWait s), ps_asyncWaiting = length (asyncWaiters s)\<rparr>)"

type_synonym named_stats = "string \<times> pool_stats"

section \<open>Prometheus text\<close>

text \<open>\<open>rf_quot n d\<close> is what a stream prints for the double \<open>n / d\<close>; \<open>rf_fixed p n d\<close> the same with \<open>p\<close> digits
  behind the point; \<open>rf_percent\<close> and \<open>rf_average\<close> are those of a hundred times a quotient and of a quotient
  divided by a thousand.\<close>

record report_env =
  rf_quot :: "int \<Rightarrow> int \<Rightarrow> string"
  rf_fixed :: "nat \<Rightarrow> int \<Rightarrow> int \<Rightarrow> string"
  rf_percent :: "nat \<Rightarrow> nat \<Rightarrow> string"
  rf_average :: "nat \<Rightarrow> int \<Rightarrow> nat \<Rightarrow> string"
  rf_time :: "int \<Rightarrow> string"

definition escape_label_char :: "char \<Rightarrow> string" where
  "escape_label_char c =
     (if c = backslash then [backslash, backslash]
      else if c = dquote then [backslash, dquote]
      else if c = newline then [backslash, CHR ''n'']
      else if char_code c < 32 then ''?'' else [c])"

definition escapeLabel :: "string \<Rightarrow> string" where
  "escapeLabel s = concat (map escape_label_char s)"

definition label_text :: "string \<times> string \<Rightarrow> string" where
  "label_text kv = fst kv @ ''='' @ [dquote] @ escapeLabel (snd kv) @ [dquote]"

definition renderLabels :: "(string \<times> string) list \<Rightarrow> string" where
  "renderLabels kvs = join '','' (map label_text kvs)"

datatype prom_line =
  PHelp (pl_name: string) string
| PType (pl_name: string) string
| PSample (pl_name: string) "(string \<times> string) list" (pl_value: string)

definition emitMetric :: "string \<Rightarrow> string \<Rightarrow> string \<Rightarrow> string" where
  "emitMetric name labels v =
     (if labels = [] then name @ '' '' @ v @ [newline] else name @ ''{'' @ labels @ ''} '' @ v @ [newline])"

fun line_text :: "prom_line \<Rightarrow> string" where
  "line_text (PHelp name help) = ''# HELP '' @ name @ '' '' @ help @ [newline]"
| "line_text (PType name type) = ''# TYPE '' @ name @ '' '' @ type @ [newline]"
| "line_text (PSample name labels v) = emitMetric name (renderLabels labels) v"

text \<open>A family of metrics: its name behind the prefix, help, type and value.\<close>

definition pool_families :: "report_env \<Rightarrow> (string \<times> string \<times> string \<times> (pool_stats \<Rightarrow> string)) list" where
  "pool_families env =
     [(''_pool_connections'', ''Current total connections in the pool.'', ''gauge'', \<lambda>s. nat_to_string (ps_total s)),
      (''_pool_connections_max'', ''Configured maximum connections.'', ''gauge'', \<lambda>s. nat_to_string (ps_maxConnections s)),
      (''_pool_connections_min'', ''Configured minimum connections.'', ''gauge'', \<lambda>s. nat_to_string (ps_minConnections s)),
      (''_pool_connections_idle'', ''Idle (free) connections.'', ''gauge'', \<lambda>s. nat_to_string (ps_idle s)),
      (''_pool_connections_borrowed'', ''Currently borrowed connections.'', ''gauge'', \<lambda>s. nat_to_string (ps_borrowed s)),
      (''_pool_utilization_ratio'', ''Pool utilization (borrowed / maxConnections).'', ''gauge'',
        \<lambda>s. if ps_maxConnections s = 0 then rf_quot env 0 1
            else rf_quot env (int (ps_borrowed s)) (int (ps_maxConnections s))),
      (''_pool_waiting'', ''Threads + futures waiting for a connection.'', ''gauge'',
        \<lambda>s. nat_to_string (ps_waiting s + ps_asyncWaiting s)),
      (''_pool_borrow_requests_total'', ''Total borrow attempts.'', ''counter'', \<lambda>s. nat_to_string (ps_borrowRequests s)),
      (''_pool_borrow_successes_total'', ''Successful borrows.'', ''counter'', \<lambda>s. nat_to_string (ps_borrowSuccesses s)),
      (''_pool_borrow_timeouts_total'', ''Borrow timeouts.'', ''counter'', \<lambda>s. nat_to_string (ps_borrowTimeouts s)),
      (''_pool_connection_create_failures_total'', ''Connection create failures.'', ''counter'',
        \<lambda>s. nat_to_string (ps_connectionCreateFailures s)),
      (''_pool_invalidated_connections_total'', ''Connections invalidated by health check.'', ''counter'',
        \<lambda>s. nat_to_string (ps_invalidatedConnections s)),
      (''_pool_validation_failures_total'', ''Validation failures during borrow.'', ''counter'',
        \<lambda>s. nat_to_string (ps_validationFailures s)),
      (''_pool_leak_warnings_total'', ''Connection leak warnings emitted.'', ''counter'', \<lambda>s. nat_to_string (ps_leakWarnings s)),
      (''_pool_idle_evictions_total'', ''Idle-timeout evictions.'', ''counter'', \<lambda>s. nat_to_string (ps_idleEvictions s)),
      (''_pool_lifetime_evictions_total'', ''Lifetime evictions.'', ''counter'', \<lambda>s. nat_to_string (ps_lifetimeEvictions s)),
      (''_pool_connections_created_total'', ''Connections ever created (lifetime).'', ''counter'',
        \<lambda>s. nat_to_string (ps_connectionsCreated s)),
      (''_pool_connections_closed_total'', ''Connections ever closed (lifetime).'', ''counter'',
        \<lambda>s. nat_to_string (ps_connectionsClosed s)),
      (''_pool_borrow_wait_seconds_total'', ''Cumulative borrow wait time in seconds.'', ''counter'',
        \<lambda>s. rf_quot env (ps_totalBorrowWait s) 1000000),
      (''_pool_borrow_wait_seconds_max'', ''Max single borrow wait in seconds.'', ''gauge'',
        \<lambda>s. rf_quot env (ps_maxBorrowWait s) 1000000)]"

definition family_head :: "string \<Rightarrow> string \<Rightarrow> string \<Rightarrow> bool \<Rightarrow> prom_line list" where
  "family_head name help type emitted = (if emitted then [] else [PHelp name help, PType name type])"

text \<open>The lines of one pool; the heads stand only with the first.\<close>

definition pool_lines :: "report_env \<Rightarrow> string \<Rightarrow> bool \<Rightarrow> named_stats \<Rightarrow> prom_line list" where
  "pool_lines env pre emitted np =
     concat (map (\<lambda>(name, help, type, val).
       family_head (pre @ name) help type emitted @
       [PSample (pre @ name) [(''data_source'', fst np)] (val (snd np))]) (pool_families env))"

fun all_pool_lines :: "report_env \<Rightarrow> string \<Rightarrow> bool \<Rightarrow> named_stats list \<Rightarrow> prom_line list" where
  "all_pool_lines env pre emitted [] = []"
| "all_pool_lines env pre emitted (np # nps) = pool_lines env pre emitted np @ all_pool_lines env pre True nps"

text \<open>The cumulative counts of the finite buckets.\<close>

fun cumulated :: "nat \<Rightarrow> nat list \<Rightarrow> nat list" where
  "cumulated acc [] = []"
| "cumulated acc (h # hs) = (acc + h) # cumulated (acc + h) hs"

definition bucket_lines :: "report_env \<Rightarrow> string \<Rightarrow> (string \<times> string) list \<Rightarrow> slow_stats \<Rightarrow> prom_line list" where
  "bucket_lines env name labels s =
     map (\<lambda>(ms, n). PSample name (labels @ [(''le'', rf_quot env ms 1000)]) (nat_to_string n))
       (zip (sq_buckets s) (cumulated 0 (sq_histogram s)))"

definition slow_lines :: "report_env \<Rightarrow> string \<Rightarrow> bool \<Rightarrow> slow_stats \<Rightarrow> prom_line list" where
  "slow_lines env pre emitted s =
     (let labels = [(''data_source'', sq_dataSource s), (''fingerprint'', nat_to_string (unat (sq_fingerprint s)))];
          duration = pre @ ''_slow_sql_duration_seconds'';
          count = pre @ ''_slow_sql_count''; errors = pre @ ''_slow_sql_errors''; timeouts = pre @ ''_slow_sql_timeouts'';
          max = pre @ ''_slow_sql_duration_seconds_max''
      in family_head count ''Slow SQL occurrence count.'' ''counter'' emitted @
         [PSample count labels (nat_to_string (sq_count s))] @
         family_head errors ''Slow SQL error count.'' ''counter'' emitted @
         [PSample errors labels (nat_to_string (sq_errors s))] @
         family_head timeouts ''Slow SQL timeout count.'' ''counter'' emitted @
         [PSample timeouts labels (nat_to_string (sq_timeouts s))] @
         family_head duration ''Slow SQL duration histogram in seconds.'' ''histogram'' emitted @
         [PSample (duration @ ''_sum'') labels (rf_quot env (sq_total s) 1000000)] @
         family_head max ''Max slow SQL duration in seconds.'' ''gauge'' emitted @
         [PSample max labels (rf_quot env (sq_max s) 1000000)] @
         bucket_lines env (duration @ ''_bucket'') labels s @
         [PSample (duration @ ''_bucket'') (labels @ [(''le'', ''+Inf'')]) (nat_to_string (sq_count s)),
          PSample (duration @ ''_count'') labels (nat_to_string (sq_count s))])"

fun all_slow_lines :: "report_env \<Rightarrow> string \<Rightarrow> bool \<Rightarrow> slow_stats list \<Rightarrow> prom_line list" where
  "all_slow_lines env pre emitted [] = []"
| "all_slow_lines env pre emitted (s # ss) = slow_lines env pre emitted s @ all_slow_lines env pre True ss"

definition prometheus_lines :: "report_env \<Rightarrow> named_stats list \<Rightarrow> slow_stats list \<Rightarrow> string \<Rightarrow> nat \<Rightarrow> prom_line list" where
  "prometheus_lines env nps slow pre maxLabels =
     all_pool_lines env pre False nps @
     all_slow_lines env pre False (if maxLabels = 0 then slow else take maxLabels slow)"

definition toPrometheusText :: "report_env \<Rightarrow> named_stats list \<Rightarrow> slow_stats list \<Rightarrow> string \<Rightarrow> nat \<Rightarrow> string" where
  "toPrometheusText env nps slow pre maxLabels = concat (map line_text (prometheus_lines env nps slow pre maxLabels))"

section \<open>Reports\<close>

definition hex4 :: "char \<Rightarrow> string" where
  "hex4 c = (let n = char_code c in ''00'' @ [''0123456789abcdef'' ! (n div 16), ''0123456789abcdef'' ! (n mod 16)])"

definition escape_json_char :: "char \<Rightarrow> string" where
  "escape_json_char c =
     (if c = dquote then [backslash, dquote]
      else if c = backslash then [backslash, backslash]
      else if c = newline then [backslash, CHR ''n'']
      else if char_code c = 13 then [backslash, CHR ''r'']
      else if char_code c = 9 then [backslash, CHR ''t'']
      else if char_code c < 32 then backslash # ''u'' @ hex4 c else [c])"

definition escapeJson :: "string \<Rightarrow> string" where
  "escapeJson s = concat (map escape_json_char s)"

definition clip :: "string \<Rightarrow> nat \<Rightarrow> string" where
  "clip s maxLen = (if length s \<le> maxLen then s else take maxLen s @ ''...'')"

definition averageMs :: "report_env \<Rightarrow> nat \<Rightarrow> slow_stats \<Rightarrow> string" where
  "averageMs env precision s =
     (if sq_count s = 0 then rf_fixed env precision 0 1 else rf_average env precision (sq_total s) (sq_count s))"

definition utilization :: "report_env \<Rightarrow> nat \<Rightarrow> pool_stats \<Rightarrow> string" where
  "utilization env precision s =
     (if ps_maxConnections s = 0 then rf_fixed env precision 0 1
      else rf_fixed env precision (int (ps_borrowed s)) (int (ps_maxConnections s)))"

definition text_pool :: "report_env \<Rightarrow> named_stats \<Rightarrow> string" where
  "text_pool env np =
     (let s = snd np
      in ''  '' @ fst np @ ''  idle='' @ nat_to_string (ps_idle s) @ '' borrowed='' @ nat_to_string (ps_borrowed s) @ ''/'' @
         nat_to_string (ps_maxConnections s) @ '' waiting='' @ nat_to_string (ps_waiting s) @ '' util='' @
         (if ps_maxConnections s = 0 then rf_fixed env 1 0 1 else rf_percent env (ps_borrowed s) (ps_maxConnections s)) @
         ''%'' @ '' created='' @ nat_to_string (ps_connectionsCreated s) @ '' closed='' @
         nat_to_string (ps_connectionsClosed s) @ '' timeouts='' @ nat_to_string (ps_borrowTimeouts s) @
         '' invalidated='' @ nat_to_string (ps_invalidatedConnections s) @ [newline])"

definition text_slow :: "report_env \<Rightarrow> nat \<times> slow_stats \<Rightarrow> string" where
  "text_slow env rs =
     (let s = snd rs
      in ''  '' @ nat_to_string (fst rs) @ ''. ['' @ sq_dataSource s @ '']'' @ '' avg='' @ averageMs env 2 s @ ''ms'' @
         '' max='' @ rf_fixed env 2 (sq_max s) 1000 @ ''ms'' @ '' count='' @ nat_to_string (sq_count s) @ '' errors='' @
         nat_to_string (sq_errors s) @ '' timeouts='' @ nat_to_string (sq_timeouts s) @ ''  '' @
         clip (sq_template s) 120 @ [newline])"

definition renderText :: "report_env \<Rightarrow> stats_report_config \<Rightarrow> int \<Rightarrow> named_stats list \<Rightarrow> slow_stats list \<Rightarrow> string" where
  "renderText env c now nps slow =
     ''['' @ rf_time env now @ ''] sqlconduit stats report'' @ [newline] @
     (if \<not> sr_include_pool c then []
      else ''pools:'' @ [newline] @ (if nps = [] then ''  (none)'' @ [newline] else concat (map (text_pool env) nps))) @
     (if \<not> sr_include_slow_sql c then []
      else ''slow sql (top '' @ nat_to_string (length slow) @ ''):'' @ [newline] @
        (if slow = [] then ''  (none)'' @ [newline] else concat (map (text_slow env) (enumerate 1 slow))))"

definition jfield :: "string \<Rightarrow> string \<Rightarrow> string" where
  "jfield k v = [dquote] @ k @ [dquote] @ '':'' @ v"

definition jstring :: "string \<Rightarrow> string" where
  "jstring s = [dquote] @ s @ [dquote]"

definition json_pool :: "report_env \<Rightarrow> named_stats \<Rightarrow> string" where
  "json_pool env np =
     (let s = snd np
      in ''{'' @ join '','' [jfield ''name'' (jstring (escapeJson (fst np))), jfield ''idle'' (nat_to_string (ps_idle s)),
           jfield ''borrowed'' (nat_to_string (ps_borrowed s)), jfield ''max'' (nat_to_string (ps_maxConnections s)),
           jfield ''waiting'' (nat_to_string (ps_waiting s)), jfield ''utilization'' (utilization env 4 s),
           jfield ''created'' (nat_to_string (ps_connectionsCreated s)), jfield ''closed'' (nat_to_string (ps_connectionsClosed s)),
           jfield ''timeouts'' (nat_to_string (ps_borrowTimeouts s)),
           jfield ''invalidated'' (nat_to_string (ps_invalidatedConnections s))] @ ''}'')"

definition json_slow :: "report_env \<Rightarrow> slow_stats \<Rightarrow> string" where
  "json_slow env s =
     ''{'' @ join '','' [jfield ''data_source'' (jstring (escapeJson (sq_dataSource s))),
       jfield ''fingerprint'' (nat_to_string (unat (sq_fingerprint s))), jfield ''avg_ms'' (averageMs env 2 s),
       jfield ''max_ms'' (rf_fixed env 2 (sq_max s) 1000), jfield ''count'' (nat_to_string (sq_count s)),
       jfield ''errors'' (nat_to_string (sq_errors s)), jfield ''timeouts'' (nat_to_string (sq_timeouts s)),
       jfield ''sql'' (jstring (escapeJson (clip (sq_template s) 512)))] @ ''}''"

definition renderJson :: "report_env \<Rightarrow> stats_report_config \<Rightarrow> int \<Rightarrow> named_stats list \<Rightarrow> slow_stats list \<Rightarrow> string" where
  "renderJson env c now nps slow =
     ''{'' @ jfield ''timestamp'' (jstring (rf_time env now)) @
     (if sr_include_pool c then '','' @ jfield ''pools'' (''['' @ join '','' (map (json_pool env) nps) @ '']'') else []) @
     (if sr_include_slow_sql c then '','' @ jfield ''slow_sql'' (''['' @ join '','' (map (json_slow env) slow) @ '']'') else []) @
     ''}''"

text \<open>Where a report goes: into the log, to the end of a file, or nowhere with a warning. With it the observer of
  the pools, if there is one, is given a sample.\<close>

datatype report_out = ToLog string | ToFile string string | CannotOpen string

definition writeOnce ::
  "report_env \<Rightarrow> stats_report_config \<Rightarrow> int \<Rightarrow> named_stats list \<Rightarrow> ('o \<Rightarrow> named_stats list option) \<Rightarrow> 'o obs_state \<Rightarrow>
   (string \<Rightarrow> bool) \<Rightarrow> ('o \<times> named_stats list) option \<times> report_out" where
  "writeOnce env c now collected collect obs opens =
     (let nps = (if sr_include_pool c then collected else []);
          sample = (if sr_include_pool c then snd (samplePoolMetrics collect obs) else None);
          slow = (if sr_include_slow_sql c then slowSqlStats (nat (sr_slow_sql_limit c)) [] obs else []);
          text = (if sr_format c = ''json'' then renderJson env c now nps slow else renderText env c now nps slow)
      in (sample,
          if sr_file c = [] then ToLog (''stats report:'' @ [newline] @ text)
          else if \<not> opens (sr_file c) then CannotOpen (sr_file c)
          else ToFile (sr_file c) (text @ (if sr_format c = ''json'' then [newline] else []))))"

end
