(* ===== verification/ReportsProps.thy ===== *)
theory ReportsProps
  imports Reports ObserverProps PoolSystem
begin

text \<open>
  What can be read from the reports: every sample line of the Prometheus text is read back with its labels, so no
  name of a data source breaks the format; the buckets of a histogram are those of the statistics; strings in the
  JSON report are read back; and what is not in order with the format.
\<close>

section \<open>Sample lines\<close>

text \<open>How a scraper reads a label value, labels and a line.\<close>

fun read_label_value :: "string \<Rightarrow> (string \<times> string) option" where
  "read_label_value [] = None"
| "read_label_value [c] = (if c = dquote then Some ([], []) else None)"
| "read_label_value (c # e # cs) =
     (if c = dquote then Some ([], e # cs)
      else if c = newline then None
      else if c = backslash then
        (if e = backslash \<or> e = dquote then map_option (apfst ((#) e)) (read_label_value cs)
         else if e = CHR ''n'' then map_option (apfst ((#) newline)) (read_label_value cs) else None)
      else map_option (apfst ((#) c)) (read_label_value (e # cs)))"

lemma read_label_value_shorter: "read_label_value s = Some (v, r) \<Longrightarrow> length r < length s"
  by (induction s arbitrary: v r rule: read_label_value.induct) (fastforce split: if_splits)+

definition label_key :: "string \<Rightarrow> string" where
  "label_key s = takeWhile (\<lambda>c. c \<noteq> CHR ''='') s"

function read_labels :: "string \<Rightarrow> ((string \<times> string) list \<times> string) option" where
  "read_labels s =
     (let k = label_key s; r = drop (length k) s
      in if take 2 r \<noteq> [CHR ''='', dquote] then None
         else case read_label_value (drop 2 r) of
           None \<Rightarrow> None
         | Some (v, r') \<Rightarrow>
             if r' \<noteq> [] \<and> hd r' = CHR '','' then map_option (apfst ((#) (k, v))) (read_labels (tl r'))
             else if r' \<noteq> [] \<and> hd r' = CHR ''}'' then Some ([(k, v)], tl r') else None)"
  by pat_completeness auto
termination
proof (relation "measure length", goal_cases)
  case (2 s k r y v r')
  then have "length r' < length (drop 2 r)" by (auto dest: read_label_value_shorter)
  then show ?case using 2 by (auto simp: Let_def)
qed simp

declare read_labels.simps [simp del]

text \<open>A line: the name, the labels if there are any, a space and the value.\<close>

definition name_char :: "char \<Rightarrow> bool" where
  "name_char c \<longleftrightarrow> c \<noteq> CHR ''{'' \<and> c \<noteq> space"

definition read_sample :: "string \<Rightarrow> (string \<times> (string \<times> string) list \<times> string) option" where
  "read_sample s =
     (let name = takeWhile name_char s; r = dropWhile name_char s
      in case r of
           [] \<Rightarrow> None
         | c # r1 \<Rightarrow>
             if c = space then Some (name, [], takeWhile (\<lambda>x. x \<noteq> newline) r1)
             else case read_labels r1 of
               Some (kvs, r2) \<Rightarrow>
                 if r2 \<noteq> [] \<and> hd r2 = space then Some (name, kvs, takeWhile (\<lambda>x. x \<noteq> newline) (tl r2)) else None
             | None \<Rightarrow> None)"

text \<open>What is left of a label value: control characters are replaced.\<close>

definition shown_char :: "char \<Rightarrow> char" where
  "shown_char c = (if char_code c < 32 \<and> c \<noteq> newline then CHR ''?'' else c)"

lemma escape_label_read:
  "read_label_value (escape_label_char c @ rest) = map_option (apfst ((#) (shown_char c))) (read_label_value rest)"
  if "rest \<noteq> []"
proof (cases rest)
  case (Cons e cs)
  consider "c = backslash" | "c = dquote" | "c = newline"
    | "char_code c < 32" "c \<noteq> newline" "c \<noteq> backslash" "c \<noteq> dquote" | "\<not> char_code c < 32" "c \<noteq> backslash" "c \<noteq> dquote" "c \<noteq> newline"
    by blast
  then show ?thesis
    using Cons by cases (simp_all add: escape_label_char_def shown_char_def)
qed (use that in simp)

lemma escapeLabel_read: "read_label_value (escapeLabel s @ dquote # rest) = Some (map shown_char s, rest)"
proof (induction s)
  case Nil
  then show ?case by (cases rest) (simp_all add: escapeLabel_def)
next
  case (Cons c s)
  have "escapeLabel (c # s) @ dquote # rest = escape_label_char c @ escapeLabel s @ dquote # rest"
    by (simp add: escapeLabel_def)
  then show ?case using Cons escape_label_read [of "escapeLabel s @ dquote # rest" c] by simp
qed

lemma label_key_text: "CHR ''='' \<notin> set k \<Longrightarrow> label_key (k @ CHR ''='' # r) = k"
  by (induction k) (auto simp: label_key_def)

lemma renderLabels_read:
  assumes "kvs \<noteq> []" and "\<forall>(k, v)\<in>set kvs. CHR ''='' \<notin> set k"
  shows "read_labels (renderLabels kvs @ CHR ''}'' # rest) = Some (map (apsnd (map shown_char)) kvs, rest)"
  using assms
proof (induction kvs)
  case (Cons kv kvs)
  obtain k v where kv: "kv = (k, v)" by fastforce
  let ?r = "(if kvs = [] then [] else '','' @ renderLabels kvs) @ CHR ''}'' # rest"
  have eq: "renderLabels (kv # kvs) @ CHR ''}'' # rest = k @ CHR ''='' # dquote # escapeLabel v @ dquote # ?r"
    by (simp add: renderLabels_def label_text_def join_Cons kv)
  have key: "label_key (k @ CHR ''='' # dquote # escapeLabel v @ dquote # ?r) = k"
    using Cons.prems kv by (intro label_key_text) auto
  show ?case
    using Cons kv unfolding eq by (subst read_labels.simps) (auto simp: key escapeLabel_read)
qed simp

text \<open>Every sample line is read back with its name, its labels and its value: a data source may be named as it
  likes, control characters apart nothing is lost and nothing breaks the format.\<close>

theorem prometheus_sample_read:
  assumes "list_all name_char name" and "\<forall>(k, v)\<in>set labels. CHR ''='' \<notin> set k" and "newline \<notin> set val"
  shows "read_sample (line_text (PSample name labels val)) = Some (name, map (apsnd (map shown_char)) labels, val)"
proof -
  have tw: "takeWhile name_char (name @ c # r) = name" "dropWhile name_char (name @ c # r) = c # r"
    if "\<not> name_char c" for c r
    using assms(1) that by (auto simp: list_all_iff takeWhile_append2 dropWhile_append2)
  have val: "takeWhile (\<lambda>x. x \<noteq> newline) (val @ [newline]) = val"
    using assms(3) by (subst takeWhile_append2) auto
  have no: "\<not> name_char space" "\<not> name_char (CHR ''{'')" by (simp_all add: name_char_def)
  show ?thesis
  proof (cases "labels = []")
    case True
    then show ?thesis using tw [OF no(1)] val
      by (simp add: read_sample_def emitMetric_def renderLabels_def)
  next
    case False
    then have "renderLabels labels \<noteq> []" by (cases labels) (auto simp: renderLabels_def join_Cons label_text_def)
    then show ?thesis
      using tw [OF no(2)] val renderLabels_read [OF False assms(2)]
      by (simp add: read_sample_def emitMetric_def)
  qed
qed

theorem prometheus_sample_read_witness:
  "read_sample (line_text (PSample ''up'' [(''data_source'', ''a'' @ [dquote] @ ''} 9'' @ [newline])] ''7'')) =
     Some (''up'', [(''data_source'', ''a'' @ [dquote] @ ''} 9'' @ [newline])], ''7'')"
proof -
  have "list_all name_char ''up''" "\<forall>(k, v)\<in>set [(''data_source'', ''a'' @ [dquote] @ ''} 9'' @ [newline])]. CHR ''='' \<notin> set k"
    "newline \<notin> set ''7''"
    by (simp_all add: name_char_def)
  from prometheus_sample_read [OF this] show ?thesis by (simp add: shown_char_def)
qed

section \<open>Histograms\<close>

lemma cumulated_length [simp]: "length (cumulated acc hs) = length hs"
  by (induction hs arbitrary: acc) auto

lemma cumulated_nth: "i < length hs \<Longrightarrow> cumulated acc hs ! i = acc + sum_list (take (Suc i) hs)"
proof (induction hs arbitrary: acc i)
  case (Cons h hs)
  then show ?case by (cases i) auto
qed simp

lemma sum_list_take_le: "sum_list (take i hs) \<le> sum_list (hs :: nat list)"
  by (metis append_take_drop_id le_add1 sum_list_append)

definition finite_buckets :: "slow_stats \<Rightarrow> nat list" where
  "finite_buckets s = take (length (sq_buckets s)) (cumulated 0 (sq_histogram s))"

lemma finite_buckets_sorted:
  assumes "stats_ok s"
  shows "length (finite_buckets s) = length (sq_buckets s)" "sorted (finite_buckets s @ [sq_count s])"
proof -
  have len: "length (sq_histogram s) = Suc (length (sq_buckets s))" "sum_list (sq_histogram s) = sq_count s"
    using assms by (simp_all add: stats_ok_def)
  then show l: "length (finite_buckets s) = length (sq_buckets s)" by (simp add: finite_buckets_def)
  have nth: "finite_buckets s ! i = sum_list (take (Suc i) (sq_histogram s))" if "i < length (sq_buckets s)" for i
    using that len by (simp add: finite_buckets_def cumulated_nth)
  have mono: "sum_list (take (Suc i) (sq_histogram s)) \<le> sum_list (take (Suc j) (sq_histogram s))" if "i \<le> j" for i j
  proof -
    have "take (Suc i) (take (Suc j) (sq_histogram s)) = take (Suc i) (sq_histogram s)" using that by simp
    then show ?thesis using sum_list_take_le [of "Suc i" "take (Suc j) (sq_histogram s)"] by simp
  qed
  have "finite_buckets s ! i \<le> sq_count s" if "i < length (sq_buckets s)" for i
    using nth [OF that] sum_list_take_le [of "Suc i" "sq_histogram s"] len by simp
  moreover have "sorted (finite_buckets s)" using nth mono l by (simp add: sorted_iff_nth_mono)
  ultimately show "sorted (finite_buckets s @ [sq_count s])" using l by (auto simp: sorted_append in_set_conv_nth)
qed

text \<open>The histogram of a slow statement is one: over consistent statistics the bucket samples count, each with
  those below it, the statements up to their bound; they never decrease, and the last one, the sample for
  infinity and the sample of the count are the number of statements.\<close>

theorem prometheus_histogram:
  assumes "stats_ok s"
  shows "map pl_value (filter (\<lambda>l. pl_name l = pre @ ''_slow_sql_duration_seconds_bucket'') (slow_lines env pre emitted s)) =
      map nat_to_string (finite_buckets s @ [sq_count s]) \<and>
    map pl_value (filter (\<lambda>l. pl_name l = pre @ ''_slow_sql_duration_seconds_count'') (slow_lines env pre emitted s)) =
      [nat_to_string (sq_count s)] \<and>
    length (finite_buckets s) = length (sq_buckets s) \<and> sorted (finite_buckets s @ [sq_count s]) \<and>
    (\<forall>i. i < length (sq_buckets s) \<longrightarrow> finite_buckets s ! i = sum_list (take (Suc i) (sq_histogram s)))"
proof -
  have len: "length (sq_histogram s) = Suc (length (sq_buckets s))" using assms by (simp add: stats_ok_def)
  have vals: "map pl_value (bucket_lines env name labels s) = map nat_to_string (finite_buckets s)" for name labels
    using len by (auto simp: bucket_lines_def finite_buckets_def list_eq_iff_nth_eq)
  have names: "filter (\<lambda>l. pl_name l = n) (bucket_lines env name labels s) =
      (if n = name then bucket_lines env name labels s else [])" for n name labels
    by (auto simp: bucket_lines_def filter_map comp_def case_prod_beta filter_empty_conv)
  have "\<forall>i. i < length (sq_buckets s) \<longrightarrow> finite_buckets s ! i = sum_list (take (Suc i) (sq_histogram s))"
    using len by (simp add: finite_buckets_def cumulated_nth)
  then show ?thesis
    using finite_buckets_sorted [OF assms]
    by (cases emitted) (simp_all add: slow_lines_def Let_def family_head_def names vals)
qed

definition three_slow :: slow_stats where
  "three_slow = \<lparr>sq_fingerprint = 5, sq_dataSource = ''a'', sq_type = OpQuery, sq_template = ''SELECT ?'', sq_count = 3, sq_errors = 0,
     sq_timeouts = 0, sq_total = 60, sq_min = 10, sq_max = 30, sq_first = 0, sq_last = 9, sq_buckets = [10, 100],
     sq_histogram = [1, 2, 0]\<rparr>"

theorem prometheus_histogram_witness:
  "map pl_value (filter (\<lambda>l. pl_name l = ''x_slow_sql_duration_seconds_bucket'') (slow_lines env ''x'' False three_slow)) =
     [''1'', ''3'', ''3'']"
proof -
  have "stats_ok three_slow" by (simp add: stats_ok_def three_slow_def)
  moreover have "map nat_to_string (finite_buckets three_slow @ [sq_count three_slow]) = [''1'', ''3'', ''3'']" by code_simp
  ultimately show ?thesis using prometheus_histogram [of three_slow "''x''" env False] by simp
qed

text \<open>The statistics an observer reports are consistent in every state it can reach.\<close>

lemma reported_stats_ok:
  assumes "reachable obs_init obs_step s" and "e \<in> set (slowSqlStats limit src s)"
  shows "stats_ok e"
proof -
  have "obs_inv s" by (rule slow_sql.reachable_inv [OF assms(1)])
  moreover have "e \<in> set (map snd (slowStats s))"
    using set_take_subset [of limit] assms(2) by (fastforce simp: slowSqlStats_def)
  ultimately show ?thesis by (auto simp: obs_inv_def table_ok_def)
qed

section \<open>Strings of the JSON report\<close>

fun hex_val :: "char \<Rightarrow> nat" where
  "hex_val c = (if is_digit c then char_code c - 48 else char_code c - 87)"

fun read_json_string :: "string \<Rightarrow> (string \<times> string) option" where
  "read_json_string [] = None"
| "read_json_string (c # cs) =
     (if c = dquote then Some ([], cs)
      else if c \<noteq> backslash then map_option (apfst ((#) c)) (read_json_string cs)
      else case cs of
        [] \<Rightarrow> None
      | e # es \<Rightarrow>
          if e = dquote \<or> e = backslash then map_option (apfst ((#) e)) (read_json_string es)
          else if e = CHR ''n'' then map_option (apfst ((#) newline)) (read_json_string es)
          else if e = CHR ''r'' then map_option (apfst ((#) (char_of (13 :: nat)))) (read_json_string es)
          else if e = CHR ''t'' then map_option (apfst ((#) (char_of (9 :: nat)))) (read_json_string es)
          else if e = CHR ''u'' then
            (case es of
               z1 # z2 # h # l # rest \<Rightarrow>
                 map_option (apfst ((#) (char_of (16 * hex_val h + hex_val l)))) (read_json_string rest)
             | _ \<Rightarrow> None)
          else None)"

lemma hex_val_digit: "n < 16 \<Longrightarrow> hex_val (''0123456789abcdef'' ! n) = n"
proof -
  have "\<forall>n\<in>set [0..<16]. hex_val (''0123456789abcdef'' ! n) = n" by code_simp
  then show "n < 16 \<Longrightarrow> hex_val (''0123456789abcdef'' ! n) = n" by simp
qed

declare hex_val.simps [simp del]

lemma escape_json_read:
  "read_json_string (escape_json_char c @ rest) = map_option (apfst ((#) c)) (read_json_string rest)"
proof -
  consider "c = dquote" | "c = backslash" | "c = newline" | "char_code c = 13" | "char_code c = 9"
    | "char_code c < 32" "char_code c \<noteq> 13" "char_code c \<noteq> 9" "c \<noteq> newline" "c \<noteq> backslash" "c \<noteq> dquote"
    | "\<not> char_code c < 32" "c \<noteq> backslash" "c \<noteq> dquote" "c \<noteq> newline"
    by blast
  then show ?thesis
  proof cases
    case 4
    then have "c = char_of (13 :: nat)" by (metis char_of_char)
    then show ?thesis by (simp add: escape_json_char_def)
  next
    case 5
    then have "c = char_of (9 :: nat)" by (metis char_of_char)
    then show ?thesis by (simp add: escape_json_char_def)
  next
    case 6
    then have "char_of (16 * (char_code c div 16) + char_code c mod 16) = c" by simp
    with 6 show ?thesis by (simp add: escape_json_char_def hex4_def Let_def hex_val_digit)
  qed (simp_all add: escape_json_char_def)
qed

text \<open>A string of the JSON report is read back as it was, and the reader stops at its closing quote.\<close>

lemma escapeJson_read: "read_json_string (escapeJson s @ dquote # rest) = Some (s, rest)"
proof (induction s)
  case (Cons c s)
  have "escapeJson (c # s) @ dquote # rest = escape_json_char c @ escapeJson s @ dquote # rest"
    by (simp add: escapeJson_def)
  then show ?case using Cons by (simp add: escape_json_read)
qed (simp add: escapeJson_def)

section \<open>Where the code departs from the format\<close>

text \<open>With two pools the samples of a family do not stand together: between those of the first family there are
  samples of all the others.\<close>

lemma prometheus_not_grouped:
  "let names = map pl_name (prometheus_lines env [(a, s), (b, t)] [] pre 0)
   in names ! 2 = pre @ ''_pool_connections'' \<and> names ! 5 = pre @ ''_pool_connections_max'' \<and> names ! 60 = pre @ ''_pool_connections''"
  by (simp add: prometheus_lines_def pool_lines_def pool_families_def family_head_def)

end
