(* ===== verification/Periodic.thy ===== *)
theory Periodic
  imports Reports
begin

text \<open>
  The two periodic threads: the heartbeat of \<open>core/heartbeat_manager.cpp\<close>, which checks the health of the pools, and
  the thread of \<open>core/stats_reporter.cpp\<close>, which writes the reports. A pool is named by a number; \<open>alive\<close> are
  those that somebody still owns, as the weak pointers of the heartbeat see it. Waiting on a condition
  variable is two steps, looking at the condition and falling asleep, so that a notification between them is
  modelled; a mutex that spans both is a guard of the steps of others. The health check is that of the pool
  and is recorded here as an event.
\<close>

section \<open>Heartbeat\<close>

datatype hb_thread =
  HTop
| HChecked
| HAsleep
| HWoken
| HCollect
| HCheck "nat list"
| HSweep
| HEnded

record heartbeat =
  hb_pools :: "nat list"
  hb_running :: bool
  hb_stopFlag :: bool
  hb_thread :: "hb_thread option"
  hb_joining :: bool
  hb_alive :: "nat set"
  hb_checks :: "nat list"

definition new_heartbeat :: "nat set \<Rightarrow> heartbeat" where
  "new_heartbeat alive = \<lparr>hb_pools = [], hb_running = False, hb_stopFlag = False, hb_thread = None, hb_joining = False,
     hb_alive = alive, hb_checks = []\<rparr>"

definition addPool :: "nat \<Rightarrow> heartbeat \<Rightarrow> heartbeat" where
  "addPool p s = s\<lparr>hb_pools := hb_pools s @ [p]\<rparr>"

definition hb_start :: "heartbeat \<Rightarrow> heartbeat" where
  "hb_start s = (if hb_running s then s else s\<lparr>hb_running := True, hb_stopFlag := False, hb_thread := Some HTop\<rparr>)"

text \<open>The flag is set and the sleeper notified without the mutex of the condition: a thread that has looked at
  the flag and is not asleep yet misses the notification.\<close>

definition hb_stop :: "heartbeat \<Rightarrow> heartbeat" where
  "hb_stop s =
     (if \<not> hb_running s then s
      else s\<lparr>hb_running := False, hb_stopFlag := True,
             hb_thread := map_option (\<lambda>t. if t = HAsleep then HWoken else t) (hb_thread s), hb_joining := hb_thread s \<noteq> None\<rparr>)"

definition hb_joined :: "heartbeat \<Rightarrow> heartbeat" where
  "hb_joined s = s\<lparr>hb_thread := None, hb_joining := False\<rparr>"

definition sweepExpiredPools :: "heartbeat \<Rightarrow> heartbeat" where
  "sweepExpiredPools s = s\<lparr>hb_pools := filter (\<lambda>p. p \<in> hb_alive s) (hb_pools s)\<rparr>"

text \<open>The next step of the loop.\<close>

fun hb_turn :: "hb_thread \<Rightarrow> heartbeat \<Rightarrow> hb_thread \<times> heartbeat" where
  "hb_turn HTop s = (if hb_stopFlag s then HEnded else HChecked, s)"
| "hb_turn HChecked s = (HAsleep, s)"
| "hb_turn HAsleep s = (if hb_stopFlag s then HEnded else HCollect, s)"
| "hb_turn HWoken s = (if hb_stopFlag s then HEnded else HChecked, s)"
| "hb_turn HCollect s = (HCheck (filter (\<lambda>p. p \<in> hb_alive s) (hb_pools s)), s)"
| "hb_turn (HCheck []) s = (HSweep, s)"
| "hb_turn (HCheck (p # ps)) s =
     (if hb_stopFlag s then (HSweep, s) else (HCheck ps, s\<lparr>hb_checks := hb_checks s @ [p]\<rparr>))"
| "hb_turn HSweep s = (HTop, sweepExpiredPools s)"
| "hb_turn HEnded s = (HEnded, s)"

definition hb_move :: "hb_thread \<Rightarrow> heartbeat \<Rightarrow> heartbeat" where
  "hb_move t s = (case hb_turn t s of (t', s') \<Rightarrow> s'\<lparr>hb_thread := Some t'\<rparr>)"

text \<open>Calls of \<open>start\<close> and \<open>stop\<close> come from one thread, the manager's, and \<open>stop\<close> returns when the thread has been
  joined. Owners of pools come and go.\<close>

inductive hb_step :: "heartbeat \<Rightarrow> heartbeat \<Rightarrow> bool" where
  hb_add: "hb_step s (addPool p s)"
| hb_starts: "\<not> hb_joining s \<Longrightarrow> hb_step s (hb_start s)"
| hb_stops: "\<not> hb_joining s \<Longrightarrow> hb_step s (hb_stop s)"
| hb_joins: "hb_joining s \<Longrightarrow> hb_thread s = Some HEnded \<Longrightarrow> hb_step s (hb_joined s)"
| hb_turns: "hb_thread s = Some t \<Longrightarrow> t \<noteq> HEnded \<Longrightarrow> hb_step s (hb_move t s)"
| hb_owner: "hb_step s (s\<lparr>hb_alive := A\<rparr>)"

inductive_cases hb_stepE: "hb_step s t"

definition hb_init :: "heartbeat \<Rightarrow> bool" where
  "hb_init s \<longleftrightarrow> (\<exists>A. s = new_heartbeat A)"

text \<open>The thread exists exactly while it runs or is being joined, and it ends only when it was told to.\<close>

definition hb_inv :: "heartbeat \<Rightarrow> bool" where
  "hb_inv s \<longleftrightarrow>
     (hb_thread s \<noteq> None \<longleftrightarrow> hb_running s \<or> hb_joining s) \<and> \<not> (hb_running s \<and> hb_joining s) \<and>
     (hb_running s \<longrightarrow> \<not> hb_stopFlag s) \<and> (hb_joining s \<longrightarrow> hb_stopFlag s) \<and>
     (hb_thread s = Some HEnded \<or> hb_thread s = Some HWoken \<longrightarrow> hb_joining s)"

lemma hb_turn_fields:
  "hb_running (snd (hb_turn t s)) = hb_running s" "hb_joining (snd (hb_turn t s)) = hb_joining s"
  "hb_stopFlag (snd (hb_turn t s)) = hb_stopFlag s"
  by (induction t s rule: hb_turn.induct) (simp_all add: sweepExpiredPools_def)

lemma hb_turn_ends: "fst (hb_turn t s) = HEnded \<Longrightarrow> t \<noteq> HEnded \<Longrightarrow> hb_stopFlag s" "fst (hb_turn t s) \<noteq> HWoken"
  by (induction t s rule: hb_turn.induct) (auto split: if_splits)

lemma hb_inv_step: "hb_inv s \<Longrightarrow> hb_step s t \<Longrightarrow> hb_inv t"
proof (erule hb_stepE, goal_cases)
  case (5 u)
  then have "hb_running s \<or> hb_joining s" by (auto simp: hb_inv_def)
  with 5 hb_turn_fields [of u s] hb_turn_ends [of u s] show ?case
    by (auto simp: hb_inv_def hb_move_def split: prod.splits)
qed (auto simp: hb_inv_def addPool_def hb_start_def hb_stop_def hb_joined_def split: if_splits)

interpretation beats: invariant_system hb_init hb_step hb_inv
proof unfold_locales
  show "hb_inv s" if "hb_init s" for s using that by (auto simp: hb_init_def hb_inv_def new_heartbeat_def)
qed (rule hb_inv_step)

text \<open>How many steps the thread still takes once it was told to stop.\<close>

fun hb_rank :: "hb_thread \<Rightarrow> nat" where
  "hb_rank HEnded = 0"
| "hb_rank HTop = 1"
| "hb_rank HAsleep = 1"
| "hb_rank HWoken = 1"
| "hb_rank HChecked = 2"
| "hb_rank HSweep = 2"
| "hb_rank (HCheck ps) = 3"
| "hb_rank HCollect = 4"

lemma hb_turn_rank: "hb_stopFlag s \<Longrightarrow> t \<noteq> HEnded \<Longrightarrow> hb_rank (fst (hb_turn t s)) < hb_rank t"
  by (induction t s rule: hb_turn.induct) auto

lemma hb_turn_checks: "hb_stopFlag s \<Longrightarrow> hb_checks (snd (hb_turn t s)) = hb_checks s"
  by (induction t s rule: hb_turn.induct) (auto simp: sweepExpiredPools_def)

text \<open>Stopping the heartbeat ends: in every reachable state in which a stop waits, the thread can make a step or
  the stop can return, every step of the thread comes closer to its end, which is at most four steps
  away, and none of them begins the health check of another pool.\<close>

theorem heartbeat_stops:
  assumes "reachable hb_init hb_step s" and "hb_joining s"
  shows "\<exists>t. hb_thread s = Some t \<and> hb_rank t \<le> 4 \<and>
    (if t = HEnded then hb_step s (hb_joined s)
     else hb_step s (hb_move t s) \<and> hb_joining (hb_move t s) \<and> hb_checks (hb_move t s) = hb_checks s \<and>
       (\<exists>t'. hb_thread (hb_move t s) = Some t' \<and> hb_rank t' < hb_rank t))"
proof -
  have inv: "hb_inv s" by (rule beats.reachable_inv [OF assms(1)])
  then obtain t where t: "hb_thread s = Some t" and flag: "hb_stopFlag s" using assms(2) by (auto simp: hb_inv_def)
  have "hb_rank t \<le> 4" by (cases t) auto
  moreover have "hb_step s (hb_joined s)" if "t = HEnded" using assms(2) t that by (auto intro: hb_joins)
  moreover have "hb_step s (hb_move t s)" if "t \<noteq> HEnded" using t that by (rule hb_turns)
  ultimately show ?thesis
    using t assms(2) hb_turn_fields [of t s] hb_turn_rank [OF flag, of t] hb_turn_checks [OF flag, of t]
    by (auto simp: hb_move_def split: prod.splits)
qed

definition asleep_heartbeat :: heartbeat where
  "asleep_heartbeat = hb_move HChecked (hb_stop (hb_move HTop (hb_start (new_heartbeat {}))))"

lemma asleep_reachable: "reachable hb_init hb_step asleep_heartbeat"
proof -
  let ?s0 = "new_heartbeat {}"
  have "reachable hb_init hb_step ?s0" by (rule reach_init) (auto simp: hb_init_def)
  then have "reachable hb_init hb_step (hb_start ?s0)"
    by (rule reach_step) (rule hb_starts, simp add: new_heartbeat_def)
  then have "reachable hb_init hb_step (hb_move HTop (hb_start ?s0))"
    by (rule reach_step) (rule hb_turns, simp_all add: new_heartbeat_def hb_start_def)
  then have "reachable hb_init hb_step (hb_stop (hb_move HTop (hb_start ?s0)))"
    by (rule reach_step) (rule hb_stops, simp add: new_heartbeat_def hb_start_def hb_move_def)
  then show ?thesis unfolding asleep_heartbeat_def
    by (rule reach_step) (rule hb_turns, simp_all add: new_heartbeat_def hb_start_def hb_move_def hb_stop_def)
qed

lemma asleep_fields: "hb_joining asleep_heartbeat" "hb_thread asleep_heartbeat = Some HAsleep" "hb_stopFlag asleep_heartbeat"
  by (simp_all add: asleep_heartbeat_def new_heartbeat_def hb_start_def hb_move_def hb_stop_def)

theorem heartbeat_stops_witness:
  "hb_joining asleep_heartbeat \<and> hb_thread (hb_move HAsleep asleep_heartbeat) = Some HEnded"
proof -
  have "\<exists>t'. hb_thread (hb_move HAsleep asleep_heartbeat) = Some t' \<and> hb_rank t' < hb_rank HAsleep"
    using heartbeat_stops [OF asleep_reachable asleep_fields(1)] asleep_fields by auto
  then have "hb_thread (hb_move HAsleep asleep_heartbeat) = Some HEnded"
    using asleep_fields by (simp add: hb_move_def)
  then show ?thesis using asleep_fields(1) by simp
qed

text \<open>The notification of a stop can be missed: the thread is asleep although the flag is set, and only the end of
  the interval wakes it. Until then the stop waits.\<close>

lemma stop_missed:
  "reachable hb_init hb_step asleep_heartbeat \<and> hb_joining asleep_heartbeat \<and> hb_stopFlag asleep_heartbeat \<and>
   hb_thread asleep_heartbeat = Some HAsleep"
  using asleep_reachable asleep_fields by simp

text \<open>A round without a stop checks every registered pool that somebody owned when it began, in order.\<close>

fun hb_round :: "nat \<Rightarrow> hb_thread \<Rightarrow> heartbeat \<Rightarrow> hb_thread \<times> heartbeat" where
  "hb_round 0 t s = (t, s)"
| "hb_round (Suc n) t s = (case hb_turn t s of (t', s') \<Rightarrow> hb_round n t' s')"

lemma hb_checks_all:
  "\<not> hb_stopFlag s \<Longrightarrow>
   hb_round (Suc (length ps)) (HCheck ps) s = (HSweep, s\<lparr>hb_checks := hb_checks s @ ps\<rparr>)"
  by (induction ps arbitrary: s) auto

section \<open>Reporter\<close>

text \<open>The thread holds the mutex from looking at \<open>running_\<close> until it sleeps, so these are one step, and \<open>stop\<close>, which
  changes it under the same mutex, cannot come between them.\<close>

datatype rep_thread = RTop | RAsleep | RWoken | RWrite | REnded

record reporter =
  rp_running :: bool
  rp_cfg :: stats_report_config
  rp_thread :: "rep_thread option"
  rp_joining :: bool
  rp_written :: "report_out list"

definition new_reporter :: "stats_report_config \<Rightarrow> reporter" where
  "new_reporter c = \<lparr>rp_running = False, rp_cfg = c, rp_thread = None, rp_joining = False, rp_written = []\<rparr>"

text \<open>The second half of \<open>start\<close>, after the \<open>stop\<close> it begins with.\<close>

definition rep_start :: "stats_report_config \<Rightarrow> reporter \<Rightarrow> reporter" where
  "rep_start c s =
     (if \<not> sr_enabled c then s else s\<lparr>rp_cfg := c, rp_running := True, rp_thread := Some RTop\<rparr>)"

definition rep_stop :: "reporter \<Rightarrow> reporter" where
  "rep_stop s =
     (if \<not> rp_running s then s
      else s\<lparr>rp_running := False, rp_thread := map_option (\<lambda>t. if t = RAsleep then RWoken else t) (rp_thread s),
             rp_joining := rp_thread s \<noteq> None\<rparr>)"

definition rep_joined :: "reporter \<Rightarrow> reporter" where
  "rep_joined s = s\<lparr>rp_thread := None, rp_joining := False\<rparr>"

text \<open>The next step of \<open>run\<close>; \<open>out\<close> is what \<open>writeOnce\<close> wrote, nothing when it threw.\<close>

fun rep_turn :: "report_out option \<Rightarrow> rep_thread \<Rightarrow> reporter \<Rightarrow> rep_thread \<times> reporter" where
  "rep_turn out RTop s = (if rp_running s then RAsleep else REnded, s)"
| "rep_turn out RAsleep s = (if rp_running s then RWrite else REnded, s)"
| "rep_turn out RWoken s = (if rp_running s then RAsleep else REnded, s)"
| "rep_turn out RWrite s = (RTop, s\<lparr>rp_written := rp_written s @ (case out of None \<Rightarrow> [] | Some x \<Rightarrow> [x])\<rparr>)"
| "rep_turn out REnded s = (REnded, s)"

definition rep_move :: "report_out option \<Rightarrow> rep_thread \<Rightarrow> reporter \<Rightarrow> reporter" where
  "rep_move out t s = (case rep_turn out t s of (t', s') \<Rightarrow> s'\<lparr>rp_thread := Some t'\<rparr>)"

inductive rep_step :: "reporter \<Rightarrow> reporter \<Rightarrow> bool" where
  rep_starts: "\<not> rp_joining s \<Longrightarrow> \<not> rp_running s \<Longrightarrow> rep_step s (rep_start c s)"
| rep_stops: "\<not> rp_joining s \<Longrightarrow> rep_step s (rep_stop s)"
| rep_joins: "rp_joining s \<Longrightarrow> rp_thread s = Some REnded \<Longrightarrow> rep_step s (rep_joined s)"
| rep_turns: "rp_thread s = Some t \<Longrightarrow> t \<noteq> REnded \<Longrightarrow> rep_step s (rep_move out t s)"

inductive_cases rep_stepE: "rep_step s t"

definition rep_init :: "reporter \<Rightarrow> bool" where
  "rep_init s \<longleftrightarrow> (\<exists>c. s = new_reporter c)"

definition rep_inv :: "reporter \<Rightarrow> bool" where
  "rep_inv s \<longleftrightarrow>
     (rp_thread s \<noteq> None \<longleftrightarrow> rp_running s \<or> rp_joining s) \<and> \<not> (rp_running s \<and> rp_joining s) \<and>
     (rp_thread s = Some REnded \<or> rp_thread s = Some RWoken \<longrightarrow> rp_joining s) \<and>
     (rp_thread s = Some RAsleep \<longrightarrow> rp_running s) \<and> (rp_running s \<longrightarrow> sr_enabled (rp_cfg s))"

lemma rep_inv_move: "rep_inv s \<Longrightarrow> rp_thread s = Some t \<Longrightarrow> t \<noteq> REnded \<Longrightarrow> rep_inv (rep_move out t s)"
  by (cases t) (auto simp: rep_inv_def rep_move_def)

lemma rep_inv_step: "rep_inv s \<Longrightarrow> rep_step s t \<Longrightarrow> rep_inv t"
proof (erule rep_stepE, goal_cases)
  case (4 u out)
  then show ?case by (simp add: rep_inv_move)
qed (auto simp: rep_inv_def rep_start_def rep_stop_def rep_joined_def split: if_splits)

interpretation reports: invariant_system rep_init rep_step rep_inv
proof unfold_locales
  show "rep_inv s" if "rep_init s" for s using that by (auto simp: rep_init_def rep_inv_def new_reporter_def)
qed (rule rep_inv_step)

text \<open>A stop of the reporter never waits for the interval: its thread is not asleep, so it is writing its last
  report or about to end; and reports are written only by a reporter that was enabled.\<close>

lemma reporter_stop_prompt:
  assumes "reachable rep_init rep_step s" and "rp_joining s"
  shows "\<exists>t. rp_thread s = Some t \<and> t \<in> {RWrite, RTop, RWoken, REnded} \<and>
    (t \<noteq> REnded \<longrightarrow> rp_thread (rep_move out t s) \<in> {Some RTop, Some REnded} \<and> rep_step s (rep_move out t s)) \<and>
    (t = REnded \<longrightarrow> rep_step s (rep_joined s))"
proof -
  have inv: "rep_inv s" by (rule reports.reachable_inv [OF assms(1)])
  then obtain t where t: "rp_thread s = Some t" "\<not> rp_running s" using assms(2) by (auto simp: rep_inv_def)
  moreover have "t \<noteq> RAsleep" using inv t by (auto simp: rep_inv_def)
  moreover have "rep_step s (rep_move out t s)" if "t \<noteq> REnded" using t(1) that by (rule rep_turns)
  moreover have "rp_thread (rep_move out t s) \<in> {Some RTop, Some REnded}" if "t \<noteq> RAsleep"
    using t that by (cases t) (auto simp: rep_move_def)
  moreover have "rep_step s (rep_joined s)" if "t = REnded" using assms(2) t that by (auto intro: rep_joins)
  ultimately show ?thesis by (cases t) auto
qed

end
