(* ===== verification/Spec2Isabelle.thy ===== *)
theory Spec2Isabelle
  imports Timestamp PgTypes Connection PoolProps Session Interceptor GroupOps RegistryProps ConfigProps OracleProps ClientProps
    ObserverProps UtilProps UtilCallProps EntityMappingProps SourceInfo ReportsProps Periodic
begin

text \<open>
  \<^bold>\<open>SqlConduit\<close>: a C++ library between applications and SQL databases. An application asks the
  manager for a data source or a group of data sources by name and sends statements, sessions and
  transactions through it; the library audits and rate-limits them, routes reads to replicas and
  writes to primaries, retries and fails over, caches results, and keeps pools of connections.

  \<^bold>\<open>The parts and how they interact.\<close> A call on a \<open>DataSource\<close> passes the gate
  (\<open>DataSource::preGate\<close>: auditor, then rate limiter) and the interceptors, then reads are routed
  (\<open>readTarget\<close>) and writes dispatched (\<open>dispatchWrite\<close>); the member chosen looks into the query
  cache (reads), asks its circuit breaker, borrows a connection from its pool, runs the statement
  through a \<open>Session\<close>, tells the breaker, and after a write drops cached results. Writes that no
  primary takes may go to the write buffer of the group. The manager (\<open>DatabaseManager\<close>) builds and
  changes the set of data sources and groups from a configuration that is read as YAML or JSON.

  \<^bold>\<open>The theories.\<close>
  \<^item> \<open>Prelude\<close>: byte strings, C character classes, numbers as text, and the locale
    \<open>invariant_system\<close> (an initial predicate, a step relation and a predicate they keep), which the
    pool, the executor, the circuit breaker, the write buffer, sessions, the registry, the client, the
    statistics of slow statements and the periodic threads interpret.
  \<^item> \<open>Types\<close> and \<open>Timestamp\<close> (\<open>common/types.h\<close>, \<open>common/types.cpp\<close>): values, rows, statuses, error
    classes of SQLSTATE, literals, timestamps. The day count is the Gregorian calendar.
  \<^item> \<open>PgTypes\<close> and \<open>PgGeometry\<close> (\<open>common/pg_types.cpp\<close>): array and composite literals, the texts of shapes,
    and their round trips.
  \<^item> \<open>Scan\<close> and \<open>SqlAnalyze\<close> (\<open>common/sql_analyze.cpp\<close>): the scanner for literals and comments, the
    mask, verbs and statement kinds, the multi-statement check, templates and fingerprints. What
    is inside a literal has no influence; a \<open>WITH\<close> that writes is a write.
  \<^item> \<open>Connection\<close> (\<open>core/idatabase_connection.cpp\<close>): interpolation of parameters and the default
    operations over a driver; batches are all or nothing.
  \<^item> \<open>CacheKey\<close> and \<open>QueryCache\<close> (\<open>core/query_cache.cpp\<close>, \<open>cacheKey\<close>): keys are injective, a hit is
    the last live result, the cache stays in its limits; its contract is the locale \<open>result_cache\<close>.
  \<^item> \<open>Pool\<close>, \<open>PoolSystem\<close> and \<open>PoolProps\<close> (\<open>core/connection_pool.cpp\<close>): each critical section of the
    pool is one function on its state; \<open>pool_step\<close> interleaves them with the threads that are
    between two of them. Capacity, exclusive lending, single delivery.
  \<^item> \<open>Context\<close> (\<open>common/context.cpp\<close>) and \<open>Interceptor\<close> (\<open>core/interceptor.cpp\<close>): the thread's
    request contexts and trace headers; the chain runs once per request however calls nest.
  \<^item> \<open>DataSource\<close> and \<open>GroupOps\<close> (\<open>core/database_manager.cpp\<close>, class \<open>DataSource\<close>): breaker, retry,
    routing, dispatch, fallback and buffering. Writes are sent at most once, attempts are bounded.
  \<^item> \<open>WriteBuffer\<close> (\<open>core/write_buffer.cpp\<close>): the queue and its worker, interleaved with callers.
  \<^item> \<open>Gate\<close> (\<open>core/sql_auditor.cpp\<close>, \<open>core/rate_limiter.h\<close>, \<open>preGate\<close>): audit rules, token buckets.
  \<^item> \<open>Session\<close> (\<open>core/database_manager.cpp\<close>, class \<open>Session\<close>, \<open>withSessionInternal\<close>,
    \<open>transactionInternal\<close>): statements and transactions with exceptions and deadlines.
  \<^item> \<open>Registry\<close> and \<open>RegistryProps\<close> (\<open>core/database_manager.cpp\<close>, class \<open>DatabaseManager\<close>): building,
    changing and shutting down the set of data sources and groups; no dangling references.
  \<^item> \<open>Yaml\<close> (\<open>config/yaml_parser.cpp\<close>): the YAML reader; it is total and reads back what is written.
  \<^item> \<open>Config\<close>, \<open>ConfigLoader\<close> and \<open>ConfigProps\<close> (\<open>config/config_loader.cpp\<close>): every section of the
    configuration, its defaults and its errors; what is loaded is well formed, and which loaded
    configurations the manager can build.
  \<^item> \<open>OracleTypes\<close> and \<open>OracleProps\<close> (\<open>common/oracle_types.cpp\<close>): types, texts, binds, error codes, the
    connect descriptor and the \<open>RETURNING\<close> clause. No option changes the structure of the
    descriptor, the clause and the session's time stamps are read back.
  \<^item> \<open>Executor\<close> (\<open>async/executor.cpp\<close>): the thread pool, its queue, its timer and its shutdown as
    critical sections that callers, workers and the timer interleave. No task is lost or run twice,
    delayed tasks are not early, a shutdown ends and has run everything that was accepted.
  \<^item> \<open>Client\<close> and \<open>ClientProps\<close> (\<open>client.cpp\<close>): the life cycle and every call of the facade, over the
    registry and the executor. An asynchronous call does what the synchronous one does.
  \<^item> \<open>Observer\<close> and \<open>ObserverProps\<close> (\<open>common/observer.cpp\<close>): observers, settings and their snapshots, log
    lines, statistics of slow statements. The statistics are bounded and consistent, the most recently
    used entries are kept, and a snapshot in use is current.
  \<^item> \<open>UtilSql\<close>, \<open>UtilScript\<close>, \<open>UtilProps\<close> and \<open>UtilCallProps\<close> (\<open>sqlconduit/util.h\<close>): statements for stored
    routines and indexes in each dialect, their execution, and scripts. A quoted name is one name, a
    plan of a call binds its placeholders, scripts of closed statements are cut into these statements and
    run in order up to the first failure.
  \<^item> \<open>EntityMapping\<close> and \<open>EntityMappingProps\<close> (\<open>sqlconduit/mapping.h\<close>): members and values, rows and
    entities, the statements of an entity and its generated keys. Entities are read back as they were
    written, members keep their types, and statements name the columns of their parameters.
  \<^item> \<open>SourceInfo\<close> (\<open>config/datasource_config.cpp\<close>, \<open>driver/driver_registry.cpp\<close>): descriptions, secrets and the
    table of drivers. No password survives the redaction of a message.
  \<^item> \<open>Reports\<close> and \<open>ReportsProps\<close> (\<open>exporters/prometheus.cpp\<close>, \<open>core/stats_reporter.cpp\<close>): statistics of pools and
    slow statements as Prometheus text, as text and as JSON. Samples and strings are read back whatever names
    hold; histograms are cumulative.
  \<^item> \<open>Periodic\<close> (\<open>core/heartbeat_manager.cpp\<close>, \<open>core/stats_reporter.cpp\<close>): the two periodic threads and how they are
    stopped.

  \<^bold>\<open>Conventions.\<close> State is passed explicitly; an operation returns its status, its results and the new
  state. Clocks are inputs: a time is an integer (a real number in the rate limiter, whose
  floating-point arithmetic is exact here), and each reading of a clock is its own argument. What
  drivers and servers do is a parameter (\<open>conn_ops\<close>, \<open>sess_ops\<close>, \<open>attempt_env\<close>), with the assumptions
  on it stated where they are used; \<open>json::parse\<close> of the JSON library is a parameter of the reader.
  Threads are steps of an inductive relation, one per critical section. Hash tables are
  association lists whose order stands for the unspecified iteration order.

  \<^bold>\<open>Fuel.\<close> Only the block parsers of \<open>Yaml\<close> carry fuel: the number of lines, which is enough since every
  nested block and every entry consumes a line (\<open>parseYaml_total\<close>). Retry loops recurse over the
  number of attempts, all other loops over their data.

  \<^bold>\<open>Not modelled.\<close> The drivers (calls into client libraries outside the repository), logging; the overloads
  for streamed parameters, stored procedures and several results, which repeat the shape of the
  modelled ones.

  \<^bold>\<open>What the model shows to be wrong.\<close> Several lemmas state behaviour that contradicts the
  documentation or the evident intent: waiters left in the queue of a pool with room
  (\<open>pool_strands_waiter\<close>) or dropped without an answer, a count that becomes negative after a
  shutdown, buffered writes dropped while the primary is down, connections returned with an open
  transaction, a half-open circuit that stays closed to everyone, configuration changes that
  survive a failed initialisation, elements of flow sequences that vanish, a double quote in a host
  name that swallows clauses of the descriptor, a pool of threads that is started after its shutdown,
  a reload that keeps the old executor, a truncated statement whose literal stays open, scripts whose
  procedure bodies are cut or whose statements are joined, and updates of entities with two key columns,
  whose condition is no condition, connection strings that stay in redacted messages, a stop of the heartbeat
  that is not heard, and samples of metrics that are not grouped.
\<close>

end
